(* ===== verification/Prelude.thy ===== *)
theory Prelude
  imports Main
begin

text \<open>
  Shared vocabulary of the development: JavaScript strings over Latin-1 code units, an effect
  type for asynchronous handlers (a state transformer that returns a value or throws), a weakest
  precondition calculus for it, and list lemmas the component theories use.

  Strings are HOL strings: a \<open>char\<close> is one UTF-16 code unit below 256. Code units above
  Latin-1 are not represented.
\<close>

named_theorems wp_simps "weakest precondition equations of the effect combinators"
named_theorems run_simps "what running an effect combinator from a state gives"

section \<open>JavaScript strings\<close>

definition code_unit :: "char \<Rightarrow> nat" where
  "code_unit c = of_char c"

definition js_space :: "char \<Rightarrow> bool" where
  "js_space c \<longleftrightarrow> of_char c \<in> {9::nat, 10, 11, 12, 13, 32, 160}"

definition line_terminator :: "char \<Rightarrow> bool" where
  "line_terminator c \<longleftrightarrow> of_char c \<in> {10::nat, 13}"

definition js_trim :: "string \<Rightarrow> string" where
  "js_trim s = rev (dropWhile js_space (rev (dropWhile js_space s)))"

definition upper_latin :: "char \<Rightarrow> bool" where
  "upper_latin c \<longleftrightarrow>
     (let n = (of_char c :: nat) in (65 \<le> n \<and> n \<le> 90) \<or> (192 \<le> n \<and> n \<le> 222 \<and> n \<noteq> 215))"

definition lower_char :: "char \<Rightarrow> char" where
  "lower_char c = (if upper_latin c then char_of ((of_char c :: nat) + 32) else c)"

definition to_lower_case :: "string \<Rightarrow> string" where
  "to_lower_case s = map lower_char s"

definition js_slice :: "nat \<Rightarrow> nat \<Rightarrow> string \<Rightarrow> string" where
  "js_slice i j s = take (j - i) (drop i s)"

fun starts_with :: "string \<Rightarrow> string \<Rightarrow> bool" where
  "starts_with [] s = True"
| "starts_with (p # ps) [] = False"
| "starts_with (p # ps) (c # s) = (p = c \<and> starts_with ps s)"

fun js_includes :: "string \<Rightarrow> string \<Rightarrow> bool" where
  "js_includes p [] = (p = [])"
| "js_includes p (c # s) = (starts_with p (c # s) \<or> js_includes p s)"

fun split_on :: "char \<Rightarrow> string \<Rightarrow> string list" where
  "split_on d [] = [[]]"
| "split_on d (c # s) =
     (if c = d then [] # split_on d s
      else case split_on d s of [] \<Rightarrow> [[c]] | w # ws \<Rightarrow> (c # w) # ws)"

text \<open>Code unit order, as JavaScript's relational operators compare two strings.\<close>

fun js_less :: "string \<Rightarrow> string \<Rightarrow> bool" where
  "js_less xs [] = False"
| "js_less [] (y # ys) = True"
| "js_less (x # xs) (y # ys) =
     ((of_char x :: nat) < of_char y \<or> (x = y \<and> js_less xs ys))"

lemma js_trim_no_space: "(\<forall>c \<in> set s. \<not> js_space c) \<Longrightarrow> js_trim s = s"
  by (simp add: js_trim_def dropWhile_eq_self_iff) (metis hd_in_set hd_rev last_in_set
      dropWhile_eq_self_iff rev_is_Nil_conv rev_rev_ident)

lemma starts_with_iff: "starts_with p s \<longleftrightarrow> (\<exists>t. s = p @ t)"
  by (induction p s rule: starts_with.induct) auto

lemma js_includes_iff: "js_includes p s \<longleftrightarrow> (\<exists>u v. s = u @ p @ v)"
proof (induction p s rule: js_includes.induct)
  case (1 p)
  then show ?case by auto
next
  case (2 p c s)
  show ?case
  proof
    assume "js_includes p (c # s)"
    then consider "starts_with p (c # s)" | "js_includes p s" by auto
    then show "\<exists>u v. c # s = u @ p @ v"
    proof cases
      case 1
      then obtain t where "c # s = [] @ p @ t" by (auto simp: starts_with_iff)
      then show ?thesis by blast
    next
      case 2
      with "2.IH" obtain u v where "c # s = (c # u) @ p @ v" by auto
      then show ?thesis by blast
    qed
  next
    assume "\<exists>u v. c # s = u @ p @ v"
    then obtain u v where e: "c # s = u @ p @ v" by blast
    show "js_includes p (c # s)"
    proof (cases u)
      case Nil
      with e have "starts_with p (c # s)" by (simp add: starts_with_iff)
      then show ?thesis by simp
    next
      case (Cons d u')
      with e have "s = u' @ p @ v" by simp
      with "2.IH" show ?thesis by auto
    qed
  qed
qed

lemma js_includes_appendI1: "js_includes p s \<Longrightarrow> js_includes p (s @ t)"
  by (metis append.assoc js_includes_iff)

lemma js_includes_appendI2: "js_includes p t \<Longrightarrow> js_includes p (s @ t)"
  by (metis append.assoc js_includes_iff)

lemma split_on_nonempty: "split_on d s \<noteq> []"
  by (induction s) (auto split: list.splits)

lemma js_less_irrefl: "\<not> js_less s s"
  by (induction s) auto

lemma js_less_trans: "js_less a b \<Longrightarrow> js_less b c \<Longrightarrow> js_less a c"
proof (induction a b arbitrary: c rule: js_less.induct)
  case (3 x xs y ys)
  then show ?case by (cases c) auto
next
  case (2 y ys)
  then show ?case by (cases c) auto
qed simp

lemma js_less_linear: "js_less a b \<or> a = b \<or> js_less b a"
proof (induction a b rule: js_less.induct)
  case (1 xs)
  then show ?case by (cases xs) auto
next
  case (3 x xs y ys)
  have "(of_char x :: nat) = of_char y \<longleftrightarrow> x = y"
    by (metis char_of_char)
  with 3 show ?case by (auto simp: neq_iff)
qed simp

lemma js_less_asym: "js_less a b \<Longrightarrow> \<not> js_less b a"
  using js_less_irrefl js_less_trans by blast

lemma eq_char_of_iff: "c = char_of (n :: nat) \<longleftrightarrow> of_char c = take_bit 8 n"
  using char_of_eq_iff [of n c] by auto

lemmas lower_case_eval =
  to_lower_case_def lower_char_def upper_latin_def Let_def char_of_eq_iff eq_char_of_iff

lemma length_to_lower_case [simp]: "length (to_lower_case s) = length s"
  by (simp add: to_lower_case_def)

lemma to_lower_case_append [simp]: "to_lower_case (s @ t) = to_lower_case s @ to_lower_case t"
  by (simp add: to_lower_case_def)

section \<open>Effects: state transformers that return or throw\<close>

type_synonym ('e, 's, 'a) eff = "'s \<Rightarrow> ('e + 'a) \<times> 's"

definition returnM :: "'a \<Rightarrow> ('e, 's, 'a) eff" where
  "returnM x = (\<lambda>s. (Inr x, s))"

definition throwM :: "'e \<Rightarrow> ('e, 's, 'a) eff" where
  "throwM e = (\<lambda>s. (Inl e, s))"

definition bindM :: "('e, 's, 'a) eff \<Rightarrow> ('a \<Rightarrow> ('e, 's, 'b) eff) \<Rightarrow> ('e, 's, 'b) eff" where
  "bindM m f = (\<lambda>s. case m s of (Inl e, t) \<Rightarrow> (Inl e, t) | (Inr x, t) \<Rightarrow> f x t)"

definition thenM :: "('e, 's, 'a) eff \<Rightarrow> ('e, 's, 'b) eff \<Rightarrow> ('e, 's, 'b) eff" where
  "thenM m k = bindM m (\<lambda>_. k)"

definition catchM :: "('e, 's, 'a) eff \<Rightarrow> ('e \<Rightarrow> ('e, 's, 'a) eff) \<Rightarrow> ('e, 's, 'a) eff" where
  "catchM m h = (\<lambda>s. case m s of (Inl e, t) \<Rightarrow> h e t | (Inr x, t) \<Rightarrow> (Inr x, t))"

definition getsM :: "('s \<Rightarrow> 'a) \<Rightarrow> ('e, 's, 'a) eff" where
  "getsM f = (\<lambda>s. (Inr (f s), s))"

definition modifyM :: "('s \<Rightarrow> 's) \<Rightarrow> ('e, 's, unit) eff" where
  "modifyM f = (\<lambda>s. (Inr (), f s))"

fun forM :: "'a list \<Rightarrow> ('a \<Rightarrow> ('e, 's, unit) eff) \<Rightarrow> ('e, 's, unit) eff" where
  "forM [] f = returnM ()"
| "forM (x # xs) f = bindM (f x) (\<lambda>_. forM xs f)"

text \<open>Weakest preconditions: \<open>Q\<close> holds of the outcome and the final state.\<close>

definition wp :: "('e, 's, 'a) eff \<Rightarrow> ('e + 'a \<Rightarrow> 's \<Rightarrow> bool) \<Rightarrow> 's \<Rightarrow> bool" where
  "wp m Q s = (case m s of (r, t) \<Rightarrow> Q r t)"

lemma wp_returnM [wp_simps]: "wp (returnM x) Q s = Q (Inr x) s"
  by (simp add: wp_def returnM_def)

lemma wp_throwM [wp_simps]: "wp (throwM e) Q s = Q (Inl e) s"
  by (simp add: wp_def throwM_def)

lemma wp_bindM [wp_simps]:
  "wp (bindM m f) Q s =
     wp m (\<lambda>r t. case r of Inl e \<Rightarrow> Q (Inl e) t | Inr x \<Rightarrow> wp (f x) Q t) s"
  by (simp add: wp_def bindM_def split: prod.splits sum.splits)

lemma wp_thenM [wp_simps]:
  "wp (thenM m k) Q s = wp m (\<lambda>r t. case r of Inl e \<Rightarrow> Q (Inl e) t | Inr x \<Rightarrow> wp k Q t) s"
  by (simp add: thenM_def wp_bindM)

lemma wp_catchM [wp_simps]:
  "wp (catchM m h) Q s =
     wp m (\<lambda>r t. case r of Inl e \<Rightarrow> wp (h e) Q t | Inr x \<Rightarrow> Q (Inr x) t) s"
  by (simp add: wp_def catchM_def split: prod.splits sum.splits)

lemma wp_getsM [wp_simps]: "wp (getsM f) Q s = Q (Inr (f s)) s"
  by (simp add: wp_def getsM_def)

lemma wp_modifyM [wp_simps]: "wp (modifyM f) Q s = Q (Inr ()) (f s)"
  by (simp add: wp_def modifyM_def)

lemma wp_mono: "wp m P s \<Longrightarrow> (\<And>r t. P r t \<Longrightarrow> Q r t) \<Longrightarrow> wp m Q s"
  by (auto simp: wp_def split: prod.splits)

lemma wp_run: "wp m Q s \<Longrightarrow> m s = (r, t) \<Longrightarrow> Q r t"
  by (simp add: wp_def)

text \<open>An effect keeps a state predicate, whether it returns or throws.\<close>

definition keeps :: "('s \<Rightarrow> bool) \<Rightarrow> ('e, 's, 'a) eff \<Rightarrow> bool" where
  "keeps P m \<longleftrightarrow> (\<forall>s. P s \<longrightarrow> P (snd (m s)))"

named_theorems keeps_rules "how the effect combinators keep a state predicate"

lemma keepsI: "(\<And>s r t. P s \<Longrightarrow> m s = (r, t) \<Longrightarrow> P t) \<Longrightarrow> keeps P m"
  by (metis keeps_def prod.collapse)

lemma keepsD: "keeps P m \<Longrightarrow> P s \<Longrightarrow> m s = (r, t) \<Longrightarrow> P t"
  by (metis keeps_def snd_conv)

lemma keeps_wp: "keeps P m \<longleftrightarrow> (\<forall>s. P s \<longrightarrow> wp m (\<lambda>_ t. P t) s)"
  by (simp add: keeps_def wp_def case_prod_beta)

lemma keeps_returnM [keeps_rules]: "keeps P (returnM x)"
  by (simp add: keeps_def returnM_def)

lemma keeps_throwM [keeps_rules]: "keeps P (throwM e)"
  by (simp add: keeps_def throwM_def)

lemma keeps_getsM [keeps_rules]: "keeps P (getsM f)"
  by (simp add: keeps_def getsM_def)

lemma keeps_bindM [keeps_rules]: "keeps P m \<Longrightarrow> (\<And>x. keeps P (f x)) \<Longrightarrow> keeps P (bindM m f)"
  by (fastforce simp: keeps_def bindM_def split: prod.splits sum.splits)

lemma keeps_thenM [keeps_rules]: "keeps P m \<Longrightarrow> keeps P k \<Longrightarrow> keeps P (thenM m k)"
  by (simp add: thenM_def keeps_bindM)

lemma keeps_catchM [keeps_rules]: "keeps P m \<Longrightarrow> (\<And>e. keeps P (h e)) \<Longrightarrow> keeps P (catchM m h)"
  by (fastforce simp: keeps_def catchM_def split: prod.splits sum.splits)

lemma keeps_modifyM: "(\<And>s. P s \<Longrightarrow> P (f s)) \<Longrightarrow> keeps P (modifyM f)"
  by (simp add: keeps_def modifyM_def)

lemma keeps_forM [keeps_rules]: "(\<And>x. keeps P (f x)) \<Longrightarrow> keeps P (forM xs f)"
  by (induction xs) (auto intro: keeps_rules)

lemma keeps_if [keeps_rules]: "keeps P m \<Longrightarrow> keeps P k \<Longrightarrow> keeps P (if b then m else k)"
  by simp

lemma keeps_option [keeps_rules]:
  "keeps P m \<Longrightarrow> (\<And>x. keeps P (f x)) \<Longrightarrow> keeps P (case v of None \<Rightarrow> m | Some x \<Rightarrow> f x)"
  by (cases v) auto

lemmas run_eff [run_simps] =
  returnM_def throwM_def bindM_def thenM_def catchM_def getsM_def modifyM_def

section \<open>Lists as tables\<close>

text \<open>\<open>update_where\<close> rewrites the rows that match; \<open>find\<close> reads the first one.\<close>

definition update_where :: "('r \<Rightarrow> bool) \<Rightarrow> ('r \<Rightarrow> 'r) \<Rightarrow> 'r list \<Rightarrow> 'r list" where
  "update_where p f rows = map (\<lambda>r. if p r then f r else r) rows"

lemma length_update_where [simp]: "length (update_where p f rows) = length rows"
  by (simp add: update_where_def)

lemma set_update_where: "set (update_where p f rows) = (\<lambda>r. if p r then f r else r) ` set rows"
  by (simp add: update_where_def)

lemma in_update_where:
  "x \<in> set (update_where p f rows) \<longleftrightarrow>
     (x \<in> set rows \<and> \<not> p x) \<or> (\<exists>y \<in> set rows. p y \<and> x = f y)"
  by (auto simp: update_where_def)

lemma map_update_where: "(\<And>r. k (f r) = k r) \<Longrightarrow> map k (update_where p f rows) = map k rows"
  by (simp add: update_where_def)

lemma update_where_Nil [simp]: "update_where p f [] = []"
  by (simp add: update_where_def)

lemma update_where_Cons [simp]:
  "update_where p f (r # rows) = (if p r then f r else r) # update_where p f rows"
  by (simp add: update_where_def)

lemma update_where_append [simp]:
  "update_where p f (xs @ ys) = update_where p f xs @ update_where p f ys"
  by (simp add: update_where_def)

lemma find_update_where:
  "(\<And>r. p (f r) = p r) \<Longrightarrow>
   find p (update_where q f rows) = map_option (\<lambda>r. if q r then f r else r) (find p rows)"
  by (induction rows) auto

lemma find_append: "find p (xs @ ys) = (case find p xs of None \<Rightarrow> find p ys | Some x \<Rightarrow> Some x)"
  by (induction xs) auto

lemma find_SomeD: "find p xs = Some x \<Longrightarrow> x \<in> set xs \<and> p x"
  by (auto simp: find_Some_iff)

lemma find_NoneD: "find p xs = None \<Longrightarrow> x \<in> set xs \<Longrightarrow> \<not> p x"
  by (auto simp: find_None_iff)

lemma find_unique_key:
  "distinct (map k xs) \<Longrightarrow> x \<in> set xs \<Longrightarrow> find (\<lambda>r. k r = k x) xs = Some x"
  by (induction xs) (auto simp: image_iff)

lemma distinct_key_eq: "distinct (map k xs) \<Longrightarrow> x \<in> set xs \<Longrightarrow> y \<in> set xs \<Longrightarrow> k x = k y \<Longrightarrow> x = y"
  by (metis distinct_map inj_onD)

lemma length_filter_append_one:
  "length (filter p (xs @ [x])) = length (filter p xs) + (if p x then 1 else 0)"
  by simp

lemma length_filter_update_le:
  assumes "\<And>r. p r \<Longrightarrow> q (f r) \<Longrightarrow> q r"
  shows "length (filter q (update_where p f xs)) \<le> length (filter q xs)"
proof (induction xs)
  case (Cons x xs)
  then show ?case using assms [of x] by (cases "p x") auto
qed simp

lemma length_filter_update_one:
  assumes "distinct (map k xs)" and "\<And>r. p r \<longleftrightarrow> k r = i"
    and "\<And>r. r \<in> set xs \<Longrightarrow> \<not> p r \<Longrightarrow> q r \<longleftrightarrow> q' r"
  shows "length (filter q (update_where p f xs)) \<le> length (filter q' xs) + 1"
  using assms
proof (induction xs)
  case (Cons x xs)
  show ?case
  proof (cases "p x")
    case True
    have none: "\<not> p r" if "r \<in> set xs" for r
      using Cons.prems(1,2) True that by (force simp: image_iff)
    then have same: "update_where p f xs = xs"
      by (simp add: update_where_def map_idI)
    have "filter q xs = filter q' xs"
      using Cons.prems(3) none by (intro filter_cong) auto
    with True same show ?thesis by simp
  next
    case False
    with Cons show ?thesis by simp
  qed
qed simp

end
