(* ===== verification/ApiErrors.thy ===== *)
theory ApiErrors
  imports Prelude
begin

text \<open>
  Errors of the API: the exceptions the source throws, the HTTP exceptions built by the services,
  and the global exception filter (src/src/api-exception.filter.ts) that turns any exception into
  the response body. JSON values stand for the objects an \<open>HttpException\<close> carries.
\<close>

datatype json =
    JNull
  | JBool bool
  | JNum int
  | JStr string
  | JArr "json list"
  | JObj "(string \<times> json) list"

fun is_json_string :: "json \<Rightarrow> bool" where
  "is_json_string (JStr s) = True"
| "is_json_string _ = False"

text \<open>\<open>value.key\<close>: \<open>None\<close> is \<open>undefined\<close>.\<close>

fun json_get :: "json \<Rightarrow> string \<Rightarrow> json option" where
  "json_get (JObj kvs) k = map_of kvs k"
| "json_get _ k = None"

record http_exception =
  he_status :: nat
  he_response :: json
  he_message :: string

record pg_error =
  pg_code :: string
  pg_constraint :: string
  pg_detail :: string

datatype exn =
    HttpExn http_exception
  | StorageUnavailableExn
  | RefreshReuseExn
  | InvalidRefreshExn
  | PlainErr string
  | RedisErr
  | QueryErr pg_error

definition http_error :: "nat \<Rightarrow> string \<Rightarrow> string \<Rightarrow> exn" where
  "http_error status code message =
     HttpExn \<lparr>he_status = status,
       he_response = JObj [(''code'', JStr code), (''message'', JStr message)],
       he_message = message\<rparr>"

definition validation_exception :: "(string \<times> string list) list \<Rightarrow> exn" where
  "validation_exception errors =
     HttpExn \<lparr>he_status = 422,
       he_response = JObj
         [(''code'', JStr ''VALIDATION_ERROR''),
          (''message'', JStr ''Validation failed.''),
          (''errors'', JObj (map (\<lambda>(f, ms). (f, JArr (map JStr ms))) errors))],
       he_message = ''Validation failed.''\<rparr>"

definition unauthorized_exception :: exn where
  "unauthorized_exception =
     HttpExn \<lparr>he_status = 401,
       he_response = JObj [(''message'', JStr ''Unauthorized''), (''statusCode'', JNum 401)],
       he_message = ''Unauthorized''\<rparr>"

section \<open>The exception filter\<close>

record error_body =
  eb_status :: nat
  eb_code :: string
  eb_message :: string
  eb_errors :: "json option"

definition code_from_status :: "nat \<Rightarrow> string" where
  "code_from_status status =
     (if status = 422 then ''VALIDATION_ERROR''
      else if status = 500 then ''INTERNAL_SERVER_ERROR''
      else ''HTTP_ERROR'')"

definition is_field_errors :: "json \<Rightarrow> bool" where
  "is_field_errors v =
     (case v of
        JObj kvs \<Rightarrow>
          list_all (\<lambda>(k, entry).
            case entry of JArr ms \<Rightarrow> list_all is_json_string ms | _ \<Rightarrow> False) kvs
      | _ \<Rightarrow> False)"

definition payload_code :: "nat \<Rightarrow> json \<Rightarrow> string" where
  "payload_code status payload =
     (case json_get payload ''code'' of
        Some (JStr c) \<Rightarrow> c
      | _ \<Rightarrow> code_from_status status)"

definition payload_message :: "string \<Rightarrow> json \<Rightarrow> string" where
  "payload_message fallback payload =
     (case json_get payload ''message'' of
        Some (JStr m) \<Rightarrow> m
      | Some (JArr ms) \<Rightarrow> ''Validation failed.''
      | _ \<Rightarrow> fallback)"

definition payload_errors :: "nat \<Rightarrow> json \<Rightarrow> json option" where
  "payload_errors status payload =
     (if status = 422 then
        (case json_get payload ''errors'' of
           Some v \<Rightarrow> if is_field_errors v then Some v else None
         | None \<Rightarrow> None)
      else None)"

definition to_error_body :: "exn \<Rightarrow> error_body" where
  "to_error_body exception =
     (case exception of
        HttpExn he \<Rightarrow>
          (case he_response he of
             JStr s \<Rightarrow>
               \<lparr>eb_status = he_status he, eb_code = code_from_status (he_status he),
                eb_message = s, eb_errors = None\<rparr>
           | payload \<Rightarrow>
               \<lparr>eb_status = he_status he,
                eb_code = payload_code (he_status he) payload,
                eb_message = payload_message (he_message he) payload,
                eb_errors = payload_errors (he_status he) payload\<rparr>)
      | _ \<Rightarrow>
          \<lparr>eb_status = 500, eb_code = ''INTERNAL_SERVER_ERROR'',
           eb_message = ''Internal server error.'', eb_errors = None\<rparr>)"

text \<open>The filter's response: the headers it sets, the status, the body.\<close>

definition filter_catch :: "exn \<Rightarrow> (string \<times> string) list \<times> nat \<times> error_body" where
  "filter_catch exception =
     (let body = to_error_body exception
      in (if eb_code body = ''ACCOUNT_TEMPORARILY_LOCKED'' then [(''Retry-After'', ''3600'')] else [],
          eb_status body, body))"

section \<open>Lemmas\<close>

lemma to_error_body_http_error [simp]:
  "to_error_body (http_error status code message) =
     \<lparr>eb_status = status, eb_code = code, eb_message = message, eb_errors = None\<rparr>"
  by (simp add: to_error_body_def http_error_def payload_code_def payload_message_def
      payload_errors_def)

lemma is_field_errors_messages:
  "is_field_errors (JObj (map (\<lambda>(f, ms). (f, JArr (map JStr ms))) errors))"
  by (auto simp: is_field_errors_def list_all_iff)

lemma to_error_body_validation [simp]:
  "to_error_body (validation_exception errors) =
     \<lparr>eb_status = 422, eb_code = ''VALIDATION_ERROR'', eb_message = ''Validation failed.'',
      eb_errors = Some (JObj (map (\<lambda>(f, ms). (f, JArr (map JStr ms))) errors))\<rparr>"
  by (simp add: to_error_body_def validation_exception_def payload_code_def payload_message_def
      payload_errors_def is_field_errors_messages)

lemma http_error_inject [simp]:
  "http_error a b c = http_error a' b' c' \<longleftrightarrow> a = a' \<and> b = b' \<and> c = c'"
  by (auto simp: http_error_def)

lemma http_error_neq [simp]:
  "http_error a b c \<noteq> StorageUnavailableExn" "StorageUnavailableExn \<noteq> http_error a b c"
  "http_error a b c \<noteq> RefreshReuseExn" "RefreshReuseExn \<noteq> http_error a b c"
  "http_error a b c \<noteq> InvalidRefreshExn" "InvalidRefreshExn \<noteq> http_error a b c"
  "http_error a b c \<noteq> PlainErr m" "PlainErr m \<noteq> http_error a b c"
  "http_error a b c \<noteq> RedisErr" "RedisErr \<noteq> http_error a b c"
  "http_error a b c \<noteq> QueryErr q" "QueryErr q \<noteq> http_error a b c"
  by (simp_all add: http_error_def)

text \<open>
  Whatever is thrown, the filter answers: an exception that is not an HTTP exception
  gives the fixed 500 body, so no internal message reaches the client; field errors appear only
  with status 422 and only in the field-to-messages shape; \<open>Retry-After\<close> is sent exactly for a
  locked account.
\<close>

theorem filter_discloses_only_http_errors:
  "(case filter_catch e of
      (headers, status, body) \<Rightarrow>
        status = eb_status body
        \<and> ((\<nexists>he. e = HttpExn he) \<longrightarrow>
             body = \<lparr>eb_status = 500, eb_code = ''INTERNAL_SERVER_ERROR'',
                     eb_message = ''Internal server error.'', eb_errors = None\<rparr>)
        \<and> (\<forall>v. eb_errors body = Some v \<longrightarrow> status = 422 \<and> is_field_errors v)
        \<and> (headers \<noteq> [] \<longleftrightarrow> eb_code body = ''ACCOUNT_TEMPORARILY_LOCKED''))"
proof (cases e)
  case (HttpExn he)
  then show ?thesis
    by (cases "he_response he")
      (auto simp: filter_catch_def to_error_body_def Let_def payload_errors_def
        split: option.splits if_splits)
qed (auto simp: filter_catch_def to_error_body_def)

end
