(* ===== verification/Entities.thy ===== *)
theory Entities
  imports ApiErrors
begin

text \<open>
  The PostgreSQL tables: one record per entity of src/src/modules, one field per column, and the
  database as the record of its tables. A table is the list of its rows in insertion order.
  Instants (\<open>timestamptz\<close>) are milliseconds since the epoch; a nullable column is an option; a
  \<open>date\<close> column is its \<open>YYYY-MM-DD\<close> text. \<open>lock_account\<close> is the row lock every writing
  transaction takes first, so that transactions of one account are serialised.
\<close>

type_synonym uuid = string
type_synonym instant = int

text \<open>A keyed hash of the crypto library: key and data to a hexadecimal digest.\<close>

type_synonym hmac = "string \<Rightarrow> string \<Rightarrow> string"

section \<open>Accounts and authentication\<close>

datatype account_status = PENDING | ACTIVE_ACCOUNT

datatype account_role = USER

datatype revocation_reason = LOGOUT | NEW_LOGIN | PASSWORD_RESET | REFRESH_REUSE

datatype audit_event_type =
    SESSION_CREATED
  | SESSION_REVOKED
  | LOGIN_LOCKED
  | LOGIN_FAILURE
  | PASSWORD_RESET_REQUESTED
  | PASSWORD_RESET_COMPLETED

record account =
  acc_id :: uuid
  acc_email :: string
  acc_status :: account_status
  acc_role :: account_role
  acc_password_hash :: string
  acc_created_at :: instant
  acc_updated_at :: instant

record session =
  ses_id :: uuid
  ses_user_id :: uuid
  ses_refresh_token_hash :: string
  ses_csrf_token_hash :: string
  ses_expires_at :: instant
  ses_revoked_at :: "instant option"
  ses_revocation_reason :: "revocation_reason option"
  ses_created_at :: instant
  ses_last_rotated_at :: instant

record refresh_token =
  rt_id :: uuid
  rt_session_id :: uuid
  rt_token_hash :: string
  rt_issued_at :: instant
  rt_used_at :: "instant option"
  rt_expires_at :: instant

record reset_token =
  prt_id :: uuid
  prt_user_id :: uuid
  prt_token_hash :: string
  prt_expires_at :: instant
  prt_used_at :: "instant option"
  prt_created_at :: instant

record audit_event =
  ae_id :: uuid
  ae_user_id :: "uuid option"
  ae_type :: audit_event_type
  ae_session_id :: "uuid option"
  ae_ip_hash :: "string option"
  ae_created_at :: instant
  ae_metadata :: "(string \<times> json) list option"

section \<open>Links and statistics\<close>

datatype link_status = ACTIVE | DEACTIVATED

record link =
  lk_id :: uuid
  lk_user_id :: uuid
  lk_short_code :: string
  lk_destination_url :: string
  lk_status :: link_status
  lk_created_at :: instant
  lk_updated_at :: instant

record access_event =
  ev_id :: uuid
  ev_link_id :: uuid
  ev_occurred_at :: instant
  ev_occurred_on :: string
  ev_country :: string
  ev_visitor_pseudonym :: string

record daily_visitor =
  dv_link_id :: uuid
  dv_occurred_on :: string
  dv_visitor_pseudonym :: string
  dv_country :: string

record daily_aggregate =
  da_link_id :: uuid
  da_occurred_on :: string
  da_country :: string
  da_access_count :: int
  da_unique_visitor_count :: int

record monthly_aggregate =
  ma_link_id :: uuid
  ma_occurred_month :: string
  ma_access_count :: int
  ma_daily_unique_visitor_count :: int

record statistics_day =
  sd_link_id :: uuid
  sd_occurred_on :: string
  sd_finalized_at :: instant

section \<open>The database\<close>

record db =
  accounts :: "account list"
  sessions :: "session list"
  refresh_tokens :: "refresh_token list"
  reset_tokens :: "reset_token list"
  audit_events :: "audit_event list"
  links :: "link list"
  access_events :: "access_event list"
  daily_visitors :: "daily_visitor list"
  daily_aggregates :: "daily_aggregate list"
  monthly_aggregates :: "monthly_aggregate list"
  statistics_days :: "statistics_day list"

definition empty_db :: db where
  "empty_db = \<lparr>accounts = [], sessions = [], refresh_tokens = [], reset_tokens = [],
     audit_events = [], links = [], access_events = [], daily_visitors = [],
     daily_aggregates = [], monthly_aggregates = [], statistics_days = []\<rparr>"

type_synonym 'a dbm = "(exn, db, 'a) eff"

text \<open>A transaction that throws leaves no trace.\<close>

definition transaction :: "'a dbm \<Rightarrow> 'a dbm" where
  "transaction m = (\<lambda>d. case m d of (Inl e, _) \<Rightarrow> (Inl e, d) | (Inr x, d') \<Rightarrow> (Inr x, d'))"

definition account_by_id :: "uuid \<Rightarrow> db \<Rightarrow> account option" where
  "account_by_id i d = find (\<lambda>a. acc_id a = i) (accounts d)"

text \<open>
  The private \<open>lockAccount\<close> of both TypeORM repositories: SELECT ... FOR UPDATE of the account's
  row, an error when there is none.
\<close>

definition lock_account :: "uuid \<Rightarrow> account dbm" where
  "lock_account user_id =
     bindM (getsM (account_by_id user_id)) (\<lambda>a. case a of
       None \<Rightarrow> throwM (PlainErr ''Account not found.'')
     | Some account \<Rightarrow> returnM account)"

text \<open>PostgreSQL's errors for a violated unique index and for a value longer than its \<open>varchar\<close>.\<close>

definition unique_violation :: "string \<Rightarrow> string \<Rightarrow> exn" where
  "unique_violation constraint detail =
     QueryErr \<lparr>pg_code = ''23505'', pg_constraint = constraint, pg_detail = detail\<rparr>"

definition value_too_long :: exn where
  "value_too_long = QueryErr \<lparr>pg_code = ''22001'', pg_constraint = [], pg_detail = []\<rparr>"

lemma transaction_Inl: "transaction m d = (Inl e, d') \<Longrightarrow> d' = d"
  by (auto simp: transaction_def split: prod.splits sum.splits)

lemma transaction_Inr: "transaction m d = (Inr x, d') \<longleftrightarrow> m d = (Inr x, d')"
  by (auto simp: transaction_def split: prod.splits sum.splits)

lemma wp_transaction [wp_simps]:
  "wp (transaction m) Q d =
     wp m (\<lambda>r d'. case r of Inl e \<Rightarrow> Q (Inl e) d | Inr x \<Rightarrow> Q (Inr x) d') d"
  by (auto simp: wp_def transaction_def split: prod.splits sum.splits)

lemma keeps_transaction [keeps_rules]: "keeps P m \<Longrightarrow> keeps P (transaction m)"
  by (fastforce simp: keeps_def transaction_def split: prod.splits sum.splits)

lemma wp_lock_account [wp_simps]:
  "wp (lock_account u) Q d =
     (case account_by_id u d of
        None \<Rightarrow> Q (Inl (PlainErr ''Account not found.'')) d
      | Some a \<Rightarrow> Q (Inr a) d)"
  by (simp add: lock_account_def wp_simps split: option.splits)

lemma keeps_lock_account [keeps_rules]: "keeps P (lock_account u)"
  by (simp add: lock_account_def keeps_rules)

end
