(* ===== verification/LinksRepo.thy ===== *)
theory LinksRepo
  imports Entities
begin

text \<open>
  The links repository: src/src/modules/links/typeorm-links.repository.ts with the result types of
  links.types.ts. Every writing operation is one transaction under the lock of the owner's account.
  Identifiers the database generates and the clock are arguments.
\<close>

section \<open>Results\<close>

datatype create_result =
    Created link
  | Existing link
  | Reactivated link
  | CreateLimitReached
  | ShortCodeCollision

datatype change_result =
    Changed link
  | Unchanged link
  | ChangeNotFound
  | ChangeForbidden
  | ChangeLimitReached

datatype status_filter = FilterActive | FilterDeactivated | FilterAll

record list_query =
  lq_page :: nat
  lq_limit :: nat
  lq_status :: status_filter

record paginated_links =
  pl_items :: "link list"
  pl_total :: nat
  pl_page :: nat
  pl_limit :: nat
  pl_total_pages :: nat

definition MAX_ACTIVE_LINKS_PER_USER :: nat where
  "MAX_ACTIVE_LINKS_PER_USER = 10"

section \<open>Rows and constraints\<close>

text \<open>
  The unique indexes of the table \<open>links\<close>, in the order the migration creates them, and the
  \<open>varchar\<close> lengths. A violation carries PostgreSQL's code, constraint name and detail line.
\<close>

definition link_detail_id :: "link \<Rightarrow> string" where
  "link_detail_id l = ''Key (id)=('' @ lk_id l @ '') already exists.''"

definition link_detail_code :: "link \<Rightarrow> string" where
  "link_detail_code l = ''Key ('' @ [CHR 0x22] @ ''shortCode'' @ [CHR 0x22] @ '')=(''
     @ lk_short_code l @ '') already exists.''"

definition link_detail_destination :: "link \<Rightarrow> string" where
  "link_detail_destination l =
     ''Key ('' @ [CHR 0x22] @ ''userId'' @ [CHR 0x22] @ '', '' @ [CHR 0x22] @ ''destinationUrl''
       @ [CHR 0x22] @ '')=('' @ lk_user_id l @ '', '' @ lk_destination_url l
       @ '') already exists.''"

definition insert_link :: "link \<Rightarrow> link dbm" where
  "insert_link l = (\<lambda>d.
     if 6 < length (lk_short_code l) \<or> 2048 < length (lk_destination_url l)
     then (Inl (QueryErr \<lparr>pg_code = ''22001'', pg_constraint = [], pg_detail = []\<rparr>), d)
     else if lk_id l \<in> set (map lk_id (links d))
     then (Inl (unique_violation ''PK_ecf17f4a741d3c5ba0b4c5ab4b6'' (link_detail_id l)), d)
     else if lk_short_code l \<in> set (map lk_short_code (links d))
     then (Inl (unique_violation ''IDX_f5e434d70a12e8e6544fdbda8b'' (link_detail_code l)), d)
     else if (lk_user_id l, lk_destination_url l)
               \<in> set (map (\<lambda>r. (lk_user_id r, lk_destination_url r)) (links d))
     then (Inl (unique_violation ''IDX_links_user_destination'' (link_detail_destination l)), d)
     else (Inr l, d\<lparr>links := links d @ [l]\<rparr>))"

text \<open>\<open>manager.save\<close> of a loaded link: UPDATE by primary key; \<open>updatedAt\<close> becomes the clock.\<close>

definition save_link_status :: "instant \<Rightarrow> link \<Rightarrow> link_status \<Rightarrow> link dbm" where
  "save_link_status now l st =
     (let l' = l\<lparr>lk_status := st, lk_updated_at := now\<rparr>
      in thenM
           (modifyM (\<lambda>d. d\<lparr>links :=
              update_where (\<lambda>r. lk_id r = lk_id l)
                (\<lambda>r. r\<lparr>lk_status := st, lk_updated_at := now\<rparr>) (links d)\<rparr>))
           (returnM l'))"

definition is_active_of :: "uuid \<Rightarrow> link \<Rightarrow> bool" where
  "is_active_of user_id l \<longleftrightarrow> lk_user_id l = user_id \<and> lk_status l = ACTIVE"

definition count_active_links :: "uuid \<Rightarrow> db \<Rightarrow> nat" where
  "count_active_links user_id d = length (filter (is_active_of user_id) (links d))"

definition find_by_destination :: "uuid \<Rightarrow> string \<Rightarrow> db \<Rightarrow> link option" where
  "find_by_destination user_id destination d =
     find (\<lambda>l. lk_user_id l = user_id \<and> lk_destination_url l = destination) (links d)"

definition link_by_id :: "uuid \<Rightarrow> db \<Rightarrow> link option" where
  "link_by_id link_id d = find (\<lambda>l. lk_id l = link_id) (links d)"

definition active_by_short_code :: "string \<Rightarrow> db \<Rightarrow> link option" where
  "active_by_short_code code d =
     find (\<lambda>l. lk_short_code l = code \<and> lk_status l = ACTIVE) (links d)"

section \<open>Operations\<close>

definition is_short_code_collision :: "exn \<Rightarrow> bool" where
  "is_short_code_collision e =
     (case e of
        QueryErr q \<Rightarrow>
          pg_code q = ''23505''
          \<and> js_includes ''shortcode''
               (to_lower_case (pg_constraint q @ '' '' @ pg_detail q))
      | _ \<Rightarrow> False)"

definition new_link :: "uuid \<Rightarrow> uuid \<Rightarrow> string \<Rightarrow> string \<Rightarrow> instant \<Rightarrow> link" where
  "new_link new_id user_id short_code destination_url now =
     \<lparr>lk_id = new_id, lk_user_id = user_id, lk_short_code = short_code,
      lk_destination_url = destination_url, lk_status = ACTIVE,
      lk_created_at = now, lk_updated_at = now\<rparr>"

definition create_or_restore_tx ::
  "uuid \<Rightarrow> instant \<Rightarrow> uuid \<Rightarrow> string \<Rightarrow> string \<Rightarrow> create_result dbm" where
  "create_or_restore_tx new_id now user_id destination_url short_code =
     thenM (lock_account user_id)
       (bindM (getsM (find_by_destination user_id destination_url)) (\<lambda>existing.
          case existing of
            Some l \<Rightarrow>
              (if lk_status l = ACTIVE then returnM (Existing l)
               else bindM (getsM (count_active_links user_id)) (\<lambda>active_count.
                 if MAX_ACTIVE_LINKS_PER_USER \<le> active_count then returnM CreateLimitReached
                 else bindM (save_link_status now l ACTIVE) (\<lambda>saved.
                   returnM (Reactivated saved))))
          | None \<Rightarrow>
              bindM (getsM (count_active_links user_id)) (\<lambda>active_count.
                if MAX_ACTIVE_LINKS_PER_USER \<le> active_count then returnM CreateLimitReached
                else bindM
                     (insert_link (new_link new_id user_id short_code destination_url now))
                     (\<lambda>created. returnM (Created created)))))"

definition create_or_restore ::
  "uuid \<Rightarrow> instant \<Rightarrow> uuid \<Rightarrow> string \<Rightarrow> string \<Rightarrow> create_result dbm" where
  "create_or_restore new_id now user_id destination_url short_code =
     catchM
       (transaction (create_or_restore_tx new_id now user_id destination_url short_code))
       (\<lambda>e. if is_short_code_collision e then returnM ShortCodeCollision else throwM e)"

text \<open>ORDER BY "createdAt" DESC, "id" DESC.\<close>

definition listed_before :: "link \<Rightarrow> link \<Rightarrow> bool" where
  "listed_before a b \<longleftrightarrow>
     lk_created_at b < lk_created_at a
     \<or> (lk_created_at a = lk_created_at b \<and> js_less (lk_id b) (lk_id a))"

fun insert_listed :: "link \<Rightarrow> link list \<Rightarrow> link list" where
  "insert_listed x [] = [x]"
| "insert_listed x (y # ys) =
     (if listed_before y x then y # insert_listed x ys else x # y # ys)"

fun sort_listed :: "link list \<Rightarrow> link list" where
  "sort_listed [] = []"
| "sort_listed (x # xs) = insert_listed x (sort_listed xs)"

definition matches_filter :: "status_filter \<Rightarrow> link \<Rightarrow> bool" where
  "matches_filter f l =
     (case f of
        FilterActive \<Rightarrow> lk_status l = ACTIVE
      | FilterDeactivated \<Rightarrow> lk_status l = DEACTIVATED
      | FilterAll \<Rightarrow> True)"

definition matching_links :: "uuid \<Rightarrow> status_filter \<Rightarrow> db \<Rightarrow> link list" where
  "matching_links user_id f d =
     sort_listed (filter (\<lambda>l. lk_user_id l = user_id \<and> matches_filter f l) (links d))"

definition ceil_div :: "nat \<Rightarrow> nat \<Rightarrow> nat" where
  "ceil_div a b = (a + b - 1) div b"

definition list_by_user :: "uuid \<Rightarrow> list_query \<Rightarrow> paginated_links dbm" where
  "list_by_user user_id q =
     bindM (getsM (matching_links user_id (lq_status q))) (\<lambda>rows.
       let total = length rows;
           skip = (lq_page q - 1) * lq_limit q
       in returnM
            \<lparr>pl_items = take (lq_limit q) (drop skip rows), pl_total = total,
             pl_page = lq_page q, pl_limit = lq_limit q,
             pl_total_pages = (if total = 0 then 0 else ceil_div total (lq_limit q))\<rparr>)"

text \<open>
  \<open>first_read\<close> is the database the first SELECT saw, before the account lock was granted; the
  second SELECT reads the current one.
\<close>

definition change_status_from ::
  "db \<Rightarrow> instant \<Rightarrow> uuid \<Rightarrow> uuid \<Rightarrow> link_status \<Rightarrow> change_result dbm" where
  "change_status_from first_read now user_id link_id status =
     transaction
       (case link_by_id link_id first_read of
          None \<Rightarrow> returnM ChangeNotFound
        | Some link \<Rightarrow>
            if lk_user_id link \<noteq> user_id then returnM ChangeForbidden
            else thenM (lock_account user_id)
              (bindM (getsM (link_by_id link_id)) (\<lambda>locked_row.
                 case locked_row of
                   None \<Rightarrow> returnM ChangeNotFound
                 | Some locked \<Rightarrow>
                     if lk_status locked = status then returnM (Unchanged locked)
                     else bindM (getsM (count_active_links user_id)) (\<lambda>active_count.
                       if status = ACTIVE \<and> MAX_ACTIVE_LINKS_PER_USER \<le> active_count
                       then returnM ChangeLimitReached
                       else bindM (save_link_status now locked status) (\<lambda>saved.
                         returnM (Changed saved))))))"

definition change_status ::
  "instant \<Rightarrow> uuid \<Rightarrow> uuid \<Rightarrow> link_status \<Rightarrow> change_result dbm" where
  "change_status now user_id link_id status =
     (\<lambda>d. change_status_from d now user_id link_id status d)"

definition find_active_by_short_code :: "string \<Rightarrow> link option dbm" where
  "find_active_by_short_code code = getsM (active_by_short_code code)"

definition find_link_by_id :: "uuid \<Rightarrow> link option dbm" where
  "find_link_by_id link_id = getsM (link_by_id link_id)"

section \<open>The table invariant\<close>

definition links_wf :: "db \<Rightarrow> bool" where
  "links_wf d \<longleftrightarrow>
     distinct (map lk_id (links d))
     \<and> distinct (map lk_short_code (links d))
     \<and> distinct (map (\<lambda>l. (lk_user_id l, lk_destination_url l)) (links d))
     \<and> (\<forall>u. count_active_links u d \<le> MAX_ACTIVE_LINKS_PER_USER)"

definition activate_row :: "instant \<Rightarrow> link_status \<Rightarrow> uuid \<Rightarrow> db \<Rightarrow> db" where
  "activate_row now st i d =
     d\<lparr>links := update_where (\<lambda>r. lk_id r = i)
        (\<lambda>r. r\<lparr>lk_status := st, lk_updated_at := now\<rparr>) (links d)\<rparr>"

lemma save_link_status_run:
  "save_link_status now l st d =
     (Inr (l\<lparr>lk_status := st, lk_updated_at := now\<rparr>), activate_row now st (lk_id l) d)"
  by (simp add: save_link_status_def run_simps activate_row_def Let_def)

lemma wp_save_link_status [wp_simps]:
  "wp (save_link_status now l st) Q d =
     Q (Inr (l\<lparr>lk_status := st, lk_updated_at := now\<rparr>)) (activate_row now st (lk_id l) d)"
  by (simp add: wp_def save_link_status_run)

lemma links_activate_row_keys [simp]:
  "map lk_id (links (activate_row now st i d)) = map lk_id (links d)"
  "map lk_short_code (links (activate_row now st i d)) = map lk_short_code (links d)"
  "map (\<lambda>l. (lk_user_id l, lk_destination_url l)) (links (activate_row now st i d)) =
   map (\<lambda>l. (lk_user_id l, lk_destination_url l)) (links d)"
  by (simp_all add: activate_row_def map_update_where)

lemma accounts_activate_row [simp]: "accounts (activate_row now st i d) = accounts d"
  by (simp add: activate_row_def)

lemma count_deactivate:
  "count_active_links u (activate_row now DEACTIVATED i d) \<le> count_active_links u d"
  unfolding count_active_links_def activate_row_def
  by (simp) (rule length_filter_update_le, simp add: is_active_of_def)

lemma count_activate_other:
  assumes "\<And>r. r \<in> set (links d) \<Longrightarrow> lk_id r = i \<Longrightarrow> lk_user_id r \<noteq> u"
  shows "count_active_links u (activate_row now st i d) = count_active_links u d"
proof -
  have "length (filter (is_active_of u) (update_where (\<lambda>r. lk_id r = i)
          (\<lambda>r. r\<lparr>lk_status := st, lk_updated_at := now\<rparr>) rows)) =
        length (filter (is_active_of u) rows)"
    if "\<And>r. r \<in> set rows \<Longrightarrow> lk_id r = i \<Longrightarrow> lk_user_id r \<noteq> u" for rows
    using that by (induction rows) (auto simp: is_active_of_def)
  then show ?thesis
    using assms by (simp add: count_active_links_def activate_row_def)
qed

lemma count_activate_one:
  assumes "distinct (map lk_id (links d))"
  shows "count_active_links u (activate_row now st i d) \<le> count_active_links u d + 1"
  using length_filter_update_one [OF assms, where p = "\<lambda>r. lk_id r = i" and i = i
      and q = "is_active_of u" and q' = "is_active_of u"]
  by (simp add: count_active_links_def activate_row_def)

lemma links_wf_activate:
  assumes "links_wf d" and "l \<in> set (links d)"
    and "st = ACTIVE \<Longrightarrow> count_active_links (lk_user_id l) d < MAX_ACTIVE_LINKS_PER_USER"
  shows "links_wf (activate_row now st (lk_id l) d)"
proof -
  have "count_active_links u (activate_row now st (lk_id l) d) \<le> MAX_ACTIVE_LINKS_PER_USER" for u
  proof (cases "st = ACTIVE \<and> u = lk_user_id l")
    case True
    with assms count_activate_one [of d u now st "lk_id l"] show ?thesis
      by (auto simp: links_wf_def)
  next
    case False
    show ?thesis
    proof (cases st)
      case ACTIVE
      have "lk_user_id r \<noteq> u" if "r \<in> set (links d)" "lk_id r = lk_id l" for r
        using distinct_key_eq [of lk_id "links d" r l] that False ACTIVE assms(1,2)
        by (auto simp: links_wf_def)
      then have "count_active_links u (activate_row now st (lk_id l) d) = count_active_links u d"
        by (rule count_activate_other)
      with assms(1) show ?thesis by (simp add: links_wf_def)
    next
      case DEACTIVATED
      with count_deactivate [of u now "lk_id l" d] assms(1) show ?thesis
        by (auto simp: links_wf_def intro: le_trans)
    qed
  qed
  with assms(1) show ?thesis by (simp add: links_wf_def)
qed

lemma insert_link_run:
  "insert_link l d = (r, d') \<Longrightarrow>
     (\<exists>e. r = Inl e \<and> d' = d) \<or>
     (r = Inr l \<and> d' = d\<lparr>links := links d @ [l]\<rparr> \<and> lk_id l \<notin> lk_id ` set (links d)
       \<and> lk_short_code l \<notin> lk_short_code ` set (links d)
       \<and> (lk_user_id l, lk_destination_url l)
            \<notin> (\<lambda>r. (lk_user_id r, lk_destination_url r)) ` set (links d))"
  by (auto simp: insert_link_def split: if_splits)

lemma links_wf_append:
  assumes "links_wf d" and "insert_link l d = (Inr l, d')"
    and "count_active_links (lk_user_id l) d < MAX_ACTIVE_LINKS_PER_USER"
  shows "links_wf d'"
proof -
  from insert_link_run [OF assms(2)] have d': "d' = d\<lparr>links := links d @ [l]\<rparr>"
    and new: "lk_id l \<notin> lk_id ` set (links d)" "lk_short_code l \<notin> lk_short_code ` set (links d)"
      "(lk_user_id l, lk_destination_url l)
          \<notin> (\<lambda>r. (lk_user_id r, lk_destination_url r)) ` set (links d)"
    by auto
  have "count_active_links u d' \<le> MAX_ACTIVE_LINKS_PER_USER" for u
    using assms(1,3) by (auto simp: d' count_active_links_def links_wf_def is_active_of_def)
  with assms(1) new show ?thesis by (auto simp: d' links_wf_def)
qed

lemma link_by_id_SomeD: "link_by_id i d = Some l \<Longrightarrow> l \<in> set (links d) \<and> lk_id l = i"
  unfolding link_by_id_def by (drule find_SomeD)

lemma find_by_destination_SomeD:
  "find_by_destination u t d = Some l \<Longrightarrow>
     l \<in> set (links d) \<and> lk_user_id l = u \<and> lk_destination_url l = t"
  unfolding find_by_destination_def by (drule find_SomeD)

lemma insert_link_links:
  "insert_link l d = (r, d') \<Longrightarrow> accounts d' = accounts d"
  by (auto simp: insert_link_def split: if_splits)

section \<open>The two writing transactions keep the invariant\<close>

lemma wp_insert_link:
  assumes "\<And>e. Q (Inl e) d"
    and "\<And>d'. insert_link l d = (Inr l, d') \<Longrightarrow> Q (Inr l) d'"
  shows "wp (insert_link l) Q d"
  using insert_link_run [of l d] assms by (fastforce simp: wp_def split: prod.splits)

lemma keeps_create_or_restore: "keeps links_wf (create_or_restore i now u t c)"
  unfolding keeps_wp
proof (intro allI impI)
  fix d
  assume wf: "links_wf d"
  have act: "links_wf (activate_row now ACTIVE (lk_id l) d)"
    if "find_by_destination u t d = Some l" "\<not> MAX_ACTIVE_LINKS_PER_USER \<le> count_active_links u d"
    for l
    using find_by_destination_SomeD [OF that(1)] that(2) wf by (intro links_wf_activate) auto
  have app: "links_wf d'"
    if "insert_link (new_link i u c t now) d = (Inr (new_link i u c t now), d')"
      "\<not> MAX_ACTIVE_LINKS_PER_USER \<le> count_active_links u d" for d'
    using links_wf_append [OF wf that(1)] that(2) by (simp add: new_link_def)
  show "wp (create_or_restore i now u t c) (\<lambda>_. links_wf) d"
    unfolding create_or_restore_def create_or_restore_tx_def
    by (auto simp: wp_simps wf act split: option.splits intro!: wp_insert_link intro: app)
qed

lemma change_status_from_wf:
  assumes "links_wf d"
    and "\<And>l l'. link_by_id i d0 = Some l \<Longrightarrow> link_by_id i d = Some l'
          \<Longrightarrow> lk_user_id l' = lk_user_id l"
  shows "wp (change_status_from d0 now u i st) (\<lambda>_ d'. links_wf d') d"
proof -
  have act: "links_wf (activate_row now st (lk_id l') d)"
    if "link_by_id i d0 = Some l" "lk_user_id l = u" "link_by_id i d = Some l'"
      "st = ACTIVE \<Longrightarrow> \<not> MAX_ACTIVE_LINKS_PER_USER \<le> count_active_links u d"
    for l l'
    using assms(2) [OF that(1,3)] link_by_id_SomeD [OF that(3)] that(2,4) assms(1)
    by (intro links_wf_activate) auto
  show ?thesis
    unfolding change_status_from_def
    using assms(1) by (auto simp: wp_simps act split: option.splits)
qed

section \<open>Links keep their identity\<close>

definition identity_of :: "link \<Rightarrow> uuid \<times> uuid \<times> string \<times> string \<times> instant" where
  "identity_of l =
     (lk_id l, lk_user_id l, lk_short_code l, lk_destination_url l, lk_created_at l)"

definition links_grow :: "db \<Rightarrow> db \<Rightarrow> bool" where
  "links_grow d d' \<longleftrightarrow>
     (\<exists>added. map identity_of (links d') = map identity_of (links d) @ added)"

lemma links_grow_refl [intro]: "links_grow d d"
  by (simp add: links_grow_def)

lemma links_grow_same: "links d' = links d \<Longrightarrow> links_grow d d'"
  by (simp add: links_grow_def)

lemma links_grow_trans: "links_grow a b \<Longrightarrow> links_grow b c \<Longrightarrow> links_grow a c"
  by (auto simp: links_grow_def)

lemma links_grow_activate [intro]: "links_grow d (activate_row now st i d)"
  by (simp add: links_grow_def activate_row_def map_update_where identity_of_def)

lemma links_grow_insert: "insert_link l d = (r, d') \<Longrightarrow> links_grow d d'"
  using insert_link_run [of l d r d'] by (auto simp: links_grow_def)

lemma links_grow_owner:
  assumes "links_grow d d'" and "links_wf d'"
    and "link_by_id i d = Some l" and "link_by_id i d' = Some l'"
  shows "identity_of l' = identity_of l"
proof -
  from assms(1) have "identity_of ` set (links d) \<subseteq> identity_of ` set (links d')"
    by (metis (mono_tags, lifting) Un_upper1 links_grow_def list.set_map set_append)
  with link_by_id_SomeD [OF assms(3)] obtain m where m: "m \<in> set (links d')"
    "identity_of m = identity_of l" by (metis imageE imageI subsetD)
  then have "lk_id m = lk_id l'"
    using link_by_id_SomeD [OF assms(3)] link_by_id_SomeD [OF assms(4)]
    by (simp add: identity_of_def)
  then have "m = l'"
    using distinct_key_eq [of lk_id "links d'" m l'] m(1) link_by_id_SomeD [OF assms(4)] assms(2)
    by (simp add: links_wf_def)
  with m show ?thesis by simp
qed

lemma create_or_restore_grow: "wp (create_or_restore i now u t c) (\<lambda>_. links_grow d) d"
  unfolding create_or_restore_def create_or_restore_tx_def
  by (auto simp: wp_simps split: option.splits intro!: wp_insert_link intro: links_grow_insert)

lemma change_status_from_grow: "wp (change_status_from d0 now u i st) (\<lambda>_. links_grow d) d"
  unfolding change_status_from_def
  by (auto simp: wp_simps split: option.splits)

section \<open>Histories\<close>

text \<open>
  The states of the database under any interleaving of the repository's transactions, newest
  first. A status change may have made its first, unlocked read in any earlier state. A step that
  leaves the table \<open>links\<close> alone stands for the rest of the program.
\<close>

inductive links_history :: "db list \<Rightarrow> bool" where
  start: "links d = [] \<Longrightarrow> links_history [d]"
| create: "links_history (d # ds) \<Longrightarrow> create_or_restore i now u t c d = (r, d')
    \<Longrightarrow> links_history (d' # d # ds)"
| change: "links_history (d # ds) \<Longrightarrow> d0 \<in> set (d # ds)
    \<Longrightarrow> change_status_from d0 now u i st d = (r, d') \<Longrightarrow> links_history (d' # d # ds)"
| other: "links_history (d # ds) \<Longrightarrow> links d' = links d \<Longrightarrow> links_history (d' # d # ds)"

lemma links_wf_same: "links d' = links d \<Longrightarrow> links_wf d' = links_wf d"
  by (simp add: links_wf_def count_active_links_def)

lemma links_history_inv:
  "links_history h \<Longrightarrow> h \<noteq> [] \<and> links_wf (hd h) \<and> (\<forall>d0 \<in> set h. links_grow d0 (hd h))"
proof (induction rule: links_history.induct)
  case (start d)
  then show ?case by (auto simp: links_wf_def count_active_links_def)
next
  case (create d ds i now u t c r d')
  have "links_wf d'"
    using keepsD [OF keeps_create_or_restore _ create.hyps(2)] create.IH by simp
  moreover have "links_grow d d'"
    using wp_run [OF create_or_restore_grow create.hyps(2)] .
  ultimately show ?case using create.IH by (auto intro: links_grow_trans)
next
  case (change d ds d0 now u i st r d')
  then have wf: "links_wf d" and g: "links_grow d0 d" by auto
  have own: "lk_user_id l' = lk_user_id l"
    if "link_by_id i d0 = Some l" "link_by_id i d = Some l'" for l l'
    using links_grow_owner [OF g wf that] by (simp add: identity_of_def)
  have "links_wf d'"
    by (rule wp_run [OF change_status_from_wf [OF wf own] change.hyps(3)])
  moreover have "links_grow d d'"
    using wp_run [OF change_status_from_grow change.hyps(3)] .
  ultimately show ?case using change.IH by (auto intro: links_grow_trans)
next
  case (other d ds d')
  have "links_wf d'" using other.IH links_wf_same [OF other.hyps(2)] by simp
  moreover have "links_grow d d'" using other.hyps(2) by (rule links_grow_same)
  ultimately show ?case using other.IH by (auto intro: links_grow_trans)
qed

text \<open>
  Property C2. Whatever creations, restorations, deactivations and reactivations run, in any order
  and with any stale first read, every user has at most ten active links at every moment, and the
  identifiers, the short codes and the pairs of owner and destination stay unique.
\<close>

theorem active_link_limit:
  assumes "links_history (d # ds)"
  shows "count_active_links u d \<le> 10
    \<and> distinct (map lk_id (links d))
    \<and> distinct (map lk_short_code (links d))
    \<and> distinct (map (\<lambda>l. (lk_user_id l, lk_destination_url l)) (links d))"
  using links_history_inv [OF assms] by (simp add: links_wf_def MAX_ACTIVE_LINKS_PER_USER_def)

end
