(* ===== verification/LinksSpec.thy ===== *)
theory LinksSpec
  imports LinksRepo
begin

text \<open>
  What the links repository promises, independently of rows, identifiers and timestamps: a map
  from owner and destination to short code and status. The transactions of LinksRepo refine it.
  Listing is characterised here too.
\<close>

section \<open>The abstract collection of links\<close>

type_synonym links_view = "uuid \<times> string \<Rightarrow> (string \<times> link_status) option"

definition view_of :: "db \<Rightarrow> links_view" where
  "view_of d = (\<lambda>(u, t).
     map_option (\<lambda>l. (lk_short_code l, lk_status l)) (find_by_destination u t d))"

definition active_slots :: "links_view \<Rightarrow> uuid \<Rightarrow> nat" where
  "active_slots v u = card {t. \<exists>c. v (u, t) = Some (c, ACTIVE)}"

definition codes_in_use :: "links_view \<Rightarrow> string set" where
  "codes_in_use v = {c. \<exists>k st. v k = Some (c, st)}"

datatype create_kind = KCreated | KExisting | KReactivated | KLimit | KCollision

fun kind_of :: "create_result \<Rightarrow> create_kind" where
  "kind_of (Created l) = KCreated"
| "kind_of (Existing l) = KExisting"
| "kind_of (Reactivated l) = KReactivated"
| "kind_of CreateLimitReached = KLimit"
| "kind_of ShortCodeCollision = KCollision"

fun result_link :: "create_result \<Rightarrow> link option" where
  "result_link (Created l) = Some l"
| "result_link (Existing l) = Some l"
| "result_link (Reactivated l) = Some l"
| "result_link _ = None"

definition spec_create ::
  "links_view \<Rightarrow> uuid \<Rightarrow> string \<Rightarrow> string \<Rightarrow> create_kind \<times> links_view" where
  "spec_create v u t c =
     (case v (u, t) of
        Some (c', ACTIVE) \<Rightarrow> (KExisting, v)
      | Some (c', DEACTIVATED) \<Rightarrow>
          if 10 \<le> active_slots v u then (KLimit, v)
          else (KReactivated, v((u, t) \<mapsto> (c', ACTIVE)))
      | None \<Rightarrow>
          if 10 \<le> active_slots v u then (KLimit, v)
          else if c \<in> codes_in_use v then (KCollision, v)
          else (KCreated, v((u, t) \<mapsto> (c, ACTIVE))))"

section \<open>Refinement\<close>

lemma find_by_destination_row:
  "links_wf d \<Longrightarrow> l \<in> set (links d) \<Longrightarrow>
     find_by_destination (lk_user_id l) (lk_destination_url l) d = Some l"
  using find_unique_key [of "\<lambda>l. (lk_user_id l, lk_destination_url l)" "links d" l]
  by (simp add: links_wf_def find_by_destination_def)

lemma view_row:
  "links_wf d \<Longrightarrow> l \<in> set (links d) \<Longrightarrow>
     view_of d (lk_user_id l, lk_destination_url l) = Some (lk_short_code l, lk_status l)"
  by (simp add: view_of_def find_by_destination_row)

lemma view_SomeD:
  "view_of d (u, t) = Some (c, st) \<Longrightarrow>
     \<exists>l \<in> set (links d). lk_user_id l = u \<and> lk_destination_url l = t
       \<and> lk_short_code l = c \<and> lk_status l = st"
  by (auto simp: view_of_def dest!: find_by_destination_SomeD)

lemma codes_in_use_view:
  assumes "links_wf d"
  shows "codes_in_use (view_of d) = lk_short_code ` set (links d)"
proof (intro set_eqI iffI)
  fix c
  assume "c \<in> codes_in_use (view_of d)"
  then show "c \<in> lk_short_code ` set (links d)"
    by (force simp: codes_in_use_def dest: view_SomeD)
next
  fix c
  assume "c \<in> lk_short_code ` set (links d)"
  then show "c \<in> codes_in_use (view_of d)"
    using view_row [OF assms] by (force simp: codes_in_use_def)
qed

lemma active_slots_view:
  assumes "links_wf d"
  shows "active_slots (view_of d) u = count_active_links u d"
proof -
  let ?rows = "filter (is_active_of u) (links d)"
  have "distinct (map (\<lambda>l. (lk_user_id l, lk_destination_url l)) ?rows)"
    using assms by (simp add: links_wf_def distinct_map_filter)
  then have inj: "inj_on lk_destination_url (set ?rows)" and dis: "distinct ?rows"
    by (auto simp: distinct_map inj_on_def is_active_of_def)
  have "{t. \<exists>c. view_of d (u, t) = Some (c, ACTIVE)} = lk_destination_url ` set ?rows"
    using view_row [OF assms]
    by (force simp: is_active_of_def dest: view_SomeD)
  then show ?thesis
    using inj dis
    by (simp only: active_slots_def count_active_links_def card_image distinct_card)
qed

lemma view_activate:
  assumes "links_wf d" and "find_by_destination u t d = Some l"
  shows "view_of (activate_row now st (lk_id l) d) =
           (view_of d)((u, t) \<mapsto> (lk_short_code l, st))"
proof
  fix k :: "uuid \<times> string"
  obtain u' t' where k: "k = (u', t')" by force
  have l: "l \<in> set (links d)" "lk_user_id l = u" "lk_destination_url l = t"
    using find_by_destination_SomeD [OF assms(2)] by auto
  have upd: "find_by_destination u' t' (activate_row now st (lk_id l) d) =
     map_option (\<lambda>r. if lk_id r = lk_id l then r\<lparr>lk_status := st, lk_updated_at := now\<rparr> else r)
       (find_by_destination u' t' d)"
    by (simp add: find_by_destination_def activate_row_def find_update_where)
  show "view_of (activate_row now st (lk_id l) d) k =
          ((view_of d)((u, t) \<mapsto> (lk_short_code l, st))) k"
  proof (cases "(u', t') = (u, t)")
    case True
    with upd assms(2) show ?thesis by (simp add: k view_of_def)
  next
    case False
    have "lk_id r \<noteq> lk_id l" if "find_by_destination u' t' d = Some r" for r
      using find_by_destination_SomeD [OF that] l False assms(1)
        distinct_key_eq [of lk_id "links d" r l]
      by (auto simp: links_wf_def)
    with upd False show ?thesis
      by (cases "find_by_destination u' t' d") (auto simp: k view_of_def)
  qed
qed

lemma view_append:
  assumes "find_by_destination (lk_user_id l) (lk_destination_url l) d = None"
  shows "view_of (d\<lparr>links := links d @ [l]\<rparr>) =
    (view_of d)((lk_user_id l, lk_destination_url l) \<mapsto> (lk_short_code l, lk_status l))"
  using assms
  by (auto simp: fun_eq_iff view_of_def find_by_destination_def find_append split: option.splits)

lemma short_code_detail_collides:
  "is_short_code_collision (unique_violation k (link_detail_code l))"
proof -
  have "to_lower_case (link_detail_code l) =
      ''key ('' @ [CHR 0x22] @ ''shortcode''
        @ to_lower_case ([CHR 0x22] @ '')=('' @ lk_short_code l @ '') already exists.'')"
    by (simp add: link_detail_code_def lower_case_eval)
  then have "js_includes ''shortcode'' (to_lower_case (link_detail_code l))"
    unfolding js_includes_iff by (metis append.assoc)
  then have "js_includes ''shortcode''
      (to_lower_case (k @ '' '') @ to_lower_case (link_detail_code l))"
    by (rule js_includes_appendI2)
  then show ?thesis
    by (simp add: is_short_code_collision_def unique_violation_def del: append_Cons)
qed

lemma insert_link_cases:
  assumes "lk_id l \<notin> lk_id ` set (links d)" and "length (lk_short_code l) \<le> 6"
    and "length (lk_destination_url l) \<le> 2048"
    and "find_by_destination (lk_user_id l) (lk_destination_url l) d = None"
  shows "insert_link l d =
    (if lk_short_code l \<in> lk_short_code ` set (links d)
     then (Inl (unique_violation ''IDX_f5e434d70a12e8e6544fdbda8b'' (link_detail_code l)), d)
     else (Inr l, d\<lparr>links := links d @ [l]\<rparr>))"
proof -
  have "(lk_user_id l, lk_destination_url l)
     \<notin> (\<lambda>r. (lk_user_id r, lk_destination_url r)) ` set (links d)"
    using find_NoneD [OF assms(4) [unfolded find_by_destination_def]] by fastforce
  with assms(1-3) show ?thesis by (simp add: insert_link_def)
qed

text \<open>
  Property C14. Creating a link refines the abstract specification: an active link to the same
  destination is returned, a deactivated one is reactivated with its old short code if a slot is
  free, otherwise a new link is created with the given code unless the code is taken; in every
  other case nothing changes. The returned link is the user's active link to that destination.
\<close>

theorem create_or_restore_refines:
  assumes wf: "links_wf d" and acc: "account_by_id u d = Some a"
    and new: "i \<notin> lk_id ` set (links d)" and len: "length c \<le> 6" "length t \<le> 2048"
  shows "case create_or_restore i now u t c d of
      (Inl e, d') \<Rightarrow> False
    | (Inr x, d') \<Rightarrow>
        (kind_of x, view_of d') = spec_create (view_of d) u t c
        \<and> (case result_link x of
             None \<Rightarrow> d' = d
           | Some l \<Rightarrow> lk_user_id l = u \<and> lk_destination_url l = t \<and> lk_status l = ACTIVE
               \<and> view_of d' (u, t) = Some (lk_short_code l, ACTIVE))"
proof (cases "find_by_destination u t d")
  case None
  have spec: "view_of d (u, t) = None" using None by (simp add: view_of_def)
  have ins: "insert_link (new_link i u c t now) d =
    (if c \<in> lk_short_code ` set (links d)
     then (Inl (unique_violation ''IDX_f5e434d70a12e8e6544fdbda8b''
                  (link_detail_code (new_link i u c t now))), d)
     else (Inr (new_link i u c t now), d\<lparr>links := links d @ [new_link i u c t now]\<rparr>))"
    using insert_link_cases [of "new_link i u c t now" d] new len None
    by (simp add: new_link_def)
  have app: "view_of (d\<lparr>links := links d @ [new_link i u c t now]\<rparr>) =
      (view_of d)((u, t) \<mapsto> (c, ACTIVE))"
    using view_append [of "new_link i u c t now" d] None by (simp add: new_link_def)
  show ?thesis
    using None acc spec ins app short_code_detail_collides
    by (auto simp: create_or_restore_def create_or_restore_tx_def transaction_def lock_account_def
        run_simps spec_create_def active_slots_view [OF wf] codes_in_use_view [OF wf]
        MAX_ACTIVE_LINKS_PER_USER_def new_link_def)
next
  case (Some l)
  have l: "lk_user_id l = u" "lk_destination_url l = t"
    using find_by_destination_SomeD [OF Some] by auto
  have spec: "view_of d (u, t) = Some (lk_short_code l, lk_status l)"
    using Some by (simp add: view_of_def)
  show ?thesis
    using Some acc spec l view_activate [OF wf Some]
    by (cases "lk_status l")
      (auto simp: create_or_restore_def create_or_restore_tx_def transaction_def lock_account_def
        run_simps spec_create_def active_slots_view [OF wf] save_link_status_run
        MAX_ACTIVE_LINKS_PER_USER_def)
qed

text \<open>
  Property C15. A status change decides as specified: unknown link, someone else's link, nothing to
  do, no free slot, or the change; only the last writes, and it writes only the status of that
  link. Two users never interfere: the outcome depends on the caller's own links.
\<close>

theorem change_status_refines:
  assumes wf: "links_wf d" and acc: "account_by_id u d = Some a"
  shows "case change_status now u i st d of
      (Inl e, d') \<Rightarrow> False
    | (Inr r, d') \<Rightarrow>
        (case link_by_id i d of
           None \<Rightarrow> r = ChangeNotFound \<and> d' = d
         | Some l \<Rightarrow>
             if lk_user_id l \<noteq> u then r = ChangeForbidden \<and> d' = d
             else if lk_status l = st then r = Unchanged l \<and> d' = d
             else if st = ACTIVE \<and> 10 \<le> active_slots (view_of d) u
             then r = ChangeLimitReached \<and> d' = d
             else r = Changed (l\<lparr>lk_status := st, lk_updated_at := now\<rparr>)
               \<and> view_of d' = (view_of d)((u, lk_destination_url l) \<mapsto> (lk_short_code l, st)))"
proof (cases "link_by_id i d")
  case None
  then show ?thesis
    by (simp add: change_status_def change_status_from_def transaction_def run_simps)
next
  case (Some l)
  have l: "l \<in> set (links d)" "lk_id l = i" using link_by_id_SomeD [OF Some] by auto
  have f: "lk_user_id l = u \<Longrightarrow> find_by_destination u (lk_destination_url l) d = Some l"
    using find_by_destination_row [OF wf l(1)] by simp
  show ?thesis
    using Some acc l f view_activate [OF wf f]
    by (auto simp: change_status_def change_status_from_def transaction_def lock_account_def
        run_simps save_link_status_run active_slots_view [OF wf] MAX_ACTIVE_LINKS_PER_USER_def)
qed

lemma active_slots_drop:
  assumes "v (u, t) = Some (c, ACTIVE)" and "finite {t. \<exists>c. v (u, t) = Some (c, ACTIVE)}"
  shows "active_slots (v((u, t) \<mapsto> (c, DEACTIVATED))) u < active_slots v u"
  unfolding active_slots_def
proof (rule psubset_card_mono [OF assms(2)])
  show "{t'. \<exists>c'. (v((u, t) \<mapsto> (c, DEACTIVATED))) (u, t') = Some (c', ACTIVE)}
      \<subset> {t. \<exists>c. v (u, t) = Some (c, ACTIVE)}"
    using assms(1) by auto
qed

lemma finite_active_view:
  "finite {t. \<exists>c. view_of d (u, t) = Some (c, ACTIVE)}"
proof (rule finite_subset)
  show "{t. \<exists>c. view_of d (u, t) = Some (c, ACTIVE)} \<subseteq> lk_destination_url ` set (links d)"
    by (force dest: view_SomeD)
qed simp

section \<open>Listing\<close>

lemma set_insert_listed [simp]: "set (insert_listed x ys) = insert x (set ys)"
  by (induction ys) auto

lemma set_sort_listed [simp]: "set (sort_listed xs) = set xs"
  by (induction xs) auto

lemma length_sort_listed [simp]: "length (sort_listed xs) = length xs"
proof -
  have "length (insert_listed x ys) = Suc (length ys)" for x ys by (induction ys) auto
  then show ?thesis by (induction xs) auto
qed

lemma listed_before_trans: "listed_before a b \<Longrightarrow> listed_before b c \<Longrightarrow> listed_before a c"
  by (auto simp: listed_before_def intro: js_less_trans)

lemma listed_before_total: "lk_id a \<noteq> lk_id b \<Longrightarrow> listed_before a b \<or> listed_before b a"
  using js_less_linear [of "lk_id a" "lk_id b"] by (auto simp: listed_before_def)

lemma sorted_insert_listed:
  assumes "sorted_wrt listed_before ys" and "lk_id x \<notin> lk_id ` set ys"
  shows "sorted_wrt listed_before (insert_listed x ys)"
  using assms
proof (induction ys)
  case (Cons y ys)
  show ?case
  proof (cases "listed_before y x")
    case True
    with Cons show ?thesis by auto
  next
    case False
    with Cons.prems(2) listed_before_total [of x y] have "listed_before x y" by auto
    with False Cons.prems(1) show ?thesis by (auto intro: listed_before_trans)
  qed
qed simp

lemma sorted_sort_listed:
  "distinct (map lk_id xs) \<Longrightarrow> sorted_wrt listed_before (sort_listed xs)"
  by (induction xs) (auto intro!: sorted_insert_listed)

lemma take_chunks:
  "concat (map (\<lambda>p. take n (drop ((p - 1) * n) xs)) [1..<Suc k]) = take (k * n) xs"
proof (induction k)
  case (Suc k)
  have "take (Suc k * n) xs = take (k * n) xs @ take n (drop (k * n) xs)"
    using take_add [of "k * n" n xs] by (simp add: add.commute)
  with Suc show ?case by simp
qed simp

lemma ceil_div_covers: "0 < n \<Longrightarrow> m \<le> ceil_div m n * n"
proof -
  assume n: "0 < n"
  have "m + n - 1 = (m + n - 1) div n * n + (m + n - 1) mod n" by simp
  moreover have "(m + n - 1) mod n < n" using n by simp
  ultimately show ?thesis using n unfolding ceil_div_def by linarith
qed

definition listed_items :: "uuid \<Rightarrow> nat \<Rightarrow> status_filter \<Rightarrow> db \<Rightarrow> nat \<Rightarrow> link list" where
  "listed_items u lim f d p =
     (case fst (list_by_user u \<lparr>lq_page = p, lq_limit = lim, lq_status = f\<rparr> d) of
        Inl e \<Rightarrow> [] | Inr pg \<Rightarrow> pl_items pg)"

definition listed_pages :: "uuid \<Rightarrow> nat \<Rightarrow> status_filter \<Rightarrow> db \<Rightarrow> nat" where
  "listed_pages u lim f d =
     (case fst (list_by_user u \<lparr>lq_page = 1, lq_limit = lim, lq_status = f\<rparr> d) of
        Inl e \<Rightarrow> 0 | Inr pg \<Rightarrow> pl_total_pages pg)"

text \<open>
  Property C29. Paging through a listing yields every link of the user that passes the filter, each
  once, newest first with the identifier as tie-break, in pages of at most the limit; \<open>totalPages\<close>
  is the number of pages that does it.
\<close>

theorem listing_complete:
  assumes "links_wf d" and "0 < lim"
  shows "(let all = concat (map (listed_items u lim f d) [1..<Suc (listed_pages u lim f d)])
      in set all = {l \<in> set (links d). lk_user_id l = u \<and> matches_filter f l}
         \<and> distinct (map lk_id all) \<and> sorted_wrt listed_before all
         \<and> (\<forall>p. length (listed_items u lim f d p) \<le> lim))"
proof -
  let ?rows = "matching_links u f d"
  have items: "listed_items u lim f d p = take lim (drop ((p - 1) * lim) ?rows)" for p
    by (simp add: listed_items_def list_by_user_def run_simps Let_def)
  have pages: "listed_pages u lim f d = (if ?rows = [] then 0 else ceil_div (length ?rows) lim)"
    by (simp add: listed_pages_def list_by_user_def run_simps Let_def)
  have "concat (map (listed_items u lim f d) [1..<Suc (listed_pages u lim f d)]) =
      take (listed_pages u lim f d * lim) ?rows"
    using take_chunks [of lim ?rows] by (simp add: items [abs_def])
  also have "\<dots> = ?rows"
    using ceil_div_covers [OF assms(2), of "length ?rows"] by (simp add: pages)
  finally have all: "concat (map (listed_items u lim f d) [1..<Suc (listed_pages u lim f d)]) = ?rows" .
  have dis: "distinct (map lk_id (filter (\<lambda>l. lk_user_id l = u \<and> matches_filter f l) (links d)))"
    using assms(1) by (simp add: links_wf_def distinct_map_filter)
  have "distinct (map lk_id ?rows)"
    by (metis (no_types, lifting) dis card_distinct distinct_card length_map length_sort_listed
        list.set_map matching_links_def set_sort_listed)
  with all dis show ?thesis
    by (auto simp: matching_links_def items sorted_sort_listed Let_def)
qed

end
