(* ===== verification/JsRegex.thy ===== *)
theory JsRegex
  imports Prelude
begin

text \<open>
  The regular expressions of the source, all anchored with \<open>^\<close> and \<open>$\<close>: character classes,
  concatenation, alternation and repetition, without back references. \<open>rx_test\<close> decides a match
  by derivatives; \<open>in_lang\<close> is the declarative meaning, and the two agree. Each pattern of the
  source is written with these constructors where it is used.
\<close>

datatype rx =
    RxFail
  | RxEps
  | RxClass "char \<Rightarrow> bool"
  | RxSeq rx rx
  | RxAlt rx rx
  | RxStar rx

fun rx_nullable :: "rx \<Rightarrow> bool" where
  "rx_nullable RxFail = False"
| "rx_nullable RxEps = True"
| "rx_nullable (RxClass f) = False"
| "rx_nullable (RxSeq r s) = (rx_nullable r \<and> rx_nullable s)"
| "rx_nullable (RxAlt r s) = (rx_nullable r \<or> rx_nullable s)"
| "rx_nullable (RxStar r) = True"

fun rx_deriv :: "char \<Rightarrow> rx \<Rightarrow> rx" where
  "rx_deriv c RxFail = RxFail"
| "rx_deriv c RxEps = RxFail"
| "rx_deriv c (RxClass f) = (if f c then RxEps else RxFail)"
| "rx_deriv c (RxSeq r s) =
     (if rx_nullable r then RxAlt (RxSeq (rx_deriv c r) s) (rx_deriv c s)
      else RxSeq (rx_deriv c r) s)"
| "rx_deriv c (RxAlt r s) = RxAlt (rx_deriv c r) (rx_deriv c s)"
| "rx_deriv c (RxStar r) = RxSeq (rx_deriv c r) (RxStar r)"

fun rx_test :: "rx \<Rightarrow> string \<Rightarrow> bool" where
  "rx_test r [] = rx_nullable r"
| "rx_test r (c # s) = rx_test (rx_deriv c r) s"

definition rx_plus :: "rx \<Rightarrow> rx" where
  "rx_plus r = RxSeq r (RxStar r)"

fun rx_times :: "nat \<Rightarrow> rx \<Rightarrow> rx" where
  "rx_times 0 r = RxEps"
| "rx_times (Suc n) r = RxSeq r (rx_times n r)"

fun rx_lit :: "string \<Rightarrow> rx" where
  "rx_lit [] = RxEps"
| "rx_lit (c # s) = RxSeq (RxClass (\<lambda>d. d = c)) (rx_lit s)"

definition char_range :: "char \<Rightarrow> char \<Rightarrow> char \<Rightarrow> bool" where
  "char_range a b c \<longleftrightarrow> (of_char a :: nat) \<le> of_char c \<and> (of_char c :: nat) \<le> of_char b"

definition is_digit :: "char \<Rightarrow> bool" where
  "is_digit = char_range (CHR ''0'') (CHR ''9'')"

definition is_upper :: "char \<Rightarrow> bool" where
  "is_upper = char_range (CHR ''A'') (CHR ''Z'')"

definition is_lower :: "char \<Rightarrow> bool" where
  "is_lower = char_range (CHR ''a'') (CHR ''z'')"

section \<open>Meaning\<close>

inductive in_lang :: "rx \<Rightarrow> string \<Rightarrow> bool" where
  eps: "in_lang RxEps []"
| cls: "f c \<Longrightarrow> in_lang (RxClass f) [c]"
| seq: "in_lang r u \<Longrightarrow> in_lang s v \<Longrightarrow> in_lang (RxSeq r s) (u @ v)"
| alt1: "in_lang r u \<Longrightarrow> in_lang (RxAlt r s) u"
| alt2: "in_lang s u \<Longrightarrow> in_lang (RxAlt r s) u"
| star0: "in_lang (RxStar r) []"
| star1: "in_lang r u \<Longrightarrow> in_lang (RxStar r) v \<Longrightarrow> in_lang (RxStar r) (u @ v)"

inductive_simps in_lang_fail [simp]: "in_lang RxFail s"
inductive_simps in_lang_eps [simp]: "in_lang RxEps s"
inductive_simps in_lang_class: "in_lang (RxClass f) s"
inductive_simps in_lang_seq: "in_lang (RxSeq r t) s"
inductive_simps in_lang_alt [simp]: "in_lang (RxAlt r t) s"
inductive_cases in_lang_starE: "in_lang (RxStar r) s"

lemma in_lang_class_iff [simp]: "in_lang (RxClass f) s \<longleftrightarrow> (\<exists>c. s = [c] \<and> f c)"
  by (auto simp: in_lang_class)

lemma in_lang_seq_iff: "in_lang (RxSeq r t) s \<longleftrightarrow> (\<exists>u v. s = u @ v \<and> in_lang r u \<and> in_lang t v)"
  by (auto simp: in_lang_seq)

lemma in_lang_seq_class [simp]:
  "in_lang (RxSeq (RxClass f) t) s \<longleftrightarrow> (\<exists>c v. s = c # v \<and> f c \<and> in_lang t v)"
  by (simp add: in_lang_seq_iff) (metis append_Cons append_Nil)

lemma nullable_iff: "rx_nullable r \<longleftrightarrow> in_lang r []"
  by (induction r) (auto simp: in_lang_seq_iff intro: star0)

lemma star_ConsD:
  "in_lang (RxStar r) w \<Longrightarrow> w = c # s \<Longrightarrow>
     \<exists>u v. s = u @ v \<and> in_lang r (c # u) \<and> in_lang (RxStar r) v"
proof (induction "RxStar r" w rule: in_lang.induct)
  case (star1 u v)
  show ?case
  proof (cases u)
    case Nil
    with star1 show ?thesis by simp
  next
    case (Cons d u')
    with star1 have "d = c" "s = u' @ v" "in_lang r (c # u')" by auto
    with star1(3) show ?thesis by blast
  qed
qed simp

lemma deriv_iff: "in_lang (rx_deriv c r) s \<longleftrightarrow> in_lang r (c # s)"
proof (induction r arbitrary: s)
  case (RxSeq r t)
  show ?case
  proof
    assume "in_lang (rx_deriv c (RxSeq r t)) s"
    then consider u v where "s = u @ v" "in_lang r (c # u)" "in_lang t v"
      | "in_lang r []" "in_lang t (c # s)"
      using RxSeq by (auto simp: in_lang_seq_iff nullable_iff split: if_splits)
    then show "in_lang (RxSeq r t) (c # s)"
    proof cases
      case (1 u v)
      then have "c # s = (c # u) @ v" by simp
      with 1 show ?thesis by (metis seq)
    next
      case 2
      then show ?thesis by (metis append_Nil seq)
    qed
  next
    assume "in_lang (RxSeq r t) (c # s)"
    then obtain u v where uv: "c # s = u @ v" "in_lang r u" "in_lang t v"
      by (auto simp: in_lang_seq_iff)
    show "in_lang (rx_deriv c (RxSeq r t)) s"
    proof (cases u)
      case Nil
      with uv RxSeq show ?thesis by (simp add: nullable_iff)
    next
      case (Cons d u')
      with uv have "s = u' @ v" "in_lang r (c # u')" by auto
      with uv(3) RxSeq have "in_lang (RxSeq (rx_deriv c r) t) s"
        by (auto simp: in_lang_seq_iff)
      then show ?thesis by simp
    qed
  qed
next
  case (RxStar r)
  show ?case
  proof
    assume "in_lang (rx_deriv c (RxStar r)) s"
    then obtain u v where "s = u @ v" "in_lang r (c # u)" "in_lang (RxStar r) v"
      using RxStar by (auto simp: in_lang_seq_iff)
    then show "in_lang (RxStar r) (c # s)" by (metis append_Cons star1)
  next
    assume "in_lang (RxStar r) (c # s)"
    then obtain u v where "s = u @ v" "in_lang r (c # u)" "in_lang (RxStar r) v"
      by (meson star_ConsD)
    then show "in_lang (rx_deriv c (RxStar r)) s"
      using RxStar by (auto simp: in_lang_seq_iff)
  qed
qed auto

lemma rx_test_iff: "rx_test r s \<longleftrightarrow> in_lang r s"
  by (induction r s rule: rx_test.induct) (simp_all add: nullable_iff deriv_iff)

section \<open>The shapes the source's patterns use\<close>

lemma star_class_iff: "in_lang (RxStar (RxClass f)) s \<longleftrightarrow> (\<forall>c \<in> set s. f c)"
proof
  assume "in_lang (RxStar (RxClass f)) s"
  then show "\<forall>c \<in> set s. f c"
    by (induction "RxStar (RxClass f)" s rule: in_lang.induct) auto
next
  assume "\<forall>c \<in> set s. f c"
  then show "in_lang (RxStar (RxClass f)) s"
  proof (induction s)
    case Nil
    show ?case by (rule star0)
  next
    case (Cons c s)
    then have "in_lang (RxStar (RxClass f)) ([c] @ s)" by (intro star1) auto
    then show ?case by simp
  qed
qed

lemma plus_class_iff: "in_lang (rx_plus (RxClass f)) s \<longleftrightarrow> s \<noteq> [] \<and> (\<forall>c \<in> set s. f c)"
  by (cases s) (auto simp: rx_plus_def star_class_iff)

lemma times_class_iff:
  "in_lang (rx_times n (RxClass f)) s \<longleftrightarrow> length s = n \<and> (\<forall>c \<in> set s. f c)"
proof (induction n arbitrary: s)
  case (Suc n)
  show ?case by (cases s) (auto simp: Suc)
qed auto

lemma lit_iff: "in_lang (rx_lit w) s \<longleftrightarrow> s = w"
  by (induction w arbitrary: s) auto

lemma lit_seq_iff: "in_lang (RxSeq (rx_lit w) t) s \<longleftrightarrow> (\<exists>v. s = w @ v \<and> in_lang t v)"
  by (simp add: in_lang_seq_iff lit_iff)

lemmas rx_shapes = plus_class_iff times_class_iff star_class_iff lit_iff

lemmas char_classes = is_digit_def is_upper_def is_lower_def char_range_def

end
