(* ===== verification/Decimals.thy ===== *)
theory Decimals
  imports JsRegex
begin

text \<open>
  Decimal numerals: \<open>toString\<close> of a non-negative integer, \<open>padStart\<close> with zeros, and
  \<open>Number\<close> of a string of digits, with their round trip. Dates, months and verification codes
  use them.
\<close>

definition digit_char :: "nat \<Rightarrow> char" where
  "digit_char n = char_of (48 + n)"

definition digit_value :: "char \<Rightarrow> nat" where
  "digit_value c = of_char c - 48"

fun nat_to_string :: "nat \<Rightarrow> string" where
  "nat_to_string n =
     (if n < 10 then [digit_char n] else nat_to_string (n div 10) @ [digit_char (n mod 10)])"

declare nat_to_string.simps [simp del]

definition pad_start :: "nat \<Rightarrow> char \<Rightarrow> string \<Rightarrow> string" where
  "pad_start w c s = replicate (w - length s) c @ s"

definition digits_value :: "string \<Rightarrow> nat" where
  "digits_value s = foldl (\<lambda>a c. 10 * a + digit_value c) 0 s"

text \<open>The numeral of \<open>n\<close> with exactly \<open>w\<close> digits.\<close>

fun fixed_digits :: "nat \<Rightarrow> nat \<Rightarrow> string" where
  "fixed_digits 0 n = []"
| "fixed_digits (Suc w) n = fixed_digits w (n div 10) @ [digit_char (n mod 10)]"

lemma of_char_digit [simp]: "n < 10 \<Longrightarrow> (of_char (digit_char n) :: nat) = 48 + n"
  by (simp add: digit_char_def)

lemma digit_value_char [simp]: "n < 10 \<Longrightarrow> digit_value (digit_char n) = n"
  by (simp add: digit_value_def)

lemma is_digit_char [simp]: "n < 10 \<Longrightarrow> is_digit (digit_char n)"
  by (simp add: char_classes)

lemma is_digit_range: "is_digit c \<longleftrightarrow> 48 \<le> (of_char c :: nat) \<and> (of_char c :: nat) \<le> 57"
  by (simp add: char_classes)

lemma digit_char_value: "is_digit c \<Longrightarrow> digit_char (digit_value c) = c"
  by (simp add: is_digit_range digit_value_def digit_char_def)

lemma digit_value_less: "is_digit c \<Longrightarrow> digit_value c < 10"
  by (auto simp: is_digit_range digit_value_def)

lemma length_fixed_digits [simp]: "length (fixed_digits w n) = w"
  by (induction w arbitrary: n) auto

lemma fixed_digits_are_digits: "c \<in> set (fixed_digits w n) \<Longrightarrow> is_digit c"
  by (induction w arbitrary: n) auto

lemma digits_value_snoc [simp]: "digits_value (s @ [c]) = 10 * digits_value s + digit_value c"
  by (simp add: digits_value_def)

lemma digits_value_Nil [simp]: "digits_value [] = 0"
  by (simp add: digits_value_def)

lemma digits_value_fixed: "n < 10 ^ w \<Longrightarrow> digits_value (fixed_digits w n) = n"
proof (induction w arbitrary: n)
  case (Suc w)
  then have "n div 10 < 10 ^ w" by auto
  with Suc.IH show ?case by simp
qed simp

lemma digits_value_bound: "(\<forall>c \<in> set s. is_digit c) \<Longrightarrow> digits_value s < 10 ^ length s"
proof (induction s rule: rev_induct)
  case (snoc c s)
  then have "digits_value s + 1 \<le> 10 ^ length s" "digit_value c < 10"
    using digit_value_less by (auto simp: Suc_le_eq)
  then show ?case by simp
qed simp

lemma fixed_digits_value:
  "(\<forall>c \<in> set s. is_digit c) \<Longrightarrow> fixed_digits (length s) (digits_value s) = s"
proof (induction s rule: rev_induct)
  case (snoc c s)
  then have "digit_value c < 10" using digit_value_less by auto
  with snoc show ?case by (simp add: digit_char_value)
qed simp

lemma nat_to_string_small: "n < 10 \<Longrightarrow> nat_to_string n = [digit_char n]"
  by (simp add: nat_to_string.simps)

lemma nat_to_string_big:
  "10 \<le> n \<Longrightarrow> nat_to_string n = nat_to_string (n div 10) @ [digit_char (n mod 10)]"
  by (simp add: nat_to_string.simps [of n])

lemma digit_char_0 [simp]: "digit_char 0 = CHR ''0''"
  by (simp add: digit_char_def char_of_eq_iff)

lemma fixed_digits_0: "fixed_digits w 0 = replicate w (CHR ''0'')"
  by (induction w) (auto simp: replicate_append_same)

lemma length_nat_to_string: "n < 10 ^ w \<Longrightarrow> 0 < w \<Longrightarrow> length (nat_to_string n) \<le> w"
proof (induction w arbitrary: n)
  case (Suc w)
  show ?case
  proof (cases "n < 10")
    case False
    with Suc.prems have "n div 10 < 10 ^ w" "0 < w" by (auto intro: gr0I)
    with Suc.IH False show ?thesis by (simp add: nat_to_string_big)
  qed (simp add: nat_to_string_small)
qed simp

lemma pad_start_snoc:
  "pad_start (Suc w) c (s @ [d]) = pad_start w c s @ [d]"
  by (simp add: pad_start_def)

lemma pad_nat_to_string:
  "n < 10 ^ w \<Longrightarrow> 0 < w \<Longrightarrow> pad_start w (CHR ''0'') (nat_to_string n) = fixed_digits w n"
proof (induction w arbitrary: n)
  case (Suc w)
  show ?case
  proof (cases "n < 10")
    case True
    then show ?thesis
      by (simp add: nat_to_string_small pad_start_def fixed_digits_0)
  next
    case False
    with Suc.prems have "n div 10 < 10 ^ w" "0 < w" by (auto intro: gr0I)
    with Suc.IH False show ?thesis by (simp add: nat_to_string_big pad_start_snoc)
  qed
qed simp

end
