(* ===== verification/ValueObjects.thy ===== *)
theory ValueObjects
  imports Decimals Entities
begin

text \<open>
  The value objects (email, password, password hash, destination URL), the request validation
  patterns of auth.dto.ts, and the code generators of node-auth-crypto and
  node-link-code-generator. The WHATWG URL parser is a parameter.
\<close>

section \<open>Email\<close>

definition not_at_space :: "char \<Rightarrow> bool" where
  "not_at_space c \<longleftrightarrow> c \<noteq> CHR ''@'' \<and> \<not> js_space c"

definition EMAIL_PATTERN :: rx where
  "EMAIL_PATTERN =
     RxSeq (rx_plus (RxClass not_at_space))
       (RxSeq (rx_lit ''@'')
         (RxSeq (rx_plus (RxClass not_at_space))
           (RxSeq (rx_lit ''.'') (rx_plus (RxClass not_at_space)))))"

definition email_create :: "string \<Rightarrow> exn + string" where
  "email_create raw =
     (let canonical = to_lower_case (js_trim raw)
      in if rx_test EMAIL_PATTERN canonical then Inr canonical
         else Inl (PlainErr ''Invalid email.''))"

section \<open>Password and password hash\<close>

definition meets_policy :: "string \<Rightarrow> bool" where
  "meets_policy raw \<longleftrightarrow>
     8 \<le> length raw \<and> list_ex is_upper raw \<and> list_ex is_lower raw \<and> list_ex is_digit raw
     \<and> list_ex (\<lambda>c. \<not> (is_upper c \<or> is_lower c \<or> is_digit c)) raw"

definition password_create :: "string \<Rightarrow> exn + string" where
  "password_create raw =
     (if meets_policy raw then Inr raw else Inl (PlainErr ''Invalid password.''))"

definition bcrypt_char :: "char \<Rightarrow> bool" where
  "bcrypt_char c \<longleftrightarrow> c \<in> set ''./'' \<or> is_upper c \<or> is_lower c \<or> is_digit c"

definition BCRYPT_HASH_PATTERN :: rx where
  "BCRYPT_HASH_PATTERN =
     RxSeq (rx_lit ''$2'')
       (RxSeq (RxClass (\<lambda>c. c \<in> set ''aby''))
         (RxSeq (rx_lit ''$'')
           (RxSeq (rx_times 2 (RxClass is_digit))
             (RxSeq (rx_lit ''$'')
               (rx_times 53 (RxClass bcrypt_char))))))"

definition password_hash_create :: "string \<Rightarrow> exn + string" where
  "password_hash_create h =
     (if rx_test BCRYPT_HASH_PATTERN h then Inr h else Inl (PlainErr ''Invalid password hash.''))"

section \<open>Request validation\<close>

definition rx_any :: rx where
  "rx_any = RxStar (RxClass (\<lambda>c. True))"

text \<open>The dot of a pattern: any code unit but a line terminator.\<close>

definition rx_dots :: rx where
  "rx_dots = RxStar (RxClass (\<lambda>c. \<not> line_terminator c))"

definition lookahead :: "(char \<Rightarrow> bool) \<Rightarrow> rx" where
  "lookahead f = RxSeq rx_dots (RxSeq (RxClass f) rx_any)"

definition PASSWORD_POLICY :: "string \<Rightarrow> bool" where
  "PASSWORD_POLICY s \<longleftrightarrow>
     rx_test (lookahead is_lower) s \<and> rx_test (lookahead is_upper) s
     \<and> rx_test (lookahead is_digit) s
     \<and> rx_test (lookahead (\<lambda>c. \<not> (is_upper c \<or> is_lower c \<or> is_digit c))) s
     \<and> rx_test (RxSeq (rx_times 8 (RxClass (\<lambda>c. \<not> line_terminator c))) rx_dots) s"

definition CODE_PATTERN :: rx where
  "CODE_PATTERN = rx_times 6 (RxClass is_digit)"

definition code_dto_valid :: "string \<Rightarrow> bool" where
  "code_dto_valid code \<longleftrightarrow> length code = 6 \<and> rx_test CODE_PATTERN code"

section \<open>Verification codes and link codes\<close>

definition generate_verification_code :: "nat \<Rightarrow> string" where
  "generate_verification_code n = pad_start 6 (CHR ''0'') (nat_to_string (n mod 1000000))"

definition ALPHABET :: string where
  "ALPHABET = ''ABCDEFGHIJKLMNOPQRSTUVWXYZ0123456789''"

text \<open>The code built from the random indices \<open>draws\<close>, each below the alphabet's length.\<close>

fun generate_link_code :: "nat \<Rightarrow> (nat \<Rightarrow> nat) \<Rightarrow> nat \<Rightarrow> string" where
  "generate_link_code 0 draws k = []"
| "generate_link_code (Suc n) draws k =
     ALPHABET ! (draws k mod length ALPHABET) # generate_link_code n draws (Suc k)"

definition CODE_LENGTH :: nat where
  "CODE_LENGTH = 6"

definition SHORT_CODE_PATTERN :: rx where
  "SHORT_CODE_PATTERN = rx_times 6 (RxClass (\<lambda>c. is_upper c \<or> is_digit c))"

section \<open>Destination URL\<close>

record url =
  url_protocol :: string
  url_username :: string
  url_password :: string
  url_href :: string
  url_origin :: string
  url_pathname :: string
  url_search :: string
  url_hash :: string

type_synonym url_parser = "string \<Rightarrow> url option"

definition MAX_CANONICAL_LENGTH :: nat where
  "MAX_CANONICAL_LENGTH = 2048"

definition destination_url_create :: "url_parser \<Rightarrow> string \<Rightarrow> exn + string" where
  "destination_url_create parse raw =
     (case parse (js_trim raw) of
        None \<Rightarrow> Inl (PlainErr ''Invalid destination URL.'')
      | Some url \<Rightarrow>
          if url_protocol url \<noteq> ''http:'' \<and> url_protocol url \<noteq> ''https:''
          then Inl (PlainErr ''Invalid destination URL.'')
          else if url_username url \<noteq> [] \<or> url_password url \<noteq> []
          then Inl (PlainErr ''Invalid destination URL.'')
          else if MAX_CANONICAL_LENGTH < length (url_href url)
          then Inl (PlainErr ''Invalid destination URL.'')
          else Inr (url_href url))"

section \<open>Lemmas\<close>

lemma of_lower_char:
  "(of_char (lower_char c) :: nat) = (if upper_latin c then of_char c + 32 else of_char c)"
proof (cases "upper_latin c")
  case True
  then have "(of_char c :: nat) + 32 < 256" by (auto simp: upper_latin_def Let_def)
  with True show ?thesis by (simp add: lower_char_def)
qed (simp add: lower_char_def)

lemma lower_char_not_upper: "\<not> upper_latin (lower_char c)"
proof (cases "upper_latin c")
  case True
  then show ?thesis
    by (auto simp: upper_latin_def of_lower_char Let_def)
qed (simp add: lower_char_def)

lemma lower_char_idem [simp]: "lower_char (lower_char c) = lower_char c"
  using lower_char_not_upper [of c] by (simp add: lower_char_def [of "lower_char c"])

lemma to_lower_case_idem [simp]: "to_lower_case (to_lower_case s) = to_lower_case s"
  by (simp add: to_lower_case_def)

lemma email_pattern_shape:
  "in_lang EMAIL_PATTERN s \<longleftrightarrow>
     (\<exists>u v w. s = u @ ''@'' @ v @ ''.'' @ w \<and> u \<noteq> [] \<and> v \<noteq> [] \<and> w \<noteq> []
        \<and> (\<forall>c \<in> set (u @ v @ w). not_at_space c))"
  unfolding EMAIL_PATTERN_def
  by (simp add: in_lang_seq_iff rx_shapes Ball_def del: rx_lit.simps) blast

text \<open>
  A canonical email is lower case, has no white space and exactly one at sign, and
  canonicalising it again changes nothing: the value stored, looked up and rate limited is a fixed
  point.
\<close>

theorem email_canonical:
  assumes "email_create raw = Inr v"
  shows "email_create v = Inr v \<and> count_list v (CHR ''@'') = 1
    \<and> (\<forall>c \<in> set v. \<not> js_space c \<and> \<not> upper_latin c)"
proof -
  from assms have v: "v = to_lower_case (js_trim raw)" and m: "in_lang EMAIL_PATTERN v"
    by (auto simp: email_create_def Let_def rx_test_iff split: if_splits)
  from m obtain a b c where shape: "v = a @ ''@'' @ b @ ''.'' @ c"
    "\<forall>x \<in> set (a @ b @ c). not_at_space x"
    by (auto simp: email_pattern_shape)
  then have nosp: "\<forall>x \<in> set v. \<not> js_space x" by (auto simp: not_at_space_def js_space_def)
  from shape have one: "count_list v (CHR ''@'') = 1"
    by (auto simp: not_at_space_def count_list_0_iff)
  have low: "\<forall>x \<in> set v. \<not> upper_latin x"
    by (auto simp: v to_lower_case_def lower_char_not_upper)
  have "to_lower_case (js_trim v) = v"
    using js_trim_no_space [OF nosp] by (simp add: v)
  with m nosp one low show ?thesis by (simp add: email_create_def Let_def rx_test_iff)
qed

lemma lookahead_iff:
  "rx_test (lookahead f) s \<longleftrightarrow>
     (\<exists>u c v. s = u @ c # v \<and> (\<forall>x \<in> set u. \<not> line_terminator x) \<and> f c)"
proof -
  have "in_lang (lookahead f) s \<longleftrightarrow>
      (\<exists>u w. s = u @ w \<and> in_lang rx_dots u \<and> in_lang (RxSeq (RxClass f) rx_any) w)"
    unfolding lookahead_def by (rule in_lang_seq_iff)
  then show ?thesis
    by (auto simp: rx_test_iff rx_any_def rx_dots_def star_class_iff)
qed

lemma lookahead_plain:
  assumes "\<forall>x \<in> set s. \<not> line_terminator x"
  shows "rx_test (lookahead f) s \<longleftrightarrow> list_ex f s"
proof
  assume "rx_test (lookahead f) s"
  then show "list_ex f s" by (auto simp: lookahead_iff list_ex_iff)
next
  assume "list_ex f s"
  then obtain c where "c \<in> set s" "f c" by (auto simp: list_ex_iff)
  then obtain u v where "s = u @ c # v" by (meson split_list)
  with assms \<open>f c\<close> show "rx_test (lookahead f) s" by (auto simp: lookahead_iff)
qed

lemma dots_of_8_iff:
  "rx_test (RxSeq (rx_times 8 (RxClass f)) (RxStar (RxClass f))) s \<longleftrightarrow>
     8 \<le> length s \<and> (\<forall>c \<in> set s. f c)"
proof -
  have "(\<exists>u v. s = u @ v \<and> length u = 8 \<and> (\<forall>c \<in> set u. f c) \<and> (\<forall>c \<in> set v. f c)) \<longleftrightarrow>
        8 \<le> length s \<and> (\<forall>c \<in> set s. f c)"
  proof
    assume r: "8 \<le> length s \<and> (\<forall>c \<in> set s. f c)"
    show "\<exists>u v. s = u @ v \<and> length u = 8 \<and> (\<forall>c \<in> set u. f c) \<and> (\<forall>c \<in> set v. f c)"
      using r by (intro exI [of _ "take 8 s"] exI [of _ "drop 8 s"])
        (auto dest: in_set_takeD in_set_dropD)
  qed auto
  then show ?thesis
    by (simp add: rx_test_iff in_lang_seq_iff times_class_iff star_class_iff del: rx_times.simps)
qed

lemma password_policy_iff:
  "PASSWORD_POLICY s \<longleftrightarrow> meets_policy s \<and> \<not> list_ex line_terminator s"
proof (cases "\<forall>x \<in> set s. \<not> line_terminator x")
  case True
  then show ?thesis
    by (auto simp: PASSWORD_POLICY_def meets_policy_def lookahead_plain [OF True]
        rx_dots_def dots_of_8_iff list_ex_iff)
next
  case False
  then show ?thesis
    by (auto simp: PASSWORD_POLICY_def rx_dots_def dots_of_8_iff list_ex_iff)
qed

text \<open>
  The password pattern of the request DTOs accepts exactly the passwords the value
  object accepts and that hold no line terminator: a validated request never fails the value
  object's policy, and the value object alone accepts passwords the API refuses.
\<close>

theorem dto_policy_is_password_policy:
  "PASSWORD_POLICY s \<longleftrightarrow> meets_policy s \<and> \<not> list_ex line_terminator s"
  by (rule password_policy_iff)

lemma bcrypt_hash_length: "rx_test BCRYPT_HASH_PATTERN h \<Longrightarrow> length h = 60"
  unfolding rx_test_iff BCRYPT_HASH_PATTERN_def
  by (clarsimp simp: in_lang_seq_iff rx_shapes simp del: rx_lit.simps rx_times.simps list.set)

lemma generate_verification_code_valid: "code_dto_valid (generate_verification_code n)"
proof -
  have "generate_verification_code n = fixed_digits 6 (n mod 1000000)"
    by (simp add: generate_verification_code_def pad_nat_to_string)
  then show ?thesis
    using fixed_digits_are_digits
    by (auto simp: code_dto_valid_def rx_test_iff CODE_PATTERN_def times_class_iff
        simp del: rx_times.simps fixed_digits.simps)
qed

lemma length_generate_link_code [simp]: "length (generate_link_code n draws k) = n"
  by (induction n arbitrary: k) auto

lemma alphabet_chars: "\<forall>c \<in> set ALPHABET. is_upper c \<or> is_digit c"
  by (simp add: ALPHABET_def char_classes)

lemma generate_link_code_chars:
  "c \<in> set (generate_link_code n draws k) \<Longrightarrow> is_upper c \<or> is_digit c"
proof (induction n arbitrary: k)
  case (Suc n)
  have "0 < length ALPHABET" by (simp add: ALPHABET_def)
  then have "ALPHABET ! (draws k mod length ALPHABET) \<in> set ALPHABET" by simp
  with Suc alphabet_chars show ?case by auto
qed simp

text \<open>
  Every generated secret passes the check the other side applies to it: a link code
  matches the pattern the public resolver requires, a verification code the pattern of the
  verification requests, whatever the random source draws.
\<close>

theorem generated_codes_are_accepted:
  "rx_test SHORT_CODE_PATTERN (generate_link_code CODE_LENGTH draws k)
   \<and> code_dto_valid (generate_verification_code n)"
  using generate_link_code_chars [of _ CODE_LENGTH draws k] generate_verification_code_valid
  by (auto simp: rx_test_iff SHORT_CODE_PATTERN_def times_class_iff CODE_LENGTH_def
      simp del: rx_times.simps)

text \<open>
  A destination URL is accepted exactly when the URL parser accepts the trimmed
  input, the scheme is HTTP or HTTPS, no credentials are embedded and the serialisation has at
  most 2048 characters; what is stored is that serialisation, which is stable under a second
  validation whenever the parser's serialisation is.
\<close>

theorem destination_url_accepted_iff:
  assumes idem: "\<And>s u. parse s = Some u \<Longrightarrow> parse (js_trim (url_href u)) = Some u"
  shows "(destination_url_create parse raw = Inr v \<longleftrightarrow>
      (\<exists>u. parse (js_trim raw) = Some u \<and> url_protocol u \<in> {''http:'', ''https:''}
         \<and> url_username u = [] \<and> url_password u = [] \<and> length (url_href u) \<le> 2048
         \<and> v = url_href u))
    \<and> (destination_url_create parse raw = Inr v \<longrightarrow> destination_url_create parse v = Inr v)"
  using idem [of "js_trim raw"]
  by (auto simp: destination_url_create_def MAX_CANONICAL_LENGTH_def
      split: option.splits if_splits)

end
