(* ===== verification/LinksService.thy ===== *)
theory LinksService
  imports LinksSpec ValueObjects
begin

text \<open>
  The use cases of src/src/modules/links/links.service.ts. As in the source, the service receives
  its repository, code generator and cache as dependencies; the locales state what it relies on
  and its lemmas are proved once under them. LinksApp discharges them for TypeORM and Redis.
\<close>

record resolved_link =
  rl_link_id :: uuid
  rl_destination_url :: string

section \<open>The service\<close>

record link_response =
  lr_id :: uuid
  lr_short_code :: string
  lr_destination_url :: string
  lr_short_url :: string
  lr_status :: link_status
  lr_created_at :: instant
  lr_updated_at :: instant

record 'w links_deps =
  dep_create_or_restore :: "uuid \<Rightarrow> string \<Rightarrow> string \<Rightarrow> (exn, 'w, create_result) eff"
  dep_list_by_user :: "uuid \<Rightarrow> list_query \<Rightarrow> (exn, 'w, paginated_links) eff"
  dep_change_status :: "uuid \<Rightarrow> uuid \<Rightarrow> link_status \<Rightarrow> (exn, 'w, change_result) eff"
  dep_find_active :: "string \<Rightarrow> (exn, 'w, link option) eff"
  dep_find_by_id :: "uuid \<Rightarrow> (exn, 'w, link option) eff"
  dep_generate :: "(exn, 'w, string) eff"
  dep_cache_get :: "string \<Rightarrow> (exn, 'w, resolved_link option) eff"
  dep_cache_set :: "string \<Rightarrow> resolved_link \<Rightarrow> (exn, 'w, unit) eff"
  dep_cache_invalidate :: "string \<Rightarrow> (exn, 'w, unit) eff"
  dep_public_short_url_base :: string
  dep_max_code_attempts :: nat
  dep_parse_url :: url_parser

definition link_limit_reached_exception :: exn where
  "link_limit_reached_exception =
     http_error 409 ''LINK_LIMIT_REACHED'' ''Active link limit reached.''"

definition link_not_found_exception :: exn where
  "link_not_found_exception = http_error 404 ''LINK_NOT_FOUND'' ''Link not found.''"

definition forbidden_exception :: exn where
  "forbidden_exception =
     http_error 403 ''FORBIDDEN'' ''You do not have access to this link.''"

definition link_cache_unavailable_exception :: exn where
  "link_cache_unavailable_exception =
     http_error 503 ''LINK_CACHE_UNAVAILABLE'' ''Link resolution cache is unavailable.''"

definition short_code_generation_unavailable_exception :: exn where
  "short_code_generation_unavailable_exception =
     http_error 503 ''SHORT_CODE_GENERATION_UNAVAILABLE''
       ''Unable to generate a unique short code.''"

definition to_response :: "string \<Rightarrow> link \<Rightarrow> link_response" where
  "to_response base l =
     \<lparr>lr_id = lk_id l, lr_short_code = lk_short_code l,
      lr_destination_url = lk_destination_url l,
      lr_short_url = base @ ''/'' @ lk_short_code l, lr_status = lk_status l,
      lr_created_at = lk_created_at l, lr_updated_at = lk_updated_at l\<rparr>"

definition parse_destination_url :: "url_parser \<Rightarrow> string \<Rightarrow> (exn, 'w, string) eff" where
  "parse_destination_url parse raw =
     (case destination_url_create parse raw of
        Inl e \<Rightarrow> throwM (validation_exception
          [(''destinationUrl'', [''destinationUrl must be a valid absolute HTTP(S) URL''])])
      | Inr v \<Rightarrow> returnM v)"

text \<open>The body of \<open>create\<close>: the remaining attempts count down.\<close>

fun create_attempts ::
  "'w links_deps \<Rightarrow> uuid \<Rightarrow> string \<Rightarrow> nat \<Rightarrow> (exn, 'w, link_response \<times> bool) eff" where
  "create_attempts deps user_id destination 0 =
     throwM short_code_generation_unavailable_exception"
| "create_attempts deps user_id destination (Suc n) =
     bindM (dep_generate deps) (\<lambda>short_code.
     bindM (dep_create_or_restore deps user_id destination short_code) (\<lambda>result.
       case result of
         Created l \<Rightarrow> returnM (to_response (dep_public_short_url_base deps) l, True)
       | Existing l \<Rightarrow> returnM (to_response (dep_public_short_url_base deps) l, False)
       | Reactivated l \<Rightarrow> returnM (to_response (dep_public_short_url_base deps) l, False)
       | CreateLimitReached \<Rightarrow> throwM link_limit_reached_exception
       | ShortCodeCollision \<Rightarrow> create_attempts deps user_id destination n))"

definition service_create ::
  "'w links_deps \<Rightarrow> uuid \<Rightarrow> string \<Rightarrow> (exn, 'w, link_response \<times> bool) eff" where
  "service_create deps user_id destination_url_raw =
     bindM (parse_destination_url (dep_parse_url deps) destination_url_raw) (\<lambda>destination.
       create_attempts deps user_id destination (dep_max_code_attempts deps))"

record list_response =
  ls_items :: "link_response list"
  ls_page :: nat
  ls_limit :: nat
  ls_total :: nat
  ls_total_pages :: nat

definition service_list ::
  "'w links_deps \<Rightarrow> uuid \<Rightarrow> list_query \<Rightarrow> (exn, 'w, list_response) eff" where
  "service_list deps user_id query =
     bindM (dep_list_by_user deps user_id query) (\<lambda>page.
       returnM \<lparr>ls_items = map (to_response (dep_public_short_url_base deps)) (pl_items page),
         ls_page = pl_page page, ls_limit = pl_limit page, ls_total = pl_total page,
         ls_total_pages = pl_total_pages page\<rparr>)"

definition service_resolve :: "'w links_deps \<Rightarrow> string \<Rightarrow> (exn, 'w, resolved_link) eff" where
  "service_resolve deps short_code =
     bindM (catchM (dep_cache_get deps short_code) (\<lambda>_. returnM None)) (\<lambda>cached.
       case cached of
         Some r \<Rightarrow> returnM r
       | None \<Rightarrow>
           bindM (dep_find_active deps short_code) (\<lambda>found.
             case found of
               None \<Rightarrow> throwM link_not_found_exception
             | Some l \<Rightarrow>
                 let resolved = \<lparr>rl_link_id = lk_id l, rl_destination_url = lk_destination_url l\<rparr>
                 in thenM (catchM (dep_cache_set deps short_code resolved) (\<lambda>_. returnM ()))
                      (returnM resolved)))"

definition service_change_status ::
  "'w links_deps \<Rightarrow> uuid \<Rightarrow> uuid \<Rightarrow> link_status \<Rightarrow> (exn, 'w, link_response) eff" where
  "service_change_status deps user_id link_id status =
     bindM (dep_find_by_id deps link_id) (\<lambda>found.
       case found of
         None \<Rightarrow> throwM link_not_found_exception
       | Some existing \<Rightarrow>
           if lk_user_id existing \<noteq> user_id then throwM forbidden_exception
           else thenM
             (catchM (dep_cache_invalidate deps (lk_short_code existing))
               (\<lambda>_. throwM link_cache_unavailable_exception))
             (bindM (dep_change_status deps user_id link_id status) (\<lambda>result.
               case result of
                 Changed l \<Rightarrow> returnM (to_response (dep_public_short_url_base deps) l)
               | Unchanged l \<Rightarrow> returnM (to_response (dep_public_short_url_base deps) l)
               | ChangeNotFound \<Rightarrow> throwM link_not_found_exception
               | ChangeForbidden \<Rightarrow> throwM forbidden_exception
               | ChangeLimitReached \<Rightarrow> throwM link_limit_reached_exception)))"

definition service_deactivate ::
  "'w links_deps \<Rightarrow> uuid \<Rightarrow> uuid \<Rightarrow> (exn, 'w, link_response) eff" where
  "service_deactivate deps user_id link_id =
     service_change_status deps user_id link_id DEACTIVATED"

definition service_reactivate ::
  "'w links_deps \<Rightarrow> uuid \<Rightarrow> uuid \<Rightarrow> (exn, 'w, link_response) eff" where
  "service_reactivate deps user_id link_id =
     service_change_status deps user_id link_id ACTIVE"

section \<open>What the service relies on\<close>

definition resolved_of :: "link \<Rightarrow> resolved_link" where
  "resolved_of l = \<lparr>rl_link_id = lk_id l, rl_destination_url = lk_destination_url l\<rparr>"

definition set_status :: "uuid \<Rightarrow> link_status \<Rightarrow> instant \<Rightarrow> link list \<Rightarrow> link list" where
  "set_status i st now rows =
     update_where (\<lambda>r. lk_id r = i) (\<lambda>r. r\<lparr>lk_status := st, lk_updated_at := now\<rparr>) rows"

definition coherent :: "(string \<Rightarrow> resolved_link option) \<Rightarrow> link list \<Rightarrow> bool" where
  "coherent cache ls \<longleftrightarrow>
     (\<forall>c r. cache c = Some r \<longrightarrow>
        (\<exists>l \<in> set ls. lk_short_code l = c \<and> lk_status l = ACTIVE \<and> r = resolved_of l))"

definition active_with_code :: "string \<Rightarrow> link list \<Rightarrow> link option" where
  "active_with_code c ls = find (\<lambda>l. lk_short_code l = c \<and> lk_status l = ACTIVE) ls"

lemma coherent_lookup:
  assumes "coherent cache ls" and "distinct (map lk_short_code ls)" and "cache c = Some r"
  shows "\<exists>l. active_with_code c ls = Some l \<and> r = resolved_of l"
proof -
  from assms(1,3) obtain l where l: "l \<in> set ls" "lk_short_code l = c" "lk_status l = ACTIVE"
    "r = resolved_of l" by (auto simp: coherent_def)
  then obtain m where m: "active_with_code c ls = Some m"
    unfolding active_with_code_def by (metis (mono_tags, lifting) find_None_iff not_Some_eq)
  then have "m \<in> set ls" "lk_short_code m = c"
    unfolding active_with_code_def by (auto dest: find_SomeD)
  with l(1,2) assms(2) have "m = l" using distinct_key_eq [of lk_short_code ls m l] by simp
  with m l(4) show ?thesis by simp
qed

lemma active_with_code_SomeD:
  "active_with_code c ls = Some l \<Longrightarrow> l \<in> set ls \<and> lk_short_code l = c \<and> lk_status l = ACTIVE"
  unfolding active_with_code_def by (drule find_SomeD)

lemma coherent_set_status:
  assumes "coherent cache ls" and "distinct (map lk_id ls)" and "l \<in> set ls" and "lk_id l = i"
    and "cache (lk_short_code l) = None"
  shows "coherent cache (set_status i st now ls)"
  unfolding coherent_def
proof (intro allI impI)
  fix c r
  assume c: "cache c = Some r"
  with assms(1) obtain m where m: "m \<in> set ls" "lk_short_code m = c" "lk_status m = ACTIVE"
    "r = resolved_of m" by (auto simp: coherent_def)
  have "lk_id m \<noteq> i"
    using distinct_key_eq [OF assms(2) m(1) assms(3)] assms(4,5) c m(2) by auto
  then have "m \<in> set (set_status i st now ls)"
    using m(1) by (force simp: set_status_def set_update_where)
  with m show "\<exists>l \<in> set (set_status i st now ls).
      lk_short_code l = c \<and> lk_status l = ACTIVE \<and> r = resolved_of l" by blast
qed

lemma coherent_mono:
  "coherent cache ls \<Longrightarrow> (\<And>c y. cache' c = Some y \<Longrightarrow> cache c = Some y) \<Longrightarrow>
   (\<And>l. l \<in> set ls \<Longrightarrow> lk_status l = ACTIVE \<Longrightarrow> l \<in> set ls') \<Longrightarrow> coherent cache' ls'"
  unfolding coherent_def by blast

text \<open>
  A cache that remembers resolved links, over a state that also holds the rows. It never touches
  the rows; a write or a removal may fail after taking effect.
\<close>

locale resolution_cache =
  fixes deps :: "'w links_deps"
    and contents :: "'w \<Rightarrow> string \<Rightarrow> resolved_link option"
    and rows :: "'w \<Rightarrow> link list"
  assumes get_law: "dep_cache_get deps c w = (r, w') \<Longrightarrow>
      rows w' = rows w \<and> contents w' = contents w \<and> (\<forall>x. r = Inr x \<longrightarrow> x = contents w c)"
    and set_law: "dep_cache_set deps c x w = (q, w') \<Longrightarrow> rows w' = rows w
      \<and> (\<forall>c' y. contents w' c' = Some y \<longrightarrow> contents w c' = Some y \<or> (c' = c \<and> y = x))"
    and invalidate_law: "dep_cache_invalidate deps c w = (u, w') \<Longrightarrow> rows w' = rows w
      \<and> (\<forall>c' y. contents w' c' = Some y \<longrightarrow> contents w c' = Some y)
      \<and> (\<forall>v. u = Inr v \<longrightarrow> contents w' c = None)"

text \<open>A repository of links: reads are exact, a creation adds or reactivates, a change sets one status.\<close>

locale links_repository =
  fixes deps :: "'w links_deps"
    and rows :: "'w \<Rightarrow> link list"
    and wf :: "link list \<Rightarrow> bool"
  assumes wf_unique: "wf ls \<Longrightarrow> distinct (map lk_id ls) \<and> distinct (map lk_short_code ls)"
    and find_id_law: "dep_find_by_id deps i w = (Inr (find (\<lambda>l. lk_id l = i) (rows w)), w)"
    and find_active_law: "dep_find_active deps c w =
      (Inr (find (\<lambda>l. lk_short_code l = c \<and> lk_status l = ACTIVE) (rows w)), w)"
    and create_law: "wf (rows w) \<Longrightarrow> dep_create_or_restore deps u t c w = (r, w') \<Longrightarrow> wf (rows w')
      \<and> (\<forall>l \<in> set (rows w). lk_status l = ACTIVE \<longrightarrow> l \<in> set (rows w'))"
    and create_error_law: "dep_create_or_restore deps u t c w = (Inl e, w') \<Longrightarrow> rows w' = rows w"
    and create_none_law: "dep_create_or_restore deps u t c w = (Inr k, w') \<Longrightarrow>
      result_link k = None \<Longrightarrow> rows w' = rows w"
    and create_some_law: "wf (rows w) \<Longrightarrow> dep_create_or_restore deps u t c w = (Inr k, w') \<Longrightarrow>
      result_link k = Some l \<Longrightarrow>
      l \<in> set (rows w') \<and> lk_user_id l = u \<and> lk_destination_url l = t \<and> lk_status l = ACTIVE"
    and change_law: "wf (rows w) \<Longrightarrow> dep_change_status deps u i st w = (q, w') \<Longrightarrow> wf (rows w')
      \<and> (rows w' = rows w \<or> (\<exists>now. rows w' = set_status i st now (rows w)))"

text \<open>Both together, over one state: the repository and the code generator leave the cache alone.\<close>

locale links_backend =
  resolution_cache deps contents rows + links_repository deps rows wf
  for deps :: "'w links_deps" and contents rows wf +
  assumes create_contents: "dep_create_or_restore deps u t c w = (r, w') \<Longrightarrow> contents w' = contents w"
    and change_contents: "dep_change_status deps u i st w = (q, w') \<Longrightarrow> contents w' = contents w"
    and generate_frame: "dep_generate deps w = (g, w') \<Longrightarrow>
      rows w' = rows w \<and> contents w' = contents w"
begin

lemma resolve_outcome:
  assumes "coherent (contents w) (rows w)" and "wf (rows w)"
  shows "wp (service_resolve deps c) (\<lambda>r w'. rows w' = rows w \<and> coherent (contents w') (rows w')
    \<and> r = (case active_with_code c (rows w) of
            None \<Rightarrow> Inl link_not_found_exception | Some l \<Rightarrow> Inr (resolved_of l))) w"
proof -
  obtain g w1 where g: "dep_cache_get deps c w = (g, w1)" by force
  have w1: "rows w1 = rows w" "contents w1 = contents w" "\<And>x. g = Inr x \<Longrightarrow> x = contents w c"
    using get_law [OF g] by auto
  have miss: "wp (case active_with_code c (rows w1) of
        None \<Rightarrow> throwM link_not_found_exception
      | Some l \<Rightarrow> thenM (catchM (dep_cache_set deps c (resolved_of l)) (\<lambda>_. returnM ()))
                   (returnM (resolved_of l)))
      (\<lambda>r w'. rows w' = rows w \<and> coherent (contents w') (rows w')
        \<and> r = (case active_with_code c (rows w) of
            None \<Rightarrow> Inl link_not_found_exception | Some l \<Rightarrow> Inr (resolved_of l))) w1"
  proof (cases "active_with_code c (rows w)")
    case None
    with assms w1 show ?thesis by (simp add: wp_simps)
  next
    case (Some l)
    obtain q w2 where q: "dep_cache_set deps c (resolved_of l) w1 = (q, w2)" by force
    have "rows w2 = rows w" using set_law [OF q] w1 by simp
    moreover have "coherent (contents w2) (rows w2)"
      using set_law [OF q] w1 assms(1) active_with_code_SomeD [OF Some]
      by (fastforce simp: coherent_def)
    ultimately show ?thesis
      using Some w1 q by (auto simp: wp_def run_simps split: sum.splits)
  qed
  show ?thesis
  proof (cases "\<exists>r. g = Inr (Some r)")
    case True
    then obtain r where r: "g = Inr (Some r)" by blast
    with w1 have "contents w c = Some r" by simp
    from coherent_lookup [OF assms(1) _ this] wf_unique [OF assms(2)]
    obtain l where "active_with_code c (rows w) = Some l" "r = resolved_of l" by auto
    moreover from r g have "service_resolve deps c w = (Inr r, w1)"
      by (simp add: service_resolve_def run_simps)
    ultimately show ?thesis using w1 assms(1) by (simp add: wp_def)
  next
    case False
    then have "service_resolve deps c w =
      (case active_with_code c (rows w1) of
          None \<Rightarrow> throwM link_not_found_exception
        | Some l \<Rightarrow> thenM (catchM (dep_cache_set deps c (resolved_of l)) (\<lambda>_. returnM ()))
                     (returnM (resolved_of l))) w1"
      using g by (cases g) (auto simp: service_resolve_def run_simps find_active_law
          active_with_code_def resolved_of_def Let_def split: option.splits)
    with miss show ?thesis by (simp add: wp_def)
  qed
qed

lemma change_refused:
  "find (\<lambda>l. lk_id l = i) (rows w) = None \<Longrightarrow>
     service_change_status deps u i st w = (Inl link_not_found_exception, w)"
  "find (\<lambda>l. lk_id l = i) (rows w) = Some l \<Longrightarrow> lk_user_id l \<noteq> u \<Longrightarrow>
     service_change_status deps u i st w = (Inl forbidden_exception, w)"
  "find (\<lambda>l. lk_id l = i) (rows w) = Some l \<Longrightarrow> lk_user_id l = u \<Longrightarrow>
     dep_cache_invalidate deps (lk_short_code l) w = (Inl e, w') \<Longrightarrow>
     service_change_status deps u i st w = (Inl link_cache_unavailable_exception, w')"
  by (simp_all add: service_change_status_def run_simps find_id_law)

lemma change_status_coherent:
  assumes "coherent (contents w) (rows w)" and "wf (rows w)"
    and "service_change_status deps u i st w = (r, w')"
  shows "wf (rows w') \<and> coherent (contents w') (rows w')"
proof (cases "find (\<lambda>l. lk_id l = i) (rows w)")
  case None
  with change_refused(1) assms show ?thesis by simp
next
  case (Some l)
  then have l: "l \<in> set (rows w)" "lk_id l = i" by (auto dest: find_SomeD)
  show ?thesis
  proof (cases "lk_user_id l = u")
    case False
    with change_refused(2) Some assms show ?thesis by simp
  next
    case True
    obtain v w1 where inv: "dep_cache_invalidate deps (lk_short_code l) w = (v, w1)" by force
    have w1: "rows w1 = rows w" "coherent (contents w1) (rows w1)"
      using invalidate_law [OF inv] assms(1) by (auto intro: coherent_mono)
    show ?thesis
    proof (cases v)
      case (Inl e)
      with change_refused(3) [OF Some True] inv assms w1 show ?thesis by simp
    next
      case (Inr x)
      obtain q w2 where chg: "dep_change_status deps u i st w1 = (q, w2)" by force
      have w': "w' = w2"
        using assms(3) Some True inv Inr chg
        by (cases q) (auto simp: service_change_status_def run_simps find_id_law
            split: change_result.splits)
      have "contents w2 = contents w1" using change_contents [OF chg] .
      moreover have "contents w1 (lk_short_code l) = None" using invalidate_law [OF inv] Inr by simp
      ultimately show ?thesis
        using change_law [OF _ chg] assms(2) w1 l coherent_set_status [of "contents w1" "rows w1" l i]
          wf_unique [OF assms(2)]
        by (auto simp: w')
    qed
  qed
qed

lemma create_attempts_outcome:
  "coherent (contents w) (rows w) \<Longrightarrow> wf (rows w) \<Longrightarrow> create_attempts deps u t n w = (r, w') \<Longrightarrow>
   wf (rows w') \<and> coherent (contents w') (rows w')
     \<and> (\<forall>e. r = Inl e \<longrightarrow> rows w' = rows w)
     \<and> (\<forall>resp made. r = Inr (resp, made) \<longrightarrow>
          (\<exists>l \<in> set (rows w'). lk_user_id l = u \<and> lk_destination_url l = t \<and> lk_status l = ACTIVE
             \<and> resp = to_response (dep_public_short_url_base deps) l))"
proof (induction n arbitrary: w)
  case 0
  then show ?case by (auto simp: run_simps)
next
  case (Suc n)
  obtain g w1 where g: "dep_generate deps w = (g, w1)" by force
  have w1: "rows w1 = rows w" "contents w1 = contents w" using generate_frame [OF g] by auto
  show ?case
  proof (cases g)
    case (Inl e)
    with Suc.prems g w1 show ?thesis by (auto simp: run_simps)
  next
    case (Inr code)
    obtain q w2 where q: "dep_create_or_restore deps u t code w1 = (q, w2)" by force
    have w2: "wf (rows w2)" "coherent (contents w2) (rows w2)"
      using create_law [OF _ q] create_contents [OF q] w1 Suc.prems
      by (auto intro: coherent_mono)
    have run: "create_attempts deps u t (Suc n) w =
      (case q of Inl e \<Rightarrow> (Inl e, w2)
       | Inr (Created l) \<Rightarrow> (Inr (to_response (dep_public_short_url_base deps) l, True), w2)
       | Inr (Existing l) \<Rightarrow> (Inr (to_response (dep_public_short_url_base deps) l, False), w2)
       | Inr (Reactivated l) \<Rightarrow> (Inr (to_response (dep_public_short_url_base deps) l, False), w2)
       | Inr CreateLimitReached \<Rightarrow> (Inl link_limit_reached_exception, w2)
       | Inr ShortCodeCollision \<Rightarrow> create_attempts deps u t n w2)"
      using g Inr q by (simp add: run_simps split: sum.splits create_result.splits)
    show ?thesis
    proof (cases "q = Inr ShortCodeCollision")
      case True
      with create_none_law [of u t code w1 _ w2] q w1 have "rows w2 = rows w" by simp
      with Suc.IH [of w2] w2 run True Suc.prems(3) show ?thesis by simp
    next
      case False
      note res = Suc.prems(3) [unfolded run]
      have some: "result_link k = Some l \<Longrightarrow> q = Inr k \<Longrightarrow> l \<in> set (rows w2) \<and> lk_user_id l = u
          \<and> lk_destination_url l = t \<and> lk_status l = ACTIVE" for k l
        using create_some_law [of w1 u t code k w2 l] q w1 Suc.prems(2) by simp
      have none: "rows w2 = rows w" if "q = Inl e \<or> q = Inr CreateLimitReached" for e
        using that create_error_law [of u t code w1 e w2] q w1
          create_none_law [of u t code w1 CreateLimitReached w2] by auto
      show ?thesis
        using res False w2 some none by (fastforce split: sum.splits create_result.splits)
    qed
  qed
qed

lemma service_create_outcome:
  assumes "coherent (contents w) (rows w)" and "wf (rows w)"
    and "service_create deps u raw w = (r, w')"
  shows "wf (rows w') \<and> coherent (contents w') (rows w')
     \<and> (\<forall>e. r = Inl e \<longrightarrow> rows w' = rows w)
     \<and> (\<forall>resp made. r = Inr (resp, made) \<longrightarrow>
          (\<exists>l \<in> set (rows w'). lk_user_id l = u \<and> lk_status l = ACTIVE
             \<and> destination_url_create (dep_parse_url deps) raw = Inr (lk_destination_url l)
             \<and> resp = to_response (dep_public_short_url_base deps) l))"
proof (cases "destination_url_create (dep_parse_url deps) raw")
  case (Inl e)
  with assms show ?thesis by (auto simp: service_create_def parse_destination_url_def run_simps)
next
  case (Inr t)
  with assms(3) have "create_attempts deps u t (dep_max_code_attempts deps) w = (r, w')"
    by (simp add: service_create_def parse_destination_url_def run_simps)
  from create_attempts_outcome [OF assms(1,2) this] Inr show ?thesis by auto
qed

end

end
