(* ===== verification/World.thy ===== *)
theory World
  imports Entities
begin

text \<open>
  The state a request handler runs in: the database, the Redis keyspace with expiry, the queues,
  the mailbox, the clock, and the sources of randomness. src/src/redis.service.ts is modelled
  command by command. Every Redis round trip may fail: \<open>w_net\<close> lists the outcome of the next ones
  (delivered, lost before the server saw it, or executed with the reply lost), so the theorems
  cover every pattern of failures. A handler runs at one instant of the clock.
\<close>

section \<open>The Redis keyspace\<close>

datatype redis_value = RText string | RInt int | RJson json

record redis_entry =
  re_value :: redis_value
  re_expires_at :: "instant option"

type_synonym redis = "string \<Rightarrow> redis_entry option"

definition redis_live :: "instant \<Rightarrow> redis \<Rightarrow> string \<Rightarrow> redis_entry option" where
  "redis_live now s k =
     (case s k of
        None \<Rightarrow> None
      | Some e \<Rightarrow>
          (case re_expires_at e of
             None \<Rightarrow> Some e
           | Some t \<Rightarrow> if now < t then Some e else None))"

definition redis_get :: "instant \<Rightarrow> string \<Rightarrow> redis \<Rightarrow> redis_value option" where
  "redis_get now k s = map_option re_value (redis_live now s k)"

definition redis_exists :: "instant \<Rightarrow> string \<Rightarrow> redis \<Rightarrow> int" where
  "redis_exists now k s = (if redis_live now s k = None then 0 else 1)"

text \<open>SET key value [EX seconds]; without EX the key does not expire.\<close>

definition redis_set :: "instant \<Rightarrow> string \<Rightarrow> redis_value \<Rightarrow> nat option \<Rightarrow> redis \<Rightarrow> redis" where
  "redis_set now k v ttl s =
     s(k \<mapsto> \<lparr>re_value = v, re_expires_at = map_option (\<lambda>n. now + 1000 * int n) ttl\<rparr>)"

text \<open>SET key value KEEPTTL.\<close>

definition redis_set_keepttl :: "instant \<Rightarrow> string \<Rightarrow> redis_value \<Rightarrow> redis \<Rightarrow> redis" where
  "redis_set_keepttl now k v s =
     s(k \<mapsto> \<lparr>re_value = v,
            re_expires_at = (case redis_live now s k of None \<Rightarrow> None | Some e \<Rightarrow> re_expires_at e)\<rparr>)"

definition redis_del :: "string \<Rightarrow> redis \<Rightarrow> redis" where
  "redis_del k s = s(k := None)"

text \<open>INCR: an absent key counts as 0; \<open>None\<close> when the value is not an integer.\<close>

definition redis_incr :: "instant \<Rightarrow> string \<Rightarrow> redis \<Rightarrow> (int \<times> redis) option" where
  "redis_incr now k s =
     (case redis_live now s k of
        None \<Rightarrow> Some (1, s(k \<mapsto> \<lparr>re_value = RInt 1, re_expires_at = None\<rparr>))
      | Some e \<Rightarrow>
          (case re_value e of
             RInt n \<Rightarrow> Some (n + 1, s(k \<mapsto> e\<lparr>re_value := RInt (n + 1)\<rparr>))
           | _ \<Rightarrow> None))"

definition redis_expire :: "instant \<Rightarrow> string \<Rightarrow> nat \<Rightarrow> redis \<Rightarrow> redis" where
  "redis_expire now k seconds s =
     (case redis_live now s k of
        None \<Rightarrow> s
      | Some e \<Rightarrow> s(k \<mapsto> e\<lparr>re_expires_at := Some (now + 1000 * int seconds)\<rparr>))"

text \<open>PING, and TTL: -2 for an absent key, -1 for one that does not expire, else the seconds left, rounded.\<close>

definition redis_ttl :: "instant \<Rightarrow> string \<Rightarrow> redis \<Rightarrow> int" where
  "redis_ttl now k s =
     (case redis_live now s k of
        None \<Rightarrow> - 2
      | Some e \<Rightarrow> (case re_expires_at e of None \<Rightarrow> - 1 | Some t \<Rightarrow> (t - now + 500) div 1000))"

section \<open>Jobs and mails\<close>

datatype issuance_purpose = ISSUE_ACTIVATION | ISSUE_LOGIN | ISSUE_RESET

datatype email_job =
    SendVerificationCode issuance_purpose "uuid option" "uuid option" uuid
      \<comment> \<open>purpose, userId, challengeId, issuanceId\<close>
  | SendPasswordReset uuid uuid
      \<comment> \<open>userId, issuanceId\<close>

record access_job =
  aj_event_id :: uuid
  aj_link_id :: uuid
  aj_occurred_at :: instant
  aj_occurred_on :: string
  aj_country :: string
  aj_visitor_pseudonym :: string

record mail =
  ml_to :: string
  ml_subject :: string
  ml_text :: string
  ml_html :: string

section \<open>The world\<close>

datatype net_outcome = Delivered | Lost | ReplyLost

record world =
  w_db :: db
  w_redis :: redis
  w_net :: "net_outcome list"
  w_clock :: instant
  w_email_jobs :: "email_job list"
  w_access_jobs :: "access_job list"
  w_mails :: "mail list"
  w_strings :: "nat \<Rightarrow> string"
  w_ints :: "nat \<Rightarrow> nat"
  w_drawn :: nat

type_synonym 'a io = "(exn, world, 'a) eff"

definition db_op :: "'a dbm \<Rightarrow> 'a io" where
  "db_op m = (\<lambda>w. case m (w_db w) of (r, d) \<Rightarrow> (r, w\<lparr>w_db := d\<rparr>))"

definition now_io :: "instant io" where
  "now_io = getsM w_clock"

text \<open>A fresh random string (a UUID, an opaque token, a code) or number below a bound.\<close>

definition draw_string :: "string io" where
  "draw_string = (\<lambda>w. (Inr (w_strings w (w_drawn w)), w\<lparr>w_drawn := Suc (w_drawn w)\<rparr>))"

definition random_int :: "nat \<Rightarrow> nat io" where
  "random_int bound = (\<lambda>w.
     (Inr (w_ints w (w_drawn w) mod bound), w\<lparr>w_drawn := Suc (w_drawn w)\<rparr>))"

text \<open>One Redis round trip running \<open>cmd\<close> atomically on the server: a single command, or EVAL of a script.\<close>

definition redis_call :: "(instant \<Rightarrow> redis \<Rightarrow> ('a \<times> redis) option) \<Rightarrow> 'a io" where
  "redis_call cmd = (\<lambda>w.
     let rest = w\<lparr>w_net := tl (w_net w)\<rparr>;
         delivered = (case cmd (w_clock w) (w_redis w) of
                        None \<Rightarrow> (Inl RedisErr, rest)
                      | Some (x, s) \<Rightarrow> (Inr x, rest\<lparr>w_redis := s\<rparr>))
     in case w_net w of
          [] \<Rightarrow> delivered
        | Delivered # _ \<Rightarrow> delivered
        | Lost # _ \<Rightarrow> (Inl RedisErr, rest)
        | ReplyLost # _ \<Rightarrow> (Inl RedisErr, snd delivered))"

definition redis_service_set :: "string \<Rightarrow> redis_value \<Rightarrow> nat option \<Rightarrow> unit io" where
  "redis_service_set k v ttl = redis_call (\<lambda>now s. Some ((), redis_set now k v ttl s))"

definition redis_service_get :: "string \<Rightarrow> redis_value option io" where
  "redis_service_get k = redis_call (\<lambda>now s. Some (redis_get now k s, s))"

definition redis_service_del :: "string \<Rightarrow> unit io" where
  "redis_service_del k = redis_call (\<lambda>now s. Some ((), redis_del k s))"

definition redis_service_exists :: "string \<Rightarrow> int io" where
  "redis_service_exists k = redis_call (\<lambda>now s. Some (redis_exists now k s, s))"

definition redis_service_ping :: "string io" where
  "redis_service_ping = redis_call (\<lambda>now s. Some (''PONG'', s))"

definition redis_service_ttl :: "string \<Rightarrow> int io" where
  "redis_service_ttl k = redis_call (\<lambda>now s. Some (redis_ttl now k s, s))"

definition redis_service_incr :: "string \<Rightarrow> int io" where
  "redis_service_incr k = redis_call (\<lambda>now s. redis_incr now k s)"

definition redis_service_expire :: "string \<Rightarrow> nat \<Rightarrow> int io" where
  "redis_service_expire k seconds =
     redis_call (\<lambda>now s. Some (redis_exists now k s, redis_expire now k seconds s))"

text \<open>Adding a job is a Redis round trip of the queue library.\<close>

definition enqueue :: "(world \<Rightarrow> world) \<Rightarrow> unit io" where
  "enqueue add = (\<lambda>w.
     let rest = w\<lparr>w_net := tl (w_net w)\<rparr>
     in case w_net w of
          [] \<Rightarrow> (Inr (), add rest)
        | Delivered # _ \<Rightarrow> (Inr (), add rest)
        | Lost # _ \<Rightarrow> (Inl RedisErr, rest)
        | ReplyLost # _ \<Rightarrow> (Inl RedisErr, add rest))"

section \<open>Lemmas\<close>

lemma wp_db_op [wp_simps]: "wp (db_op m) Q w = wp m (\<lambda>r d. Q r (w\<lparr>w_db := d\<rparr>)) (w_db w)"
  by (simp add: wp_def db_op_def case_prod_beta)

lemma wp_now_io [wp_simps]: "wp now_io Q w = Q (Inr (w_clock w)) w"
  by (simp add: now_io_def wp_simps)

lemma wp_draw_string [wp_simps]:
  "wp draw_string Q w = Q (Inr (w_strings w (w_drawn w))) (w\<lparr>w_drawn := Suc (w_drawn w)\<rparr>)"
  by (simp add: draw_string_def wp_def)

lemma redis_live_None [simp]: "s k = None \<Longrightarrow> redis_live now s k = None"
  by (simp add: redis_live_def)

lemma redis_live_upd_other [simp]: "k \<noteq> k' \<Longrightarrow> redis_live now (s(k := e)) k' = redis_live now s k'"
  by (simp add: redis_live_def)

lemma redis_live_later: "now \<le> later \<Longrightarrow> redis_live later s k = Some e \<Longrightarrow> redis_live now s k = Some e"
  by (auto simp: redis_live_def split: option.splits if_splits)

lemma redis_get_set [simp]:
  "redis_get now' k (redis_set now k v ttl s) =
     (case ttl of None \<Rightarrow> Some v
      | Some n \<Rightarrow> if now' < now + 1000 * int n then Some v else None)"
  by (simp add: redis_get_def redis_set_def redis_live_def split: option.splits)

lemma redis_get_set_other [simp]:
  "k \<noteq> k' \<Longrightarrow> redis_get now' k' (redis_set now k v ttl s) = redis_get now' k' s"
  by (simp add: redis_get_def redis_set_def)

lemma redis_get_del [simp]: "redis_get now k (redis_del k s) = None"
  by (simp add: redis_get_def redis_del_def)

lemma redis_get_del_other [simp]: "k \<noteq> k' \<Longrightarrow> redis_get now k' (redis_del k s) = redis_get now k' s"
  by (simp add: redis_get_def redis_del_def)

lemma redis_ttl_set: "redis_ttl now k (redis_set now k v (Some n) s) = (if n = 0 then - 2 else int n)"
  by (simp add: redis_ttl_def redis_set_def redis_live_def)

lemma redis_ttl_expire:
  "redis_live now s k \<noteq> None \<Longrightarrow> 0 < n \<Longrightarrow> redis_ttl now k (redis_expire now k n s) = int n"
  by (auto simp: redis_ttl_def redis_expire_def redis_live_def split: option.splits if_splits)

lemma redis_call_cases:
  assumes "redis_call cmd w = (r, w')"
  shows "(\<exists>x s. r = Inr x \<and> cmd (w_clock w) (w_redis w) = Some (x, s)
            \<and> w' = w\<lparr>w_net := tl (w_net w), w_redis := s\<rparr>)
       \<or> (r = Inl RedisErr \<and> w' = w\<lparr>w_net := tl (w_net w)\<rparr>)
       \<or> (r = Inl RedisErr \<and> (\<exists>x s. cmd (w_clock w) (w_redis w) = Some (x, s)
            \<and> w' = w\<lparr>w_net := tl (w_net w), w_redis := s\<rparr>))"
  using assms
  by (auto simp: redis_call_def Let_def split: option.splits list.splits net_outcome.splits)

text \<open>To prove a postcondition of a round trip: the reply came, or nothing happened, or only the reply was lost.\<close>

lemma wp_redis_call:
  assumes "\<And>x s. cmd (w_clock w) (w_redis w) = Some (x, s) \<Longrightarrow>
             Q (Inr x) (w\<lparr>w_net := tl (w_net w), w_redis := s\<rparr>)"
    and "Q (Inl RedisErr) (w\<lparr>w_net := tl (w_net w)\<rparr>)"
    and "\<And>x s. cmd (w_clock w) (w_redis w) = Some (x, s) \<Longrightarrow>
             Q (Inl RedisErr) (w\<lparr>w_net := tl (w_net w), w_redis := s\<rparr>)"
  shows "wp (redis_call cmd) Q w"
  using assms redis_call_cases [of cmd w] by (fastforce simp: wp_def split: prod.splits)

lemma keeps_redis_call:
  assumes "\<And>w x s. P w \<Longrightarrow> cmd (w_clock w) (w_redis w) = Some (x, s) \<Longrightarrow>
             P (w\<lparr>w_net := tl (w_net w), w_redis := s\<rparr>)"
    and "\<And>w. P w \<Longrightarrow> P (w\<lparr>w_net := tl (w_net w)\<rparr>)"
  shows "keeps P (redis_call cmd)"
  unfolding keeps_wp using assms by (auto intro!: wp_redis_call)

lemma redis_call_up:
  "w_net w = [] \<Longrightarrow> cmd (w_clock w) (w_redis w) = Some (x, s) \<Longrightarrow>
     redis_call cmd w = (Inr x, w\<lparr>w_redis := s\<rparr>)"
  by (simp add: redis_call_def Let_def)

end
