(* ===== verification/LinksApp.thy ===== *)
theory LinksApp
  imports LinksService World
begin

text \<open>
  The links service wired to its providers: the resolution cache over Redis
  (redis-link-resolution-cache.service.ts), the TypeORM repository and the code generator. The
  interpretation discharges the laws of LinksService for them, under every pattern of Redis
  failures, and the properties of the use cases follow.
\<close>

section \<open>The resolution cache\<close>

definition LINK_KEY_PREFIX :: string where
  "LINK_KEY_PREFIX = ''shortlink:links:resolution:v2:''"

definition resolution_key :: "string \<Rightarrow> string" where
  "resolution_key code = LINK_KEY_PREFIX @ code"

definition resolved_to_json :: "resolved_link \<Rightarrow> json" where
  "resolved_to_json r =
     JObj [(''linkId'', JStr (rl_link_id r)), (''destinationUrl'', JStr (rl_destination_url r))]"

definition parse_resolved_link :: "json \<Rightarrow> resolved_link option" where
  "parse_resolved_link parsed =
     (case (json_get parsed ''linkId'', json_get parsed ''destinationUrl'') of
        (Some (JStr i), Some (JStr u)) \<Rightarrow> Some \<lparr>rl_link_id = i, rl_destination_url = u\<rparr>
      | _ \<Rightarrow> None)"

definition parse_cached :: "redis_value option \<Rightarrow> resolved_link option" where
  "parse_cached raw =
     (case raw of Some (RJson j) \<Rightarrow> parse_resolved_link j | _ \<Rightarrow> None)"

definition cache_get :: "string \<Rightarrow> resolved_link option io" where
  "cache_get code =
     bindM (redis_service_get (resolution_key code)) (\<lambda>raw. returnM (parse_cached raw))"

definition cache_set :: "nat \<Rightarrow> string \<Rightarrow> resolved_link \<Rightarrow> unit io" where
  "cache_set ttl code resolved =
     redis_service_set (resolution_key code) (RJson (resolved_to_json resolved)) (Some ttl)"

definition cache_invalidate :: "string \<Rightarrow> unit io" where
  "cache_invalidate code = redis_service_del (resolution_key code)"

section \<open>The dependencies of the application\<close>

definition create_or_restore_io :: "uuid \<Rightarrow> string \<Rightarrow> string \<Rightarrow> create_result io" where
  "create_or_restore_io user_id destination code =
     bindM draw_string (\<lambda>new_id. bindM now_io (\<lambda>now.
       db_op (create_or_restore new_id now user_id destination code)))"

definition change_status_io :: "uuid \<Rightarrow> uuid \<Rightarrow> link_status \<Rightarrow> change_result io" where
  "change_status_io user_id link_id status =
     bindM now_io (\<lambda>now. db_op (change_status now user_id link_id status))"

definition generate_code_io :: "string io" where
  "generate_code_io = (\<lambda>w.
     (Inr (generate_link_code CODE_LENGTH (w_ints w) (w_drawn w)),
      w\<lparr>w_drawn := w_drawn w + CODE_LENGTH\<rparr>))"

definition app_links :: "nat \<Rightarrow> string \<Rightarrow> nat \<Rightarrow> url_parser \<Rightarrow> world links_deps" where
  "app_links ttl base attempts parse =
     \<lparr>dep_create_or_restore = create_or_restore_io,
      dep_list_by_user = (\<lambda>u q. db_op (list_by_user u q)),
      dep_change_status = change_status_io,
      dep_find_active = (\<lambda>c. db_op (find_active_by_short_code c)),
      dep_find_by_id = (\<lambda>i. db_op (find_link_by_id i)),
      dep_generate = generate_code_io,
      dep_cache_get = cache_get,
      dep_cache_set = cache_set ttl,
      dep_cache_invalidate = cache_invalidate,
      dep_public_short_url_base = base,
      dep_max_code_attempts = attempts,
      dep_parse_url = parse\<rparr>"

section \<open>The providers keep the laws\<close>

definition cached_links :: "world \<Rightarrow> string \<Rightarrow> resolved_link option" where
  "cached_links w c = parse_cached (redis_get (w_clock w) (resolution_key c) (w_redis w))"

definition link_rows :: "world \<Rightarrow> link list" where
  "link_rows w = links (w_db w)"

definition rows_wf :: "link list \<Rightarrow> bool" where
  "rows_wf ls \<longleftrightarrow> links_wf (empty_db\<lparr>links := ls\<rparr>)"

lemma rows_wf_links [simp]: "rows_wf (links d) = links_wf d"
  by (simp add: rows_wf_def links_wf_same [of "empty_db\<lparr>links := links d\<rparr>" d])

lemma resolution_key_inj [simp]: "resolution_key a = resolution_key b \<longleftrightarrow> a = b"
  by (simp add: resolution_key_def)

lemma parse_resolved_to_json [simp]: "parse_resolved_link (resolved_to_json r) = Some r"
  by (simp add: parse_resolved_link_def resolved_to_json_def)

lemma parse_cached_simps [simp]:
  "parse_cached None = None"
  "parse_cached (Some (RJson (resolved_to_json r))) = Some r"
  by (simp_all add: parse_cached_def)

lemma cache_get_run:
  assumes "cache_get c w = (r, w')"
  shows "w_db w' = w_db w \<and> w_clock w' = w_clock w \<and> w_redis w' = w_redis w
    \<and> (\<forall>x. r = Inr x \<longrightarrow> x = cached_links w c)"
proof -
  obtain q w1 where q: "redis_service_get (resolution_key c) w = (q, w1)" by force
  have "r = (case q of Inl e \<Rightarrow> Inl e | Inr raw \<Rightarrow> Inr (parse_cached raw))" "w' = w1"
    using assms q by (auto simp: cache_get_def run_simps split: sum.splits)
  with redis_call_cases [OF q [unfolded redis_service_get_def]] show ?thesis
    by (auto simp: cached_links_def)
qed

lemma cache_set_run:
  assumes "cache_set ttl c r w = (q, w')"
  shows "w_db w' = w_db w \<and> w_clock w' = w_clock w
    \<and> (w_redis w' = w_redis w \<or>
       w_redis w' = redis_set (w_clock w) (resolution_key c) (RJson (resolved_to_json r)) (Some ttl)
                      (w_redis w))"
  using redis_call_cases [OF assms [unfolded cache_set_def redis_service_set_def]] by auto

lemma cache_invalidate_run:
  assumes "cache_invalidate c w = (q, w')"
  shows "w_db w' = w_db w \<and> w_clock w' = w_clock w
    \<and> (w_redis w' = redis_del (resolution_key c) (w_redis w)
       \<or> (w_redis w' = w_redis w \<and> q = Inl RedisErr))"
  using redis_call_cases [OF assms [unfolded cache_invalidate_def redis_service_del_def]] by auto

lemma contents_after_set:
  "parse_cached (redis_get now (resolution_key c')
      (redis_set now (resolution_key c) (RJson (resolved_to_json r)) (Some ttl) s)) = Some y \<Longrightarrow>
   parse_cached (redis_get now (resolution_key c') s) = Some y \<or> (c' = c \<and> y = r)"
  by (cases "c' = c") (auto split: if_splits)

lemma contents_after_del:
  "parse_cached (redis_get now (resolution_key c') (redis_del (resolution_key c) s)) = Some y \<Longrightarrow>
   parse_cached (redis_get now (resolution_key c') s) = Some y"
  by (cases "c' = c") auto

lemma db_op_run:
  "db_op m w = (r, w') \<Longrightarrow> m (w_db w) = (r, w_db w') \<and> w_clock w' = w_clock w
     \<and> w_redis w' = w_redis w"
  by (auto simp: db_op_def split: prod.splits)

lemma active_kept_by_activation:
  assumes "links_wf d" and "m \<in> set (links d)" and "lk_status m \<noteq> ACTIVE"
    and "l \<in> set (links d)" and "lk_status l = ACTIVE"
  shows "l \<in> set (links (activate_row now st (lk_id m) d))"
proof -
  have "lk_id l \<noteq> lk_id m"
    using distinct_key_eq [of lk_id "links d" l m] assms by (auto simp: links_wf_def)
  with assms(4) show ?thesis by (force simp: activate_row_def set_update_where)
qed

lemma create_or_restore_post:
  assumes wf: "links_wf d"
  shows "wp (create_or_restore i now u t c) (\<lambda>r d'.
      (\<forall>l \<in> set (links d). lk_status l = ACTIVE \<longrightarrow> l \<in> set (links d'))
    \<and> (case r of Inl e \<Rightarrow> d' = d
       | Inr k \<Rightarrow> (case result_link k of None \<Rightarrow> d' = d
          | Some l \<Rightarrow> l \<in> set (links d') \<and> lk_user_id l = u \<and> lk_destination_url l = t
              \<and> lk_status l = ACTIVE))) d"
proof -
  have act: "l\<lparr>lk_status := ACTIVE, lk_updated_at := now\<rparr>
      \<in> set (links (activate_row now ACTIVE (lk_id l) d))" if "l \<in> set (links d)" for l
    using that by (force simp: activate_row_def set_update_where)
  show ?thesis
    unfolding create_or_restore_def create_or_restore_tx_def
    using active_kept_by_activation [OF wf] act
    by (auto simp: wp_simps new_link_def split: option.splits dest!: find_by_destination_SomeD
        intro!: wp_insert_link dest: insert_link_run)
qed

lemma create_or_restore_quiet:
  "create_or_restore i now u t c d = (Inl e, d') \<Longrightarrow> links d' = links d"
  "create_or_restore i now u t c d = (Inr k, d') \<Longrightarrow> result_link k = None \<Longrightarrow> links d' = links d"
proof -
  have "wp (create_or_restore i now u t c) (\<lambda>r d'.
      (\<forall>l k. r = Inr k \<longrightarrow> result_link k \<noteq> Some l) \<longrightarrow> links d' = links d) d"
    unfolding create_or_restore_def create_or_restore_tx_def
    by (auto simp: wp_simps split: option.splits intro!: wp_insert_link)
  from wp_run [OF this]
  show "create_or_restore i now u t c d = (Inl e, d') \<Longrightarrow> links d' = links d"
    "create_or_restore i now u t c d = (Inr k, d') \<Longrightarrow> result_link k = None \<Longrightarrow> links d' = links d"
    by fastforce+
qed

lemma wp_change_status:
  "wp (change_status now u i st) Q d = wp (change_status_from d now u i st) Q d"
  by (simp add: wp_def change_status_def)

lemma change_status_rows:
  "wp (change_status now u i st) (\<lambda>_ d'. links d' = links d \<or> links d' = set_status i st now (links d)) d"
proof -
  have "links (activate_row now st (lk_id l) d) = set_status i st now (links d)"
    if "link_by_id i d = Some l" for l
    using link_by_id_SomeD [OF that] by (simp add: activate_row_def set_status_def)
  then show ?thesis
    unfolding wp_change_status change_status_from_def
    by (auto simp: wp_simps split: option.splits)
qed

lemma create_io_run:
  assumes "create_or_restore_io u t c w = (r, w')"
  shows "create_or_restore (w_strings w (w_drawn w)) (w_clock w) u t c (w_db w) = (r, w_db w')
    \<and> w' = w\<lparr>w_drawn := Suc (w_drawn w), w_db := w_db w'\<rparr>"
  using assms
  by (auto simp: create_or_restore_io_def draw_string_def now_io_def db_op_def run_simps
      split: prod.splits)

lemma change_io_run:
  assumes "change_status_io u i st w = (r, w')"
  shows "change_status (w_clock w) u i st (w_db w) = (r, w_db w')
    \<and> w' = w\<lparr>w_db := w_db w'\<rparr>"
  using assms by (auto simp: change_status_io_def now_io_def db_op_def run_simps split: prod.splits)

lemma keeps_change_status: "keeps links_wf (change_status now u i st)"
  unfolding keeps_wp wp_change_status by (auto intro!: change_status_from_wf)

lemma app_links_create: "dep_create_or_restore (app_links ttl base n parse) = create_or_restore_io"
  and app_links_change: "dep_change_status (app_links ttl base n parse) = change_status_io"
  by (simp_all add: app_links_def)

lemma frame_views:
  "w_redis w' = w_redis w \<Longrightarrow> w_clock w' = w_clock w \<Longrightarrow> cached_links w' = cached_links w"
  "w_db w' = w_db w \<Longrightarrow> link_rows w' = link_rows w"
  by (simp_all add: cached_links_def [abs_def] link_rows_def)

lemma cache_set_law:
  assumes "cache_set ttl c x w = (q, w')" and "cached_links w' c' = Some y"
  shows "cached_links w c' = Some y \<or> (c' = c \<and> y = x)"
proof -
  have "w_redis w' = w_redis w \<Longrightarrow> ?thesis"
    using cache_set_run [OF assms(1)] assms(2) by (simp add: cached_links_def)
  moreover have "w_redis w' = redis_set (w_clock w) (resolution_key c)
      (RJson (resolved_to_json x)) (Some ttl) (w_redis w) \<Longrightarrow> ?thesis"
    using cache_set_run [OF assms(1)] assms(2) contents_after_set by (simp add: cached_links_def)
  ultimately show ?thesis using cache_set_run [OF assms(1)] by blast
qed

lemma cache_invalidate_law:
  assumes "cache_invalidate c w = (q, w')"
  shows "cached_links w' c' = Some y \<Longrightarrow> cached_links w c' = Some y"
    and "q = Inr u \<Longrightarrow> cached_links w' c = None"
proof -
  consider "w_redis w' = redis_del (resolution_key c) (w_redis w)"
    | "w_redis w' = w_redis w" "q = Inl RedisErr"
    using cache_invalidate_run [OF assms] by blast
  then have "(cached_links w' c' = Some y \<longrightarrow> cached_links w c' = Some y)
      \<and> (q = Inr u \<longrightarrow> cached_links w' c = None)"
  proof cases
    case 1
    with cache_invalidate_run [OF assms] show ?thesis
      by (auto simp: cached_links_def dest: contents_after_del)
  next
    case 2
    with cache_invalidate_run [OF assms] show ?thesis by (simp add: cached_links_def)
  qed
  then show "cached_links w' c' = Some y \<Longrightarrow> cached_links w c' = Some y"
    and "q = Inr u \<Longrightarrow> cached_links w' c = None"
    by blast+
qed

interpretation app: links_backend "app_links ttl base n parse" cached_links link_rows rows_wf
  for ttl base n parse
proof
  fix c w r w'
  assume "dep_cache_get (app_links ttl base n parse) c w = (r, w')"
  then show "link_rows w' = link_rows w \<and> cached_links w' = cached_links w
      \<and> (\<forall>x. r = Inr x \<longrightarrow> x = cached_links w c)"
    using cache_get_run [of c w r w'] frame_views [of w' w] by (simp add: app_links_def)
next
  fix c x w q w'
  assume "dep_cache_set (app_links ttl base n parse) c x w = (q, w')"
  then show "link_rows w' = link_rows w
      \<and> (\<forall>c' y. cached_links w' c' = Some y \<longrightarrow>
             cached_links w c' = Some y \<or> (c' = c \<and> y = x))"
    using frame_views(2) [of w' w] cache_set_run [of ttl c x w q w'] cache_set_law [of ttl c x w q w']
    by (simp add: app_links_def)
next
  fix c w u w'
  assume "dep_cache_invalidate (app_links ttl base n parse) c w = (u, w')"
  then show "link_rows w' = link_rows w
      \<and> (\<forall>c' y. cached_links w' c' = Some y \<longrightarrow> cached_links w c' = Some y)
      \<and> (\<forall>v. u = Inr v \<longrightarrow> cached_links w' c = None)"
    using cache_invalidate_run [of c w u w'] cache_invalidate_law [of c w u w']
    by (simp add: app_links_def link_rows_def)
next
  fix ls
  assume "rows_wf ls"
  then show "distinct (map lk_id ls) \<and> distinct (map lk_short_code ls)"
    by (simp add: rows_wf_def links_wf_def)
next
  fix i and w :: world
  show "dep_find_by_id (app_links ttl base n parse) i w =
      (Inr (find (\<lambda>l. lk_id l = i) (link_rows w)), w)"
    by (simp add: app_links_def db_op_def find_link_by_id_def run_simps link_by_id_def link_rows_def)
next
  fix c and w :: world
  show "dep_find_active (app_links ttl base n parse) c w =
      (Inr (find (\<lambda>l. lk_short_code l = c \<and> lk_status l = ACTIVE) (link_rows w)), w)"
    by (simp add: app_links_def db_op_def find_active_by_short_code_def run_simps
        active_by_short_code_def link_rows_def)
next
  fix w u t c r w'
  assume wf: "rows_wf (link_rows w)"
    and "dep_create_or_restore (app_links ttl base n parse) u t c w = (r, w')"
  then have run: "create_or_restore (w_strings w (w_drawn w)) (w_clock w) u t c (w_db w) = (r, w_db w')"
    using create_io_run [of u t c w r w'] by (simp add: app_links_create)
  have wf': "links_wf (w_db w)" using wf by (simp add: link_rows_def)
  show "rows_wf (link_rows w')
      \<and> (\<forall>l \<in> set (link_rows w). lk_status l = ACTIVE \<longrightarrow> l \<in> set (link_rows w'))"
    using keepsD [OF keeps_create_or_restore wf' run] wp_run [OF create_or_restore_post [OF wf'] run]
    by (simp add: link_rows_def)
next
  fix u t c w e w'
  assume "dep_create_or_restore (app_links ttl base n parse) u t c w = (Inl e, w')"
  then show "link_rows w' = link_rows w"
    using create_io_run [of u t c w "Inl e" w']
    by (auto simp: app_links_create link_rows_def dest: create_or_restore_quiet)
next
  fix u t c w k w'
  assume "dep_create_or_restore (app_links ttl base n parse) u t c w = (Inr k, w')"
    and "result_link k = None"
  then show "link_rows w' = link_rows w"
    using create_io_run [of u t c w "Inr k" w']
    by (auto simp: app_links_create link_rows_def dest: create_or_restore_quiet)
next
  fix w u t c k w' l
  assume wf: "rows_wf (link_rows w)" and res: "result_link k = Some l"
    and "dep_create_or_restore (app_links ttl base n parse) u t c w = (Inr k, w')"
  then have run: "create_or_restore (w_strings w (w_drawn w)) (w_clock w) u t c (w_db w) =
      (Inr k, w_db w')"
    using create_io_run [of u t c w "Inr k" w'] by (simp add: app_links_create)
  have "links_wf (w_db w)" using wf by (simp add: link_rows_def)
  from wp_run [OF create_or_restore_post [OF this] run] res
  show "l \<in> set (link_rows w') \<and> lk_user_id l = u \<and> lk_destination_url l = t \<and> lk_status l = ACTIVE"
    by (simp add: link_rows_def)
next
  fix w u i st q w'
  assume wf: "rows_wf (link_rows w)"
    and "dep_change_status (app_links ttl base n parse) u i st w = (q, w')"
  then have run: "change_status (w_clock w) u i st (w_db w) = (q, w_db w')"
    using change_io_run [of u i st w q w'] by (simp add: app_links_change)
  have "links_wf (w_db w)" using wf by (simp add: link_rows_def)
  from keepsD [OF keeps_change_status this run] wp_run [OF change_status_rows run]
  show "rows_wf (link_rows w') \<and> (link_rows w' = link_rows w
      \<or> (\<exists>now. link_rows w' = set_status i st now (link_rows w)))"
    by (auto simp: link_rows_def)
next
  fix u t c w r w'
  assume "dep_create_or_restore (app_links ttl base n parse) u t c w = (r, w')"
  then have "w' = w\<lparr>w_drawn := Suc (w_drawn w), w_db := w_db w'\<rparr>"
    using create_io_run [of u t c w r w'] by (simp add: app_links_create)
  then show "cached_links w' = cached_links w" by (metis (no_types, lifting) frame_views(1)
      world.select_convs(2,4) world.surjective world.update_convs(1,10))
next
  fix u i st w q w'
  assume "dep_change_status (app_links ttl base n parse) u i st w = (q, w')"
  then have "w' = w\<lparr>w_db := w_db w'\<rparr>"
    using change_io_run [of u i st w q w'] by (simp add: app_links_change)
  then show "cached_links w' = cached_links w" by (metis (no_types, lifting) frame_views(1)
      world.select_convs(2,4) world.surjective world.update_convs(1))
next
  fix w g w'
  assume "dep_generate (app_links ttl base n parse) w = (g, w')"
  then show "link_rows w' = link_rows w \<and> cached_links w' = cached_links w"
    by (auto simp: app_links_def generate_code_io_def link_rows_def cached_links_def)
qed

section \<open>The use cases\<close>

text \<open>
  Worlds the service serves from, one use case after the other: any failures of Redis, any passing
  of time, and any step of the rest of the program that leaves the links and their cache alone.
\<close>

inductive links_served :: "world links_deps \<Rightarrow> world \<Rightarrow> bool" for deps where
  start: "link_rows w = [] \<Longrightarrow> cached_links w = (\<lambda>_. None) \<Longrightarrow> links_served deps w"
| create: "links_served deps w \<Longrightarrow> service_create deps u raw w = (r, w') \<Longrightarrow> links_served deps w'"
| resolve: "links_served deps w \<Longrightarrow> service_resolve deps c w = (q, w') \<Longrightarrow> links_served deps w'"
| change: "links_served deps w \<Longrightarrow> service_change_status deps u i st w = (p, w')
    \<Longrightarrow> links_served deps w'"
| tick: "links_served deps w \<Longrightarrow> w_clock w \<le> t \<Longrightarrow> links_served deps (w\<lparr>w_clock := t\<rparr>)"
| other: "links_served deps w \<Longrightarrow> link_rows w' = link_rows w \<Longrightarrow> cached_links w' = cached_links w
    \<Longrightarrow> links_served deps w'"

lemma cached_links_later:
  "w_clock w \<le> t \<Longrightarrow> cached_links (w\<lparr>w_clock := t\<rparr>) c = Some y \<Longrightarrow> cached_links w c = Some y"
  by (auto simp: cached_links_def redis_get_def redis_live_def parse_cached_def
      split: option.splits if_splits)

lemma links_served_inv:
  assumes "links_served (app_links ttl base n parse) w"
  shows "coherent (cached_links w) (link_rows w) \<and> rows_wf (link_rows w)"
  using assms
proof (induction rule: links_served.induct)
  case (start w)
  then show ?case
    by (simp add: coherent_def rows_wf_def links_wf_def count_active_links_def)
next
  case (create w u raw r w')
  then show ?case using app.service_create_outcome by blast
next
  case (resolve w c q w')
  then show ?case using wp_run [OF app.resolve_outcome resolve.hyps(2)] by metis
next
  case (change w u i st p w')
  then show ?case using app.change_status_coherent by blast
next
  case (tick w t)
  then show ?case
    using cached_links_later [OF tick.hyps(2)]
    by (auto simp: link_rows_def intro: coherent_mono)
next
  case (other w w')
  then show ?case by simp
qed

lemma resolve_run:
  assumes "links_served (app_links ttl base n parse) w"
    and "service_resolve (app_links ttl base n parse) c w = (r, w')"
  shows "r = (case active_with_code c (link_rows w) of
      None \<Rightarrow> Inl link_not_found_exception | Some l \<Rightarrow> Inr (resolved_of l))"
  using wp_run [OF app.resolve_outcome assms(2)] links_served_inv [OF assms(1)] by blast

text \<open>
  Property C8. However often Redis fails, a short code resolves exactly to the active link that
  holds it in PostgreSQL, cached or not, and to "not found" when no active link does.
\<close>

theorem resolve_is_authoritative:
  assumes "links_served (app_links ttl base n parse) w"
  shows "fst (service_resolve (app_links ttl base n parse) c w) =
    (case find (\<lambda>l. lk_short_code l = c \<and> lk_status l = ACTIVE) (links (w_db w)) of
       None \<Rightarrow> Inl link_not_found_exception
     | Some l \<Rightarrow> Inr \<lparr>rl_link_id = lk_id l, rl_destination_url = lk_destination_url l\<rparr>)"
proof -
  obtain r w' where run: "service_resolve (app_links ttl base n parse) c w = (r, w')" by force
  from resolve_run [OF assms this] run show ?thesis
    by (simp add: active_with_code_def link_rows_def resolved_of_def split: option.split)
qed

lemma change_io_outcome:
  assumes wf: "links_wf (w_db w)" and acc: "account_by_id u (w_db w) = Some a"
    and l: "find (\<lambda>l. lk_id l = i) (link_rows w) = Some l" "lk_user_id l = u"
    and run: "change_status_io u i st w = (q, w')"
  shows "(lk_status l = st \<and> q = Inr (Unchanged l) \<and> w_db w' = w_db w)
    \<or> (lk_status l \<noteq> st \<and> st = ACTIVE \<and> 10 \<le> count_active_links u (w_db w)
         \<and> q = Inr ChangeLimitReached \<and> w_db w' = w_db w)
    \<or> (lk_status l \<noteq> st \<and> \<not> (st = ACTIVE \<and> 10 \<le> count_active_links u (w_db w))
         \<and> q = Inr (Changed (l\<lparr>lk_status := st, lk_updated_at := w_clock w\<rparr>))
         \<and> w_db w' = activate_row (w_clock w) st i (w_db w))"
proof -
  have "link_by_id i (w_db w) = Some l" using l by (simp add: link_by_id_def link_rows_def)
  moreover from this have "lk_id l = i" using link_by_id_SomeD by blast
  moreover have "change_status (w_clock w) u i st (w_db w) = (q, w_db w')"
    using change_io_run [OF run] by simp
  ultimately show ?thesis
    using acc l(2)
    by (auto simp: change_status_def change_status_from_def transaction_def lock_account_def
        run_simps save_link_status_run MAX_ACTIVE_LINKS_PER_USER_def split: if_splits)
qed

text \<open>
  What a status change answers and does to the table of links, in terms of the database alone;
  \<open>cache_up\<close> tells whether the invalidation was acknowledged.
\<close>

definition change_verdict ::
  "bool \<Rightarrow> string \<Rightarrow> instant \<Rightarrow> uuid \<Rightarrow> uuid \<Rightarrow> link_status \<Rightarrow> db \<Rightarrow> (exn + link_response) \<times> db" where
  "change_verdict cache_up base now u i st d =
     (case find (\<lambda>l. lk_id l = i) (links d) of
        None \<Rightarrow> (Inl link_not_found_exception, d)
      | Some l \<Rightarrow>
          if lk_user_id l \<noteq> u then (Inl forbidden_exception, d)
          else if \<not> cache_up then (Inl link_cache_unavailable_exception, d)
          else if lk_status l = st then (Inr (to_response base l), d)
          else if st = ACTIVE \<and> 10 \<le> count_active_links u d
          then (Inl link_limit_reached_exception, d)
          else (Inr (to_response base (l\<lparr>lk_status := st, lk_updated_at := now\<rparr>)),
                d\<lparr>links := set_status i st now (links d)\<rparr>))"

definition next_reply :: "world \<Rightarrow> bool" where
  "next_reply w = (case w_net w of [] \<Rightarrow> True | n # _ \<Rightarrow> n = Delivered)"

lemma cache_invalidate_reply:
  "cache_invalidate c w = (q, w') \<Longrightarrow> q = (if next_reply w then Inr () else Inl RedisErr)"
  by (auto simp: cache_invalidate_def redis_service_del_def redis_call_def next_reply_def Let_def
      split: list.splits net_outcome.splits)

lemma change_run:
  assumes wf: "links_wf (w_db w)" and acc: "account_by_id u (w_db w) = Some a"
    and run: "service_change_status (app_links ttl base n parse) u i st w = (r, w')"
  shows "(r, w_db w') = change_verdict (next_reply w) base (w_clock w) u i st (w_db w)"
proof (cases "find (\<lambda>l. lk_id l = i) (link_rows w)")
  case None
  with app.change_refused(1) run show ?thesis by (auto simp: change_verdict_def link_rows_def)
next
  case (Some l)
  have id: "lk_id l = i" using Some by (auto dest: find_SomeD)
  show ?thesis
  proof (cases "lk_user_id l = u")
    case False
    with app.change_refused(2) [OF Some] run Some show ?thesis
      by (auto simp: change_verdict_def link_rows_def)
  next
    case True
    obtain v w1 where inv: "cache_invalidate (lk_short_code l) w = (v, w1)" by force
    note inv' = cache_invalidate_run [OF inv] cache_invalidate_reply [OF inv]
    show ?thesis
    proof (cases "next_reply w")
      case down: False
      with app.change_refused(3) [OF Some True, of _ _ _ _ RedisErr w1] inv inv' run Some True
      show ?thesis by (auto simp: app_links_def change_verdict_def link_rows_def)
    next
      case up: True
      obtain q w2 where chg: "change_status_io u i st w1 = (q, w2)" by force
      have find1: "find (\<lambda>l. lk_id l = i) (link_rows w1) = Some l"
        using inv' Some by (simp add: link_rows_def)
      have "(r, w') = (case q of Inl e \<Rightarrow> (Inl e, w2)
          | Inr (Changed m) \<Rightarrow> (Inr (to_response base m), w2)
          | Inr (Unchanged m) \<Rightarrow> (Inr (to_response base m), w2)
          | Inr ChangeNotFound \<Rightarrow> (Inl link_not_found_exception, w2)
          | Inr ChangeForbidden \<Rightarrow> (Inl forbidden_exception, w2)
          | Inr ChangeLimitReached \<Rightarrow> (Inl link_limit_reached_exception, w2))"
        using run Some True inv up inv' chg app.find_id_law [of _ _ _ _ i w]
        by (simp add: service_change_status_def run_simps app_links_def
            split: sum.splits change_result.splits)
      with change_io_outcome [OF _ _ find1 True chg] wf acc inv' Some True up id
      show ?thesis
        by (auto simp: change_verdict_def link_rows_def activate_row_def set_status_def)
    qed
  qed
qed

text \<open>
  A deactivation or reactivation answers and writes exactly as \<open>change_verdict\<close> says:
  an unknown link is 404 and someone else's 403, before anything is touched; when the cache cannot
  be invalidated the answer is 503 and the database stays as it is; otherwise only the status and
  the update time of that one link change, and a reactivation over the limit is refused with 409.
\<close>

theorem change_status_verdict:
  assumes "links_wf (w_db w)" and "account_by_id u (w_db w) = Some a"
  shows "(case service_change_status (app_links ttl base n parse) u i st w of
      (r, w') \<Rightarrow> (r, w_db w') = change_verdict (next_reply w) base (w_clock w) u i st (w_db w))"
  using change_run [OF assms] by (auto split: prod.splits)

lemma active_with_code_set_status:
  assumes "distinct (map lk_id ls)" and "distinct (map lk_short_code ls)"
    and "find (\<lambda>l. lk_id l = i) ls = Some l"
  shows "active_with_code (lk_short_code l) (set_status i st now ls) =
    (if st = ACTIVE then Some (l\<lparr>lk_status := ACTIVE, lk_updated_at := now\<rparr>) else None)"
  using assms
proof (induction ls)
  case (Cons m ls)
  show ?case
  proof (cases "lk_id m = i")
    case True
    have other: "lk_id r \<noteq> i \<and> lk_short_code r \<noteq> lk_short_code l" if "r \<in> set ls" for r
      using Cons.prems True that by (auto simp: image_iff)
    then have "set_status i st now ls = ls" by (simp add: set_status_def update_where_def map_idI)
    moreover have "active_with_code (lk_short_code l) ls = None"
      using other by (auto simp: active_with_code_def find_None_iff)
    ultimately show ?thesis
      using True Cons.prems by (cases st) (auto simp: active_with_code_def set_status_def)
  next
    case False
    have "l \<in> set ls" using Cons.prems(3) False by (auto dest: find_SomeD)
    then have "lk_short_code m \<noteq> lk_short_code l" using Cons.prems(2) by force
    with Cons False show ?thesis by (simp add: active_with_code_def set_status_def)
  qed
qed simp

lemma length_active_set_deactivated:
  "length (filter (is_active_of u) (set_status i DEACTIVATED now ls)) \<le>
     length (filter (is_active_of u) ls)"
  unfolding set_status_def by (rule length_filter_update_le) (simp add: is_active_of_def)

lemma length_active_deactivated:
  assumes "l \<in> set ls" and "lk_id l = i" and "is_active_of u l"
  shows "length (filter (is_active_of u) (set_status i DEACTIVATED now ls)) <
     length (filter (is_active_of u) ls)"
  using assms(1)
proof (induction ls)
  case (Cons m ls)
  have step: "set_status i st now (m # ls) =
      (if lk_id m = i then m\<lparr>lk_status := st, lk_updated_at := now\<rparr> else m) # set_status i st now ls"
    for st by (simp add: set_status_def)
  show ?case
  proof (cases "l = m")
    case True
    with assms(2,3) length_active_set_deactivated [of u i now ls] show ?thesis
      by (simp add: step is_active_of_def [of u m] is_active_of_def [of u "_\<lparr>lk_status := _, lk_updated_at := _\<rparr>"])
  next
    case False
    with Cons show ?thesis
      by (auto simp: step is_active_of_def [of u "_\<lparr>lk_status := _, lk_updated_at := _\<rparr>"])
  qed
qed simp

lemma served_wf: "links_served (app_links ttl base n parse) w \<Longrightarrow> links_wf (w_db w)"
  using links_served_inv [of ttl base n parse w] by (simp add: link_rows_def)

lemma find_set_status:
  "find (\<lambda>l. lk_id l = i) (set_status i st now ls) =
     map_option (\<lambda>l. l\<lparr>lk_status := st, lk_updated_at := now\<rparr>) (find (\<lambda>l. lk_id l = i) ls)"
  by (induction ls) (auto simp: set_status_def)

text \<open>
  Property C30. Deactivating an active link takes effect at once: when the call has succeeded its
  short code resolves to "not found". Reactivating it then, with the cache reachable, is never
  refused, and the same short code resolves to the same destination again.
\<close>

theorem deactivate_reactivate:
  assumes served: "links_served (app_links ttl base n parse) w"
    and acc: "account_by_id u (w_db w) = Some a"
    and l: "find (\<lambda>l. lk_id l = i) (links (w_db w)) = Some l" "lk_status l = ACTIVE"
    and off: "service_deactivate (app_links ttl base n parse) u i w = (Inr resp, w1)"
    and up: "next_reply w1"
    and on: "service_reactivate (app_links ttl base n parse) u i w1 = (r, w2)"
  shows "fst (service_resolve (app_links ttl base n parse) (lk_short_code l) w1) =
      Inl link_not_found_exception
    \<and> (case r of Inl e \<Rightarrow> False | Inr resp' \<Rightarrow>
         lr_short_code resp' = lk_short_code l \<and> lr_status resp' = ACTIVE)
    \<and> fst (service_resolve (app_links ttl base n parse) (lk_short_code l) w2) =
      Inr \<lparr>rl_link_id = i, rl_destination_url = lk_destination_url l\<rparr>"
proof -
  let ?d = "w_db w" and ?t = "w_clock w"
  have wf: "links_wf ?d" using served_wf [OF served] .
  have id: "lk_id l = i" "l \<in> set (links ?d)" using l(1) by (auto dest: find_SomeD)
  note off' = change_run [OF wf acc off [unfolded service_deactivate_def]]
  then have own: "lk_user_id l = u" and d1: "w_db w1 = ?d\<lparr>links := set_status i DEACTIVATED ?t (links ?d)\<rparr>"
    using l by (auto simp: change_verdict_def split: if_splits)
  have s1: "links_served (app_links ttl base n parse) w1"
    using links_served.change [OF served off [unfolded service_deactivate_def]] .
  have wf1: "links_wf (w_db w1)" using served_wf [OF s1] .
  have acc1: "account_by_id u (w_db w1) = Some a" using acc by (simp add: d1 account_by_id_def)
  have "count_active_links u (w_db w1) < count_active_links u ?d"
    using length_active_deactivated [OF id(2,1)] own l(2)
    by (simp add: d1 count_active_links_def is_active_of_def)
  moreover have "count_active_links u ?d \<le> 10"
    using wf by (simp add: links_wf_def MAX_ACTIVE_LINKS_PER_USER_def)
  ultimately have few: "\<not> 10 \<le> count_active_links u (w_db w1)" by linarith
  note on' = change_run [OF wf1 acc1 on [unfolded service_reactivate_def]]
  have find1: "find (\<lambda>l. lk_id l = i) (links (w_db w1)) =
      Some (l\<lparr>lk_status := DEACTIVATED, lk_updated_at := ?t\<rparr>)"
    using l(1) by (simp add: d1 find_set_status)
  have r: "r = Inr (to_response base (l\<lparr>lk_status := ACTIVE, lk_updated_at := w_clock w1\<rparr>))"
    and d2: "w_db w2 = (w_db w1)\<lparr>links := set_status i ACTIVE (w_clock w1) (links (w_db w1))\<rparr>"
    using on' find1 own few up by (auto simp: change_verdict_def)
  have s2: "links_served (app_links ttl base n parse) w2"
    using links_served.change [OF s1 on [unfolded service_reactivate_def]] .
  have keys: "distinct (map lk_id (links d)) \<and> distinct (map lk_short_code (links d))"
    if "links_wf d" for d using that by (simp add: links_wf_def)
  have a1: "active_with_code (lk_short_code l) (links (w_db w1)) = None"
    using active_with_code_set_status [of "links ?d" i l DEACTIVATED ?t] keys [OF wf] l(1)
    by (simp add: d1)
  have a2: "active_with_code (lk_short_code l) (links (w_db w2)) =
      Some (l\<lparr>lk_status := ACTIVE, lk_updated_at := w_clock w1\<rparr>)"
    using active_with_code_set_status [OF _ _ find1, of ACTIVE "w_clock w1"] keys [OF wf1]
    by (simp add: d2)
  have "fst (service_resolve (app_links ttl base n parse) (lk_short_code l) w1) =
      Inl link_not_found_exception"
    using resolve_run [OF s1] a1 by (metis link_rows_def option.simps(4) prod.collapse)
  moreover have "fst (service_resolve (app_links ttl base n parse) (lk_short_code l) w2) =
      Inr (resolved_of (l\<lparr>lk_status := ACTIVE, lk_updated_at := w_clock w1\<rparr>))"
    using resolve_run [OF s2] a2 by (metis link_rows_def option.simps(5) prod.collapse)
  ultimately show ?thesis using r id by (simp add: to_response_def resolved_of_def)
qed

section \<open>Creating a link\<close>

text \<open>The code and the identifier the \<open>j\<close>-th attempt draws.\<close>

definition code_at :: "world \<Rightarrow> nat \<Rightarrow> string" where
  "code_at w j = generate_link_code CODE_LENGTH (w_ints w) (w_drawn w + j * (CODE_LENGTH + 1))"

definition id_at :: "world \<Rightarrow> nat \<Rightarrow> uuid" where
  "id_at w j = w_strings w (w_drawn w + j * (CODE_LENGTH + 1) + CODE_LENGTH)"

definition attempted :: "nat \<Rightarrow> world \<Rightarrow> world" where
  "attempted j w = w\<lparr>w_drawn := w_drawn w + j * (CODE_LENGTH + 1)\<rparr>"

lemma attempted_simps:
  "code_at (attempted k w) j = code_at w (k + j)" "id_at (attempted k w) j = id_at w (k + j)"
  "attempted k (attempted j w) = attempted (j + k) w" "attempted 0 w = w"
  "w_db (attempted k w) = w_db w" "w_clock (attempted k w) = w_clock w"
  by (simp_all add: attempted_def code_at_def id_at_def algebra_simps)

lemma create_attempt_new:
  assumes none: "find_by_destination u t (w_db w) = None" and len: "length t \<le> 2048"
    and acc: "account_by_id u (w_db w) = Some a" and free: "count_active_links u (w_db w) < 10"
    and new: "id_at w 0 \<notin> lk_id ` set (links (w_db w))"
  shows "create_attempts (app_links ttl base m parse) u t (Suc n) w =
    (let l = new_link (id_at w 0) u (code_at w 0) t (w_clock w)
     in if code_at w 0 \<in> lk_short_code ` set (links (w_db w))
        then create_attempts (app_links ttl base m parse) u t n (attempted 1 w)
        else (Inr (to_response base l, True),
              (attempted 1 w)\<lparr>w_db := (w_db w)\<lparr>links := links (w_db w) @ [l]\<rparr>\<rparr>))"
proof -
  let ?l = "new_link (id_at w 0) u (code_at w 0) t (w_clock w)"
  have ins: "insert_link ?l (w_db w) =
    (if code_at w 0 \<in> lk_short_code ` set (links (w_db w))
     then (Inl (unique_violation ''IDX_f5e434d70a12e8e6544fdbda8b'' (link_detail_code ?l)), w_db w)
     else (Inr ?l, (w_db w)\<lparr>links := links (w_db w) @ [?l]\<rparr>))"
    using insert_link_cases [of ?l "w_db w"] none len new
    by (simp add: new_link_def code_at_def CODE_LENGTH_def)
  have io: "create_or_restore_io u t (code_at w 0) (w\<lparr>w_drawn := w_drawn w + CODE_LENGTH\<rparr>) =
    (if code_at w 0 \<in> lk_short_code ` set (links (w_db w)) then (Inr ShortCodeCollision, attempted 1 w)
     else (Inr (Created ?l), (attempted 1 w)\<lparr>w_db := (w_db w)\<lparr>links := links (w_db w) @ [?l]\<rparr>\<rparr>))"
    using none acc free ins short_code_detail_collides
    by (simp add: create_or_restore_io_def draw_string_def now_io_def db_op_def run_simps
        create_or_restore_def create_or_restore_tx_def transaction_def lock_account_def
        MAX_ACTIVE_LINKS_PER_USER_def id_at_def attempted_def)
  have gen: "generate_code_io w = (Inr (code_at w 0), w\<lparr>w_drawn := w_drawn w + CODE_LENGTH\<rparr>)"
    by (simp add: generate_code_io_def code_at_def)
  show ?thesis by (simp add: run_simps app_links_def gen io Let_def)
qed

lemma create_attempts_run:
  assumes none: "find_by_destination u t (w_db w) = None" and len: "length t \<le> 2048"
    and acc: "account_by_id u (w_db w) = Some a" and free: "count_active_links u (w_db w) < 10"
    and new: "\<And>j. j < n \<Longrightarrow> id_at w j \<notin> lk_id ` set (links (w_db w))"
    and taken: "\<And>j. j < k \<Longrightarrow> code_at w j \<in> lk_short_code ` set (links (w_db w))"
    and k: "k \<le> n" "k < n \<Longrightarrow> code_at w k \<notin> lk_short_code ` set (links (w_db w))"
  shows "create_attempts (app_links ttl base m parse) u t n w =
    (if k = n then (Inl short_code_generation_unavailable_exception, attempted n w)
     else let l = new_link (id_at w k) u (code_at w k) t (w_clock w)
       in (Inr (to_response base l, True),
           (attempted (Suc k) w)\<lparr>w_db := (w_db w)\<lparr>links := links (w_db w) @ [l]\<rparr>\<rparr>))"
  using assms
proof (induction n arbitrary: w k)
  case 0
  then show ?case by (simp add: run_simps attempted_simps)
next
  case (Suc n)
  have step: "create_attempts (app_links ttl base m parse) u t (Suc n) w =
    (let l = new_link (id_at w 0) u (code_at w 0) t (w_clock w)
     in if code_at w 0 \<in> lk_short_code ` set (links (w_db w))
        then create_attempts (app_links ttl base m parse) u t n (attempted 1 w)
        else (Inr (to_response base l, True),
              (attempted 1 w)\<lparr>w_db := (w_db w)\<lparr>links := links (w_db w) @ [l]\<rparr>\<rparr>))"
    using Suc.prems(5) [of 0] by (intro create_attempt_new [OF Suc.prems(1-4)]) simp
  show ?case
  proof (cases k)
    case 0
    with Suc.prems(8) step show ?thesis by simp
  next
    case (Suc k')
    have "create_attempts (app_links ttl base m parse) u t n (attempted 1 w) =
      (if k' = n then (Inl short_code_generation_unavailable_exception, attempted n (attempted 1 w))
       else let l = new_link (id_at w k) u (code_at w k) t (w_clock w)
         in (Inr (to_response base l, True),
           (attempted (Suc k') (attempted 1 w))\<lparr>w_db := (w_db w)\<lparr>links := links (w_db w) @ [l]\<rparr>\<rparr>))"
      using Suc.IH [of "attempted 1 w" k'] Suc.prems Suc
      by (simp add: attempted_simps)
    with step Suc Suc.prems(6) [of 0] show ?thesis by (simp add: attempted_simps)
  qed
qed

text \<open>
  Property C31. Creating a link for a new destination takes the first code drawn that no link
  holds, at most the configured number of attempts, and adds one active link with it; when all
  the codes drawn are taken it answers 503 and adds nothing.
\<close>

theorem create_takes_first_free_code:
  assumes "destination_url_create parse raw = Inr t"
    and "find_by_destination u t (w_db w) = None"
    and "account_by_id u (w_db w) = Some a" and "count_active_links u (w_db w) < 10"
    and "\<And>j. j < n \<Longrightarrow> id_at w j \<notin> lk_id ` set (links (w_db w))"
    and "\<And>j. j < k \<Longrightarrow> code_at w j \<in> lk_short_code ` set (links (w_db w))"
    and "k \<le> n" and "k < n \<Longrightarrow> code_at w k \<notin> lk_short_code ` set (links (w_db w))"
  shows "(case service_create (app_links ttl base n parse) u raw w of (r, w') \<Rightarrow>
      if k = n then r = Inl short_code_generation_unavailable_exception \<and> w_db w' = w_db w
      else (let l = new_link (id_at w k) u (code_at w k) t (w_clock w)
        in r = Inr (to_response base l, True)
           \<and> w_db w' = (w_db w)\<lparr>links := links (w_db w) @ [l]\<rparr>))"
proof -
  have len: "length t \<le> 2048"
    using assms(1) by (auto simp: destination_url_create_def MAX_CANONICAL_LENGTH_def
        split: option.splits if_splits)
  have "service_create (app_links ttl base n parse) u raw w =
      create_attempts (app_links ttl base n parse) u t n w"
    using assms(1) by (simp add: service_create_def parse_destination_url_def app_links_def run_simps)
  with create_attempts_run [OF assms(2) len assms(3-8)] show ?thesis
    by (simp add: Let_def attempted_simps)
qed

lemma create_existing_run:
  assumes "find_by_destination u t (w_db w) = Some l" and "account_by_id u (w_db w) = Some a"
    and "lk_status l = ACTIVE"
  shows "create_attempts (app_links ttl base m parse) u t (Suc n) w =
    (Inr (to_response base l, False), attempted 1 w)"
  using assms
  by (simp add: run_simps app_links_def generate_code_io_def create_or_restore_io_def draw_string_def
      now_io_def db_op_def create_or_restore_def create_or_restore_tx_def transaction_def
      lock_account_def attempted_def)

text \<open>
  Creating is idempotent: repeating a successful creation, in any spelling of the
  destination that canonicalises alike, answers the same link with "not created" and changes
  nothing in the database.
\<close>

theorem create_is_idempotent:
  assumes served: "links_served (app_links ttl base n parse) w"
    and acc: "account_by_id u (w_db w') = Some a"
    and first: "service_create (app_links ttl base n parse) u raw w = (Inr (resp, made), w')"
    and same: "destination_url_create parse raw' = destination_url_create parse raw"
    and n: "0 < n"
  shows "(case service_create (app_links ttl base n parse) u raw' w' of (r, w'') \<Rightarrow>
      r = Inr (resp, False) \<and> w_db w'' = w_db w')"
proof -
  have wf: "links_wf (w_db w')" using served_wf [OF links_served.create [OF served first]] .
  from app.service_create_outcome [OF _ _ first] links_served_inv [OF served]
  obtain l where l: "l \<in> set (links (w_db w'))" "lk_user_id l = u" "lk_status l = ACTIVE"
    "destination_url_create parse raw = Inr (lk_destination_url l)" "resp = to_response base l"
    by (auto simp: link_rows_def app_links_def)
  have "find_by_destination u (lk_destination_url l) (w_db w') = Some l"
    using find_by_destination_row [OF wf l(1)] l(2) by simp
  from create_existing_run [OF this acc l(3)] l same n show ?thesis
    by (cases n) (simp_all add: service_create_def parse_destination_url_def run_simps app_links_def
        attempted_simps)
qed

end
