(* ===== verification/Examples.thy ===== *)
theory Examples
  imports LinksApp
begin

text \<open>
  Concrete inputs at which the hypotheses of the properties hold: an account, a link, a database
  and a world, and for each property its instance there.
\<close>

section \<open>Samples\<close>

definition sample_account :: account where
  "sample_account = \<lparr>acc_id = ''u1'', acc_email = ''ana@b.co'', acc_status = ACTIVE_ACCOUNT,
     acc_role = USER, acc_password_hash = ''h1'', acc_created_at = 0, acc_updated_at = 0\<rparr>"

definition sample_url :: string where
  "sample_url = ''https://a.io/x''"

definition sample_parse :: url_parser where
  "sample_parse s = (if s = sample_url then Some \<lparr>url_protocol = ''https:'', url_username = [],
     url_password = [], url_href = sample_url, url_origin = ''https://a.io'',
     url_pathname = ''/'', url_search = [], url_hash = []\<rparr> else None)"

definition sample_link :: link where
  "sample_link = new_link ''id'' ''u1'' ''AAAAAA'' sample_url 0"

definition sample_db :: db where
  "sample_db = empty_db\<lparr>accounts := [sample_account]\<rparr>"

definition linked_db :: db where
  "linked_db = sample_db\<lparr>links := [sample_link]\<rparr>"

definition sample_world :: world where
  "sample_world = \<lparr>w_db = sample_db, w_redis = Map.empty, w_net = [], w_clock = 0,
     w_email_jobs = [], w_access_jobs = [], w_mails = [], w_strings = (\<lambda>_. ''id''),
     w_ints = (\<lambda>_. 0), w_drawn = 0\<rparr>"

definition linked_world :: world where
  "linked_world = sample_world\<lparr>w_drawn := 7, w_db := linked_db\<rparr>"

abbreviation sample_app :: "world links_deps" where
  "sample_app \<equiv> app_links 60 ''https://s.io'' 3 sample_parse"

lemmas sample_defs =
  sample_account_def sample_link_def sample_db_def linked_db_def sample_world_def linked_world_def
  new_link_def empty_db_def

lemma sample_account_found [simp]:
  "account_by_id ''u1'' sample_db = Some sample_account"
  "account_by_id ''u1'' linked_db = Some sample_account"
  "account_by_id ''u1'' (w_db sample_world) = Some sample_account"
  "account_by_id ''u1'' (w_db linked_world) = Some sample_account"
  by (simp_all add: sample_defs account_by_id_def)

lemma sample_links [simp]:
  "links sample_db = []" "links linked_db = [sample_link]"
  "link_rows sample_world = []" "links (w_db sample_world) = []"
  "link_rows linked_world = [sample_link]" "links (w_db linked_world) = [sample_link]"
  "w_clock sample_world = 0" "w_clock linked_world = 0" "w_drawn sample_world = 0"
  "w_db sample_world = sample_db"
  by (simp_all add: sample_defs link_rows_def)

lemma sample_link_fields [simp]:
  "lk_id sample_link = ''id''" "lk_user_id sample_link = ''u1''"
  "lk_short_code sample_link = ''AAAAAA''" "lk_destination_url sample_link = sample_url"
  "lk_status sample_link = ACTIVE"
  by (simp_all add: sample_link_def new_link_def)

lemma linked_db_wf: "links_wf linked_db"
  by (simp add: links_wf_def count_active_links_def MAX_ACTIVE_LINKS_PER_USER_def)

lemma sample_destination [simp]: "destination_url_create sample_parse sample_url = Inr sample_url"
proof -
  have "js_trim sample_url = sample_url"
    by (rule js_trim_no_space) (simp add: sample_url_def js_space_def)
  then show ?thesis
    by (simp add: destination_url_create_def sample_parse_def MAX_CANONICAL_LENGTH_def)
      (simp add: sample_url_def)
qed

lemma sample_url_short: "length sample_url \<le> 2048"
  by (simp add: sample_url_def)

section \<open>Links\<close>

lemma sample_created:
  "create_or_restore ''id'' 0 ''u1'' sample_url ''AAAAAA'' sample_db =
     (Inr (Created sample_link), linked_db)"
  by (simp add: create_or_restore_def create_or_restore_tx_def transaction_def lock_account_def
      run_simps find_by_destination_def count_active_links_def MAX_ACTIVE_LINKS_PER_USER_def
      insert_link_def linked_db_def sample_link_def new_link_def)
    (simp add: sample_url_def)

lemma sample_history: "links_history [linked_db, sample_db]"
  by (rule links_history.create [OF links_history.start sample_created]) simp

theorem active_link_limit_witness:
  "count_active_links ''u1'' linked_db \<le> 10
    \<and> distinct (map lk_id (links linked_db))
    \<and> distinct (map lk_short_code (links linked_db))
    \<and> distinct (map (\<lambda>l. (lk_user_id l, lk_destination_url l)) (links linked_db))"
  using active_link_limit [OF sample_history] .

theorem create_or_restore_refines_witness:
  "(kind_of (Created sample_link), view_of linked_db) =
     spec_create (view_of sample_db) ''u1'' sample_url ''AAAAAA''"
proof -
  from sample_url_short create_or_restore_refines [of sample_db "''u1''" sample_account "''id''" "''AAAAAA''"
      sample_url 0]
  show ?thesis by (simp add: sample_created links_wf_def count_active_links_def)
qed

theorem change_status_refines_witness:
  "view_of (snd (change_status 5 ''u1'' ''id'' DEACTIVATED linked_db)) =
     (view_of linked_db)((''u1'', sample_url) \<mapsto> (''AAAAAA'', DEACTIVATED))"
proof -
  have "link_by_id ''id'' linked_db = Some sample_link" by (simp add: link_by_id_def)
  with change_status_refines [OF linked_db_wf sample_account_found(2),
      where now = 5 and i = "''id''" and st = DEACTIVATED]
  show ?thesis by (auto split: prod.splits sum.splits)
qed

theorem listing_complete_witness:
  "set (concat (map (listed_items ''u1'' 20 FilterActive linked_db)
      [1..<Suc (listed_pages ''u1'' 20 FilterActive linked_db)])) =
     {l \<in> {sample_link}. lk_user_id l = ''u1'' \<and> matches_filter FilterActive l}"
  using listing_complete [OF linked_db_wf, of 20 "''u1''" FilterActive] by (simp add: Let_def)

lemma sample_empty_cache: "cached_links sample_world = (\<lambda>_. None)"
  by (simp add: fun_eq_iff cached_links_def sample_world_def redis_get_def)

lemma sample_served: "links_served sample_app sample_world"
  by (rule links_served.start) (simp_all add: sample_empty_cache)

lemma sample_draws: "code_at sample_world 0 = ''AAAAAA''" "id_at sample_world 0 = ''id''"
  by code_simp+

lemma sample_create_run:
  "service_create sample_app ''u1'' sample_url sample_world =
     (Inr (to_response ''https://s.io'' sample_link, True), linked_world)"
proof -
  have none: "find_by_destination ''u1'' sample_url (w_db sample_world) = None"
    and free: "count_active_links ''u1'' (w_db sample_world) < 10"
    by (simp_all add: find_by_destination_def count_active_links_def)
  have "service_create sample_app ''u1'' sample_url sample_world =
      create_attempts sample_app ''u1'' sample_url (Suc 2) sample_world"
    by (simp add: service_create_def parse_destination_url_def run_simps app_links_def
        del: create_attempts.simps)
  also have "\<dots> = (Inr (to_response ''https://s.io'' sample_link, True), linked_world)"
    using create_attempt_new [OF none sample_url_short sample_account_found(3) free,
        where base = "''https://s.io''" and m = 3 and parse = sample_parse and n = 2 and ttl = 60]
    by (simp add: sample_draws attempted_def CODE_LENGTH_def sample_link_def linked_world_def
        linked_db_def Let_def del: create_attempts.simps)
  finally show ?thesis .
qed

lemma linked_served: "links_served sample_app linked_world"
  by (rule links_served.create [OF sample_served sample_create_run])

theorem resolve_is_authoritative_witness:
  "fst (service_resolve sample_app ''AAAAAA'' linked_world) =
     Inr \<lparr>rl_link_id = ''id'', rl_destination_url = sample_url\<rparr>"
  using resolve_is_authoritative [OF linked_served, of "''AAAAAA''"] by simp

definition off_link :: link where
  "off_link = sample_link\<lparr>lk_status := DEACTIVATED\<rparr>"

lemma sample_off:
  "set_status ''id'' DEACTIVATED 0 [sample_link] = [off_link]"
  "sample_link\<lparr>lk_status := DEACTIVATED, lk_updated_at := 0\<rparr> = off_link"
  "(w_db linked_world)\<lparr>links := ls\<rparr> = sample_db\<lparr>links := ls\<rparr>"
  by (simp_all add: set_status_def off_link_def sample_link_def new_link_def linked_world_def
      linked_db_def)

lemma sample_up: "next_reply linked_world"
  by (simp add: next_reply_def linked_world_def sample_world_def)

theorem change_status_verdict_witness:
  "(case service_change_status sample_app ''u1'' ''id'' DEACTIVATED linked_world of
     (r, w') \<Rightarrow> r = Inr (to_response ''https://s.io'' off_link)
       \<and> w_db w' = sample_db\<lparr>links := [off_link]\<rparr>)"
proof -
  have "links_wf (w_db linked_world)" using linked_db_wf by (simp add: linked_world_def)
  from change_status_verdict [OF this sample_account_found(4), where ttl = 60
      and base = "''https://s.io''" and n = 3 and parse = sample_parse and i = "''id''"
      and st = DEACTIVATED]
  show ?thesis
    by (auto simp: change_verdict_def sample_up sample_off)
qed

definition off_world :: world where
  "off_world = linked_world\<lparr>w_db := sample_db\<lparr>links := [off_link]\<rparr>\<rparr>"

lemma linked_deactivated:
  "service_deactivate sample_app ''u1'' ''id'' linked_world =
     (Inr (to_response ''https://s.io'' off_link), off_world)"
  by (simp add: service_deactivate_def service_change_status_def run_simps app_links_def db_op_def
      find_link_by_id_def link_by_id_def cache_invalidate_def redis_service_del_def redis_call_def
      Let_def change_status_io_def now_io_def change_status_def change_status_from_def
      transaction_def lock_account_def save_link_status_run activate_row_def off_world_def
      linked_world_def sample_world_def redis_del_def linked_db_def off_link_def
      sample_account_found [unfolded linked_db_def])
    (simp add: sample_link_def new_link_def)

theorem deactivate_reactivate_witness:
  "fst (service_resolve sample_app ''AAAAAA'' off_world) = Inl link_not_found_exception
   \<and> fst (service_resolve sample_app ''AAAAAA''
       (snd (service_reactivate sample_app ''u1'' ''id'' off_world))) =
     Inr \<lparr>rl_link_id = ''id'', rl_destination_url = sample_url\<rparr>"
  using deactivate_reactivate [OF linked_served sample_account_found(4) _ _ linked_deactivated,
      where l = sample_link and r = "fst (service_reactivate sample_app ''u1'' ''id'' off_world)"
        and ?w2.0 = "snd (service_reactivate sample_app ''u1'' ''id'' off_world)"]
  by (simp add: next_reply_def off_world_def linked_world_def sample_world_def)

theorem create_takes_first_free_code_witness:
  "(case service_create sample_app ''u1'' sample_url sample_world of (r, w') \<Rightarrow>
      r = Inr (to_response ''https://s.io'' sample_link, True) \<and> w_db w' = linked_db)"
proof -
  have "find_by_destination ''u1'' sample_url (w_db sample_world) = None"
    and "count_active_links ''u1'' (w_db sample_world) < 10"
    by (simp_all add: find_by_destination_def count_active_links_def)
  from create_takes_first_free_code [OF sample_destination this(1) sample_account_found(3) this(2),
      where k = 0 and n = 3 and ttl = 60 and base = "''https://s.io''"]
  show ?thesis by (simp add: sample_draws sample_link_def linked_db_def Let_def)
qed

theorem create_is_idempotent_witness:
  "fst (service_create sample_app ''u1'' sample_url linked_world) =
     Inr (to_response ''https://s.io'' sample_link, False)"
  using create_is_idempotent [OF sample_served sample_account_found(4) sample_create_run refl]
  by (auto split: prod.splits)

section \<open>Value objects\<close>

theorem email_canonical_witness:
  "email_create ''Ana@B.co '' = Inr ''ana@b.co'' \<and> email_create ''ana@b.co'' = Inr ''ana@b.co''"
proof -
  have "email_create ''Ana@B.co '' = Inr ''ana@b.co''" by code_simp
  with email_canonical [OF this] show ?thesis by simp
qed

theorem destination_url_accepted_iff_witness:
  "destination_url_create sample_parse sample_url = Inr sample_url"
proof -
  have trim: "js_trim sample_url = sample_url"
    by (rule js_trim_no_space) (simp add: sample_url_def js_space_def)
  have "sample_parse (js_trim (url_href u)) = Some u" if "sample_parse s = Some u" for s u
    using that trim by (auto simp: sample_parse_def split: if_splits)
  from destination_url_accepted_iff [of sample_parse sample_url sample_url, OF this] trim sample_url_short
  show ?thesis by (simp add: sample_parse_def)
qed

theorem filter_discloses_only_http_errors_witness:
  "(case filter_catch link_not_found_exception of
      (headers, status, body) \<Rightarrow> status = eb_status body)"
  using filter_discloses_only_http_errors [of link_not_found_exception] by (auto split: prod.splits)

end
