(* ===== verification/CacheRace.thy ===== *)
theory CacheRace
  imports LinksApp
begin

text \<open>
  Requests running concurrently. LinksApp runs one use case after the other; here resolutions and
  status changes (src/src/modules/links/links.service.ts) are cut at their awaits and interleaved:
  a resolution that read PostgreSQL has yet to write the cache, a status change that invalidated
  the cache has yet to commit. The steps are the same operations of the model.
\<close>

section \<open>Requests in flight\<close>

datatype in_flight =
    FlyResolve string resolved_link
      \<comment> \<open>read the active link, about to cache it\<close>
  | FlyChange uuid uuid link_status
      \<comment> \<open>invalidated the cache, about to change the status\<close>

type_synonym race_state = "world \<times> in_flight list"

inductive race_step :: "world links_deps \<Rightarrow> race_state \<Rightarrow> race_state \<Rightarrow> bool" for deps where
  probe: "dep_cache_get deps c w = (g, w') \<Longrightarrow> race_step deps (w, fs) (w', fs)"
| read: "dep_find_active deps c w = (Inr (Some l), w') \<Longrightarrow>
    race_step deps (w, fs) (w', FlyResolve c (resolved_of l) # fs)"
| remember: "dep_cache_set deps c r w = (q, w') \<Longrightarrow>
    race_step deps (w, as @ FlyResolve c r # bs) (w', as @ bs)"
| refuse: "dep_find_by_id deps i w = (Inr (Some l), w1) \<Longrightarrow> lk_user_id l = u \<Longrightarrow>
    dep_cache_invalidate deps (lk_short_code l) w1 = (Inl e, w') \<Longrightarrow> race_step deps (w, fs) (w', fs)"
| invalidate: "dep_find_by_id deps i w = (Inr (Some l), w1) \<Longrightarrow> lk_user_id l = u \<Longrightarrow>
    dep_cache_invalidate deps (lk_short_code l) w1 = (Inr v, w') \<Longrightarrow>
    race_step deps (w, fs) (w', FlyChange u i st # fs)"
| commit: "dep_change_status deps u i st w = (p, w') \<Longrightarrow>
    race_step deps (w, as @ FlyChange u i st # bs) (w', as @ bs)"
| create: "dep_create_or_restore deps u t c w = (k, w') \<Longrightarrow> race_step deps (w, fs) (w', fs)"
| tick: "w_clock w \<le> t \<Longrightarrow> race_step deps (w, fs) (w\<lparr>w_clock := t\<rparr>, fs)"
| other: "link_rows w' = link_rows w \<Longrightarrow> w_clock w' = w_clock w \<Longrightarrow>
    (\<And>c. w_redis w' (resolution_key c) = w_redis w (resolution_key c)) \<Longrightarrow>
    race_step deps (w, fs) (w', fs)"

inductive race_reachable :: "world links_deps \<Rightarrow> race_state \<Rightarrow> bool" for deps where
  start: "link_rows w = [] \<Longrightarrow> (\<And>c. w_redis w (resolution_key c) = None) \<Longrightarrow>
    race_reachable deps (w, [])"
| step: "race_reachable deps s \<Longrightarrow> race_step deps s s' \<Longrightarrow> race_reachable deps s'"

text \<open>The use cases run undisturbed are sequences of these steps.\<close>

lemma resolve_is_steps:
  assumes "service_resolve (app_links ttl base n parse) c w = (r, w')"
  shows "(race_step (app_links ttl base n parse))\<^sup>*\<^sup>* (w, fs) (w', fs)"
proof -
  let ?D = "app_links ttl base n parse"
  obtain g w1 where g: "dep_cache_get ?D c w = (g, w1)" by force
  then have one: "race_step ?D (w, fs) (w1, fs)" by (rule race_step.probe)
  show ?thesis
  proof (cases "(\<exists>x. g = Inr (Some x)) \<or> active_with_code c (link_rows w1) = None")
    case True
    then have "w' = w1"
      using assms g app.find_active_law [of ttl base n parse c w1]
      by (cases g) (auto simp: service_resolve_def run_simps active_with_code_def
          split: option.splits)
    with one show ?thesis by blast
  next
    case False
    then obtain l where l: "dep_find_active ?D c w1 = (Inr (Some l), w1)"
      using app.find_active_law [of ttl base n parse c w1] by (auto simp: active_with_code_def)
    obtain q w2 where q: "dep_cache_set ?D c (resolved_of l) w1 = (q, w2)" by force
    have "w' = w2"
      using assms g l q False
      by (cases g; cases q) (auto simp: service_resolve_def run_simps resolved_of_def Let_def
          split: option.splits)
    moreover have "race_step ?D (w1, fs) (w1, FlyResolve c (resolved_of l) # fs)"
      using l by (rule race_step.read)
    moreover have "race_step ?D (w1, FlyResolve c (resolved_of l) # fs) (w2, fs)"
      using race_step.remember [OF q, of "[]"] by simp
    ultimately show ?thesis using one by (meson rtranclp.rtrancl_into_rtrancl rtranclp.rtrancl_refl)
  qed
qed

lemma change_is_steps:
  assumes "service_change_status (app_links ttl base n parse) u i st w = (r, w')"
  shows "(race_step (app_links ttl base n parse))\<^sup>*\<^sup>* (w, fs) (w', fs)"
proof -
  let ?D = "app_links ttl base n parse"
  show ?thesis
  proof (cases "find (\<lambda>l. lk_id l = i) (link_rows w)")
    case None
    with app.change_refused(1) assms show ?thesis by auto
  next
    case (Some l)
    then have find: "dep_find_by_id ?D i w = (Inr (Some l), w)" by (simp add: app.find_id_law)
    show ?thesis
    proof (cases "lk_user_id l = u")
      case False
      with app.change_refused(2) [OF Some] assms show ?thesis by auto
    next
      case True
      obtain v w1 where v: "dep_cache_invalidate ?D (lk_short_code l) w = (v, w1)" by force
      show ?thesis
      proof (cases v)
        case (Inl e)
        with app.change_refused(3) [OF Some True] v assms have "w' = w1" by auto
        moreover have "race_step ?D (w, fs) (w1, fs)"
          using race_step.refuse [OF find True] v Inl by blast
        ultimately show ?thesis by blast
      next
        case (Inr x)
        obtain q w2 where q: "dep_change_status ?D u i st w1 = (q, w2)" by force
        have "w' = w2"
          using assms find True v Inr q
          by (cases q) (auto simp: service_change_status_def run_simps split: change_result.splits)
        moreover have "race_step ?D (w, fs) (w1, FlyChange u i st # fs)"
          using race_step.invalidate [OF find True] v Inr by blast
        moreover have "race_step ?D (w1, FlyChange u i st # fs) (w2, fs)"
          using race_step.commit [OF q, of "[]"] by simp
        ultimately show ?thesis by (meson rtranclp.rtrancl_into_rtrancl rtranclp.rtrancl_refl)
      qed
    qed
  qed
qed

section \<open>What every interleaving keeps\<close>

definition owns :: "link list \<Rightarrow> string \<Rightarrow> resolved_link \<Rightarrow> bool" where
  "owns ls c r \<longleftrightarrow> (\<exists>l \<in> set ls. lk_short_code l = c \<and> r = resolved_of l)"

definition race_inv :: "race_state \<Rightarrow> bool" where
  "race_inv s = (case s of (w, fs) \<Rightarrow>
     rows_wf (link_rows w)
     \<and> (\<forall>c r. cached_links w c = Some r \<longrightarrow> owns (link_rows w) c r)
     \<and> (\<forall>c r. FlyResolve c r \<in> set fs \<longrightarrow> owns (link_rows w) c r))"

lemma race_invI:
  assumes "race_inv (w, fs)" and "rows_wf (link_rows w')"
    and "\<And>c r. owns (link_rows w) c r \<Longrightarrow> owns (link_rows w') c r"
    and "\<And>c r. cached_links w' c = Some r \<Longrightarrow> cached_links w c = Some r \<or> owns (link_rows w) c r"
    and "\<And>c r. FlyResolve c r \<in> set fs' \<Longrightarrow> FlyResolve c r \<in> set fs \<or> owns (link_rows w) c r"
  shows "race_inv (w', fs')"
  using assms unfolding race_inv_def by simp metis

lemma owns_grow: "links_grow d d' \<Longrightarrow> owns (links d) c r \<Longrightarrow> owns (links d') c r"
proof -
  assume g: "links_grow d d'" and o: "owns (links d) c r"
  then obtain l where l: "l \<in> set (links d)" "lk_short_code l = c" "r = resolved_of l"
    by (auto simp: owns_def)
  have "identity_of l \<in> identity_of ` set (links d')"
    using g l(1) by (metis Un_iff image_eqI links_grow_def list.set_map set_append)
  then obtain m where "m \<in> set (links d')" "identity_of m = identity_of l" by force
  with l show ?thesis by (auto simp: owns_def identity_of_def resolved_of_def intro!: bexI [of _ m])
qed

lemma owns_set_status: "owns ls c r \<Longrightarrow> owns (set_status i st now ls) c r"
proof -
  assume "owns ls c r"
  then obtain l where l: "l \<in> set ls" "lk_short_code l = c" "r = resolved_of l"
    by (auto simp: owns_def)
  let ?f = "\<lambda>m. if lk_id m = i then m\<lparr>lk_status := st, lk_updated_at := now\<rparr> else m"
  have "?f l \<in> set (set_status i st now ls)"
    using l(1) by (simp add: set_status_def set_update_where)
  moreover have "lk_short_code (?f l) = c" "r = resolved_of (?f l)"
    using l by (simp_all add: resolved_of_def)
  ultimately show ?thesis unfolding owns_def by blast
qed

lemma race_step_inv:
  assumes "race_step (app_links ttl base n parse) s s'" and "race_inv s"
  shows "race_inv s'"
  using assms
proof (induction rule: race_step.induct)
  case (probe c w g w' fs)
  then show ?case
    using app.get_law [OF probe.hyps] by (intro race_invI [OF probe.prems])
      (auto simp: race_inv_def)
next
  case (read c w l w' fs)
  have w': "w' = w" "active_with_code c (link_rows w) = Some l"
    using read.hyps app.find_active_law [of ttl base n parse c w]
    by (auto simp: active_with_code_def)
  show ?case
    using active_with_code_SomeD [OF w'(2)] read.prems w'
    by (intro race_invI [OF read.prems]) (auto simp: race_inv_def owns_def)
next
  case (remember c r w q w' as bs)
  have own: "owns (link_rows w) c r" using remember.prems by (simp add: race_inv_def)
  show ?case
    using app.set_law [OF remember.hyps] own remember.prems
    by (intro race_invI [OF remember.prems]) (auto simp: race_inv_def)
next
  case (refuse i w l w1 u e w' fs)
  have "w1 = w" using refuse.hyps(1) by (simp add: app.find_id_law)
  with app.invalidate_law [OF refuse.hyps(3)] show ?case
    by (intro race_invI [OF refuse.prems]) (use refuse.prems in \<open>auto simp: race_inv_def\<close>)
next
  case (invalidate i w l w1 u v w' fs st)
  have "w1 = w" using invalidate.hyps(1) by (simp add: app.find_id_law)
  with app.invalidate_law [OF invalidate.hyps(3)] show ?case
    by (intro race_invI [OF invalidate.prems]) (use invalidate.prems in \<open>auto simp: race_inv_def\<close>)
next
  case (commit u i st w p w' as bs)
  then have wf: "rows_wf (link_rows w)" by (simp add: race_inv_def)
  from app.change_law [OF wf commit.hyps] app.change_contents [OF commit.hyps] owns_set_status
  show ?case by (intro race_invI [OF commit.prems]) auto
next
  case (create u t c w k w' fs)
  then have wf: "rows_wf (link_rows w)" by (simp add: race_inv_def)
  have "create_or_restore (w_strings w (w_drawn w)) (w_clock w) u t c (w_db w) = (k, w_db w')"
    using create.hyps create_io_run by (simp add: app_links_create)
  then have "links_grow (w_db w) (w_db w')" by (rule wp_run [OF create_or_restore_grow])
  then have "\<And>c r. owns (link_rows w) c r \<Longrightarrow> owns (link_rows w') c r"
    by (simp add: link_rows_def owns_grow)
  with app.create_law [OF wf create.hyps] app.create_contents [OF create.hyps]
  show ?case by (intro race_invI [OF create.prems]) auto
next
  case (tick w t fs)
  then show ?case
    using cached_links_later [OF tick.hyps]
    by (intro race_invI [OF tick.prems]) (auto simp: race_inv_def link_rows_def)
next
  case (other w' w fs)
  have "cached_links w' = cached_links w"
    by (simp only: fun_eq_iff cached_links_def redis_get_def redis_live_def other.hyps) simp
  with other show ?case by (intro race_invI [OF other.prems]) (auto simp: race_inv_def)
qed

lemma race_reachable_inv:
  assumes "race_reachable (app_links ttl base n parse) s"
  shows "race_inv s"
  using assms
proof (induction rule: race_reachable.induct)
  case (start w)
  then show ?case
    by (simp add: race_inv_def rows_wf_def links_wf_def count_active_links_def cached_links_def
        redis_get_def)
next
  case (step s s')
  then show ?case using race_step_inv by blast
qed

text \<open>
  Under every interleaving, a short code never resolves to a destination other than
  that of the one link it was given to, and it resolves whenever that link is active.
\<close>

theorem race_keeps_destinations:
  assumes "race_reachable (app_links ttl base n parse) (w, fs)"
  shows "(case fst (service_resolve (app_links ttl base n parse) c w) of
      Inr r \<Rightarrow> (\<exists>l \<in> set (links (w_db w)). lk_short_code l = c
        \<and> r = \<lparr>rl_link_id = lk_id l, rl_destination_url = lk_destination_url l\<rparr>)
    | Inl e \<Rightarrow> e = link_not_found_exception
        \<and> find (\<lambda>l. lk_short_code l = c \<and> lk_status l = ACTIVE) (links (w_db w)) = None)"
proof -
  let ?D = "app_links ttl base n parse"
  obtain g w1 where g: "dep_cache_get ?D c w = (g, w1)" by force
  note got = app.get_law [OF g]
  show ?thesis
  proof (cases "\<exists>r. g = Inr (Some r)")
    case True
    then obtain r where r: "g = Inr (Some r)" by blast
    then have "fst (service_resolve ?D c w) = Inr r"
      using g by (simp add: service_resolve_def run_simps)
    moreover have "owns (link_rows w) c r"
      using race_reachable_inv [OF assms] got r by (simp add: race_inv_def)
    ultimately show ?thesis by (simp add: owns_def link_rows_def resolved_of_def)
  next
    case False
    have find: "dep_find_active ?D c w1 = (Inr (active_with_code c (link_rows w)), w1)"
      using app.find_active_law [of ttl base n parse c w1] got
      by (simp add: active_with_code_def)
    have "fst (service_resolve ?D c w) = (case active_with_code c (link_rows w) of
        None \<Rightarrow> Inl link_not_found_exception | Some l \<Rightarrow> Inr (resolved_of l))"
      using g False find
      by (cases g) (auto simp: service_resolve_def run_simps resolved_of_def Let_def
          split: option.splits prod.splits sum.splits)
    then show ?thesis
      by (auto simp: active_with_code_def link_rows_def resolved_of_def
          split: option.splits dest!: find_SomeD)
  qed
qed

section \<open>How long a stale answer can last\<close>

text \<open>What one step does to the cache entry and to the pending writes of a short code.\<close>

lemma race_step_entry:
  assumes "race_step (app_links ttl base n parse) (w, fs) (w', fs')"
  shows "w_clock w \<le> w_clock w'
    \<and> (w_redis w' (resolution_key c) = w_redis w (resolution_key c)
       \<or> w_redis w' (resolution_key c) = None
       \<or> (\<exists>r. FlyResolve c r \<in> set fs \<and> w_redis w' (resolution_key c) =
            Some \<lparr>re_value = RJson (resolved_to_json r),
                  re_expires_at = Some (w_clock w + 1000 * int ttl)\<rparr>))
    \<and> (\<forall>r. FlyResolve c r \<in> set fs' \<longrightarrow>
         FlyResolve c r \<in> set fs \<or> active_with_code c (link_rows w) \<noteq> None)"
  using assms
proof (cases rule: race_step.cases)
  case (probe c' g)
  then have "cache_get c' w = (g, w')" by (simp add: app_links_def)
  from cache_get_run [OF this] probe show ?thesis by simp
next
  case (read c' l)
  then show ?thesis
    using app.find_active_law [of ttl base n parse c' w] by (auto simp: active_with_code_def)
next
  case (remember c' r q as bs)
  then have "cache_set ttl c' r w = (q, w')" by (simp add: app_links_def)
  from cache_set_run [OF this] remember show ?thesis
    by (cases "c' = c") (auto simp: redis_set_def)
next
  case (refuse i l w1 u e)
  then have "cache_invalidate (lk_short_code l) w = (Inl e, w')"
    by (simp add: app.find_id_law) (simp add: app_links_def)
  from cache_invalidate_run [OF this] refuse show ?thesis by (auto simp: redis_del_def)
next
  case (invalidate i l w1 u v st)
  then have "cache_invalidate (lk_short_code l) w = (Inr v, w')"
    by (simp add: app.find_id_law) (simp add: app_links_def)
  from cache_invalidate_run [OF this] invalidate show ?thesis by (auto simp: redis_del_def)
next
  case (commit u i st q as bs)
  then have "w' = w\<lparr>w_db := w_db w'\<rparr>" using change_io_run by (simp add: app_links_change)
  then have "w_redis w' = w_redis w" "w_clock w' = w_clock w"
    by (metis (no_types) world.ext_inject world.surjective world.update_convs(1))+
  with commit show ?thesis by auto
next
  case (create u t code k)
  then have "w' = w\<lparr>w_drawn := Suc (w_drawn w), w_db := w_db w'\<rparr>"
    using create_io_run by (simp add: app_links_create)
  then have "w_redis w' = w_redis w" "w_clock w' = w_clock w"
    by (metis (no_types) world.ext_inject world.surjective world.update_convs(1,10))+
  with create show ?thesis by auto
qed auto

definition expires_by :: "instant \<Rightarrow> string \<Rightarrow> world \<Rightarrow> bool" where
  "expires_by deadline c w \<longleftrightarrow>
     (\<forall>e. w_redis w (resolution_key c) = Some e \<longrightarrow>
        (\<exists>t. re_expires_at e = Some t \<and> t \<le> deadline))"

lemma race_reachable_expiry:
  assumes "race_reachable (app_links ttl base n parse) s"
  shows "expires_by (w_clock (fst s) + 1000 * int ttl) c (fst s)"
  using assms
proof (induction rule: race_reachable.induct)
  case (start w)
  then show ?case by (simp add: expires_by_def)
next
  case (step s s')
  obtain w fs w' fs' where "s = (w, fs)" "s' = (w', fs')" by force
  with step.IH race_step_entry [of ttl base n parse w fs w' fs' c] step.hyps show ?case
    by (fastforce simp: expires_by_def)
qed

text \<open>Steps after which no link with the short code is active.\<close>

definition inactive_step :: "world links_deps \<Rightarrow> string \<Rightarrow> race_state \<Rightarrow> race_state \<Rightarrow> bool" where
  "inactive_step deps c s s' \<longleftrightarrow>
     race_step deps s s' \<and> active_with_code c (link_rows (fst s')) = None"

definition settled :: "instant \<Rightarrow> string \<Rightarrow> race_state \<Rightarrow> bool" where
  "settled deadline c s \<longleftrightarrow>
     expires_by deadline c (fst s) \<and> active_with_code c (link_rows (fst s)) = None
     \<and> (\<forall>r. FlyResolve c r \<notin> set (snd s))"

lemma settled_step:
  assumes "inactive_step (app_links ttl base n parse) c s s'" and "settled deadline c s"
  shows "settled deadline c s'"
proof -
  obtain w fs w' fs' where s: "s = (w, fs)" "s' = (w', fs')" by force
  from assms s race_step_entry [of ttl base n parse w fs w' fs' c] show ?thesis
    by (auto simp: inactive_step_def settled_def expires_by_def)
qed

lemma settled_steps:
  assumes "(inactive_step (app_links ttl base n parse) c)\<^sup>*\<^sup>* s s'" and "settled deadline c s"
  shows "settled deadline c s'"
  using assms by (induction rule: rtranclp.induct) (auto intro: settled_step)

text \<open>
  A stale cache entry lasts at most the cache's time to live: once a link is
  deactivated and the resolutions that read it before are over, its short code resolves to "not
  found" after that time at the latest, whatever else runs, until the link is reactivated.
\<close>

theorem stale_answers_expire:
  assumes "race_reachable (app_links ttl base n parse) (w, fs)"
    and "active_with_code c (link_rows w) = None" and "\<And>r. FlyResolve c r \<notin> set fs"
    and "(inactive_step (app_links ttl base n parse) c)\<^sup>*\<^sup>* (w, fs) (w', fs')"
    and "w_clock w + 1000 * int ttl \<le> w_clock w'"
  shows "fst (service_resolve (app_links ttl base n parse) c w') = Inl link_not_found_exception"
proof -
  let ?D = "app_links ttl base n parse"
  have "settled (w_clock w + 1000 * int ttl) c (w, fs)"
    using race_reachable_expiry [OF assms(1)] assms(2,3) by (simp add: settled_def)
  from settled_steps [OF assms(4) this] have after: "settled (w_clock w + 1000 * int ttl) c (w', fs')" .
  then have none: "cached_links w' c = None"
    using assms(5)
    by (fastforce simp: settled_def expires_by_def cached_links_def redis_get_def redis_live_def
        split: option.splits)
  obtain g w1 where g: "dep_cache_get ?D c w' = (g, w1)" by force
  note got = app.get_law [OF g]
  have "dep_find_active ?D c w1 = (Inr None, w1)"
    using app.find_active_law [of ttl base n parse c w1] got after
    by (simp add: settled_def active_with_code_def)
  moreover have "\<nexists>r. g = Inr (Some r)" using got none by auto
  ultimately show ?thesis
    using g by (cases g) (auto simp: service_resolve_def run_simps split: option.splits)
qed

text \<open>
  Property C32. The cache can answer for a deactivated link: when a resolution reads PostgreSQL
  before the deactivation commits and writes the cache after it was invalidated, the short code
  still resolves after the deactivation has succeeded and no request is in flight any more.
\<close>

theorem deactivated_link_can_resolve:
  assumes "active_with_code c (link_rows w) = Some l" and "cached_links w c = None"
    and "w_net w = []" and "0 < ttl" and "lk_user_id l = u"
    and "find (\<lambda>m. lk_id m = lk_id l) (link_rows w) = Some l"
    and "account_by_id u (w_db w) = Some a"
  shows "\<exists>w'. (race_step (app_links ttl base n parse))\<^sup>*\<^sup>* (w, []) (w', [])
    \<and> link_rows w' = set_status (lk_id l) DEACTIVATED (w_clock w) (link_rows w)
    \<and> fst (service_resolve (app_links ttl base n parse) c w') = Inr (resolved_of l)"
proof -
  let ?D = "app_links ttl base n parse"
  have c: "lk_short_code l = c" "lk_status l = ACTIVE" "l \<in> set (link_rows w)"
    using active_with_code_SomeD [OF assms(1)] by auto
  have read: "dep_find_active ?D c w = (Inr (Some l), w)"
    using assms(1) app.find_active_law [of ttl base n parse c w] by (simp add: active_with_code_def)
  have find: "dep_find_by_id ?D (lk_id l) w = (Inr (Some l), w)"
    using assms(6) by (simp add: app.find_id_law)
  let ?w1 = "w\<lparr>w_redis := redis_del (resolution_key c) (w_redis w)\<rparr>"
  have inv: "dep_cache_invalidate ?D (lk_short_code l) w = (Inr (), ?w1)"
    using assms(3) c by (simp add: app_links_def cache_invalidate_def redis_service_del_def
        redis_call_up)
  let ?w2 = "?w1\<lparr>w_db := activate_row (w_clock w) DEACTIVATED (lk_id l) (w_db w)\<rparr>"
  have chg: "dep_change_status ?D u (lk_id l) DEACTIVATED ?w1 =
      (Inr (Changed (l\<lparr>lk_status := DEACTIVATED, lk_updated_at := w_clock w\<rparr>)), ?w2)"
    using assms(5-7) c
    by (simp add: app_links_def change_status_io_def now_io_def db_op_def run_simps
        change_status_def change_status_from_def transaction_def link_by_id_def link_rows_def
        lock_account_def save_link_status_run)
  let ?w3 = "?w2\<lparr>w_redis := redis_set (w_clock w) (resolution_key c)
      (RJson (resolved_to_json (resolved_of l))) (Some ttl) (w_redis ?w2)\<rparr>"
  have set: "dep_cache_set ?D c (resolved_of l) ?w2 = (Inr (), ?w3)"
    using assms(3) by (simp add: app_links_def cache_set_def redis_service_set_def redis_call_up)
  have "race_step ?D (w, []) (w, [FlyResolve c (resolved_of l)])"
    using read by (rule race_step.read)
  moreover have "race_step ?D (w, [FlyResolve c (resolved_of l)])
      (?w1, [FlyChange u (lk_id l) DEACTIVATED, FlyResolve c (resolved_of l)])"
    using find assms(5) inv by (rule race_step.invalidate)
  moreover have "race_step ?D (?w1, [FlyChange u (lk_id l) DEACTIVATED, FlyResolve c (resolved_of l)])
      (?w2, [FlyResolve c (resolved_of l)])"
    using race_step.commit [OF chg, of "[]"] by simp
  moreover have "race_step ?D (?w2, [FlyResolve c (resolved_of l)]) (?w3, [])"
    using race_step.remember [OF set, of "[]"] by simp
  ultimately have path: "(race_step ?D)\<^sup>*\<^sup>* (w, []) (?w3, [])"
    by (meson rtranclp.rtrancl_into_rtrancl rtranclp.rtrancl_refl)
  have rows: "link_rows ?w3 = set_status (lk_id l) DEACTIVATED (w_clock w) (link_rows w)"
    by (simp add: link_rows_def activate_row_def set_status_def)
  have "dep_cache_get ?D c ?w3 = (Inr (Some (resolved_of l)), ?w3)"
    using assms(3,4) by (simp add: app_links_def cache_get_def redis_service_get_def redis_call_up
        run_simps)
  then have "fst (service_resolve ?D c ?w3) = Inr (resolved_of l)"
    by (simp add: service_resolve_def run_simps)
  with path rows show ?thesis by blast
qed

end
