(* ===== verification/Calendar.thy ===== *)
theory Calendar
  imports Decimals
begin

text \<open>
  UTC calendar dates, as JavaScript's \<open>Date\<close> computes them: an instant in milliseconds, the number
  of days since 1970-01-01, year, month and day of the proleptic Gregorian calendar, and the text
  \<open>toISOString().slice(0, 10)\<close>. The source keeps dates as this text; the lemmas show when the
  text, its order and its arithmetic are those of the dates.
\<close>

section \<open>Days, years and months\<close>

definition MS_PER_DAY :: int where
  "MS_PER_DAY = 86400000"

definition day_of_instant :: "int \<Rightarrow> int" where
  "day_of_instant t = t div MS_PER_DAY"

definition is_leap :: "int \<Rightarrow> bool" where
  "is_leap y \<longleftrightarrow> (y mod 4 = 0 \<and> y mod 100 \<noteq> 0) \<or> y mod 400 = 0"

text \<open>The day number of the first of January.\<close>

definition year_start :: "int \<Rightarrow> int" where
  "year_start y =
     365 * (y - 1970) + (y - 1969) div 4 - (y - 1901) div 100 + (y - 1601) div 400"

definition year_of_day :: "int \<Rightarrow> int" where
  "year_of_day d =
     (let y = 1970 + (400 * d) div 146097
      in if d < year_start y then y - 1
         else if year_start (y + 1) \<le> d then y + 1
         else y)"

text \<open>Days before the month \<open>m\<close> (1 to 13) of a year.\<close>

definition month_start :: "bool \<Rightarrow> nat \<Rightarrow> int" where
  "month_start leap m =
     [0, 31, 59, 90, 120, 151, 181, 212, 243, 273, 304, 334, 365] ! (m - 1)
       + (if leap \<and> 3 \<le> m then 1 else 0)"

definition days_in_month :: "int \<Rightarrow> nat \<Rightarrow> int" where
  "days_in_month y m = month_start (is_leap y) (m + 1) - month_start (is_leap y) m"

definition month_of_yearday :: "bool \<Rightarrow> int \<Rightarrow> nat" where
  "month_of_yearday leap n = 
     length (filter (\<lambda>m. month_start leap m \<le> n) [1, 2, 3, 4, 5, 6, 7, 8, 9, 10, 11, 12])"

text \<open>\<open>Date.UTC\<close> of a year above 99, a month and a day that may lie outside the month.\<close>

definition make_day :: "int \<Rightarrow> nat \<Rightarrow> int \<Rightarrow> int" where
  "make_day y m d =
     (let y' = y + (int m - 1) div 12; m' = nat ((int m - 1) mod 12) + 1
      in year_start y' + month_start (is_leap y') m' + d - 1)"

definition civil_of_day :: "int \<Rightarrow> int \<times> nat \<times> int" where
  "civil_of_day n =
     (let y = year_of_day n; r = n - year_start y; m = month_of_yearday (is_leap y) r
      in (y, m, r - month_start (is_leap y) m + 1))"

definition valid_civil :: "int \<Rightarrow> nat \<Rightarrow> int \<Rightarrow> bool" where
  "valid_civil y m d \<longleftrightarrow> 1 \<le> m \<and> m \<le> 12 \<and> 1 \<le> d \<and> d \<le> days_in_month y m"

lemma div_bounds: "0 < k \<Longrightarrow> k * (x div k) \<le> x \<and> x < k * (x div k) + k" for k x :: int
  using mult_div_mod_eq [of k x] pos_mod_bound [of k x] pos_mod_sign [of k x] by linarith

lemma div_Suc_int:
  assumes "0 < (k :: int)"
  shows "(x + 1) div k = x div k + (if (x + 1) mod k = 0 then 1 else 0)"
proof (cases "(x + 1) mod k = 0")
  case True
  then have "x = k * ((x + 1) div k - 1) + (k - 1)"
    using mult_div_mod_eq [of k "x + 1"] by (simp add: right_diff_distrib)
  then have "x div k = (x + 1) div k - 1"
    using assms by (intro int_div_pos_eq [where r = "k - 1"]) auto
  with True show ?thesis by simp
next
  case False
  have "0 \<le> (x + 1) mod k" "(x + 1) mod k < k" using assms by simp_all
  with False have "0 \<le> (x + 1) mod k - 1" "(x + 1) mod k - 1 < k" by linarith+
  moreover have "x = k * ((x + 1) div k) + ((x + 1) mod k - 1)"
    using mult_div_mod_eq [of k "x + 1"] by linarith
  ultimately have "x div k = (x + 1) div k" by (intro int_div_pos_eq) auto
  with False show ?thesis by simp
qed

lemma shift_mod: "(y - k * c) mod k = y mod k" for y :: int
  by (simp add: mod_diff_eq [symmetric])

lemma year_start_step: "year_start (y + 1) = year_start y + (if is_leap y then 366 else 365)"
proof -
  define p q r where "p \<longleftrightarrow> y mod 4 = 0" and "q \<longleftrightarrow> y mod 100 = 0" and "r \<longleftrightarrow> y mod 400 = 0"
  define a b c where "a = (y - 1969) div 4" and "b = (y - 1901) div 100" and "c = (y - 1601) div 400"
  have m: "(y - 1968) mod 4 = y mod 4" "(y - 1900) mod 100 = y mod 100" "(y - 1600) mod 400 = y mod 400"
  proof -
    have "y - 1968 = y - 4 * 492" "y - 1900 = y - 100 * 19" "y - 1600 = y - 400 * 4" by simp_all
    then show "(y - 1968) mod 4 = y mod 4" "(y - 1900) mod 100 = y mod 100"
      "(y - 1600) mod 400 = y mod 400" by (metis shift_mod)+
  qed
  have shift: "y - 1969 + 1 = y - 1968" "y - 1901 + 1 = y - 1900" "y - 1601 + 1 = y - 1600"
    and shift': "y + 1 - 1969 = y - 1968" "y + 1 - 1901 = y - 1900" "y + 1 - 1601 = y - 1600"
    by simp_all
  have step: "(y - 1968) div 4 = a + (if p then 1 else 0)"
    "(y - 1900) div 100 = b + (if q then 1 else 0)"
    "(y - 1600) div 400 = c + (if r then 1 else 0)"
    using div_Suc_int [of 4 "y - 1969"] div_Suc_int [of 100 "y - 1901"] div_Suc_int [of 400 "y - 1601"]
    unfolding shift m a_def b_def c_def p_def q_def r_def by (blast intro: zero_less_numeral)+
  have "r \<Longrightarrow> q" "q \<Longrightarrow> p"
    unfolding p_def q_def r_def
    using dvd_trans [of 100 400 y] dvd_trans [of 4 100 y] by (simp_all add: mod_eq_0_iff_dvd)
  moreover have "year_start y = 365 * (y - 1970) + a - b + c"
    by (simp only: year_start_def a_def b_def c_def)
  moreover have "year_start (y + 1) =
      365 * (y + 1 - 1970) + (a + (if p then 1 else 0)) - (b + (if q then 1 else 0))
        + (c + (if r then 1 else 0))"
    unfolding year_start_def shift' step ..
  moreover have "is_leap y \<longleftrightarrow> (p \<and> \<not> q) \<or> r" by (simp only: is_leap_def p_def q_def r_def)
  ultimately show ?thesis by (cases p; cases q; cases r) simp_all
qed

lemma year_start_bounds:
  "146097 * y - 287811890 \<le> 400 * year_start y" "400 * year_start y \<le> 146097 * y - 287810290"
proof -
  define a b c where "a = (y - 1969) div 4" and "b = (y - 1901) div 100" and "c = (y - 1601) div 400"
  have "4 * a \<le> y - 1969 \<and> y - 1969 < 4 * a + 4"
    and "100 * b \<le> y - 1901 \<and> y - 1901 < 100 * b + 100"
    and "400 * c \<le> y - 1601 \<and> y - 1601 < 400 * c + 400"
    unfolding a_def b_def c_def by (rule div_bounds; simp)+
  moreover have "year_start y = 365 * y - 719050 + a - b + c"
    by (simp add: year_start_def a_def b_def c_def)
  ultimately show "146097 * y - 287811890 \<le> 400 * year_start y"
    and "400 * year_start y \<le> 146097 * y - 287810290" by simp_all
qed

lemma year_of_day_bounds:
  "year_start (year_of_day d) \<le> d" "d < year_start (year_of_day d + 1)"
proof -
  define y where "y = 1970 + (400 * d) div 146097"
  have y: "146097 * y - 287811090 \<le> 400 * d" "400 * d < 146097 * y - 287811090 + 146097"
    using div_bounds [of 146097 "400 * d"] by (simp_all add: y_def)
  have "400 * year_start (y - 1) \<le> 400 * d"
    using year_start_bounds(2) [of "y - 1"] y by simp
  moreover have "400 * d < 400 * year_start (y + 2)"
    using year_start_bounds(1) [of "y + 2"] y by simp
  ultimately have "year_start (y - 1) \<le> d" "d < year_start (y + 1 + 1)"
    by (simp_all add: add.assoc)
  then show "year_start (year_of_day d) \<le> d" "d < year_start (year_of_day d + 1)"
    by (auto simp: year_of_day_def y_def [symmetric] Let_def)
qed

lemma year_start_mono: "x \<le> y \<Longrightarrow> year_start x \<le> year_start y"
proof (induction "nat (y - x)" arbitrary: y)
  case (Suc n)
  then have "year_start x \<le> year_start (y - 1)" by simp
  also have "\<dots> \<le> year_start y" using year_start_step [of "y - 1"] by (auto split: if_splits)
  finally show ?case .
qed simp

lemma year_of_day_unique:
  assumes "year_start y \<le> d" and "d < year_start (y + 1)"
  shows "year_of_day d = y"
  using assms year_of_day_bounds [of d] year_start_mono [of "y + 1" "year_of_day d"]
    year_start_mono [of "year_of_day d + 1" y] by linarith

lemma months: "1 \<le> m \<Longrightarrow> m \<le> 12 \<Longrightarrow>
    m = 1 \<or> m = 2 \<or> m = 3 \<or> m = 4 \<or> m = 5 \<or> m = 6
    \<or> m = 7 \<or> m = 8 \<or> m = 9 \<or> m = 10 \<or> m = 11 \<or> m = (12 :: nat)"
  by arith

lemma month_starts:
  "month_start l 1 = 0" "month_start l (Suc 0) = 0" "month_start l 2 = 31"
  "month_start l (Suc (Suc 0)) = 31"
  "month_start l 3 = 59 + (if l then 1 else 0)" "month_start l 4 = 90 + (if l then 1 else 0)"
  "month_start l 5 = 120 + (if l then 1 else 0)" "month_start l 6 = 151 + (if l then 1 else 0)"
  "month_start l 7 = 181 + (if l then 1 else 0)" "month_start l 8 = 212 + (if l then 1 else 0)"
  "month_start l 9 = 243 + (if l then 1 else 0)" "month_start l 10 = 273 + (if l then 1 else 0)"
  "month_start l 11 = 304 + (if l then 1 else 0)" "month_start l 12 = 334 + (if l then 1 else 0)"
  "month_start l 13 = 365 + (if l then 1 else 0)"
  by (simp_all add: month_start_def)

lemma month_of_yearday_unique:
  assumes "1 \<le> m" and "m \<le> 12" and "month_start leap m \<le> n" and "n < month_start leap (m + 1)"
  shows "month_of_yearday leap n = m"
  using assms months [OF assms(1,2)]
  by (elim disjE; cases leap) (simp_all add: month_of_yearday_def month_starts)

lemma month_exists:
  assumes "0 \<le> n" and "n < (if leap then 366 else 365)"
  shows "\<exists>m. 1 \<le> m \<and> m \<le> 12 \<and> month_start leap m \<le> n \<and> n < month_start leap (m + 1)"
proof (rule ccontr)
  assume "\<not> ?thesis"
  then have none: "\<not> (month_start leap m \<le> n \<and> n < month_start leap (m + 1))"
    if "1 \<le> m" "m \<le> 12" for m using that by blast
  from none [of 1] none [of 2] none [of 3] none [of 4] none [of 5] none [of 6] none [of 7]
    none [of 8] none [of 9] none [of 10] none [of 11] none [of 12] assms
  show False by (cases leap) (simp_all add: month_start_def)
qed

lemma year_length: "month_start leap 13 = (if leap then 366 else 365)" "month_start leap 1 = 0"
  by (simp_all add: month_start_def)

lemma month_start_mono_le:
  assumes "1 \<le> m" and "m \<le> 12"
  shows "0 \<le> month_start leap m" "month_start leap (m + 1) \<le> (if leap then 366 else 365)"
  using months [OF assms] by (auto simp: month_start_def)

lemma make_day_valid:
  "1 \<le> m \<Longrightarrow> m \<le> 12 \<Longrightarrow> make_day y m d = year_start y + month_start (is_leap y) m + d - 1"
  by (simp add: make_day_def Let_def nat_diff_distrib)

lemma civil_of_make_day:
  assumes "valid_civil y m d"
  shows "civil_of_day (make_day y m d) = (y, m, d)"
proof -
  let ?l = "is_leap y"
  let ?r = "month_start ?l m + d - 1"
  have m: "1 \<le> m" "m \<le> 12" and r: "month_start ?l m \<le> ?r" "?r < month_start ?l (m + 1)"
    using assms by (auto simp: valid_civil_def days_in_month_def)
  have "0 \<le> ?r" "?r < (if ?l then 366 else 365)"
    using month_start_mono_le [OF m, of ?l] r by linarith+
  then have "year_of_day (make_day y m d) = y"
    using year_start_step [of y] make_day_valid [OF m, of y d] by (intro year_of_day_unique) auto
  moreover have "make_day y m d - year_start y = ?r" using make_day_valid [OF m, of y d] by simp
  ultimately show ?thesis
    using month_of_yearday_unique [OF m r] by (simp add: civil_of_day_def Let_def)
qed

lemma make_day_of_civil:
  assumes "civil_of_day n = (y, m, d)"
  shows "valid_civil y m d" "make_day y m d = n"
proof -
  from assms have y: "y = year_of_day n"
    and m: "m = month_of_yearday (is_leap y) (n - year_start y)"
    and d: "d = n - year_start y - month_start (is_leap y) m + 1"
    by (auto simp: civil_of_day_def Let_def)
  have "0 \<le> n - year_start y" "n - year_start y < (if is_leap y then 366 else 365)"
    using year_of_day_bounds [of n] year_start_step [of y] by (auto simp: y)
  from month_exists [OF this] obtain k where k: "1 \<le> k" "k \<le> 12"
    "month_start (is_leap y) k \<le> n - year_start y" "n - year_start y < month_start (is_leap y) (k + 1)"
    by blast
  with month_of_yearday_unique [OF k] m have "m = k" by simp
  with k d show "valid_civil y m d" by (auto simp: valid_civil_def days_in_month_def)
  with make_day_valid d show "make_day y m d = n" by (auto simp: valid_civil_def)
qed

section \<open>The text of a date\<close>

text \<open>
  \<open>toISOString().slice(0, 10)\<close>. Years outside 0 to 9999 print with a sign and six digits, of
  which the slice keeps the first characters.
\<close>

definition iso_year :: "int \<Rightarrow> string" where
  "iso_year y =
     (if 0 \<le> y \<and> y \<le> 9999 then fixed_digits 4 (nat y)
      else (if y < 0 then CHR ''-'' else CHR ''+'') # fixed_digits 6 (nat \<bar>y\<bar>))"

definition iso_date :: "int \<Rightarrow> string" where
  "iso_date n =
     (case civil_of_day n of (y, m, d) \<Rightarrow>
        take 10 (iso_year y @ ''-'' @ fixed_digits 2 m @ ''-'' @ fixed_digits 2 (nat d)))"

definition utc_date :: "int \<Rightarrow> string" where
  "utc_date t = iso_date (day_of_instant t)"

text \<open>The dates whose year has four digits: day numbers of 0000-01-01 to 9999-12-31.\<close>

definition four_digit_day :: "int \<Rightarrow> bool" where
  "four_digit_day n \<longleftrightarrow> year_start 0 \<le> n \<and> n < year_start 10000"

lemma four_digit_year: "four_digit_day n \<longleftrightarrow> 0 \<le> year_of_day n \<and> year_of_day n \<le> 9999"
proof -
  have "year_start 0 \<le> n \<longleftrightarrow> 0 \<le> year_of_day n"
    using year_of_day_bounds [of n] year_start_mono [of 0 "year_of_day n"]
      year_start_mono [of "year_of_day n + 1" 0] by linarith
  moreover have "n < year_start 10000 \<longleftrightarrow> year_of_day n \<le> 9999"
    using year_of_day_bounds [of n] year_start_mono [of 10000 "year_of_day n"]
      year_start_mono [of "year_of_day n + 1" 10000] by linarith
  ultimately show ?thesis by (simp add: four_digit_day_def)
qed

lemma days_in_month_le: "1 \<le> m \<Longrightarrow> m \<le> 12 \<Longrightarrow> days_in_month y m \<le> 31"
  using months [of m] by (auto simp: days_in_month_def month_start_def)

lemma iso_date_civil:
  assumes "four_digit_day n" and "civil_of_day n = (y, m, d)"
  shows "iso_date n = fixed_digits 4 (nat y) @ ''-'' @ fixed_digits 2 m @ ''-'' @ fixed_digits 2 (nat d)"
    and "0 \<le> y \<and> y \<le> 9999 \<and> 1 \<le> m \<and> m \<le> 12 \<and> 1 \<le> d \<and> d \<le> 31"
proof -
  have "y = year_of_day n" using assms(2) by (simp add: civil_of_day_def Let_def)
  then have y: "0 \<le> y" "y \<le> 9999" using assms(1) four_digit_year by auto
  have v: "valid_civil y m d" using make_day_of_civil(1) [OF assms(2)] .
  with y show "0 \<le> y \<and> y \<le> 9999 \<and> 1 \<le> m \<and> m \<le> 12 \<and> 1 \<le> d \<and> d \<le> 31"
    using days_in_month_le [of m y] by (auto simp: valid_civil_def)
  show "iso_date n = fixed_digits 4 (nat y) @ ''-'' @ fixed_digits 2 m @ ''-'' @ fixed_digits 2 (nat d)"
    using y by (simp add: iso_date_def assms(2) iso_year_def del: fixed_digits.simps)
qed

end
