(* ===== verification/UtcPeriods.thy ===== *)
theory UtcPeriods
  imports Calendar ApiErrors
begin

text \<open>
  The date helpers of src/src/modules/link-statistics: validation, arithmetic and enumeration of
  UTC dates and months kept as text (link-statistics.service.ts, link-statistics.dto.ts and
  typeorm-link-statistics.repository.ts). An invalid \<open>Date\<close> is \<open>None\<close>.
\<close>

section \<open>Operations\<close>

definition UTC_DATE :: rx where
  "UTC_DATE =
     RxSeq (rx_times 4 (RxClass is_digit))
       (RxSeq (rx_lit ''-'')
         (RxSeq (rx_times 2 (RxClass is_digit))
           (RxSeq (rx_lit ''-'') (rx_times 2 (RxClass is_digit)))))"

definition date_match :: "string \<Rightarrow> (nat \<times> nat \<times> nat) option" where
  "date_match s =
     (if rx_test UTC_DATE s
      then Some (digits_value (js_slice 0 4 s), digits_value (js_slice 5 7 s),
                 digits_value (js_slice 8 10 s))
      else None)"

text \<open>\<open>Date.UTC\<close>: a year below 100 counts from 1900.\<close>

definition date_utc :: "nat \<Rightarrow> nat \<Rightarrow> nat \<Rightarrow> int" where
  "date_utc y m d = make_day (if y \<le> 99 then 1900 + int y else int y) m (int d)"

definition is_valid_utc_calendar_date :: "string \<Rightarrow> bool" where
  "is_valid_utc_calendar_date s =
     (case date_match s of
        None \<Rightarrow> False
      | Some (y, m, d) \<Rightarrow> civil_of_day (date_utc y m d) = (int y, m, int d))"

text \<open>\<open>new Date(date + 'T00:00:00.000Z')\<close>, as a day number.\<close>

definition parse_utc_midnight :: "string \<Rightarrow> int option" where
  "parse_utc_midnight s =
     (case date_match s of
        None \<Rightarrow> None
      | Some (y, m, d) \<Rightarrow>
          if valid_civil (int y) m (int d) then Some (make_day (int y) m (int d)) else None)"

definition add_utc_days :: "string \<Rightarrow> int \<Rightarrow> string option" where
  "add_utc_days date days = map_option (\<lambda>n. iso_date (n + days)) (parse_utc_midnight date)"

definition inclusive_calendar_months :: "string \<Rightarrow> string \<Rightarrow> int" where
  "inclusive_calendar_months from_date to_date =
     (int (digits_value (js_slice 0 4 to_date)) - int (digits_value (js_slice 0 4 from_date))) * 12
     + (int (digits_value (js_slice 5 7 to_date)) - int (digits_value (js_slice 5 7 from_date))) + 1"

function each_day :: "int \<Rightarrow> int \<Rightarrow> string list" where
  "each_day cursor end_day =
     (if cursor \<le> end_day then iso_date cursor # each_day (cursor + 1) end_day else [])"
  by auto
termination by (relation "measure (\<lambda>(c, e). nat (e + 1 - c))") auto

declare each_day.simps [simp del]

definition each_utc_date :: "string \<Rightarrow> string \<Rightarrow> string list" where
  "each_utc_date from_date to_date =
     (case (parse_utc_midnight from_date, parse_utc_midnight to_date) of
        (Some c, Some e) \<Rightarrow> each_day c e
      | _ \<Rightarrow> [])"

definition month_text :: "nat \<Rightarrow> nat \<Rightarrow> string" where
  "month_text y m =
     pad_start 4 (CHR ''0'') (nat_to_string y) @ ''-'' @ pad_start 2 (CHR ''0'') (nat_to_string m)"

function each_month :: "nat \<Rightarrow> nat \<Rightarrow> nat \<Rightarrow> nat \<Rightarrow> string list" where
  "each_month y m to_y to_m =
     (if y < to_y \<or> (y = to_y \<and> m \<le> to_m)
      then month_text y m #
        (if 12 < m + 1 then each_month (y + 1) 1 to_y to_m else each_month y (m + 1) to_y to_m)
      else [])"
  by auto
termination by (relation "measures [\<lambda>(y, m, ty, tm). ty + 1 - y, \<lambda>(y, m, ty, tm). 13 - m]") auto

declare each_month.simps [simp del]

text \<open>\<open>month.split('-').map(Number)\<close> of a month \<open>YYYY-MM\<close>.\<close>

definition month_parts :: "string \<Rightarrow> nat \<times> nat" where
  "month_parts s =
     (case split_on (CHR ''-'') s of
        y # m # _ \<Rightarrow> (digits_value y, digits_value m)
      | _ \<Rightarrow> (0, 0))"

definition each_utc_month :: "string \<Rightarrow> string \<Rightarrow> string list" where
  "each_utc_month from_month to_month =
     (case (month_parts from_month, month_parts to_month) of
        ((y, m), (to_y, to_m)) \<Rightarrow> each_month y m to_y to_m)"

definition MAX_INCLUSIVE_CALENDAR_MONTHS :: int where
  "MAX_INCLUSIVE_CALENDAR_MONTHS = 12"

definition DEFAULT_PERIOD_DAYS :: int where
  "DEFAULT_PERIOD_DAYS = 30"

definition period_error :: "string \<Rightarrow> exn" where
  "period_error message = validation_exception [(''period'', [message])]"

definition resolve_period ::
  "int \<Rightarrow> string option \<Rightarrow> string option \<Rightarrow> exn + (string \<times> string)" where
  "resolve_period now query_from query_to =
     (case (query_from, query_to) of
        (None, None) \<Rightarrow>
          (case add_utc_days (utc_date now) (- (DEFAULT_PERIOD_DAYS - 1)) of
             None \<Rightarrow> Inl (PlainErr ''Invalid time value'')
           | Some f \<Rightarrow> Inr (f, utc_date now))
      | (Some f, Some t) \<Rightarrow>
          if \<not> is_valid_utc_calendar_date f \<or> \<not> is_valid_utc_calendar_date t
          then Inl (period_error ''from and to must be valid UTC calendar dates (YYYY-MM-DD).'')
          else if js_less t f
          then Inl (period_error ''from must be less than or equal to to.'')
          else if MAX_INCLUSIVE_CALENDAR_MONTHS < inclusive_calendar_months f t
          then Inl (period_error ''The period must span at most 12 inclusive calendar months.'')
          else Inr (f, t)
      | _ \<Rightarrow> Inl (period_error ''Both from and to are required when specifying a period.''))"

section \<open>Text and dates\<close>

lemma date_match_iff:
  "date_match s = Some (y, m, d) \<longleftrightarrow>
     (\<exists>a b c. s = a @ ''-'' @ b @ ''-'' @ c \<and> length a = 4 \<and> length b = 2 \<and> length c = 2
        \<and> (\<forall>x \<in> set (a @ b @ c). is_digit x)
        \<and> y = digits_value a \<and> m = digits_value b \<and> d = digits_value c)"
proof -
  have "rx_test UTC_DATE s \<longleftrightarrow>
     (\<exists>a b c. s = a @ ''-'' @ b @ ''-'' @ c \<and> length a = 4 \<and> length b = 2 \<and> length c = 2
        \<and> (\<forall>x \<in> set (a @ b @ c). is_digit x))"
    unfolding UTC_DATE_def rx_test_iff
    by (simp add: in_lang_seq_iff rx_shapes Ball_def del: rx_lit.simps rx_times.simps) blast
  moreover have "js_slice 0 4 s = a \<and> js_slice 5 7 s = b \<and> js_slice 8 10 s = c"
    if "s = a @ ''-'' @ b @ ''-'' @ c" "length a = 4" "length b = 2" "length c = 2" for a b c
    using that by (simp add: js_slice_def)
  ultimately show ?thesis
    unfolding date_match_def by (smt (verit, best) option.distinct(1) option.inject prod.inject)
qed

lemma date_match_fixed:
  assumes "y \<le> 9999" and "m \<le> 99" and "d \<le> 99"
  shows "date_match (fixed_digits 4 y @ ''-'' @ fixed_digits 2 m @ ''-'' @ fixed_digits 2 d) =
    Some (y, m, d)"
  unfolding date_match_iff
  using assms fixed_digits_are_digits digits_value_fixed [of y 4] digits_value_fixed [of m 2]
    digits_value_fixed [of d 2]
  by (intro exI [of _ "fixed_digits 4 y"] exI [of _ "fixed_digits 2 m"] exI [of _ "fixed_digits 2 d"])
    (auto simp del: fixed_digits.simps)

lemma date_match_text:
  assumes "date_match s = Some (y, m, d)"
  shows "s = fixed_digits 4 y @ ''-'' @ fixed_digits 2 m @ ''-'' @ fixed_digits 2 d"
    and "y \<le> 9999 \<and> m \<le> 99 \<and> d \<le> 99"
proof -
  from assms obtain a b c where s: "s = a @ ''-'' @ b @ ''-'' @ c" "length a = 4" "length b = 2"
    "length c = 2" "\<forall>x \<in> set a. is_digit x" "\<forall>x \<in> set b. is_digit x" "\<forall>x \<in> set c. is_digit x"
    "y = digits_value a" "m = digits_value b" "d = digits_value c"
    by (auto simp: date_match_iff)
  then show "s = fixed_digits 4 y @ ''-'' @ fixed_digits 2 m @ ''-'' @ fixed_digits 2 d"
    using fixed_digits_value [of a] fixed_digits_value [of b] fixed_digits_value [of c]
    by (simp del: fixed_digits.simps)
  show "y \<le> 9999 \<and> m \<le> 99 \<and> d \<le> 99"
    using s digits_value_bound [of a] digits_value_bound [of b] digits_value_bound [of c] by simp
qed

lemma parse_iso_date:
  assumes "four_digit_day n"
  shows "parse_utc_midnight (iso_date n) = Some n"
proof -
  obtain y m d where c: "civil_of_day n = (y, m, d)" by (cases "civil_of_day n") auto
  note t = iso_date_civil [OF assms c] and v = make_day_of_civil [OF c]
  have "date_match (iso_date n) = Some (nat y, m, nat d)"
    unfolding t(1) using t(2) by (intro date_match_fixed) auto
  with t(2) v show ?thesis by (simp add: parse_utc_midnight_def)
qed

lemma parse_utc_midnight_iso:
  assumes "parse_utc_midnight s = Some n"
  shows "four_digit_day n" "s = iso_date n"
proof -
  from assms obtain y m d where match: "date_match s = Some (y, m, d)"
    and v: "valid_civil (int y) m (int d)" and n: "n = make_day (int y) m (int d)"
    by (auto simp: parse_utc_midnight_def split: option.splits prod.splits if_splits)
  note c = civil_of_make_day [OF v] and y = date_match_text [OF match]
  have "year_of_day n = int y" using c by (simp add: n civil_of_day_def Let_def)
  with y(2) show four: "four_digit_day n" by (simp add: four_digit_year)
  from iso_date_civil(1) [OF four] c n y(1) show "s = iso_date n"
    by (simp del: fixed_digits.simps)
qed

lemma valid_date_iff:
  "is_valid_utc_calendar_date s \<longleftrightarrow> (\<exists>n. s = iso_date n \<and> year_start 100 \<le> n \<and> n < year_start 10000)"
proof
  assume "is_valid_utc_calendar_date s"
  then obtain y m d where match: "date_match s = Some (y, m, d)"
    and c: "civil_of_day (date_utc y m d) = (int y, m, int d)"
    by (auto simp: is_valid_utc_calendar_date_def split: option.splits)
  let ?n = "date_utc y m d"
  note v = make_day_of_civil [OF c] and y = date_match_text [OF match]
  have m: "1 \<le> m" "m \<le> 12" using v(1) by (auto simp: valid_civil_def)
  have year: "year_of_day ?n = int y" using c by (simp add: civil_of_day_def Let_def)
  have "99 < y"
  proof (rule ccontr)
    assume "\<not> 99 < y"
    then have "make_day (1900 + int y) m (int d) = make_day (int y) m (int d)"
      using v(2) by (simp add: date_utc_def)
    then have "year_start (1900 + int y) + month_start (is_leap (1900 + int y)) m =
        year_start (int y) + month_start (is_leap (int y)) m"
      by (simp add: make_day_valid [OF m])
    moreover have "year_start (int y + 1) \<le> year_start (1900 + int y)"
      by (rule year_start_mono) simp
    moreover have "month_start (is_leap (int y)) m < 365"
      using months [OF m] by (auto simp: month_starts)
    moreover have "0 \<le> month_start (is_leap (1900 + int y)) m" using month_start_mono_le(1) [OF m] .
    ultimately show False using year_start_step [of "int y"] by (auto split: if_splits)
  qed
  then have "year_start 100 \<le> ?n" "?n < year_start 10000"
    using year_of_day_bounds [of ?n] year year_start_mono [of 100 "int y"]
      year_start_mono [of "int y + 1" 10000] y(2) by auto
  moreover have "s = iso_date ?n"
  proof -
    have "four_digit_day ?n" using year y(2) by (simp add: four_digit_year)
    from iso_date_civil(1) [OF this c] y(1) show ?thesis by (simp del: fixed_digits.simps)
  qed
  ultimately show "\<exists>n. s = iso_date n \<and> year_start 100 \<le> n \<and> n < year_start 10000" by blast
next
  assume "\<exists>n. s = iso_date n \<and> year_start 100 \<le> n \<and> n < year_start 10000"
  then obtain n where n: "s = iso_date n" "year_start 100 \<le> n" "n < year_start 10000" by blast
  obtain y m d where c: "civil_of_day n = (y, m, d)" by (cases "civil_of_day n") auto
  have four: "four_digit_day n"
    using n year_start_mono [of 0 100] by (simp add: four_digit_day_def)
  note t = iso_date_civil [OF four c] and v = make_day_of_civil [OF c]
  have "y = year_of_day n" using c by (simp add: civil_of_day_def Let_def)
  then have "100 \<le> y"
    using n(2) year_of_day_bounds(2) [of n] year_start_mono [of "y + 1" 100]
    by (cases "100 \<le> y") auto
  moreover have "date_match s = Some (nat y, m, nat d)"
    unfolding n(1) t(1) using t(2) by (intro date_match_fixed) auto
  moreover from \<open>100 \<le> y\<close> have "\<not> nat y \<le> 99" by simp
  ultimately show "is_valid_utc_calendar_date s"
    using t(2) v c by (simp add: is_valid_utc_calendar_date_def date_utc_def)
qed

section \<open>Order of dates\<close>

lemma js_less_append:
  "length u = length v \<Longrightarrow>
     js_less (u @ s) (v @ t) \<longleftrightarrow> js_less u v \<or> (u = v \<and> js_less s t)"
  by (induction u v rule: list_induct2) auto

lemma less_by_digits: "a < b \<longleftrightarrow> a div 10 < b div 10 \<or> (a div 10 = b div 10 \<and> a mod 10 < b mod 10)"
  for a b :: nat
proof -
  have "a = 10 * (a div 10) + a mod 10" "b = 10 * (b div 10) + b mod 10"
    "a mod 10 < 10" "b mod 10 < 10" by simp_all
  then show ?thesis by linarith
qed

lemma fixed_digits_inj:
  "a < 10 ^ w \<Longrightarrow> b < 10 ^ w \<Longrightarrow> fixed_digits w a = fixed_digits w b \<longleftrightarrow> a = b"
  by (metis digits_value_fixed)

lemma js_less_fixed:
  "a < 10 ^ w \<Longrightarrow> b < 10 ^ w \<Longrightarrow> js_less (fixed_digits w a) (fixed_digits w b) \<longleftrightarrow> a < b"
proof (induction w arbitrary: a b)
  case (Suc w)
  then have small: "a div 10 < 10 ^ w" "b div 10 < 10 ^ w" by (auto simp: less_mult_imp_div_less)
  have "js_less [digit_char (a mod 10)] [digit_char (b mod 10)] \<longleftrightarrow> a mod 10 < b mod 10"
    by simp
  then show ?case
    using Suc.IH [OF small] fixed_digits_inj [OF small] less_by_digits [of a b]
      js_less_append [of "fixed_digits w (a div 10)" "fixed_digits w (b div 10)"]
    by (simp only: fixed_digits.simps length_fixed_digits)
qed simp

lemma js_less_dash: "js_less (''-'' @ s) (''-'' @ t) \<longleftrightarrow> js_less s t"
  by simp

lemma js_less_date_text:
  assumes "a < 10000" "b < 10000" "c < 100" "d < 100" "e < 100" "f < 100"
  shows "js_less (fixed_digits 4 a @ ''-'' @ fixed_digits 2 c @ ''-'' @ fixed_digits 2 e)
      (fixed_digits 4 b @ ''-'' @ fixed_digits 2 d @ ''-'' @ fixed_digits 2 f) \<longleftrightarrow>
    a < b \<or> (a = b \<and> (c < d \<or> (c = d \<and> e < f)))"
proof -
  have w: "a < 10 ^ 4" "b < 10 ^ 4" "c < 10\<^sup>2" "d < 10\<^sup>2" "e < 10\<^sup>2" "f < 10\<^sup>2" using assms by simp_all
  note app = js_less_append [OF trans [OF length_fixed_digits length_fixed_digits [symmetric]]]
  show ?thesis
    unfolding app js_less_dash js_less_fixed [OF w(1,2)] js_less_fixed [OF w(3,4)]
      js_less_fixed [OF w(5,6)] fixed_digits_inj [OF w(1,2)] fixed_digits_inj [OF w(3,4)] ..
qed

lemma month_start_step: "1 \<le> m \<Longrightarrow> m \<le> 12 \<Longrightarrow> month_start leap m \<le> month_start leap (m + 1)"
  using months [of m] by (auto simp: month_starts)

lemma month_start_mono:
  assumes "1 \<le> m" and "m < k" and "k \<le> 13"
  shows "month_start leap (m + 1) \<le> month_start leap k"
  using assms(2,3)
proof (induction k)
  case (Suc k)
  show ?case
  proof (cases "m = k")
    case False
    with Suc have "month_start leap (m + 1) \<le> month_start leap k" by simp
    also have "\<dots> \<le> month_start leap (Suc k)"
      using month_start_step [of k leap] assms(1) Suc.prems by simp
    finally show ?thesis .
  qed simp
qed simp

lemma civil_mono:
  assumes "civil_of_day n = (y, m, d)" and "civil_of_day n' = (y', m', d')" and "n < n'"
  shows "y < y' \<or> (y = y' \<and> (m < m' \<or> (m = m' \<and> d < d')))"
proof (rule ccontr)
  assume not: "\<not> ?thesis"
  note v = make_day_of_civil [OF assms(1)] and v' = make_day_of_civil [OF assms(2)]
  have m: "1 \<le> m" "m \<le> 12" "1 \<le> m'" "m' \<le> 12" using v(1) v'(1) by (auto simp: valid_civil_def)
  have n: "n = year_start y + month_start (is_leap y) m + d - 1"
    and n': "n' = year_start y' + month_start (is_leap y') m' + d' - 1"
    using v(2) v'(2) make_day_valid m by auto
  have d: "1 \<le> d" "d' \<le> month_start (is_leap y') (m' + 1) - month_start (is_leap y') m'"
    using v(1) v'(1) by (auto simp: valid_civil_def days_in_month_def)
  from not consider "y' < y" | "y = y'" "m' < m" | "y = y'" "m = m'" "d' \<le> d" by linarith
  then show False
  proof cases
    case 1
    have "n' < year_start (y' + 1)"
      using n' d(2) month_start_mono_le(2) [OF m(3,4), of "is_leap y'"] year_start_step [of y'] by simp
    also have "\<dots> \<le> year_start y" using 1 by (intro year_start_mono) simp
    also have "\<dots> \<le> n" using n d(1) month_start_mono_le(1) [OF m(1,2), of "is_leap y"] by simp
    finally show False using assms(3) by simp
  next
    case 2
    have "month_start (is_leap y) (m' + 1) \<le> month_start (is_leap y) m"
      using 2 m by (intro month_start_mono) auto
    with 2 n n' d assms(3) show False by simp
  next
    case 3
    with n n' assms(3) show False by simp
  qed
qed

lemma js_less_iso_date:
  assumes "four_digit_day a" and "four_digit_day b"
  shows "js_less (iso_date a) (iso_date b) \<longleftrightarrow> a < b"
proof -
  have mono: "js_less (iso_date a) (iso_date b)"
    if "four_digit_day a" "four_digit_day b" "a < b" for a b
  proof -
    obtain y m d y' m' d' where c: "civil_of_day a = (y, m, d)" "civil_of_day b = (y', m', d')"
      by (cases "civil_of_day a"; cases "civil_of_day b") auto
    note t = iso_date_civil [OF that(1) c(1)] and t' = iso_date_civil [OF that(2) c(2)]
    have "nat y < 10000" "nat y' < 10000" "m < 100" "m' < 100" "nat d < 100" "nat d' < 100"
      using t(2) t'(2) by auto
    from js_less_date_text [OF this] civil_mono [OF c that(3)] t t' show ?thesis by auto
  qed
  show ?thesis
    using mono [OF assms] mono [OF assms(2,1)] js_less_irrefl [of "iso_date a"]
      js_less_asym [of "iso_date b" "iso_date a"]
    by (cases a b rule: linorder_cases) auto
qed

lemma iso_date_inj: "four_digit_day a \<Longrightarrow> four_digit_day b \<Longrightarrow> iso_date a = iso_date b \<longleftrightarrow> a = b"
  by (metis parse_iso_date option.inject)

section \<open>Enumerations\<close>

lemma each_day_map: "each_day c e = map iso_date [c..e]"
proof (induction c e rule: each_day.induct)
  case (1 c e)
  then show ?case by (cases "c \<le> e") (simp_all add: each_day.simps [of c e] upto_rec1)
qed

lemma each_utc_date_map:
  "four_digit_day a \<Longrightarrow> four_digit_day b \<Longrightarrow>
     each_utc_date (iso_date a) (iso_date b) = map iso_date [a..b]"
  by (simp add: each_utc_date_def parse_iso_date each_day_map)

text \<open>Months counted from year 0.\<close>

definition month_index :: "nat \<Rightarrow> nat \<Rightarrow> nat" where
  "month_index y m = 12 * y + (m - 1)"

definition index_text :: "nat \<Rightarrow> string" where
  "index_text k = month_text (k div 12) (k mod 12 + 1)"

lemma index_text_month [simp]: "1 \<le> m \<Longrightarrow> m \<le> 12 \<Longrightarrow> index_text (month_index y m) = month_text y m"
  by (cases m) (simp_all add: index_text_def month_index_def)

lemma each_month_map:
  "1 \<le> m \<Longrightarrow> m \<le> 12 \<Longrightarrow> 1 \<le> tm \<Longrightarrow> tm \<le> 12 \<Longrightarrow>
     each_month y m ty tm = map index_text [month_index y m..<Suc (month_index ty tm)]"
proof (induction y m ty tm rule: each_month.induct)
  case (1 y m ty tm)
  have go: "y < ty \<or> (y = ty \<and> m \<le> tm) \<longleftrightarrow> month_index y m < Suc (month_index ty tm)"
    using "1.prems" by (auto simp: month_index_def)
  show ?case
  proof (cases "y < ty \<or> (y = ty \<and> m \<le> tm)")
    case False
    with go show ?thesis by (simp add: each_month.simps [of y m ty tm])
  next
    case True
    have rest: "(if 12 < m + 1 then each_month (y + 1) 1 ty tm else each_month y (m + 1) ty tm) =
        map index_text [Suc (month_index y m)..<Suc (month_index ty tm)]"
    proof (cases "12 < m + 1")
      case next_year: True
      then have "month_index (y + 1) 1 = Suc (month_index y m)"
        using "1.prems" by (simp add: month_index_def)
      with "1.IH"(1) [OF True next_year] "1.prems" next_year show ?thesis by simp
    next
      case same_year: False
      then have "month_index y (m + 1) = Suc (month_index y m)"
        using "1.prems" by (simp add: month_index_def)
      with "1.IH"(2) [OF True same_year] "1.prems" same_year show ?thesis by simp
    qed
    have "[month_index y m..<Suc (month_index ty tm)] =
        month_index y m # [Suc (month_index y m)..<Suc (month_index ty tm)]"
      using True go by (intro upt_rec [THEN trans]) simp
    then show ?thesis
      using True rest "1.prems" by (simp add: each_month.simps [of y m ty tm])
  qed
qed

text \<open>The month of a date, as text and as an index.\<close>

definition index_of_day :: "int \<Rightarrow> nat" where
  "index_of_day n = (case civil_of_day n of (y, m, d) \<Rightarrow> month_index (nat y) m)"

lemma split_month:
  assumes "\<forall>c \<in> set a. is_digit c" and "\<forall>c \<in> set b. is_digit c"
  shows "split_on (CHR ''-'') (a @ ''-'' @ b) = [a, b]"
proof -
  have one: "split_on (CHR ''-'') b = [b]" using assms(2) by (induction b) (auto simp: char_classes)
  from assms(1) show ?thesis by (induction a) (auto simp: one char_classes)
qed

lemma month_of_iso:
  assumes "four_digit_day n" and "civil_of_day n = (y, m, d)"
  shows "js_slice 0 7 (iso_date n) = fixed_digits 4 (nat y) @ ''-'' @ fixed_digits 2 m"
    and "js_slice 0 7 (iso_date n) = index_text (index_of_day n)"
    and "month_parts (js_slice 0 7 (iso_date n)) = (nat y, m)"
    and "digits_value (js_slice 0 4 (iso_date n)) = nat y"
    and "digits_value (js_slice 5 7 (iso_date n)) = m"
proof -
  note t = iso_date_civil [OF assms]
  have small: "nat y < 10 ^ 4" "m < 10\<^sup>2" using t(2) by auto
  show slice: "js_slice 0 7 (iso_date n) = fixed_digits 4 (nat y) @ ''-'' @ fixed_digits 2 m"
    by (simp add: js_slice_def t(1) del: fixed_digits.simps)
  then show "js_slice 0 7 (iso_date n) = index_text (index_of_day n)"
    using t(2) pad_nat_to_string [OF small(1)] pad_nat_to_string [OF small(2)]
    by (simp add: index_of_day_def assms(2) month_text_def del: fixed_digits.simps)
  show "month_parts (js_slice 0 7 (iso_date n)) = (nat y, m)"
    unfolding slice month_parts_def
    using split_month [of "fixed_digits 4 (nat y)" "fixed_digits 2 m"] fixed_digits_are_digits
      digits_value_fixed [OF small(1)] digits_value_fixed [OF small(2)]
    by (simp del: fixed_digits.simps)
  show "digits_value (js_slice 0 4 (iso_date n)) = nat y" "digits_value (js_slice 5 7 (iso_date n)) = m"
    using digits_value_fixed [OF small(1)] digits_value_fixed [OF small(2)]
    by (simp_all add: js_slice_def t(1) del: fixed_digits.simps)
qed

lemma each_utc_month_map:
  assumes "four_digit_day a" and "four_digit_day b"
  shows "each_utc_month (js_slice 0 7 (iso_date a)) (js_slice 0 7 (iso_date b)) =
    map index_text [index_of_day a..<Suc (index_of_day b)]"
proof -
  obtain y m d y' m' d' where c: "civil_of_day a = (y, m, d)" "civil_of_day b = (y', m', d')"
    by (cases "civil_of_day a"; cases "civil_of_day b") auto
  from iso_date_civil(2) [OF assms(1) c(1)] iso_date_civil(2) [OF assms(2) c(2)]
  show ?thesis
    unfolding each_utc_month_def month_of_iso(3) [OF assms(1) c(1)] month_of_iso(3) [OF assms(2) c(2)]
    by (simp add: each_month_map index_of_day_def c)
qed

lemma inclusive_months_iso:
  assumes "four_digit_day a" and "four_digit_day b"
  shows "inclusive_calendar_months (iso_date a) (iso_date b) =
    int (index_of_day b) - int (index_of_day a) + 1"
proof -
  obtain y m d y' m' d' where c: "civil_of_day a = (y, m, d)" "civil_of_day b = (y', m', d')"
    by (cases "civil_of_day a"; cases "civil_of_day b") auto
  from iso_date_civil(2) [OF assms(1) c(1)] iso_date_civil(2) [OF assms(2) c(2)]
  show ?thesis
    unfolding inclusive_calendar_months_def month_of_iso(4,5) [OF assms(1) c(1)]
      month_of_iso(4,5) [OF assms(2) c(2)]
    by (auto simp: index_of_day_def c month_index_def of_nat_diff)
qed

section \<open>Periods\<close>

definition month_first :: "nat \<Rightarrow> int" where
  "month_first k = make_day (int (k div 12)) (k mod 12 + 1) 1"

lemma month_first_month: "1 \<le> m \<Longrightarrow> m \<le> 12 \<Longrightarrow>
    month_first (month_index y m) = year_start (int y) + month_start (is_leap (int y)) m"
  by (cases m) (simp_all add: month_first_def month_index_def make_day_valid)

lemma leap_not_twice: "is_leap y \<Longrightarrow> \<not> is_leap (y + 1)"
proof
  assume "is_leap y" "is_leap (y + 1)"
  moreover have "y mod 4 = 0" if "is_leap y" for y :: int
  proof -
    have "y mod 400 = 0 \<Longrightarrow> y mod 4 = 0"
      using dvd_trans [of 4 400 y] by (simp add: mod_eq_0_iff_dvd)
    with that show ?thesis by (auto simp: is_leap_def)
  qed
  ultimately have "y mod 4 = 0" "(y + 1) mod 4 = 0" by blast+
  then show False by presburger
qed

lemma month_first_year:
  "month_first (k + 12) \<le> month_first k + 366" "month_first k + 365 \<le> month_first (k + 12)"
proof -
  let ?y = "int (k div 12)" and ?m = "k mod 12 + 1"
  have m: "1 \<le> ?m" "?m \<le> 12" by auto
  have ks: "month_first k = year_start ?y + month_start (is_leap ?y) ?m"
    "month_first (k + 12) = year_start (?y + 1) + month_start (is_leap (?y + 1)) ?m"
    using make_day_valid [OF m] by (simp_all only: month_first_def div_add_self2 mod_add_self2)
      (simp_all add: add.commute)
  have "month_start (is_leap (?y + 1)) ?m \<le> month_start (is_leap ?y) ?m + (if is_leap ?y then 0 else 1)"
    and "month_start (is_leap ?y) ?m - (if is_leap ?y then 1 else 0) \<le> month_start (is_leap (?y + 1)) ?m"
    using leap_not_twice [of ?y] by (auto simp: month_start_def)
  with ks show "month_first (k + 12) \<le> month_first k + 366" "month_first k + 365 \<le> month_first (k + 12)"
    using year_start_step [of ?y] by (auto split: if_splits)
qed

lemma month_first_mono: "j \<le> k \<Longrightarrow> month_first j \<le> month_first k"
proof (induction k)
  case (Suc k)
  have "month_first k \<le> month_first (Suc k)"
  proof -
    let ?y = "int (k div 12)" and ?m = "k mod 12 + 1"
    have m: "1 \<le> ?m" "?m \<le> 12" by auto
    have here: "month_first k = year_start ?y + month_start (is_leap ?y) ?m"
      by (simp add: month_first_def make_day_valid)
    show ?thesis
    proof (cases "k mod 12 = 11")
      case True
      then have "Suc k div 12 = k div 12 + 1" "Suc k mod 12 = 0" by (simp_all add: div_Suc mod_Suc)
      then have "month_first (Suc k) = year_start (?y + 1)"
        by (simp add: month_first_def make_day_valid month_starts add.commute)
      moreover have "month_first k = year_start ?y + month_start (is_leap ?y) 12"
        using here True by simp
      ultimately show ?thesis using year_start_step [of ?y] by (simp add: month_starts)
    next
      case False
      then have "Suc k div 12 = k div 12" "Suc k mod 12 = k mod 12 + 1" by (simp_all add: div_Suc mod_Suc)
      then have "month_first (Suc k) = year_start ?y + month_start (is_leap ?y) (?m + 1)"
        using m False by (simp add: month_first_def make_day_valid)
      with here month_start_step [OF m] show ?thesis by simp
    qed
  qed
  with Suc show ?case by (cases "j = Suc k") auto
qed simp

lemma day_within_month:
  assumes "four_digit_day n"
  shows "month_first (index_of_day n) \<le> n" "n < month_first (index_of_day n + 1)"
    and "n \<le> month_first (index_of_day n) + 30"
proof -
  obtain y m d where c: "civil_of_day n = (y, m, d)" by (cases "civil_of_day n") auto
  note v = make_day_of_civil [OF c] and t = iso_date_civil(2) [OF assms c]
  have m: "1 \<le> m" "m \<le> 12" and y: "int (nat y) = y" using t by auto
  have n: "n = year_start y + month_start (is_leap y) m + d - 1"
    using v(2) make_day_valid [OF m] by simp
  have k: "index_of_day n = month_index (nat y) m" by (simp add: index_of_day_def c)
  show "month_first (index_of_day n) \<le> n" "n \<le> month_first (index_of_day n) + 30"
    using n t month_first_month [OF m, of "nat y"] y unfolding k by simp_all
  have d: "d \<le> month_start (is_leap y) (m + 1) - month_start (is_leap y) m"
    using v(1) by (simp add: valid_civil_def days_in_month_def)
  have "month_first (index_of_day n + 1) = year_start y + month_start (is_leap y) (m + 1)"
  proof (cases "m = 12")
    case True
    then have "index_of_day n + 1 = month_index (nat y + 1) 1" by (simp add: k month_index_def)
    moreover have "month_first (month_index (nat y + 1) 1) = year_start (y + 1)"
      using month_first_month [of 1 "nat y + 1"] y by (simp add: month_starts add.commute)
    ultimately show ?thesis using True year_start_step [of y] by (simp add: month_starts)
  next
    case False
    then have "index_of_day n + 1 = month_index (nat y) (m + 1)" using m by (simp add: k month_index_def)
    with month_first_month [of "m + 1" "nat y"] m False y show ?thesis by simp
  qed
  with n d show "n < month_first (index_of_day n + 1)" by simp
qed

lemma index_of_day_mono: "four_digit_day a \<Longrightarrow> four_digit_day b \<Longrightarrow> a \<le> b \<Longrightarrow>
    index_of_day a \<le> index_of_day b"
  using day_within_month [of a] day_within_month [of b] month_first_mono [of "index_of_day b + 1" "index_of_day a"]
  by (cases "index_of_day a \<le> index_of_day b") auto

lemma few_months_few_days:
  assumes "four_digit_day a" and "four_digit_day b" and "index_of_day b < index_of_day a + 12"
  shows "b - a < 366"
proof -
  have "b < month_first (index_of_day b + 1)" using day_within_month(2) [OF assms(2)] .
  also have "\<dots> \<le> month_first (index_of_day a + 12)" using assms(3) by (intro month_first_mono) simp
  also have "\<dots> \<le> month_first (index_of_day a) + 366" by (rule month_first_year(1))
  finally show ?thesis using day_within_month(1) [OF assms(1)] by simp
qed

lemma four_digit_between:
  "four_digit_day a \<Longrightarrow> four_digit_day b \<Longrightarrow> a \<le> n \<Longrightarrow> n \<le> b \<Longrightarrow> four_digit_day n"
  by (simp add: four_digit_day_def)

text \<open>
  Property C33. An accepted period is a pair of real dates in order that spans at most twelve
  calendar months and 366 days; without parameters it is the 30 days ending today. The enumeration
  of its days is then every date from the first to the last, each once, in order.
\<close>

theorem resolve_period_sound:
  assumes "resolve_period now qf qt = Inr (f, t)"
    and "four_digit_day (day_of_instant now - 29)" and "four_digit_day (day_of_instant now)"
  shows "\<exists>a b. f = iso_date a \<and> t = iso_date b \<and> a \<le> b \<and> b - a < 366
    \<and> each_utc_date f t = map iso_date [a..b]
    \<and> each_utc_month (js_slice 0 7 f) (js_slice 0 7 t) =
        map index_text [index_of_day a..<Suc (index_of_day b)]
    \<and> index_of_day b - index_of_day a < 12
    \<and> (if qf = None then b = day_of_instant now \<and> a = b - 29
       else qf = Some f \<and> qt = Some t)"
proof -
  obtain a b where ab: "f = iso_date a" "t = iso_date b" "four_digit_day a" "four_digit_day b" "a \<le> b"
    "index_of_day b < index_of_day a + 12"
    "if qf = None then b = day_of_instant now \<and> a = b - 29 else qf = Some f \<and> qt = Some t"
  proof (cases qf)
    case None
    let ?b = "day_of_instant now"
    have "f = iso_date (?b - 29)" "t = iso_date ?b"
      using assms None parse_iso_date [OF assms(3)]
      by (auto simp: resolve_period_def add_utc_days_def utc_date_def DEFAULT_PERIOD_DAYS_def
          split: option.splits)
    moreover have "index_of_day ?b < index_of_day (?b - 29) + 12"
    proof (rule ccontr)
      assume "\<not> ?thesis"
      then have "month_first (index_of_day (?b - 29) + 12) \<le> month_first (index_of_day ?b)"
        by (intro month_first_mono) simp
      also have "\<dots> \<le> ?b" using day_within_month(1) [OF assms(3)] .
      finally show False
        using month_first_year(2) [of "index_of_day (?b - 29)"] day_within_month(3) [OF assms(2)]
        by simp
    qed
    ultimately show ?thesis using None assms(2,3) by (intro that [of "?b - 29" ?b]) simp_all
  next
    case (Some x)
    with assms(1) have q: "qf = Some f" "qt = Some t" and v: "is_valid_utc_calendar_date f"
      "is_valid_utc_calendar_date t" "\<not> js_less t f" "inclusive_calendar_months f t \<le> 12"
      by (auto simp: resolve_period_def MAX_INCLUSIVE_CALENDAR_MONTHS_def
          split: option.splits if_splits)
    from v(1,2) obtain a b where ab: "f = iso_date a" "t = iso_date b"
      "year_start 100 \<le> a" "a < year_start 10000" "year_start 100 \<le> b" "b < year_start 10000"
      by (auto simp: valid_date_iff)
    then have four: "four_digit_day a" "four_digit_day b"
      using year_start_mono [of 0 100] by (auto simp: four_digit_day_def)
    show ?thesis
      using q v(3,4) ab(1,2) four js_less_iso_date [OF four(2,1)] inclusive_months_iso [OF four]
      by (intro that [of a b]) simp_all
  qed
  have "b - a < 366" using few_months_few_days [OF ab(3,4,6)] .
  moreover have "index_of_day b - index_of_day a < 12" using ab(6) by linarith
  moreover have "each_utc_date f t = map iso_date [a..b]"
    unfolding ab(1,2) by (rule each_utc_date_map [OF ab(3,4)])
  moreover have "each_utc_month (js_slice 0 7 f) (js_slice 0 7 t) =
      map index_text [index_of_day a..<Suc (index_of_day b)]"
    unfolding ab(1,2) by (rule each_utc_month_map [OF ab(3,4)])
  ultimately show ?thesis using ab(1,2,5,7) by blast
qed

text \<open>
  The date check accepts exactly the text of the real calendar dates of the years
  100 to 9999, and comparing accepted texts compares the dates.
\<close>

theorem valid_dates_are_calendar_dates:
  "is_valid_utc_calendar_date s \<longleftrightarrow>
     (\<exists>n. s = iso_date n \<and> parse_utc_midnight s = Some n
        \<and> year_start 100 \<le> n \<and> n < year_start 10000)"
proof -
  have "parse_utc_midnight (iso_date n) = Some n" if "year_start 100 \<le> n" "n < year_start 10000" for n
    using that year_start_mono [of 0 100] by (intro parse_iso_date) (simp add: four_digit_day_def)
  then show ?thesis using valid_date_iff by metis
qed

end
