(* ===== verification/LinkStatistics.thy ===== *)
theory LinkStatistics
  imports LinksRepo UtcPeriods
begin

text \<open>
  The statistics repository (src/src/modules/link-statistics/typeorm-link-statistics.repository.ts):
  recording an access, finalising days, the report. Each operation is one transaction under the
  advisory lock of its link and day, except that finalising runs one transaction per candidate.
  Dates are their text; texts are ordered by code units. Counters are unbounded integers.
\<close>

section \<open>Types\<close>

record access_input =
  ai_event_id :: uuid
  ai_link_id :: uuid
  ai_occurred_at :: instant
  ai_occurred_on :: string
  ai_country :: string
  ai_visitor_pseudonym :: string

record stat_point =
  sp_accesses :: int
  sp_unique :: int

record report =
  rp_link_id :: uuid
  rp_from :: string
  rp_to :: string
  rp_totals :: stat_point
  rp_daily :: "(string \<times> stat_point) list"
  rp_monthly :: "(string \<times> stat_point) list"
  rp_countries :: "(string \<times> stat_point) list"

section \<open>Recording an access\<close>

definition day_finalized :: "uuid \<Rightarrow> string \<Rightarrow> db \<Rightarrow> bool" where
  "day_finalized l day d =
     list_ex (\<lambda>s. sd_link_id s = l \<and> sd_occurred_on s = day) (statistics_days d)"

definition foreign_key_violation :: exn where
  "foreign_key_violation =
     QueryErr \<lparr>pg_code = ''23503'', pg_constraint = ''FK_c33b83fdf5c7442fbcb2dc0175f'', pg_detail = []\<rparr>"

text \<open>INSERT ... ON CONFLICT ("id") DO NOTHING RETURNING "id": whether a row was inserted.\<close>

definition insert_event :: "access_input \<Rightarrow> bool dbm" where
  "insert_event i = (\<lambda>d.
     if ai_event_id i \<in> ev_id ` set (access_events d) then (Inr False, d)
     else if ai_link_id i \<notin> lk_id ` set (links d) then (Inl foreign_key_violation, d)
     else (Inr True, d\<lparr>access_events := access_events d @
       [\<lparr>ev_id = ai_event_id i, ev_link_id = ai_link_id i, ev_occurred_at = ai_occurred_at i,
         ev_occurred_on = ai_occurred_on i, ev_country = ai_country i,
         ev_visitor_pseudonym = ai_visitor_pseudonym i\<rparr>]\<rparr>))"

definition daily_key :: "daily_aggregate \<Rightarrow> uuid \<times> string \<times> string" where
  "daily_key r = (da_link_id r, da_occurred_on r, da_country r)"

definition count_daily_access :: "uuid \<Rightarrow> string \<Rightarrow> string \<Rightarrow> db \<Rightarrow> db" where
  "count_daily_access l day c d =
     (if (l, day, c) \<in> daily_key ` set (daily_aggregates d)
      then d\<lparr>daily_aggregates := update_where (\<lambda>r. daily_key r = (l, day, c))
             (\<lambda>r. r\<lparr>da_access_count := da_access_count r + 1\<rparr>) (daily_aggregates d)\<rparr>
      else d\<lparr>daily_aggregates := daily_aggregates d @
             [\<lparr>da_link_id = l, da_occurred_on = day, da_country = c, da_access_count = 1,
               da_unique_visitor_count = 0\<rparr>]\<rparr>)"

definition monthly_key :: "monthly_aggregate \<Rightarrow> uuid \<times> string" where
  "monthly_key r = (ma_link_id r, ma_occurred_month r)"

definition count_monthly_access :: "uuid \<Rightarrow> string \<Rightarrow> db \<Rightarrow> db" where
  "count_monthly_access l month d =
     (if (l, month) \<in> monthly_key ` set (monthly_aggregates d)
      then d\<lparr>monthly_aggregates := update_where (\<lambda>r. monthly_key r = (l, month))
             (\<lambda>r. r\<lparr>ma_access_count := ma_access_count r + 1\<rparr>) (monthly_aggregates d)\<rparr>
      else d\<lparr>monthly_aggregates := monthly_aggregates d @
             [\<lparr>ma_link_id = l, ma_occurred_month = month, ma_access_count = 1,
               ma_daily_unique_visitor_count = 0\<rparr>]\<rparr>)"

definition visitor_key :: "daily_visitor \<Rightarrow> uuid \<times> string \<times> string" where
  "visitor_key v = (dv_link_id v, dv_occurred_on v, dv_visitor_pseudonym v)"

text \<open>INSERT ... ON CONFLICT DO NOTHING RETURNING: whether the visitor is new today.\<close>

definition insert_visitor :: "access_input \<Rightarrow> bool dbm" where
  "insert_visitor i = (\<lambda>d.
     if (ai_link_id i, ai_occurred_on i, ai_visitor_pseudonym i) \<in> visitor_key ` set (daily_visitors d)
     then (Inr False, d)
     else (Inr True, d\<lparr>daily_visitors := daily_visitors d @
       [\<lparr>dv_link_id = ai_link_id i, dv_occurred_on = ai_occurred_on i,
         dv_visitor_pseudonym = ai_visitor_pseudonym i, dv_country = ai_country i\<rparr>]\<rparr>))"

definition count_daily_visitor :: "uuid \<Rightarrow> string \<Rightarrow> string \<Rightarrow> db \<Rightarrow> db" where
  "count_daily_visitor l day c d =
     d\<lparr>daily_aggregates := update_where (\<lambda>r. daily_key r = (l, day, c))
        (\<lambda>r. r\<lparr>da_unique_visitor_count := da_unique_visitor_count r + 1\<rparr>) (daily_aggregates d)\<rparr>"

definition count_monthly_visitor :: "uuid \<Rightarrow> string \<Rightarrow> db \<Rightarrow> db" where
  "count_monthly_visitor l month d =
     d\<lparr>monthly_aggregates := update_where (\<lambda>r. monthly_key r = (l, month))
        (\<lambda>r. r\<lparr>ma_daily_unique_visitor_count := ma_daily_unique_visitor_count r + 1\<rparr>)
        (monthly_aggregates d)\<rparr>"

definition record_access :: "access_input \<Rightarrow> unit dbm" where
  "record_access i = transaction
     (bindM (getsM (day_finalized (ai_link_id i) (ai_occurred_on i))) (\<lambda>finalized.
       if finalized then returnM ()
       else bindM (insert_event i) (\<lambda>inserted.
         if \<not> inserted then returnM ()
         else let occurred_month = js_slice 0 7 (ai_occurred_on i) in
           thenM (modifyM (count_daily_access (ai_link_id i) (ai_occurred_on i) (ai_country i)))
             (thenM (modifyM (count_monthly_access (ai_link_id i) occurred_month))
               (bindM (insert_visitor i) (\<lambda>new_visitor.
                 if \<not> new_visitor then returnM ()
                 else thenM
                   (modifyM (count_daily_visitor (ai_link_id i) (ai_occurred_on i) (ai_country i)))
                   (modifyM (count_monthly_visitor (ai_link_id i) occurred_month))))))))"

section \<open>Finalising days\<close>

definition candidate_before :: "uuid \<times> string \<Rightarrow> uuid \<times> string \<Rightarrow> bool" where
  "candidate_before a b \<longleftrightarrow>
     js_less (snd a) (snd b) \<or> (snd a = snd b \<and> js_less (fst a) (fst b))"

fun insert_candidate :: "uuid \<times> string \<Rightarrow> (uuid \<times> string) list \<Rightarrow> (uuid \<times> string) list" where
  "insert_candidate x [] = [x]"
| "insert_candidate x (y # ys) =
     (if candidate_before y x then y # insert_candidate x ys else x # y # ys)"

definition finalize_candidates :: "string \<Rightarrow> db \<Rightarrow> (uuid \<times> string) list" where
  "finalize_candidates before d =
     (let days = map (\<lambda>e. (ev_link_id e, ev_occurred_on e)) (access_events d)
               @ map (\<lambda>v. (dv_link_id v, dv_occurred_on v)) (daily_visitors d);
          due = filter (\<lambda>(l, day). js_less day before \<and> \<not> day_finalized l day d) (remdups days)
      in foldr insert_candidate due [])"

definition delete_day :: "uuid \<Rightarrow> string \<Rightarrow> db \<Rightarrow> db" where
  "delete_day l day d =
     d\<lparr>access_events := filter (\<lambda>e. \<not> (ev_link_id e = l \<and> ev_occurred_on e = day)) (access_events d),
       daily_visitors := filter (\<lambda>v. \<not> (dv_link_id v = l \<and> dv_occurred_on v = day)) (daily_visitors d)\<rparr>"

definition finalize_day :: "instant \<Rightarrow> uuid \<times> string \<Rightarrow> unit dbm" where
  "finalize_day now candidate = (case candidate of (l, day) \<Rightarrow> transaction
     (bindM (getsM (day_finalized l day)) (\<lambda>existing.
       thenM
         (if existing then returnM ()
          else modifyM (\<lambda>d. d\<lparr>statistics_days := statistics_days d @
                 [\<lparr>sd_link_id = l, sd_occurred_on = day, sd_finalized_at = now\<rparr>]\<rparr>))
         (modifyM (delete_day l day)))))"

definition finalize_days :: "instant \<Rightarrow> string \<Rightarrow> unit dbm" where
  "finalize_days now before =
     bindM (getsM (finalize_candidates before)) (\<lambda>candidates. forM candidates (finalize_day now))"

section \<open>The report\<close>

definition in_period :: "string \<Rightarrow> string \<Rightarrow> string \<Rightarrow> bool" where
  "in_period from_date to_date day \<longleftrightarrow> \<not> js_less day from_date \<and> \<not> js_less to_date day"

definition period_rows :: "uuid \<Rightarrow> string \<Rightarrow> string \<Rightarrow> db \<Rightarrow> daily_aggregate list" where
  "period_rows l from_date to_date d =
     filter (\<lambda>r. da_link_id r = l \<and> in_period from_date to_date (da_occurred_on r)) (daily_aggregates d)"

definition sum_rows :: "daily_aggregate list \<Rightarrow> stat_point" where
  "sum_rows rows = \<lparr>sp_accesses = sum_list (map da_access_count rows),
     sp_unique = sum_list (map da_unique_visitor_count rows)\<rparr>"

text \<open>GROUP BY a column: each value once, with the sums of its rows.\<close>

definition group_rows :: "(daily_aggregate \<Rightarrow> string) \<Rightarrow> daily_aggregate list \<Rightarrow> (string \<times> stat_point) list" where
  "group_rows key rows =
     map (\<lambda>k. (k, sum_rows (filter (\<lambda>r. key r = k) rows))) (remdups (map key rows))"

text \<open>ORDER BY SUM("accessCount") DESC, "country" ASC.\<close>

definition country_before :: "string \<times> stat_point \<Rightarrow> string \<times> stat_point \<Rightarrow> bool" where
  "country_before a b \<longleftrightarrow>
     sp_accesses (snd b) < sp_accesses (snd a)
     \<or> (sp_accesses (snd a) = sp_accesses (snd b) \<and> js_less (fst a) (fst b))"

fun insert_country ::
  "string \<times> stat_point \<Rightarrow> (string \<times> stat_point) list \<Rightarrow> (string \<times> stat_point) list" where
  "insert_country x [] = [x]"
| "insert_country x (y # ys) =
     (if country_before y x then y # insert_country x ys else x # y # ys)"

definition sort_countries :: "(string \<times> stat_point) list \<Rightarrow> (string \<times> stat_point) list" where
  "sort_countries xs = foldr insert_country xs []"

definition no_accesses :: stat_point where
  "no_accesses = \<lparr>sp_accesses = 0, sp_unique = 0\<rparr>"

definition point_at :: "(string \<times> stat_point) list \<Rightarrow> string \<Rightarrow> string \<times> stat_point" where
  "point_at points key = (key, case map_of points key of None \<Rightarrow> no_accesses | Some p \<Rightarrow> p)"

definition monthly_points :: "uuid \<Rightarrow> string \<Rightarrow> string \<Rightarrow> db \<Rightarrow> (string \<times> stat_point) list" where
  "monthly_points l month_from month_to d =
     map (\<lambda>r. (ma_occurred_month r, \<lparr>sp_accesses = ma_access_count r,
                 sp_unique = ma_daily_unique_visitor_count r\<rparr>))
       (filter (\<lambda>r. ma_link_id r = l \<and> in_period month_from month_to (ma_occurred_month r))
         (monthly_aggregates d))"

definition get_report :: "uuid \<Rightarrow> string \<Rightarrow> string \<Rightarrow> report dbm" where
  "get_report l from_date to_date =
     bindM (getsM (\<lambda>d. group_rows da_occurred_on (period_rows l from_date to_date d))) (\<lambda>days.
       let daily = map (point_at days) (each_utc_date from_date to_date);
           month_from = js_slice 0 7 from_date;
           month_to = js_slice 0 7 to_date
       in bindM (getsM (monthly_points l month_from month_to)) (\<lambda>months.
         let monthly = map (point_at months) (each_utc_month month_from month_to)
         in bindM (getsM (\<lambda>d. sort_countries (group_rows da_country (period_rows l from_date to_date d))))
           (\<lambda>countries.
             bindM (getsM (\<lambda>d. sum_rows (period_rows l from_date to_date d))) (\<lambda>totals.
               returnM
                 \<lparr>rp_link_id = l, rp_from = from_date, rp_to = to_date, rp_totals = totals,
                  rp_daily = daily, rp_monthly = monthly, rp_countries = countries\<rparr>))))"

section \<open>Counting rows by key\<close>

definition bump :: "('r \<Rightarrow> 'k) \<Rightarrow> 'k \<Rightarrow> ('r \<Rightarrow> 'r) \<Rightarrow> 'r \<Rightarrow> 'r list \<Rightarrow> 'r list" where
  "bump k x g new rows =
     (if x \<in> k ` set rows then update_where (\<lambda>r. k r = x) g rows else rows @ [new])"

definition sum_key :: "('r \<Rightarrow> 'k) \<Rightarrow> ('k \<Rightarrow> bool) \<Rightarrow> ('r \<Rightarrow> int) \<Rightarrow> 'r list \<Rightarrow> int" where
  "sum_key k P f rows = sum_list (map f (filter (\<lambda>r. P (k r)) rows))"

lemma sum_key_update:
  assumes "distinct (map k rows)" and "\<And>r. k (g r) = k r" and "\<And>r. f (g r) = f r + c"
  shows "sum_key k P f (update_where (\<lambda>r. k r = x) g rows) =
    sum_key k P f rows + (if P x \<and> x \<in> k ` set rows then c else 0)"
  using assms(1)
proof (induction rows)
  case (Cons r rows)
  show ?case
  proof (cases "k r = x")
    case True
    then have "update_where (\<lambda>r. k r = x) g rows = rows"
      using Cons.prems by (auto simp: update_where_def image_iff intro!: map_idI)
    with True show ?thesis by (simp add: sum_key_def assms)
  next
    case False
    with Cons show ?thesis by (auto simp: sum_key_def)
  qed
qed (simp add: sum_key_def)

lemma sum_key_bump:
  assumes "distinct (map k rows)" and "\<And>r. k (g r) = k r" and "\<And>r. f (g r) = f r + c"
    and "k new = x" and "f new = c"
  shows "sum_key k P f (bump k x g new rows) = sum_key k P f rows + (if P x then c else 0)"
  using sum_key_update [where k = k and g = g and f = f and c = c and rows = rows, OF assms(1-3)]
    assms(4,5) by (auto simp: bump_def sum_key_def)

lemma distinct_bump:
  "distinct (map k rows) \<Longrightarrow> (\<And>r. k (g r) = k r) \<Longrightarrow> k new = x \<Longrightarrow>
     distinct (map k (bump k x g new rows))"
  by (auto simp: bump_def map_update_where)

lemma key_in_bump: "(\<And>r. k (g r) = k r) \<Longrightarrow> k new = x \<Longrightarrow> x \<in> k ` set (bump k x g new rows)"
proof -
  assume g: "\<And>r. k (g r) = k r" and n: "k new = x"
  have "k ` set (update_where p g rows) = k ` set rows" for p
    by (metis g list.set_map map_update_where)
  with n show ?thesis by (auto simp: bump_def)
qed

definition bump_access :: "daily_aggregate \<Rightarrow> daily_aggregate" where
  "bump_access r = r\<lparr>da_access_count := da_access_count r + 1\<rparr>"

definition bump_unique :: "daily_aggregate \<Rightarrow> daily_aggregate" where
  "bump_unique r = r\<lparr>da_unique_visitor_count := da_unique_visitor_count r + 1\<rparr>"

definition bump_month :: "monthly_aggregate \<Rightarrow> monthly_aggregate" where
  "bump_month r = r\<lparr>ma_access_count := ma_access_count r + 1\<rparr>"

definition bump_month_unique :: "monthly_aggregate \<Rightarrow> monthly_aggregate" where
  "bump_month_unique r = r\<lparr>ma_daily_unique_visitor_count := ma_daily_unique_visitor_count r + 1\<rparr>"

lemma bump_simps [simp]:
  "daily_key (bump_access r) = daily_key r" "daily_key (bump_unique r) = daily_key r"
  "monthly_key (bump_month m) = monthly_key m" "monthly_key (bump_month_unique m) = monthly_key m"
  "da_access_count (bump_access r) = da_access_count r + 1"
  "da_unique_visitor_count (bump_access r) = da_unique_visitor_count r + 0"
  "da_access_count (bump_unique r) = da_access_count r + 0"
  "da_unique_visitor_count (bump_unique r) = da_unique_visitor_count r + 1"
  "ma_access_count (bump_month m) = ma_access_count m + 1"
  "ma_daily_unique_visitor_count (bump_month m) = ma_daily_unique_visitor_count m + 0"
  "ma_access_count (bump_month_unique m) = ma_access_count m + 0"
  "ma_daily_unique_visitor_count (bump_month_unique m) = ma_daily_unique_visitor_count m + 1"
  by (simp_all add: bump_access_def bump_unique_def bump_month_def bump_month_unique_def
      daily_key_def monthly_key_def)

definition new_daily :: "uuid \<Rightarrow> string \<Rightarrow> string \<Rightarrow> daily_aggregate" where
  "new_daily l day c = \<lparr>da_link_id = l, da_occurred_on = day, da_country = c, da_access_count = 1,
     da_unique_visitor_count = 0\<rparr>"

definition new_monthly :: "uuid \<Rightarrow> string \<Rightarrow> monthly_aggregate" where
  "new_monthly l month = \<lparr>ma_link_id = l, ma_occurred_month = month, ma_access_count = 1,
     ma_daily_unique_visitor_count = 0\<rparr>"

lemma new_simps [simp]:
  "daily_key (new_daily l day c) = (l, day, c)" "da_access_count (new_daily l day c) = 1"
  "da_unique_visitor_count (new_daily l day c) = 0"
  "monthly_key (new_monthly l mo) = (l, mo)" "ma_access_count (new_monthly l mo) = 1"
  "ma_daily_unique_visitor_count (new_monthly l mo) = 0"
  by (simp_all add: new_daily_def new_monthly_def daily_key_def monthly_key_def)

lemma count_daily_access_bump:
  "count_daily_access l day c d = d\<lparr>daily_aggregates :=
     bump daily_key (l, day, c) bump_access (new_daily l day c) (daily_aggregates d)\<rparr>"
  by (simp add: count_daily_access_def bump_def bump_access_def [abs_def] new_daily_def)

lemma count_monthly_access_bump:
  "count_monthly_access l mo d = d\<lparr>monthly_aggregates :=
     bump monthly_key (l, mo) bump_month (new_monthly l mo) (monthly_aggregates d)\<rparr>"
  by (simp add: count_monthly_access_def bump_def bump_month_def [abs_def] new_monthly_def)

section \<open>What recording an access does\<close>

definition accesses_at :: "(uuid \<times> string \<times> string \<Rightarrow> bool) \<Rightarrow> db \<Rightarrow> int" where
  "accesses_at P d = sum_key daily_key P da_access_count (daily_aggregates d)"

definition uniques_at :: "(uuid \<times> string \<times> string \<Rightarrow> bool) \<Rightarrow> db \<Rightarrow> int" where
  "uniques_at P d = sum_key daily_key P da_unique_visitor_count (daily_aggregates d)"

definition month_accesses_at :: "(uuid \<times> string \<Rightarrow> bool) \<Rightarrow> db \<Rightarrow> int" where
  "month_accesses_at P d = sum_key monthly_key P ma_access_count (monthly_aggregates d)"

definition month_uniques_at :: "(uuid \<times> string \<Rightarrow> bool) \<Rightarrow> db \<Rightarrow> int" where
  "month_uniques_at P d = sum_key monthly_key P ma_daily_unique_visitor_count (monthly_aggregates d)"

definition stats_keys :: "db \<Rightarrow> bool" where
  "stats_keys d \<longleftrightarrow>
     distinct (map ev_id (access_events d)) \<and> distinct (map visitor_key (daily_visitors d))
     \<and> distinct (map daily_key (daily_aggregates d)) \<and> distinct (map monthly_key (monthly_aggregates d))"

definition event_of :: "access_input \<Rightarrow> access_event" where
  "event_of i = \<lparr>ev_id = ai_event_id i, ev_link_id = ai_link_id i, ev_occurred_at = ai_occurred_at i,
     ev_occurred_on = ai_occurred_on i, ev_country = ai_country i,
     ev_visitor_pseudonym = ai_visitor_pseudonym i\<rparr>"

definition visitor_of :: "access_input \<Rightarrow> daily_visitor" where
  "visitor_of i = \<lparr>dv_link_id = ai_link_id i, dv_occurred_on = ai_occurred_on i,
     dv_visitor_pseudonym = ai_visitor_pseudonym i, dv_country = ai_country i\<rparr>"

definition counts_access :: "access_input \<Rightarrow> db \<Rightarrow> bool" where
  "counts_access i d \<longleftrightarrow>
     \<not> day_finalized (ai_link_id i) (ai_occurred_on i) d
     \<and> ai_event_id i \<notin> ev_id ` set (access_events d)"

definition counts_visitor :: "access_input \<Rightarrow> db \<Rightarrow> bool" where
  "counts_visitor i d \<longleftrightarrow> visitor_key (visitor_of i) \<notin> visitor_key ` set (daily_visitors d)"

lemma record_access_ignored: "\<not> counts_access i d \<Longrightarrow> record_access i d = (Inr (), d)"
  by (auto simp: counts_access_def record_access_def transaction_def insert_event_def run_simps)

lemma record_access_unknown_link:
  "counts_access i d \<Longrightarrow> ai_link_id i \<notin> lk_id ` set (links d) \<Longrightarrow>
     record_access i d = (Inl foreign_key_violation, d)"
  by (auto simp: counts_access_def record_access_def transaction_def insert_event_def run_simps)

text \<open>The new database, table by table.\<close>

definition recorded :: "access_input \<Rightarrow> db \<Rightarrow> db" where
  "recorded i d =
     (let l = ai_link_id i; day = ai_occurred_on i; c = ai_country i; mo = js_slice 0 7 day;
          daily = bump daily_key (l, day, c) bump_access (new_daily l day c) (daily_aggregates d);
          monthly = bump monthly_key (l, mo) bump_month (new_monthly l mo) (monthly_aggregates d);
          seen = counts_visitor i d
      in d\<lparr>daily_visitors := daily_visitors d @ (if seen then [visitor_of i] else []),
           daily_aggregates :=
             (if seen then update_where (\<lambda>r. daily_key r = (l, day, c)) bump_unique daily else daily),
           monthly_aggregates :=
             (if seen then update_where (\<lambda>r. monthly_key r = (l, mo)) bump_month_unique monthly
              else monthly),
           access_events := access_events d @ [event_of i]\<rparr>)"

lemma record_access_recorded:
  assumes "counts_access i d" and "ai_link_id i \<in> lk_id ` set (links d)"
  shows "record_access i d = (Inr (), recorded i d)"
  using assms
  by (simp add: counts_access_def record_access_def transaction_def insert_event_def run_simps Let_def
      count_daily_access_bump count_monthly_access_bump insert_visitor_def counts_visitor_def
      visitor_key_def visitor_of_def event_of_def recorded_def count_daily_visitor_def
      count_monthly_visitor_def bump_unique_def [abs_def] bump_month_unique_def [abs_def])

definition access_key :: "access_input \<Rightarrow> uuid \<times> string \<times> string" where
  "access_key i = (ai_link_id i, ai_occurred_on i, ai_country i)"

definition access_month :: "access_input \<Rightarrow> uuid \<times> string" where
  "access_month i = (ai_link_id i, js_slice 0 7 (ai_occurred_on i))"

lemma recorded_tables:
  "access_events (recorded i d) = access_events d @ [event_of i]"
  "daily_visitors (recorded i d) =
     daily_visitors d @ (if counts_visitor i d then [visitor_of i] else [])"
  "statistics_days (recorded i d) = statistics_days d"
  "links (recorded i d) = links d"
  by (simp_all add: recorded_def Let_def)

lemma daily_sum_recorded:
  assumes "stats_keys d" and "\<And>r. f (bump_access r) = f r + ca" and "\<And>r. f (bump_unique r) = f r + cu"
    and "f (new_daily (ai_link_id i) (ai_occurred_on i) (ai_country i)) = ca"
  shows "sum_key daily_key P f (daily_aggregates (recorded i d)) =
    sum_key daily_key P f (daily_aggregates d)
      + (if P (access_key i) then ca + (if counts_visitor i d then cu else 0) else 0)"
proof -
  let ?x = "access_key i"
  let ?new = "new_daily (ai_link_id i) (ai_occurred_on i) (ai_country i)"
  let ?rows = "bump daily_key ?x bump_access ?new (daily_aggregates d)"
  have keys: "distinct (map daily_key (daily_aggregates d))" using assms(1) by (simp add: stats_keys_def)
  then have dis: "distinct (map daily_key ?rows)" by (rule distinct_bump) (simp_all add: access_key_def)
  have mem: "?x \<in> daily_key ` set ?rows" by (rule key_in_bump) (simp_all add: access_key_def)
  have one: "sum_key daily_key P f ?rows = sum_key daily_key P f (daily_aggregates d) + (if P ?x then ca else 0)"
    by (rule sum_key_bump) (use keys assms(2,4) in \<open>simp_all add: access_key_def\<close>)
  have "sum_key daily_key P f (update_where (\<lambda>r. daily_key r = ?x) bump_unique ?rows) =
      sum_key daily_key P f ?rows + (if P ?x \<and> ?x \<in> daily_key ` set ?rows then cu else 0)"
    by (rule sum_key_update) (use dis assms(3) in simp_all)
  with one mem show ?thesis
    by (simp add: recorded_def Let_def access_key_def [symmetric])
qed

lemma monthly_sum_recorded:
  assumes "stats_keys d" and "\<And>r. f (bump_month r) = f r + ca" and "\<And>r. f (bump_month_unique r) = f r + cu"
    and "f (new_monthly (ai_link_id i) (js_slice 0 7 (ai_occurred_on i))) = ca"
  shows "sum_key monthly_key P f (monthly_aggregates (recorded i d)) =
    sum_key monthly_key P f (monthly_aggregates d)
      + (if P (access_month i) then ca + (if counts_visitor i d then cu else 0) else 0)"
proof -
  let ?x = "access_month i"
  let ?new = "new_monthly (ai_link_id i) (js_slice 0 7 (ai_occurred_on i))"
  let ?rows = "bump monthly_key ?x bump_month ?new (monthly_aggregates d)"
  have keys: "distinct (map monthly_key (monthly_aggregates d))" using assms(1) by (simp add: stats_keys_def)
  then have dis: "distinct (map monthly_key ?rows)" by (rule distinct_bump) (simp_all add: access_month_def)
  have mem: "?x \<in> monthly_key ` set ?rows" by (rule key_in_bump) (simp_all add: access_month_def)
  have one: "sum_key monthly_key P f ?rows = sum_key monthly_key P f (monthly_aggregates d) + (if P ?x then ca else 0)"
    by (rule sum_key_bump) (use keys assms(2,4) in \<open>simp_all add: access_month_def\<close>)
  have "sum_key monthly_key P f (update_where (\<lambda>r. monthly_key r = ?x) bump_month_unique ?rows) =
      sum_key monthly_key P f ?rows + (if P ?x \<and> ?x \<in> monthly_key ` set ?rows then cu else 0)"
    by (rule sum_key_update) (use dis assms(3) in simp_all)
  with one mem show ?thesis
    by (simp add: recorded_def Let_def access_month_def [symmetric])
qed

lemma recorded_counts:
  assumes "stats_keys d"
  shows "accesses_at P (recorded i d) = accesses_at P d + (if P (access_key i) then 1 else 0)"
    and "uniques_at P (recorded i d) =
      uniques_at P d + (if P (access_key i) \<and> counts_visitor i d then 1 else 0)"
    and "month_accesses_at Q (recorded i d) =
      month_accesses_at Q d + (if Q (access_month i) then 1 else 0)"
    and "month_uniques_at Q (recorded i d) =
      month_uniques_at Q d + (if Q (access_month i) \<and> counts_visitor i d then 1 else 0)"
  using daily_sum_recorded [OF assms, of da_access_count 1 0 i P]
    daily_sum_recorded [OF assms, of da_unique_visitor_count 0 1 i P]
    monthly_sum_recorded [OF assms, of ma_access_count 1 0 i Q]
    monthly_sum_recorded [OF assms, of ma_daily_unique_visitor_count 0 1 i Q]
  by (simp_all add: accesses_at_def uniques_at_def month_accesses_at_def month_uniques_at_def)

lemma recorded_keys:
  assumes "stats_keys d" and "counts_access i d"
  shows "stats_keys (recorded i d)"
proof -
  have daily: "distinct (map daily_key (bump daily_key (access_key i) bump_access
      (new_daily (ai_link_id i) (ai_occurred_on i) (ai_country i)) (daily_aggregates d)))"
    by (rule distinct_bump) (use assms in \<open>simp_all add: stats_keys_def access_key_def\<close>)
  have monthly: "distinct (map monthly_key (bump monthly_key (access_month i) bump_month
      (new_monthly (ai_link_id i) (js_slice 0 7 (ai_occurred_on i))) (monthly_aggregates d)))"
    by (rule distinct_bump) (use assms in \<open>simp_all add: stats_keys_def access_month_def\<close>)
  have ev: "ev_id (event_of i) = ai_event_id i" by (simp add: event_of_def)
  show ?thesis
    using assms daily monthly ev
    by (auto simp: stats_keys_def recorded_def Let_def access_key_def access_month_def
        map_update_where counts_access_def counts_visitor_def)
qed

text \<open>
  Property C34. Recording an access counts it once: an access to a finalised day or with a known
  event identifier changes nothing; otherwise the counters of its link, day, country and month go
  up by one, the visitor counters only for a pseudonym new to that link and day, no other counter
  moves, and processing the same job again changes nothing.
\<close>

theorem record_access_counts_once:
  assumes "stats_keys d" and "ai_link_id i \<in> lk_id ` set (links d)"
  shows "(case record_access i d of (r, d') \<Rightarrow>
      r = Inr () \<and> record_access i d' = (Inr (), d')
      \<and> (if day_finalized (ai_link_id i) (ai_occurred_on i) d
            \<or> ai_event_id i \<in> ev_id ` set (access_events d) then d' = d
         else
           accesses_at P d' = accesses_at P d + (if P (access_key i) then 1 else 0)
         \<and> uniques_at P d' = uniques_at P d + (if P (access_key i) \<and> counts_visitor i d then 1 else 0)
         \<and> month_accesses_at Q d' = month_accesses_at Q d + (if Q (access_month i) then 1 else 0)
         \<and> month_uniques_at Q d' =
             month_uniques_at Q d + (if Q (access_month i) \<and> counts_visitor i d then 1 else 0)))"
proof (cases "counts_access i d")
  case True
  have "\<not> counts_access i (recorded i d)"
    by (simp add: counts_access_def recorded_tables event_of_def)
  with record_access_recorded [OF True assms(2)] record_access_ignored recorded_counts [OF assms(1)] True
  show ?thesis by (simp add: counts_access_def)
next
  case False
  with record_access_ignored [OF False] show ?thesis by (simp add: counts_access_def)
qed

section \<open>Invariant\<close>

definition raw_accesses :: "uuid \<times> string \<times> string \<Rightarrow> db \<Rightarrow> nat" where
  "raw_accesses k d =
     length (filter (\<lambda>e. (ev_link_id e, ev_occurred_on e, ev_country e) = k) (access_events d))"

definition raw_visitors :: "uuid \<times> string \<times> string \<Rightarrow> db \<Rightarrow> nat" where
  "raw_visitors k d =
     length (filter (\<lambda>v. (dv_link_id v, dv_occurred_on v, dv_country v) = k) (daily_visitors d))"

definition in_month :: "uuid \<times> string \<Rightarrow> uuid \<times> string \<times> string \<Rightarrow> bool" where
  "in_month m k = (case k of (l, day, c) \<Rightarrow> (l, js_slice 0 7 day) = m)"

definition is_day_text :: "string \<Rightarrow> bool" where
  "is_day_text s \<longleftrightarrow> parse_utc_midnight s \<noteq> None"

definition stats_inv :: "db \<Rightarrow> bool" where
  "stats_inv d \<longleftrightarrow>
     stats_keys d
     \<and> (\<forall>e \<in> set (access_events d). \<not> day_finalized (ev_link_id e) (ev_occurred_on e) d)
     \<and> (\<forall>v \<in> set (daily_visitors d). \<not> day_finalized (dv_link_id v) (dv_occurred_on v) d)
     \<and> (\<forall>l day c. \<not> day_finalized l day d \<longrightarrow>
          accesses_at ((=) (l, day, c)) d = int (raw_accesses (l, day, c) d)
          \<and> uniques_at ((=) (l, day, c)) d = int (raw_visitors (l, day, c) d))
     \<and> (\<forall>m. month_accesses_at ((=) m) d = accesses_at (in_month m) d
          \<and> month_uniques_at ((=) m) d = uniques_at (in_month m) d)
     \<and> (\<forall>r \<in> set (daily_aggregates d). is_day_text (da_occurred_on r))"

text \<open>Any interleaving of recordings, finalisations and steps that leave these tables alone.\<close>

inductive stats_history :: "db \<Rightarrow> bool" where
  start: "access_events d = [] \<Longrightarrow> daily_visitors d = [] \<Longrightarrow> daily_aggregates d = [] \<Longrightarrow>
    monthly_aggregates d = [] \<Longrightarrow> statistics_days d = [] \<Longrightarrow> stats_history d"
| recording: "stats_history d \<Longrightarrow> is_day_text (ai_occurred_on i) \<Longrightarrow> record_access i d = (r, d') \<Longrightarrow>
    stats_history d'"
| finalizing: "stats_history d \<Longrightarrow> finalize_day now x d = (r, d') \<Longrightarrow> stats_history d'"
| other: "stats_history d \<Longrightarrow> access_events d' = access_events d \<Longrightarrow>
    daily_visitors d' = daily_visitors d \<Longrightarrow> daily_aggregates d' = daily_aggregates d \<Longrightarrow>
    monthly_aggregates d' = monthly_aggregates d \<Longrightarrow> statistics_days d' = statistics_days d \<Longrightarrow>
    stats_history d'"

definition finalized :: "instant \<Rightarrow> uuid \<Rightarrow> string \<Rightarrow> db \<Rightarrow> db" where
  "finalized now l day d =
     delete_day l day (d\<lparr>statistics_days := statistics_days d @
       (if day_finalized l day d then []
        else [\<lparr>sd_link_id = l, sd_occurred_on = day, sd_finalized_at = now\<rparr>])\<rparr>)"

lemma finalize_day_run: "finalize_day now (l, day) d = (Inr (), finalized now l day d)"
  by (simp add: finalize_day_def transaction_def run_simps finalized_def)

lemma finalized_tables:
  "links (finalized now l day d) = links d"
  "daily_aggregates (finalized now l day d) = daily_aggregates d"
  "monthly_aggregates (finalized now l day d) = monthly_aggregates d"
  "access_events (finalized now l day d) =
     filter (\<lambda>e. \<not> (ev_link_id e = l \<and> ev_occurred_on e = day)) (access_events d)"
  "daily_visitors (finalized now l day d) =
     filter (\<lambda>v. \<not> (dv_link_id v = l \<and> dv_occurred_on v = day)) (daily_visitors d)"
  "day_finalized l' day' (finalized now l day d) \<longleftrightarrow>
     (l', day') = (l, day) \<or> day_finalized l' day' d"
  by (auto simp: finalized_def delete_day_def day_finalized_def)

lemma counts_same:
  "daily_aggregates d' = daily_aggregates d \<Longrightarrow> accesses_at P d' = accesses_at P d"
  "daily_aggregates d' = daily_aggregates d \<Longrightarrow> uniques_at P d' = uniques_at P d"
  "monthly_aggregates d' = monthly_aggregates d \<Longrightarrow> month_accesses_at Q d' = month_accesses_at Q d"
  "monthly_aggregates d' = monthly_aggregates d \<Longrightarrow> month_uniques_at Q d' = month_uniques_at Q d"
  by (simp_all add: accesses_at_def uniques_at_def month_accesses_at_def month_uniques_at_def)

lemma stats_inv_finalized:
  assumes "stats_inv d"
  shows "stats_inv (finalized now l day d)"
proof -
  have raw: "raw_accesses (l', day', c) (finalized now l day d) = raw_accesses (l', day', c) d"
    "raw_visitors (l', day', c) (finalized now l day d) = raw_visitors (l', day', c) d"
    if "(l', day') \<noteq> (l, day)" for l' day' c
    using that
    by (auto simp: raw_accesses_def raw_visitors_def finalized_tables intro!: arg_cong [of _ _ length]
        filter_cong)
  have keys: "stats_keys (finalized now l day d)"
    using assms by (simp add: stats_inv_def stats_keys_def finalized_tables distinct_map_filter)
  note same = counts_same [of "finalized now l day d" d]
  show ?thesis
    using assms keys raw unfolding stats_inv_def
    by (simp add: same finalized_tables)
qed

lemma stats_inv_recorded:
  assumes inv: "stats_inv d" and new: "counts_access i d" and day: "is_day_text (ai_occurred_on i)"
  shows "stats_inv (recorded i d)"
proof -
  have keys: "stats_keys d" using inv by (simp add: stats_inv_def)
  note counts = recorded_counts [OF keys]
  have open_day: "day_finalized l dy (recorded i d) = day_finalized l dy d" for l dy
    by (simp add: day_finalized_def recorded_tables)
  have raw: "raw_accesses k (recorded i d) = raw_accesses k d + (if k = access_key i then 1 else 0)"
    "raw_visitors k (recorded i d) =
       raw_visitors k d + (if k = access_key i \<and> counts_visitor i d then 1 else 0)" for k
    by (auto simp: raw_accesses_def raw_visitors_def recorded_tables event_of_def visitor_of_def
        access_key_def)
  have month: "in_month m (access_key i) \<longleftrightarrow> m = access_month i" for m
    by (auto simp: in_month_def access_key_def access_month_def)
  have "is_day_text (da_occurred_on r)" if "r \<in> set (daily_aggregates (recorded i d))" for r
  proof -
    have "da_occurred_on ` set (daily_aggregates (recorded i d)) \<subseteq>
        insert (ai_occurred_on i) (da_occurred_on ` set (daily_aggregates d))"
    proof -
      have b: "da_occurred_on (bump_access r) = da_occurred_on r"
        "da_occurred_on (bump_unique r) = da_occurred_on r" for r
        by (simp_all add: bump_access_def bump_unique_def)
      show ?thesis
        by (auto simp: recorded_def Let_def bump_def set_update_where b new_daily_def split: if_splits)
    qed
    with that inv day show ?thesis by (auto simp: stats_inv_def)
  qed
  with recorded_keys [OF keys new] inv new open_day raw month counts show ?thesis
    unfolding stats_inv_def
    by (auto simp: recorded_tables counts_access_def event_of_def visitor_of_def)
qed

lemma stats_history_inv: "stats_history d \<Longrightarrow> stats_inv d"
proof (induction rule: stats_history.induct)
  case (start d)
  then show ?case
    by (simp add: stats_inv_def stats_keys_def accesses_at_def uniques_at_def month_accesses_at_def
        month_uniques_at_def sum_key_def raw_accesses_def raw_visitors_def)
next
  case (recording d i r d')
  show ?case
  proof (cases "counts_access i d \<and> ai_link_id i \<in> lk_id ` set (links d)")
    case True
    with recording record_access_recorded [of i d] stats_inv_recorded [of d i] show ?thesis by simp
  next
    case False
    with recording record_access_ignored [of i d] record_access_unknown_link [of i d] show ?thesis
      by fastforce
  qed
next
  case (finalizing d now x r d')
  then show ?case using stats_inv_finalized by (cases x) (auto simp: finalize_day_run)
next
  case (other d d')
  have "day_finalized l day d' = day_finalized l day d" for l day
    using other.hyps by (simp add: day_finalized_def)
  with other.IH counts_same [of d' d] other.hyps show ?case
    by (simp add: stats_inv_def stats_keys_def raw_accesses_def raw_visitors_def)
qed

text \<open>
  Property C28. In every reachable state the counters are right: for a day not finalised they are
  the numbers of stored events and of stored visitors of that link, day and country; a month's are
  the sums of its days'; a finalised day holds no raw row any more; no key occurs twice.
\<close>

theorem counters_match_raw_rows:
  assumes "stats_history d"
  shows "stats_keys d
    \<and> (if day_finalized l day d
       then \<forall>c. raw_accesses (l, day, c) d = 0 \<and> raw_visitors (l, day, c) d = 0
       else \<forall>c. accesses_at ((=) (l, day, c)) d = int (raw_accesses (l, day, c) d)
          \<and> uniques_at ((=) (l, day, c)) d = int (raw_visitors (l, day, c) d))
    \<and> month_accesses_at ((=) (l, mo)) d = accesses_at (in_month (l, mo)) d
    \<and> month_uniques_at ((=) (l, mo)) d = uniques_at (in_month (l, mo)) d"
proof -
  have inv: "stats_inv d" using stats_history_inv [OF assms] .
  have "\<forall>c. raw_accesses (l, day, c) d = 0 \<and> raw_visitors (l, day, c) d = 0"
    if "day_finalized l day d"
    using inv that by (auto simp: stats_inv_def raw_accesses_def raw_visitors_def filter_empty_conv)
  with inv show ?thesis by (auto simp: stats_inv_def)
qed

section \<open>Finalising\<close>

lemma set_insert_candidate [simp]: "set (insert_candidate x ys) = insert x (set ys)"
  by (induction ys) auto

lemma set_finalize_candidates:
  "set (finalize_candidates before d) =
     {(l, day) \<in> (\<lambda>e. (ev_link_id e, ev_occurred_on e)) ` set (access_events d)
         \<union> (\<lambda>v. (dv_link_id v, dv_occurred_on v)) ` set (daily_visitors d).
       js_less day before \<and> \<not> day_finalized l day d}"
proof -
  have "set (foldr insert_candidate xs []) = set xs" for xs by (induction xs) auto
  then show ?thesis by (auto simp: finalize_candidates_def Let_def)
qed

lemma forM_finalize:
  "forM xs (finalize_day now) d =
     (Inr (), foldl (\<lambda>d (l, day). finalized now l day d) d xs)"
  by (induction xs arbitrary: d) (auto simp: run_simps finalize_day_run)

lemma foldl_finalized:
  "stats_history d \<Longrightarrow>
   (let d' = foldl (\<lambda>d (l, day). finalized now l day d) d xs
    in stats_history d' \<and> links d' = links d \<and> daily_aggregates d' = daily_aggregates d
      \<and> monthly_aggregates d' = monthly_aggregates d
      \<and> access_events d' =
          filter (\<lambda>e. (ev_link_id e, ev_occurred_on e) \<notin> set xs) (access_events d)
      \<and> daily_visitors d' =
          filter (\<lambda>v. (dv_link_id v, dv_occurred_on v) \<notin> set xs) (daily_visitors d)
      \<and> (\<forall>l day. day_finalized l day d' \<longleftrightarrow> day_finalized l day d \<or> (l, day) \<in> set xs))"
proof (induction xs arbitrary: d)
  case (Cons x xs)
  obtain l day where x: "x = (l, day)" by force
  have "stats_history (finalized now l day d)"
    using stats_history.finalizing [OF Cons.prems finalize_day_run] .
  from Cons.IH [OF this] show ?case
    by (auto simp: x Let_def finalized_tables intro!: filter_cong)
qed simp

text \<open>
  Property C35. The daily finalisation always completes; every day before the given date loses
  its raw events and visitor pseudonyms, every other row of them stays, and no report changes.
\<close>

theorem finalize_purges_raw_rows:
  assumes "stats_history d"
  shows "(case finalize_days now before d of (r, d') \<Rightarrow>
      r = Inr ()
      \<and> access_events d' = filter (\<lambda>e. \<not> js_less (ev_occurred_on e) before) (access_events d)
      \<and> daily_visitors d' = filter (\<lambda>v. \<not> js_less (dv_occurred_on v) before) (daily_visitors d)
      \<and> fst (get_report l f t d') = fst (get_report l f t d))"
proof -
  let ?xs = "finalize_candidates before d"
  let ?d = "foldl (\<lambda>d (l, day). finalized now l day d) d ?xs"
  have inv: "stats_inv d" using stats_history_inv [OF assms] .
  have run: "finalize_days now before d = (Inr (), ?d)"
    by (simp add: finalize_days_def run_simps forM_finalize)
  note tables = foldl_finalized [OF assms, of now ?xs, unfolded Let_def]
  have "filter (\<lambda>e. (ev_link_id e, ev_occurred_on e) \<notin> set ?xs) (access_events d) =
      filter (\<lambda>e. \<not> js_less (ev_occurred_on e) before) (access_events d)"
    using inv by (intro filter_cong) (auto simp: set_finalize_candidates stats_inv_def)
  moreover have "filter (\<lambda>v. (dv_link_id v, dv_occurred_on v) \<notin> set ?xs) (daily_visitors d) =
      filter (\<lambda>v. \<not> js_less (dv_occurred_on v) before) (daily_visitors d)"
    using inv by (intro filter_cong) (auto simp: set_finalize_candidates stats_inv_def)
  moreover have "fst (get_report l f t ?d) = fst (get_report l f t d)"
    using tables by (simp add: get_report_def run_simps period_rows_def monthly_points_def Let_def)
  ultimately show ?thesis using run tables by simp
qed

text \<open>
  Property C36. A day is closed only if it had raw rows: a job delayed past the finalisation of a
  day without any access before is still recorded, with its raw event.
\<close>

theorem late_access_to_empty_day:
  assumes "\<And>c. raw_accesses (l, day, c) d = 0" and "\<And>c. raw_visitors (l, day, c) d = 0"
    and "\<not> day_finalized l day d" and "stats_history d"
    and "ai_link_id i = l" and "ai_occurred_on i = day" and "l \<in> lk_id ` set (links d)"
    and "ai_event_id i \<notin> ev_id ` set (access_events d)"
    and "finalize_days now before d = (r, d1)"
  shows "event_of i \<in> set (access_events (snd (record_access i d1)))"
proof -
  let ?xs = "finalize_candidates before d"
  note tables = foldl_finalized [OF assms(4), of now ?xs, unfolded Let_def]
  have d1: "d1 = foldl (\<lambda>d (l, day). finalized now l day d) d ?xs"
    using assms(9) by (simp add: finalize_days_def run_simps forM_finalize)
  have "(l, day) \<notin> set ?xs"
  proof
    assume "(l, day) \<in> set ?xs"
    then consider e where "e \<in> set (access_events d)" "ev_link_id e = l" "ev_occurred_on e = day"
      | v where "v \<in> set (daily_visitors d)" "dv_link_id v = l" "dv_occurred_on v = day"
      by (auto simp: set_finalize_candidates)
    then show False
    proof cases
      case (1 e)
      with assms(1) [of "ev_country e"] show False
        by (auto simp: raw_accesses_def filter_empty_conv)
    next
      case (2 v)
      with assms(2) [of "dv_country v"] show False
        by (auto simp: raw_visitors_def filter_empty_conv)
    qed
  qed
  then have "counts_access i d1"
    using tables assms(3,5,6,8) by (auto simp: counts_access_def d1)
  from record_access_recorded [OF this] assms(5,7) tables show ?thesis
    by (simp add: recorded_tables d1)
qed

section \<open>Reports\<close>

lemma sum_by_groups:
  fixes f :: "'r \<Rightarrow> int"
  assumes "distinct ks" and "\<And>r. r \<in> set rows \<Longrightarrow> key r \<in> set ks"
  shows "sum_list (map (\<lambda>k. sum_list (map f (filter (\<lambda>r. key r = k) rows))) ks) =
    sum_list (map f rows)"
  using assms(2)
proof (induction rows)
  case (Cons r rows)
  have "sum_list (map (\<lambda>k. sum_list (map f (filter (\<lambda>x. key x = k) (r # rows)))) ks) =
      sum_list (map (\<lambda>k. (if k = key r then f r else 0)
        + sum_list (map f (filter (\<lambda>x. key x = k) rows))) ks)"
    by (intro arg_cong [of _ _ sum_list] map_cong) auto
  also have "\<dots> = sum_list (map (\<lambda>k. if k = key r then f r else 0) ks)
      + sum_list (map (\<lambda>k. sum_list (map f (filter (\<lambda>x. key x = k) rows))) ks)"
    by (simp add: sum_list_addf)
  also have "sum_list (map (\<lambda>k. if k = key r then f r else 0) ks) = f r"
    using assms(1) Cons.prems [of r]
    by (simp add: sum_list_map_eq_sum_count2 [where X = "set ks"] sum_list_distinct_conv_sum_set)
  finally show ?case using Cons by simp
qed (simp add: sum_list_0 o_def)

lemma point_at_group:
  "point_at (group_rows key rows) k = (k, sum_rows (filter (\<lambda>r. key r = k) rows))"
proof (cases "k \<in> key ` set rows")
  case True
  have "map_of (map (\<lambda>k. (k, g k)) ks) k = Some (g k)" if "k \<in> set ks" for ks and g :: "string \<Rightarrow> stat_point"
    using that by (induction ks) auto
  with True show ?thesis by (simp add: point_at_def group_rows_def)
next
  case False
  then have "filter (\<lambda>r. key r = k) rows = []" by (auto simp: filter_empty_conv)
  moreover have "map_of (group_rows key rows) k = None"
    using False by (auto simp: group_rows_def map_of_eq_None_iff)
  ultimately show ?thesis by (simp add: point_at_def no_accesses_def sum_rows_def)
qed

lemma sort_countries_sum:
  "sum_list (map f (sort_countries xs)) = sum_list (map f xs)" for f :: "_ \<Rightarrow> int"
proof -
  have "sum_list (map f (insert_country x ys)) = f x + sum_list (map f ys)" for x ys
    by (induction ys) auto
  then show ?thesis by (induction xs) (auto simp: sort_countries_def)
qed

lemma group_sum:
  "sum_list (map (\<lambda>p. sp_accesses (snd p)) (group_rows key rows)) = sum_list (map da_access_count rows)"
  "sum_list (map (\<lambda>p. sp_unique (snd p)) (group_rows key rows)) =
     sum_list (map da_unique_visitor_count rows)"
  using sum_by_groups [of "remdups (map key rows)" rows key da_access_count]
    sum_by_groups [of "remdups (map key rows)" rows key da_unique_visitor_count]
  by (simp_all add: group_rows_def sum_rows_def o_def)

lemma js_less_month_text:
  assumes "y < 10000" and "z < 10000" and "1 \<le> m" and "m \<le> 12" and "1 \<le> k" and "k \<le> 12"
  shows "js_less (month_text y m) (month_text z k) \<longleftrightarrow> y < z \<or> (y = z \<and> m < k)"
proof -
  have w: "y < 10 ^ 4" "z < 10 ^ 4" "m < 10\<^sup>2" "k < 10\<^sup>2" using assms by simp_all
  note app = js_less_append [OF trans [OF length_fixed_digits length_fixed_digits [symmetric]]]
  show ?thesis
    unfolding month_text_def pad_nat_to_string [OF w(1) zero_less_numeral]
      pad_nat_to_string [OF w(2) zero_less_numeral] pad_nat_to_string [OF w(3) zero_less_numeral]
      pad_nat_to_string [OF w(4) zero_less_numeral]
      app js_less_dash js_less_fixed [OF w(1,2)] js_less_fixed [OF w(3,4)]
      fixed_digits_inj [OF w(1,2)] ..
qed

lemma js_less_index_text:
  assumes "j < 120000" and "k < 120000"
  shows "js_less (index_text j) (index_text k) \<longleftrightarrow> j < k"
proof -
  have "j div 12 < 10000" "k div 12 < 10000" using assms by (simp_all add: less_mult_imp_div_less)
  then have "js_less (index_text j) (index_text k) \<longleftrightarrow>
      j div 12 < k div 12 \<or> (j div 12 = k div 12 \<and> j mod 12 + 1 < k mod 12 + 1)"
    unfolding index_text_def by (intro js_less_month_text) auto
  moreover have "j = 12 * (j div 12) + j mod 12" "k = 12 * (k div 12) + k mod 12"
    "j mod 12 < 12" "k mod 12 < 12" by simp_all
  ultimately show ?thesis by linarith
qed

lemma index_of_day_bound: "four_digit_day n \<Longrightarrow> index_of_day n < 120000"
proof -
  assume n: "four_digit_day n"
  obtain y m d where c: "civil_of_day n = (y, m, d)" by (cases "civil_of_day n") auto
  from iso_date_civil(2) [OF n c] show ?thesis by (auto simp: index_of_day_def c month_index_def)
qed

lemma sum_key_one:
  "distinct (map key rows) \<Longrightarrow>
     sum_key key ((=) x) f rows = (case find (\<lambda>r. key r = x) rows of None \<Rightarrow> 0 | Some r \<Rightarrow> f r)"
proof (induction rows)
  case (Cons r rows)
  show ?case
  proof (cases "key r = x")
    case True
    have "filter (\<lambda>r. x = key r) rows = []"
      using Cons.prems True by (force simp: filter_empty_conv)
    with True show ?thesis by (simp add: sum_key_def)
  next
    case False
    with Cons show ?thesis by (auto simp: sum_key_def)
  qed
qed (simp add: sum_key_def)

lemma monthly_point:
  assumes "stats_keys d" and "in_period from_month to_month k"
  shows "point_at (monthly_points l from_month to_month d) k =
    (k, \<lparr>sp_accesses = month_accesses_at ((=) (l, k)) d, sp_unique = month_uniques_at ((=) (l, k)) d\<rparr>)"
proof -
  have keys: "distinct (map monthly_key (monthly_aggregates d))" using assms(1) by (simp add: stats_keys_def)
  have "map_of (map (\<lambda>r. (ma_occurred_month r, g r))
        (filter (\<lambda>r. ma_link_id r = l \<and> in_period from_month to_month (ma_occurred_month r)) rows)) k =
      map_option g (find (\<lambda>r. monthly_key r = (l, k)) rows)" for rows and g :: "_ \<Rightarrow> stat_point"
    using assms(2) by (induction rows) (auto simp: monthly_key_def)
  then show ?thesis
    using sum_key_one [OF keys]
    by (auto simp: point_at_def monthly_points_def month_accesses_at_def month_uniques_at_def
        no_accesses_def split: option.splits)
qed

lemma row_in_days:
  assumes "four_digit_day a" and "four_digit_day b" and "is_day_text s"
    and "in_period (iso_date a) (iso_date b) s"
  shows "s \<in> set (map iso_date [a..b])"
proof -
  from assms(3) obtain n where "parse_utc_midnight s = Some n" by (auto simp: is_day_text_def)
  then have n: "four_digit_day n" "s = iso_date n" using parse_utc_midnight_iso by blast+
  with assms(4) js_less_iso_date assms(1,2) have "a \<le> n" "n \<le> b" by (auto simp: in_period_def)
  with n show ?thesis by simp
qed

text \<open>
  Property C37. A report adds up: it lists every date of the period once and in order, and the
  totals are the sums of the daily points and of the country points, for accesses and for
  visitors; each monthly point is the sum over all days of that month.
\<close>

theorem report_adds_up:
  assumes "stats_history d" and "four_digit_day a" and "four_digit_day b"
  shows "(case get_report l (iso_date a) (iso_date b) d of
      (Inl e, d') \<Rightarrow> False
    | (Inr rp, d') \<Rightarrow> d' = d
        \<and> map fst (rp_daily rp) = map iso_date [a..b]
        \<and> sum_list (map (\<lambda>p. sp_accesses (snd p)) (rp_daily rp)) = sp_accesses (rp_totals rp)
        \<and> sum_list (map (\<lambda>p. sp_unique (snd p)) (rp_daily rp)) = sp_unique (rp_totals rp)
        \<and> sum_list (map (\<lambda>p. sp_accesses (snd p)) (rp_countries rp)) = sp_accesses (rp_totals rp)
        \<and> sum_list (map (\<lambda>p. sp_unique (snd p)) (rp_countries rp)) = sp_unique (rp_totals rp)
        \<and> rp_monthly rp = map (\<lambda>k. (index_text k,
            \<lparr>sp_accesses = accesses_at (in_month (l, index_text k)) d,
             sp_unique = uniques_at (in_month (l, index_text k)) d\<rparr>))
            [index_of_day a..<Suc (index_of_day b)])"
proof -
  let ?rows = "period_rows l (iso_date a) (iso_date b) d"
  let ?days = "map iso_date [a..b]"
  have inv: "stats_inv d" using stats_history_inv [OF assms(1)] .
  then have keys: "stats_keys d" by (simp add: stats_inv_def)
  have "inj_on iso_date {a..b}"
    by (intro inj_onI) (metis assms(2,3) atLeastAtMost_iff four_digit_between iso_date_inj)
  then have dis: "distinct ?days" by (simp add: distinct_map)
  have mem: "da_occurred_on r \<in> set ?days" if "r \<in> set ?rows" for r
    using that inv row_in_days [OF assms(2,3)] by (simp add: period_rows_def stats_inv_def)
  have sums: "sum_list (map (\<lambda>k. sum_list (map f (filter (\<lambda>r. da_occurred_on r = k) ?rows))) ?days) =
      sum_list (map f ?rows)" for f :: "_ \<Rightarrow> int"
    by (rule sum_by_groups [OF dis mem])
  have month: "in_period (js_slice 0 7 (iso_date a)) (js_slice 0 7 (iso_date b)) (index_text k)"
    if "index_of_day a \<le> k" "k \<le> index_of_day b" for k
  proof -
    obtain y m x y' m' x' where c: "civil_of_day a = (y, m, x)" "civil_of_day b = (y', m', x')"
      by (cases "civil_of_day a"; cases "civil_of_day b") auto
    show ?thesis
      using that index_of_day_bound [OF assms(3)] index_of_day_bound [OF assms(2)]
      unfolding in_period_def month_of_iso(2) [OF assms(2) c(1)] month_of_iso(2) [OF assms(3) c(2)]
      by (simp add: js_less_index_text)
  qed
  have monthly: "map (point_at (monthly_points l (js_slice 0 7 (iso_date a)) (js_slice 0 7 (iso_date b)) d))
      (each_utc_month (js_slice 0 7 (iso_date a)) (js_slice 0 7 (iso_date b))) =
    map (\<lambda>k. (index_text k, \<lparr>sp_accesses = accesses_at (in_month (l, index_text k)) d,
             sp_unique = uniques_at (in_month (l, index_text k)) d\<rparr>))
            [index_of_day a..<Suc (index_of_day b)]"
    unfolding each_utc_month_map [OF assms(2,3)] map_map
    using inv by (intro map_cong refl) (simp add: monthly_point [OF keys month] stats_inv_def del: upt_Suc)
  have countries: "sum_list (map f (sort_countries (group_rows da_country ?rows))) =
      sum_list (map f (group_rows da_country ?rows))" for f :: "_ \<Rightarrow> int"
    by (rule sort_countries_sum)
  show ?thesis
    using sums [of da_access_count] sums [of da_unique_visitor_count] monthly
    by (simp add: get_report_def run_simps Let_def each_utc_date_map [OF assms(2,3)] point_at_group
        countries group_sum sum_rows_def o_def del: upt_Suc)
qed

end
