(* ===== verification/Collection.thy ===== *)
theory Collection
  imports LinkStatistics World ValueObjects
begin

text \<open>
  The collection of accesses (src/src/modules/link-statistics): the automated traffic detector, the
  country resolver, the visitor pseudonymizer, the queue collector, the processor of the queue and
  the daily finalizer. The GeoIP reader and HMAC-SHA256 are parameters.
\<close>

section \<open>Automated traffic\<close>

definition AUTOMATED_USER_AGENT_SIGNATURES :: "string list" where
  "AUTOMATED_USER_AGENT_SIGNATURES =
     [''Googlebot'', ''Google-InspectionTool'', ''Storebot-Google'', ''GoogleOther'', ''APIs-Google'',
      ''AdsBot-Google'', ''bingbot'', ''BingPreview'', ''facebookexternalhit'', ''Facebot'',
      ''meta-externalagent'', ''Twitterbot'', ''Slackbot'', ''Slack-ImgProxy'', ''Discordbot'',
      ''LinkedInBot'', ''UptimeRobot'', ''Pingdom'', ''StatusCake'', ''Site24x7'', ''Uptime-Kuma'',
      ''Better Stack'', ''BetterUptime'']"

definition is_automated :: "string \<Rightarrow> bool" where
  "is_automated user_agent =
     (let normalized = js_trim user_agent
      in if normalized = [] then False
         else list_ex (\<lambda>signature. js_includes (to_lower_case signature) (to_lower_case normalized))
                AUTOMATED_USER_AGENT_SIGNATURES)"

section \<open>Addresses\<close>

definition rx_opt :: "rx \<Rightarrow> rx" where
  "rx_opt r = RxAlt RxEps r"

fun rx_upto :: "nat \<Rightarrow> rx \<Rightarrow> rx" where
  "rx_upto 0 r = RxEps"
| "rx_upto (Suc n) r = rx_opt (RxSeq r (rx_upto n r))"

definition rx_between :: "nat \<Rightarrow> nat \<Rightarrow> rx \<Rightarrow> rx" where
  "rx_between a b r = RxSeq (rx_times a r) (rx_upto (b - a) r)"

text \<open>\<open>net.isIPv4\<close>: four numbers below 256 without leading zeros, separated by dots.\<close>

definition rx_char :: "char \<Rightarrow> char \<Rightarrow> rx" where
  "rx_char a b = RxClass (char_range a b)"

definition IPV4_SEGMENT :: rx where
  "IPV4_SEGMENT =
     RxAlt (RxClass is_digit)
       (RxAlt (RxSeq (rx_char (CHR ''1'') (CHR ''9'')) (RxClass is_digit))
         (RxAlt (RxSeq (rx_lit ''1'') (RxSeq (RxClass is_digit) (RxClass is_digit)))
           (RxAlt (RxSeq (rx_lit ''2'') (RxSeq (rx_char (CHR ''0'') (CHR ''4'')) (RxClass is_digit)))
             (RxSeq (rx_lit ''25'') (rx_char (CHR ''0'') (CHR ''5''))))))"

definition IPV4_PATTERN :: rx where
  "IPV4_PATTERN = RxSeq IPV4_SEGMENT (rx_times 3 (RxSeq (rx_lit ''.'') IPV4_SEGMENT))"

definition is_ipv4 :: "string \<Rightarrow> bool" where
  "is_ipv4 s = rx_test IPV4_PATTERN s"

text \<open>\<open>net.isIPv6\<close>: Node's pattern, with an embedded IPv4 tail and a zone.\<close>

definition is_hex :: "char \<Rightarrow> bool" where
  "is_hex c \<longleftrightarrow> is_digit c \<or> char_range (CHR ''a'') (CHR ''f'') c \<or> char_range (CHR ''A'') (CHR ''F'') c"

definition IPV6_SEGMENT :: rx where
  "IPV6_SEGMENT = rx_between 1 4 (RxClass is_hex)"

definition v6_after :: rx where
  "v6_after = RxSeq (rx_lit '':'') IPV6_SEGMENT"

definition v6_before :: "nat \<Rightarrow> rx" where
  "v6_before n = rx_times n (RxSeq IPV6_SEGMENT (rx_lit '':''))"

definition v6_tail :: "nat \<Rightarrow> nat \<Rightarrow> rx" where
  "v6_tail v4_max seg_max =
     RxAlt (RxSeq (rx_between 0 v4_max v6_after) (RxSeq (rx_lit '':'') IPV4_PATTERN))
       (RxAlt (rx_between 1 seg_max v6_after) (rx_lit '':''))"

definition IPV6_PATTERN :: rx where
  "IPV6_PATTERN =
     RxSeq
       (RxAlt (RxSeq (v6_before 7) (RxAlt IPV6_SEGMENT (rx_lit '':'')))
       (RxAlt (RxSeq (v6_before 6) (RxAlt IPV4_PATTERN (RxAlt v6_after (rx_lit '':''))))
       (RxAlt (RxSeq (v6_before 5) (v6_tail 0 2))
       (RxAlt (RxSeq (v6_before 4) (v6_tail 1 3))
       (RxAlt (RxSeq (v6_before 3) (v6_tail 2 4))
       (RxAlt (RxSeq (v6_before 2) (v6_tail 3 5))
       (RxAlt (RxSeq (v6_before 1) (v6_tail 4 6))
              (RxSeq (rx_lit '':'') (v6_tail 5 7)))))))))
       (rx_opt (RxSeq (rx_lit ''%'')
          (rx_plus (RxClass (\<lambda>c. is_digit c \<or> is_lower c \<or> is_upper c \<or> c \<in> set ''-.:'')))))"

definition is_ipv6 :: "string \<Rightarrow> bool" where
  "is_ipv6 s = rx_test IPV6_PATTERN s"

definition is_private_ipv4 :: "string \<Rightarrow> bool" where
  "is_private_ipv4 ip =
     (case map digits_value (split_on (CHR ''.'') ip) of
        a # b # _ \<Rightarrow>
          a = 0 \<or> a = 10 \<or> a = 127
          \<or> (a = 169 \<and> b = 254)
          \<or> (a = 172 \<and> 16 \<le> b \<and> b \<le> 31)
          \<or> (a = 192 \<and> b = 168)
          \<or> (a = 100 \<and> 64 \<le> b \<and> b \<le> 127)
      | _ \<Rightarrow> False)"

definition is_private_ipv6 :: "string \<Rightarrow> bool" where
  "is_private_ipv6 ip =
     (let lower = to_lower_case ip
      in if lower = ''::1'' \<or> lower = ''::'' then True
         else if starts_with ''fc'' lower \<or> starts_with ''fd'' lower then True
         else if starts_with ''fe80:'' lower then True
         else if starts_with ''::ffff:'' lower \<and> is_ipv4 (drop (length ''::ffff:'') lower)
         then is_private_ipv4 (drop (length ''::ffff:'') lower)
         else False)"

definition is_private_ip :: "string \<Rightarrow> bool" where
  "is_private_ip ip =
     (if is_ipv4 ip then is_private_ipv4 ip
      else if is_ipv6 ip then is_private_ipv6 ip
      else True)"

definition is_usable_public_ip :: "string \<Rightarrow> bool" where
  "is_usable_public_ip ip =
     (let trimmed = js_trim ip
      in if trimmed = [] then False
         else if \<not> is_ipv4 trimmed \<and> \<not> is_ipv6 trimmed then False
         else \<not> is_private_ip trimmed)"

section \<open>Country\<close>

definition UNKNOWN_COUNTRY :: string where
  "UNKNOWN_COUNTRY = ''Unknown''"

text \<open>The opened GeoIP reader: a lookup may throw; the answer may lack the code.\<close>

type_synonym country_reader = "string \<Rightarrow> exn + string option"

definition resolve_country :: "country_reader option \<Rightarrow> string \<Rightarrow> string" where
  "resolve_country reader ip =
     (if \<not> is_usable_public_ip ip then UNKNOWN_COUNTRY
      else case reader of
             None \<Rightarrow> UNKNOWN_COUNTRY
           | Some country \<Rightarrow>
               (case country ip of
                  Inl e \<Rightarrow> UNKNOWN_COUNTRY
                | Inr None \<Rightarrow> UNKNOWN_COUNTRY
                | Inr (Some iso_code) \<Rightarrow>
                    if length iso_code \<noteq> 2 then UNKNOWN_COUNTRY else iso_code))"

section \<open>Pseudonyms\<close>

definition pseudonym_material :: "uuid \<Rightarrow> string \<Rightarrow> string \<Rightarrow> string \<Rightarrow> string" where
  "pseudonym_material link_id occurred_on ip user_agent =
     link_id @ ''|'' @ occurred_on @ ''|'' @ ip @ ''|'' @ user_agent"

definition create_pseudonym :: "hmac \<Rightarrow> string \<Rightarrow> uuid \<Rightarrow> string \<Rightarrow> string \<Rightarrow> string \<Rightarrow> string" where
  "create_pseudonym hmac_sha256 secret link_id occurred_on ip user_agent =
     hmac_sha256 secret (pseudonym_material link_id occurred_on ip user_agent)"

section \<open>Queue, processor, finalizer\<close>

definition collect :: "access_job \<Rightarrow> unit io" where
  "collect input = enqueue (\<lambda>w. w\<lparr>w_access_jobs := w_access_jobs w @ [input]\<rparr>)"

definition RECORD_LINK_ACCESS_JOB :: string where
  "RECORD_LINK_ACCESS_JOB = ''record-link-access''"

definition job_input :: "access_job \<Rightarrow> access_input" where
  "job_input data =
     \<lparr>ai_event_id = aj_event_id data, ai_link_id = aj_link_id data,
      ai_occurred_at = aj_occurred_at data, ai_occurred_on = aj_occurred_on data,
      ai_country = aj_country data, ai_visitor_pseudonym = aj_visitor_pseudonym data\<rparr>"

definition process_access_job :: "string \<Rightarrow> access_job \<Rightarrow> unit io" where
  "process_access_job name data =
     (if name = RECORD_LINK_ACCESS_JOB then db_op (record_access (job_input data)) else returnM ())"

definition finalize_previous_utc_days :: "unit io" where
  "finalize_previous_utc_days =
     bindM now_io (\<lambda>now. db_op (finalize_days now (utc_date now)))"

section \<open>Lemmas\<close>

lemma split_first:
  assumes "c \<notin> set a" and "c \<notin> set b" and "a @ c # s = b @ c # t"
  shows "a = b \<and> s = t"
  using assms
proof (induction a arbitrary: b)
  case Nil
  then show ?case by (cases b) auto
next
  case (Cons x a)
  then show ?case by (cases b) auto
qed

text \<open>
  Pseudonyms recognise a visitor only within one link and one day: as long as
  HMAC-SHA256 does not collide, two accesses share a pseudonym exactly when link, day, address and
  user agent are all equal (neither of the first three contains the separator).
\<close>

theorem pseudonym_identifies_visit:
  assumes "\<And>a b. hmac_sha256 secret a = hmac_sha256 secret b \<Longrightarrow> a = b"
    and "CHR ''|'' \<notin> set l" and "CHR ''|'' \<notin> set l'" and "CHR ''|'' \<notin> set day"
    and "CHR ''|'' \<notin> set day'" and "CHR ''|'' \<notin> set ip" and "CHR ''|'' \<notin> set ip'"
  shows "create_pseudonym hmac_sha256 secret l day ip ua = create_pseudonym hmac_sha256 secret l' day' ip' ua'
    \<longleftrightarrow> (l, day, ip, ua) = (l', day', ip', ua')"
proof
  assume "create_pseudonym hmac_sha256 secret l day ip ua = create_pseudonym hmac_sha256 secret l' day' ip' ua'"
  then have "pseudonym_material l day ip ua = pseudonym_material l' day' ip' ua'"
    using assms(1) by (simp add: create_pseudonym_def)
  then have "l @ CHR ''|'' # (day @ CHR ''|'' # (ip @ CHR ''|'' # ua)) =
      l' @ CHR ''|'' # (day' @ CHR ''|'' # (ip' @ CHR ''|'' # ua'))"
    by (simp add: pseudonym_material_def)
  from split_first [OF assms(2,3) this] have l: "l = l'"
    and rest: "day @ CHR ''|'' # (ip @ CHR ''|'' # ua) = day' @ CHR ''|'' # (ip' @ CHR ''|'' # ua')"
    by auto
  from split_first [OF assms(4,5) rest] have day: "day = day'"
    and rest': "ip @ CHR ''|'' # ua = ip' @ CHR ''|'' # ua'" by auto
  from split_first [OF assms(6,7) rest'] l day show "(l, day, ip, ua) = (l', day', ip', ua')" by simp
qed (simp add: create_pseudonym_def)

definition dotted :: "nat \<Rightarrow> nat \<Rightarrow> nat \<Rightarrow> nat \<Rightarrow> string" where
  "dotted a b c d = nat_to_string a @ ''.'' @ nat_to_string b @ ''.'' @ nat_to_string c
     @ ''.'' @ nat_to_string d"

lemma octet_cases:
  assumes "n < 256"
  obtains "n < 10" "nat_to_string n = [digit_char n]"
  | x y where "1 \<le> x" "x < 10" "y < 10" "n = 10 * x + y" "nat_to_string n = [digit_char x, digit_char y]"
  | y z where "y < 10" "z < 10" "n = 100 + 10 * y + z"
      "nat_to_string n = [CHR ''1'', digit_char y, digit_char z]"
  | y z where "y < 5" "z < 10" "n = 200 + 10 * y + z"
      "nat_to_string n = [CHR ''2'', digit_char y, digit_char z]"
  | z where "z < 6" "n = 250 + z" "nat_to_string n = [CHR ''2'', CHR ''5'', digit_char z]"
proof -
  have d: "digit_char 1 = CHR ''1''" "digit_char 2 = CHR ''2''" "digit_char 5 = CHR ''5''"
    by (simp_all add: digit_char_def char_of_eq_iff)
  consider "n < 10" | "10 \<le> n" "n < 100" | "100 \<le> n" "n < 200" | "200 \<le> n" "n < 250" | "250 \<le> n"
    by linarith
  then show thesis
  proof cases
    case 1
    then show thesis using that(1) by (simp add: nat_to_string_small)
  next
    case 2
    have "nat_to_string n = [digit_char (n div 10), digit_char (n mod 10)]"
      using 2 by (simp add: nat_to_string_big nat_to_string_small less_mult_imp_div_less)
    moreover have "1 \<le> n div 10" "n div 10 < 10" using 2 by auto
    ultimately show thesis using that(2) [of "n div 10" "n mod 10"] by simp
  next
    case 3
    define m where "m = n - 100"
    have m: "n = 100 + m" "m < 100" using 3 by (auto simp: m_def)
    have q: "n div 10 = 10 + m div 10" "n mod 10 = m mod 10" "(10 + m div 10) div 10 = 1"
      "(10 + m div 10) mod 10 = m div 10" "m div 10 < 10"
      using m mod_mult_self1 [of m 10 10] by (auto simp: add.commute)
    have "nat_to_string n = [CHR ''1'', digit_char (m div 10), digit_char (m mod 10)]"
      using 3 q d by (simp add: nat_to_string_big [of n] nat_to_string_big [of "10 + m div 10"]
          nat_to_string_small)
    with m q show thesis using that(3) [of "m div 10" "m mod 10"] by simp
  next
    case 4
    define m where "m = n - 200"
    have m: "n = 200 + m" "m < 50" using 4 by (auto simp: m_def)
    have q: "n div 10 = 20 + m div 10" "n mod 10 = m mod 10" "(20 + m div 10) div 10 = 2"
      "(20 + m div 10) mod 10 = m div 10" "m div 10 < 5"
      using m mod_mult_self1 [of m 20 10] mod_mult_self1 [of "m div 10" 2 10]
      by (auto simp: add.commute)
    have "nat_to_string n = [CHR ''2'', digit_char (m div 10), digit_char (m mod 10)]"
      using 4 q d by (simp add: nat_to_string_big [of n] nat_to_string_big [of "20 + m div 10"]
          nat_to_string_small)
    with m q show thesis using that(4) [of "m div 10" "m mod 10"] by simp
  next
    case 5
    define m where "m = n - 250"
    have m: "n = 250 + m" "m < 6" using 5 assms by (auto simp: m_def)
    have q: "n div 10 = 25" "n mod 10 = m"
      using m mod_mult_self1 [of m 25 10] by (auto simp: add.commute)
    have "nat_to_string n = [CHR ''2'', CHR ''5'', digit_char m]"
      using 5 q d by (simp add: nat_to_string_big [of n] nat_to_string_big [of 25]
          nat_to_string_small)
    with m show thesis using that(5) by simp
  qed
qed

lemma octet_matches: "n < 256 \<Longrightarrow> in_lang IPV4_SEGMENT (nat_to_string n)"
  by (erule octet_cases)
    (simp_all add: IPV4_SEGMENT_def rx_char_def char_range_def char_classes lit_seq_iff
      del: rx_lit.simps)

lemma octet_digits: "n < 256 \<Longrightarrow> (\<forall>c \<in> set (nat_to_string n). is_digit c) \<and> digits_value (nat_to_string n) = n"
proof -
  have d: "digit_value (CHR ''1'') = 1" "digit_value (CHR ''2'') = 2" "digit_value (CHR ''5'') = 5"
    "is_digit (CHR ''1'')" "is_digit (CHR ''2'')" "is_digit (CHR ''5'')"
    by (simp_all add: digit_value_def char_classes)
  show "n < 256 \<Longrightarrow> ?thesis"
    by (erule octet_cases) (simp_all add: digits_value_def d)
qed

lemma split_dots:
  assumes "\<forall>x \<in> set a. is_digit x"
  shows "split_on (CHR ''.'') (a @ CHR ''.'' # s) = a # split_on (CHR ''.'') s"
  using assms by (induction a) (auto simp: char_classes)

lemma split_last: "\<forall>x \<in> set a. is_digit x \<Longrightarrow> split_on (CHR ''.'') a = [a]"
  by (induction a) (auto simp: char_classes)

lemma dotted_ipv4:
  assumes "a < 256" and "b < 256" and "c < 256" and "d < 256"
  shows "is_ipv4 (dotted a b c d)"
    and "map digits_value (split_on (CHR ''.'') (dotted a b c d)) = [a, b, c, d]"
    and "js_trim (dotted a b c d) = dotted a b c d"
proof -
  note o = octet_matches [OF assms(1)] octet_matches [OF assms(2)] octet_matches [OF assms(3)]
    octet_matches [OF assms(4)]
  have "in_lang (rx_times 3 (RxSeq (rx_lit ''.'') IPV4_SEGMENT))
      (''.'' @ nat_to_string b @ ''.'' @ nat_to_string c @ ''.'' @ nat_to_string d)"
  proof -
    have one: "in_lang (RxSeq (rx_lit ''.'') IPV4_SEGMENT) (''.'' @ nat_to_string x)" if "x < 256" for x
      unfolding lit_seq_iff using octet_matches [OF that] by blast
    have "in_lang (rx_times (Suc (Suc (Suc 0))) (RxSeq (rx_lit ''.'') IPV4_SEGMENT))
        ((''.'' @ nat_to_string b) @ (''.'' @ nat_to_string c) @ (''.'' @ nat_to_string d) @ [])"
      unfolding rx_times.simps by (intro in_lang.seq one assms in_lang.eps)
    then show ?thesis by (simp add: numeral_3_eq_3 del: rx_lit.simps rx_times.simps)
  qed
  then show "is_ipv4 (dotted a b c d)"
    unfolding is_ipv4_def rx_test_iff IPV4_PATTERN_def dotted_def by (intro in_lang.seq o)
  note g = octet_digits [OF assms(1)] octet_digits [OF assms(2)] octet_digits [OF assms(3)]
    octet_digits [OF assms(4)]
  then show "map digits_value (split_on (CHR ''.'') (dotted a b c d)) = [a, b, c, d]"
    by (simp add: dotted_def split_dots split_last)
  have "\<not> js_space x" if "is_digit x" for x
    using that by (auto simp: is_digit_range js_space_def)
  with g show "js_trim (dotted a b c d) = dotted a b c d"
    by (intro js_trim_no_space) (auto simp: dotted_def js_space_def)
qed

text \<open>
  The GeoIP reader is consulted only for public addresses: every dotted IPv4 address
  is recognised, and it counts as unknown when it is unspecified, private, loopback, link-local or
  carrier-grade shared, whatever the reader would answer.
\<close>

theorem private_addresses_are_unknown:
  assumes "a < 256" and "b < 256" and "c < 256" and "d < 256"
  shows "resolve_country (Some reader) (dotted a b c d) =
    (if a = 0 \<or> a = 10 \<or> a = 127 \<or> (a = 169 \<and> b = 254) \<or> (a = 172 \<and> b \<in> {16..31})
        \<or> (a = 192 \<and> b = 168) \<or> (a = 100 \<and> b \<in> {64..127})
     then ''Unknown''
     else case reader (dotted a b c d) of
            Inr (Some code) \<Rightarrow> if length code = 2 then code else ''Unknown''
          | _ \<Rightarrow> ''Unknown'')"
proof -
  have "dotted a b c d \<noteq> []" by (simp add: dotted_def)
  then have "is_usable_public_ip (dotted a b c d) \<longleftrightarrow> \<not> is_private_ipv4 (dotted a b c d)"
    using dotted_ipv4 [OF assms] by (simp add: is_usable_public_ip_def is_private_ip_def Let_def)
  then show ?thesis
    using dotted_ipv4(2) [OF assms]
    by (auto simp: resolve_country_def UNKNOWN_COUNTRY_def is_private_ipv4_def
        split: option.splits sum.splits)
qed

end
