(* ===== verification/PublicResolve.thy ===== *)
theory PublicResolve
  imports LinksApp Collection
begin

text \<open>
  The public redirect: src/src/modules/links/register-public-link-resolve.ts, an Express middleware
  in front of the application, with the collection of the access it schedules. The collection is
  not awaited by the middleware; here it runs right after the response is decided, and its errors
  are dropped as in the source. Log messages are left out.
\<close>

section \<open>The middleware\<close>

record http_request =
  hr_method :: string
  hr_original_url :: string
  hr_user_agent :: "string option"
  hr_ip :: "string option"

datatype public_reply =
    PassOn
  | PassError exn
  | ReplyNotFound
  | ReplyRedirect string
      \<comment> \<open>302 with the location\<close>

definition ROOT_SEGMENT_PATTERN :: rx where
  "ROOT_SEGMENT_PATTERN =
     RxSeq (rx_lit ''/'') (rx_plus (RxClass (\<lambda>c. is_upper c \<or> is_lower c \<or> is_digit c)))"

record collection_deps =
  cd_reader :: "country_reader option"
  cd_hmac :: hmac
  cd_secret :: string

definition collect_eligible_access :: "collection_deps \<Rightarrow> http_request \<Rightarrow> resolved_link \<Rightarrow> unit io" where
  "collect_eligible_access deps request resolved =
     (let user_agent = (case hr_user_agent request of None \<Rightarrow> [] | Some ua \<Rightarrow> ua)
      in if is_automated user_agent then returnM ()
         else bindM now_io (\<lambda>occurred_at.
           let occurred_on = utc_date occurred_at;
               ip = (case hr_ip request of None \<Rightarrow> [] | Some i \<Rightarrow> i)
           in bindM draw_string (\<lambda>event_id.
                collect
                  \<lparr>aj_event_id = event_id, aj_link_id = rl_link_id resolved,
                   aj_occurred_at = occurred_at, aj_occurred_on = occurred_on,
                   aj_country = resolve_country (cd_reader deps) ip,
                   aj_visitor_pseudonym = create_pseudonym (cd_hmac deps) (cd_secret deps)
                     (rl_link_id resolved) occurred_on ip user_agent\<rparr>)))"

definition schedule_access_collection ::
  "collection_deps option \<Rightarrow> http_request \<Rightarrow> resolved_link \<Rightarrow> unit io" where
  "schedule_access_collection access_collection request resolved =
     (case access_collection of
        None \<Rightarrow> returnM ()
      | Some deps \<Rightarrow>
          catchM (collect_eligible_access deps request resolved) (\<lambda>_. returnM ()))"

definition is_not_found :: "exn \<Rightarrow> bool" where
  "is_not_found e = (case e of HttpExn he \<Rightarrow> he_status he = 404 | _ \<Rightarrow> False)"

definition request_path :: "http_request \<Rightarrow> string" where
  "request_path request = hd (split_on (CHR ''?'') (hr_original_url request))"

definition handle_public_link_resolve ::
  "world links_deps \<Rightarrow> collection_deps option \<Rightarrow> http_request \<Rightarrow> public_reply io" where
  "handle_public_link_resolve links_service access_collection request =
     (let path = request_path request
      in if hr_method request \<noteq> ''GET'' \<or> \<not> rx_test ROOT_SEGMENT_PATTERN path then returnM PassOn
         else
           let code = tl path
           in if \<not> rx_test SHORT_CODE_PATTERN code then returnM ReplyNotFound
              else catchM
                (bindM (service_resolve links_service code) (\<lambda>resolved.
                   thenM (schedule_access_collection access_collection request resolved)
                     (returnM (ReplyRedirect (rl_destination_url resolved)))))
                (\<lambda>e. if is_not_found e then returnM ReplyNotFound else returnM (PassError e)))"

section \<open>What a request is answered\<close>

lemma collect_total:
  "\<exists>w'. schedule_access_collection ac request r w = (Inr (), w') \<and> w_db w' = w_db w
     \<and> w_redis w' = w_redis w \<and> w_clock w' = w_clock w"
proof -
  have "w_db w' = w_db w \<and> w_redis w' = w_redis w \<and> w_clock w' = w_clock w"
    if "collect_eligible_access deps request r w = (q, w')" for deps q w'
    using that
    by (auto simp: collect_eligible_access_def Let_def run_simps now_io_def draw_string_def
        collect_def enqueue_def split: if_splits list.splits net_outcome.splits)
  then show ?thesis
    by (cases ac; cases "collect_eligible_access (the ac) request r w")
      (auto simp: schedule_access_collection_def run_simps split: sum.splits)
qed

definition public_verdict :: "http_request \<Rightarrow> link list \<Rightarrow> public_reply" where
  "public_verdict request ls =
     (let path = request_path request
      in if hr_method request \<noteq> ''GET'' \<or> \<not> rx_test ROOT_SEGMENT_PATTERN path then PassOn
         else if \<not> rx_test SHORT_CODE_PATTERN (tl path) then ReplyNotFound
         else case active_with_code (tl path) ls of
                None \<Rightarrow> ReplyNotFound
              | Some l \<Rightarrow> ReplyRedirect (lk_destination_url l))"

lemma not_found_is_404: "is_not_found link_not_found_exception"
  by (simp add: is_not_found_def link_not_found_exception_def http_error_def)

lemma public_answer:
  assumes "links_served (app_links ttl base n parse) w"
  shows "fst (handle_public_link_resolve (app_links ttl base n parse) ac request w) =
    Inr (public_verdict request (links (w_db w)))"
proof -
  obtain r w1 where run: "service_resolve (app_links ttl base n parse) (tl (request_path request)) w = (r, w1)"
    by force
  note r = resolve_run [OF assms run]
  show ?thesis
  proof (cases "active_with_code (tl (request_path request)) (link_rows w)")
    case None
    with r run show ?thesis
      by (simp add: handle_public_link_resolve_def public_verdict_def Let_def run_simps
          not_found_is_404 link_rows_def)
  next
    case (Some l)
    obtain w2 where "schedule_access_collection ac request (resolved_of l) w1 = (Inr (), w2)"
      using collect_total by blast
    with Some r run show ?thesis
      by (simp add: handle_public_link_resolve_def public_verdict_def Let_def run_simps
          link_rows_def resolved_of_def)
  qed
qed

lemma public_passes_on:
  assumes "public_verdict request ls = PassOn"
  shows "handle_public_link_resolve links_service ac request w = (Inr PassOn, w)"
  using assms
  by (auto simp: public_verdict_def handle_public_link_resolve_def Let_def run_simps
      split: if_splits option.splits)

text \<open>
  A public request is answered by the database alone: anything but a GET of one
  alphanumeric segment is passed on, an ill-formed code or a code without an active link gives
  404, an active link redirects to its destination; no failure of Redis, of the queue or of the
  collection changes the answer or raises an error.
\<close>

theorem public_resolve_verdict:
  assumes "links_served (app_links ttl base n parse) w"
  shows "fst (handle_public_link_resolve (app_links ttl base n parse) ac request w) =
    Inr (public_verdict request (links (w_db w)))"
  using assms by (rule public_answer)

section \<open>From a redirect to the counters\<close>

definition expected_job :: "collection_deps \<Rightarrow> http_request \<Rightarrow> uuid \<Rightarrow> uuid \<Rightarrow> instant \<Rightarrow> access_job" where
  "expected_job deps request link_id event_id now =
     (let ip = (case hr_ip request of None \<Rightarrow> [] | Some i \<Rightarrow> i);
          ua = (case hr_user_agent request of None \<Rightarrow> [] | Some u \<Rightarrow> u)
      in \<lparr>aj_event_id = event_id, aj_link_id = link_id, aj_occurred_at = now,
          aj_occurred_on = utc_date now, aj_country = resolve_country (cd_reader deps) ip,
          aj_visitor_pseudonym =
            create_pseudonym (cd_hmac deps) (cd_secret deps) link_id (utc_date now) ip ua\<rparr>)"

definition automated_request :: "http_request \<Rightarrow> bool" where
  "automated_request request =
     is_automated (case hr_user_agent request of None \<Rightarrow> [] | Some ua \<Rightarrow> ua)"

lemma collect_run:
  "schedule_access_collection (Some deps) request r w =
    (Inr (),
     if automated_request request then w
     else let w1 = w\<lparr>w_drawn := Suc (w_drawn w), w_net := tl (w_net w)\<rparr>;
              job = expected_job deps request (rl_link_id r) (w_strings w (w_drawn w)) (w_clock w)
          in case w_net w of
               Lost # _ \<Rightarrow> w1
             | _ \<Rightarrow> w1\<lparr>w_access_jobs := w_access_jobs w @ [job]\<rparr>)"
  by (auto simp: schedule_access_collection_def collect_eligible_access_def automated_request_def
      run_simps now_io_def draw_string_def collect_def enqueue_def expected_job_def Let_def
      split: list.splits net_outcome.splits)

text \<open>A resolution changes nothing but Redis, and a healthy network stays healthy.\<close>

definition same_but_redis :: "world \<Rightarrow> world \<Rightarrow> bool" where
  "same_but_redis w0 w \<longleftrightarrow>
     w\<lparr>w_redis := w_redis w0, w_net := w_net w0\<rparr> = w0 \<and> (w_net w0 = [] \<longrightarrow> w_net w = [])"

lemma same_but_redisD:
  assumes "same_but_redis w0 w"
  shows "w_db w = w_db w0" "w_clock w = w_clock w0" "w_drawn w = w_drawn w0"
    "w_strings w = w_strings w0" "w_access_jobs w = w_access_jobs w0"
    "w_net w0 = [] \<Longrightarrow> w_net w = []"
  using assms unfolding same_but_redis_def
  by (metis (no_types, lifting) world.ext_inject world.surjective world.update_convs(2,3))+

lemma keeps_same_but_redis:
  "keeps (same_but_redis w0) (redis_call cmd)"
  by (rule keeps_redis_call) (auto simp: same_but_redis_def)

lemma keeps_db_read: "keeps P (db_op (getsM f))"
  by (simp add: keeps_def db_op_def getsM_def)

lemma resolve_frame:
  assumes "service_resolve (app_links ttl base n parse) c w = (r, w')"
  shows "same_but_redis w w'"
proof -
  have "keeps (same_but_redis w) (service_resolve (app_links ttl base n parse) c)"
    unfolding service_resolve_def app_links_def links_deps.simps cache_get_def cache_set_def
      redis_service_get_def redis_service_set_def find_active_by_short_code_def Let_def
    by (intro keeps_rules keeps_same_but_redis keeps_db_read)
  moreover have "same_but_redis w w" by (simp add: same_but_redis_def)
  ultimately show ?thesis using assms by (metis keepsD)
qed

text \<open>
  Property C38. With the infrastructure up, a redirect not recognised as automated traffic puts
  exactly one job on the queue, and processing it counts exactly one access for the link, today's
  UTC date and the country of the address; automated traffic puts none.
\<close>

theorem redirect_is_counted:
  assumes served: "links_served (app_links ttl base n parse) w" and stats: "stats_keys (w_db w)"
    and up: "w_net w = []"
    and l: "public_verdict request (links (w_db w)) = ReplyRedirect t"
    and fresh: "w_strings w (w_drawn w) \<notin> ev_id ` set (access_events (w_db w))"
    and open_day: "\<And>l. \<not> day_finalized l (utc_date (w_clock w)) (w_db w)"
  shows "\<exists>l \<in> set (links (w_db w)). lk_status l = ACTIVE \<and> lk_destination_url l = t \<and>
    (case handle_public_link_resolve (app_links ttl base n parse) (Some deps) request w of (r, w1) \<Rightarrow>
      if automated_request request then w_access_jobs w1 = w_access_jobs w
      else \<exists>job. w_access_jobs w1 = w_access_jobs w @ [job]
        \<and> (case process_access_job RECORD_LINK_ACCESS_JOB job w1 of (q, w2) \<Rightarrow>
             q = Inr () \<and>
             (\<forall>P. accesses_at P (w_db w2) = accesses_at P (w_db w)
               + (if P (lk_id l, utc_date (w_clock w),
                      resolve_country (cd_reader deps)
                        (case hr_ip request of None \<Rightarrow> [] | Some i \<Rightarrow> i)) then 1 else 0))))"
proof -
  let ?D = "app_links ttl base n parse"
  let ?code = "tl (request_path request)"
  from l obtain k where k: "active_with_code ?code (links (w_db w)) = Some k"
    and t: "lk_destination_url k = t"
    and ok: "hr_method request = ''GET''" "rx_test ROOT_SEGMENT_PATTERN (request_path request)"
      "rx_test SHORT_CODE_PATTERN ?code"
    by (auto simp: public_verdict_def Let_def split: if_splits option.splits)
  note mem = active_with_code_SomeD [OF k]
  obtain r w1 where run: "service_resolve ?D ?code w = (r, w1)" by force
  have r: "r = Inr (resolved_of k)" using resolve_run [OF served run] k by (simp add: link_rows_def)
  note same = same_but_redisD [OF resolve_frame [OF run]]
  let ?job = "expected_job deps request (lk_id k) (w_strings w (w_drawn w)) (w_clock w)"
  let ?w2 = "if automated_request request then w1
    else w1\<lparr>w_drawn := Suc (w_drawn w1), w_net := [], w_access_jobs := w_access_jobs w @ [?job]\<rparr>"
  have sched: "schedule_access_collection (Some deps) request (resolved_of k) w1 = (Inr (), ?w2)"
    using same up by (simp add: collect_run Let_def resolved_of_def)
  have handled: "handle_public_link_resolve ?D (Some deps) request w = (Inr (ReplyRedirect t), ?w2)"
    using ok run r sched t
    by (simp add: handle_public_link_resolve_def Let_def run_simps resolved_of_def)
  show ?thesis
  proof (cases "automated_request request")
    case True
    with handled mem t same show ?thesis by (intro bexI [of _ k]) simp_all
  next
    case False
    let ?i = "job_input ?job"
    have i: "ai_link_id ?i = lk_id k" "ai_occurred_on ?i = utc_date (w_clock w)"
      "ai_event_id ?i = w_strings w (w_drawn w)"
      "access_key ?i = (lk_id k, utc_date (w_clock w), resolve_country (cd_reader deps)
         (case hr_ip request of None \<Rightarrow> [] | Some i \<Rightarrow> i))"
      by (simp_all add: job_input_def expected_job_def access_key_def Let_def)
    have "counts_access ?i (w_db w)" using fresh open_day by (simp add: counts_access_def i)
    from record_access_recorded [OF this] mem i
    have rec: "record_access ?i (w_db w) = (Inr (), recorded ?i (w_db w))" by simp
    have "process_access_job RECORD_LINK_ACCESS_JOB ?job ?w2 =
        (Inr (), ?w2\<lparr>w_db := recorded ?i (w_db w)\<rparr>)"
      using rec same False by (simp add: process_access_job_def db_op_def)
    with False handled mem t recorded_counts(1) [OF stats, of _ ?i] show ?thesis
      by (intro bexI [of _ k]) (simp_all add: i(4))
  qed
qed

end
