(* ===== verification/LinksApi.thy ===== *)
theory LinksApi
  imports PublicResolve
begin

text \<open>
  The authenticated link requests: links.controller.ts with the bounds of links.dto.ts, and the
  statistics report of link-statistics.service.ts behind its controller. The caller's identity is
  the user the session guard attached to the request.
\<close>

section \<open>Links controller\<close>

definition controller_create :: "world links_deps \<Rightarrow> uuid \<Rightarrow> string \<Rightarrow> (nat \<times> link_response) io" where
  "controller_create links_service user_id destination_url =
     bindM (service_create links_service user_id destination_url) (\<lambda>(link, created).
       returnM (if created then 201 else 200, link))"

text \<open>The query of the listing, as far as the DTO lets it through.\<close>

record list_params =
  lp_page :: "int option"
  lp_limit :: "int option"
  lp_status :: "status_filter option"

definition list_params_valid :: "list_params \<Rightarrow> bool" where
  "list_params_valid q \<longleftrightarrow>
     (case lp_page q of None \<Rightarrow> True | Some p \<Rightarrow> 1 \<le> p)
     \<and> (case lp_limit q of None \<Rightarrow> True | Some l \<Rightarrow> 1 \<le> l \<and> l \<le> 100)"

definition controller_list :: "world links_deps \<Rightarrow> uuid \<Rightarrow> list_params \<Rightarrow> list_response io" where
  "controller_list links_service user_id query =
     service_list links_service user_id
       \<lparr>lq_page = (case lp_page query of None \<Rightarrow> 1 | Some p \<Rightarrow> nat p),
        lq_limit = (case lp_limit query of None \<Rightarrow> 20 | Some l \<Rightarrow> nat l),
        lq_status = (case lp_status query of None \<Rightarrow> FilterActive | Some s \<Rightarrow> s)\<rparr>"

definition controller_deactivate :: "world links_deps \<Rightarrow> uuid \<Rightarrow> uuid \<Rightarrow> link_response io" where
  "controller_deactivate links_service user_id link_id = service_deactivate links_service user_id link_id"

definition controller_reactivate :: "world links_deps \<Rightarrow> uuid \<Rightarrow> uuid \<Rightarrow> link_response io" where
  "controller_reactivate links_service user_id link_id = service_reactivate links_service user_id link_id"

section \<open>Statistics service\<close>

definition service_get_report ::
  "uuid \<Rightarrow> uuid \<Rightarrow> string option \<Rightarrow> string option \<Rightarrow> report io" where
  "service_get_report user_id link_id query_from query_to =
     bindM now_io (\<lambda>now.
       case resolve_period now query_from query_to of
         Inl e \<Rightarrow> throwM e
       | Inr (period_from, period_to) \<Rightarrow>
           bindM (db_op (find_link_by_id link_id)) (\<lambda>found.
             case found of
               None \<Rightarrow> throwM link_not_found_exception
             | Some l \<Rightarrow>
                 if lk_user_id l \<noteq> user_id then throwM forbidden_exception
                 else db_op (get_report link_id period_from period_to)))"

section \<open>Lemmas\<close>

lemma insert_link_length: "insert_link l d = (Inr x, d') \<Longrightarrow> length (links d') = Suc (length (links d))"
  by (auto simp: insert_link_def split: if_splits)

lemma create_or_restore_length:
  "wp (create_or_restore i now u t c) (\<lambda>r d'. length (links d') =
     (case r of Inr (Created l) \<Rightarrow> Suc (length (links d)) | _ \<Rightarrow> length (links d))) d"
  unfolding create_or_restore_def create_or_restore_tx_def
  by (auto simp: wp_simps activate_row_def split: option.splits intro!: wp_insert_link
      dest: insert_link_length)

lemma create_attempts_length:
  "create_attempts (app_links ttl base m parse) u t n w = (r, w') \<Longrightarrow>
     length (link_rows w') =
       (case r of Inr (resp, True) \<Rightarrow> Suc (length (link_rows w)) | _ \<Rightarrow> length (link_rows w))"
proof (induction n arbitrary: w)
  case 0
  then show ?case by (auto simp: run_simps)
next
  case (Suc n)
  let ?c = "generate_link_code CODE_LENGTH (w_ints w) (w_drawn w)"
  let ?w1 = "w\<lparr>w_drawn := w_drawn w + CODE_LENGTH\<rparr>"
  obtain q w2 where q: "create_or_restore_io u t ?c ?w1 = (q, w2)" by force
  have len: "length (link_rows w2) =
      (case q of Inr (Created l) \<Rightarrow> Suc (length (link_rows w)) | _ \<Rightarrow> length (link_rows w))"
    using wp_run [OF create_or_restore_length conjunct1 [OF create_io_run [OF q]]]
    unfolding link_rows_def by (simp split: sum.splits create_result.splits)
  have "create_attempts (app_links ttl base m parse) u t (Suc n) w =
      (case q of Inl e \<Rightarrow> (Inl e, w2)
       | Inr (Created l) \<Rightarrow> (Inr (to_response base l, True), w2)
       | Inr (Existing l) \<Rightarrow> (Inr (to_response base l, False), w2)
       | Inr (Reactivated l) \<Rightarrow> (Inr (to_response base l, False), w2)
       | Inr CreateLimitReached \<Rightarrow> (Inl link_limit_reached_exception, w2)
       | Inr ShortCodeCollision \<Rightarrow> create_attempts (app_links ttl base m parse) u t n w2)"
    using q by (simp add: run_simps app_links_def generate_code_io_def
        split: sum.splits create_result.splits)
  with Suc.prems len Suc.IH [of w2] show ?case
    by (auto split: sum.splits create_result.splits)
qed

text \<open>
  The creation request answers 201 exactly when it added a link and 200 when it
  returned one the user had; a refused request adds none; nobody else's link is answered.
\<close>

theorem create_status_code:
  assumes "links_served (app_links ttl base n parse) w"
  shows "(case controller_create (app_links ttl base n parse) u raw w of (r, w') \<Rightarrow>
    (case r of
       Inl e \<Rightarrow> links (w_db w') = links (w_db w)
     | Inr (status, resp) \<Rightarrow>
         (\<exists>l \<in> set (links (w_db w')). lk_user_id l = u \<and> lk_status l = ACTIVE \<and> resp = to_response base l)
         \<and> (if length (links (w_db w')) = Suc (length (links (w_db w))) then status = 201
            else status = 200 \<and> length (links (w_db w')) = length (links (w_db w)))))"
proof -
  let ?D = "app_links ttl base n parse"
  obtain q w' where run: "service_create ?D u raw w = (q, w')" by force
  note out = app.service_create_outcome [OF _ _ run]
  have len: "length (link_rows w') =
      (case q of Inr (resp, True) \<Rightarrow> Suc (length (link_rows w)) | _ \<Rightarrow> length (link_rows w))"
  proof (cases "destination_url_create parse raw")
    case (Inl e)
    with run show ?thesis
      by (auto simp: service_create_def parse_destination_url_def run_simps app_links_def)
  next
    case (Inr t)
    with run have "create_attempts ?D u t n w = (q, w')"
      by (simp add: service_create_def parse_destination_url_def run_simps app_links_def)
    then show ?thesis by (rule create_attempts_length)
  qed
  have base: "dep_public_short_url_base ?D = base" by (simp add: app_links_def)
  show ?thesis
  proof (cases q)
    case (Inl e)
    with out links_served_inv [OF assms] run show ?thesis
      by (simp add: controller_create_def run_simps link_rows_def)
  next
    case (Inr x)
    obtain resp made where x: "x = (resp, made)" by force
    from out links_served_inv [OF assms] Inr x base
    have "\<exists>l \<in> set (links (w_db w')). lk_user_id l = u \<and> lk_status l = ACTIVE \<and> resp = to_response base l"
      by (auto simp: link_rows_def)
    with run Inr x len show ?thesis
      by (cases made) (simp_all add: controller_create_def run_simps link_rows_def)
  qed
qed

text \<open>
  A report is read only by the owner of the link, over an accepted period, and
  reading changes nothing: a bad period is answered first, then an unknown link with 404 and
  someone else's with 403.
\<close>

lemma report_is_private:
  "service_get_report u i qf qt w =
    (case resolve_period (w_clock w) qf qt of
       Inl e \<Rightarrow> Inl e
     | Inr (f, t) \<Rightarrow>
         (case find (\<lambda>l. lk_id l = i) (links (w_db w)) of
            None \<Rightarrow> Inl link_not_found_exception
          | Some l \<Rightarrow>
              if lk_user_id l \<noteq> u then Inl forbidden_exception
              else fst (get_report i f t (w_db w))), w)"
  by (auto simp: service_get_report_def now_io_def run_simps db_op_def find_link_by_id_def
      link_by_id_def get_report_def Let_def split: sum.splits option.splits)

end
