(* ===== verification/StatsExamples.thy ===== *)
theory StatsExamples
  imports Examples CacheRace LinksApi
begin

text \<open>Instances of the properties on concurrency, dates, statistics and public requests.\<close>

section \<open>Interleavings\<close>

lemma race_reachable_steps:
  "(race_step deps)\<^sup>*\<^sup>* s s' \<Longrightarrow> race_reachable deps s \<Longrightarrow> race_reachable deps s'"
  by (induction rule: rtranclp.induct) (auto intro: race_reachable.step)

lemma linked_race: "race_reachable sample_app (linked_world, [])"
proof -
  let ?w = "sample_world\<lparr>w_drawn := 6\<rparr>"
  have "race_reachable sample_app (sample_world, [])"
    by (rule race_reachable.start) (simp, simp add: sample_world_def)
  moreover have "race_step sample_app (sample_world, []) (?w, [])"
    by (rule race_step.other) (simp_all add: link_rows_def)
  moreover have "create_or_restore_io ''u1'' sample_url ''AAAAAA'' ?w =
      (Inr (Created sample_link), linked_world)"
    using sample_created
    by (simp add: create_or_restore_io_def draw_string_def now_io_def db_op_def run_simps
        linked_world_def sample_world_def)
  then have "race_step sample_app (?w, []) (linked_world, [])"
    by (intro race_step.create) (simp add: app_links_create)
  ultimately show ?thesis by (meson race_reachable.step)
qed

theorem race_keeps_destinations_witness:
  "(case fst (service_resolve sample_app ''AAAAAA'' linked_world) of
      Inr r \<Rightarrow> \<exists>l \<in> {sample_link}. lk_short_code l = ''AAAAAA''
        \<and> r = \<lparr>rl_link_id = lk_id l, rl_destination_url = lk_destination_url l\<rparr>
    | Inl e \<Rightarrow> False)"
  using race_keeps_destinations [OF linked_race, of "''AAAAAA''"]
  by (simp split: sum.splits)

lemma off_race: "race_reachable sample_app (off_world, [])"
  using race_reachable_steps [OF change_is_steps linked_race]
    linked_deactivated [unfolded service_deactivate_def] by blast

theorem stale_answers_expire_witness:
  "fst (service_resolve sample_app ''AAAAAA'' (off_world\<lparr>w_clock := 60000\<rparr>)) =
     Inl link_not_found_exception"
proof -
  let ?w = "off_world\<lparr>w_clock := 60000\<rparr>"
  have clock: "w_clock off_world = 0" by (simp add: off_world_def)
  have none: "active_with_code ''AAAAAA'' (link_rows off_world) = None"
    "active_with_code ''AAAAAA'' (link_rows ?w) = None"
    by (simp_all add: active_with_code_def link_rows_def off_world_def off_link_def)
  have "race_step sample_app (off_world, []) (?w, [])"
    using clock by (intro race_step.tick) simp
  then have "(inactive_step sample_app ''AAAAAA'')\<^sup>*\<^sup>* (off_world, []) (?w, [])"
    using none by (intro r_into_rtranclp) (simp add: inactive_step_def)
  from stale_answers_expire [OF off_race none(1) _ this] clock show ?thesis by simp
qed

theorem deactivated_link_can_resolve_witness:
  "\<exists>w'. (race_step sample_app)\<^sup>*\<^sup>* (linked_world, []) (w', [])
    \<and> link_rows w' = set_status ''id'' DEACTIVATED 0 [sample_link]
    \<and> fst (service_resolve sample_app ''AAAAAA'' w') = Inr (resolved_of sample_link)"
  using deactivated_link_can_resolve [of "''AAAAAA''" linked_world sample_link 60 "''u1''" sample_account
      "''https://s.io''" 3 sample_parse]
  by (simp add: active_with_code_def cached_links_def linked_world_def sample_world_def redis_get_def
      link_rows_def)

section \<open>Dates\<close>

lemma sample_days: "four_digit_day (-29)" "four_digit_day 0" "four_digit_day 1"
  by code_simp+

lemma sample_texts: "iso_date (-29) = ''1969-12-03''" "iso_date 0 = ''1970-01-01''"
  by code_simp+

theorem resolve_period_sound_witness:
  "resolve_period 0 None None = Inr (''1969-12-03'', ''1970-01-01'')
   \<and> each_utc_date ''1969-12-03'' ''1970-01-01'' = map iso_date [-29..0]"
proof -
  have zero: "day_of_instant 0 = 0" "(0 :: int) - 29 = -29"
    by (simp_all add: day_of_instant_def)
  have run: "resolve_period 0 None None = Inr (iso_date (-29), iso_date 0)"
    using parse_iso_date [OF sample_days(2)]
    by (simp add: resolve_period_def add_utc_days_def utc_date_def zero DEFAULT_PERIOD_DAYS_def)
  from resolve_period_sound [OF run, unfolded zero, OF sample_days(1,2)]
  have "each_utc_date (iso_date (-29)) (iso_date 0) = map iso_date [-29..0]"
    unfolding if_P [OF refl] by (elim exE conjE) (simp only: zero)
  with run show ?thesis unfolding sample_texts by simp
qed

section \<open>Statistics\<close>

definition sample_input :: access_input where
  "sample_input = \<lparr>ai_event_id = ''e1'', ai_link_id = ''id'', ai_occurred_at = 0,
     ai_occurred_on = ''1970-01-01'', ai_country = ''BR'', ai_visitor_pseudonym = ''p''\<rparr>"

definition counted_db :: db where
  "counted_db = snd (record_access sample_input linked_db)"

lemma linked_stats: "stats_history linked_db"
  by (rule stats_history.start) (simp_all add: linked_db_def sample_db_def empty_db_def)

lemma linked_stats_keys: "stats_keys linked_db"
  using stats_history_inv [OF linked_stats] by (simp add: stats_inv_def)

lemma counted_stats: "stats_history counted_db"
proof (rule stats_history.recording [OF linked_stats])
  show "is_day_text (ai_occurred_on sample_input)" by code_simp
  show "record_access sample_input linked_db = (fst (record_access sample_input linked_db), counted_db)"
    by (simp add: counted_db_def)
qed

theorem record_access_counts_once_witness:
  "accesses_at (\<lambda>_. True) counted_db = accesses_at (\<lambda>_. True) linked_db + 1"
  using record_access_counts_once [OF linked_stats_keys, of sample_input "\<lambda>_. True" "\<lambda>_. True"]
  by (auto simp: counted_db_def sample_input_def day_finalized_def linked_db_def sample_db_def
      empty_db_def split: prod.splits)

theorem counters_match_raw_rows_witness:
  "month_accesses_at ((=) (''id'', ''1970-01'')) counted_db =
     accesses_at (in_month (''id'', ''1970-01'')) counted_db"
  using counters_match_raw_rows [OF counted_stats, of "''id''" "''1970-01-01''" "''1970-01''"] by simp

theorem finalize_purges_raw_rows_witness:
  "access_events (snd (finalize_days 5 ''1970-01-02'' counted_db)) =
     filter (\<lambda>e. \<not> js_less (ev_occurred_on e) ''1970-01-02'') (access_events counted_db)"
  using finalize_purges_raw_rows [OF counted_stats, where now = 5 and before = "''1970-01-02''"
      and l = "''id''" and f = "''1970-01-01''" and t = "''1970-01-01''"]
  by (auto split: prod.splits)

theorem late_access_to_empty_day_witness:
  "event_of sample_input \<in>
     set (access_events (snd (record_access sample_input (snd (finalize_days 5 ''1970-01-03'' linked_db)))))"
  using late_access_to_empty_day [where l = "''id''" and day = "''1970-01-01''" and d = linked_db
      and i = sample_input and now = 5 and before = "''1970-01-03''"
      and r = "fst (finalize_days 5 ''1970-01-03'' linked_db)"
      and ?d1.0 = "snd (finalize_days 5 ''1970-01-03'' linked_db)"]
    linked_stats
  by (simp add: raw_accesses_def raw_visitors_def day_finalized_def sample_input_def linked_db_def
      sample_db_def empty_db_def)

theorem report_adds_up_witness:
  "(case get_report ''id'' (iso_date 0) (iso_date 1) counted_db of
      (Inl e, d') \<Rightarrow> False
    | (Inr rp, d') \<Rightarrow> map fst (rp_daily rp) = [iso_date 0, iso_date 1]
        \<and> sum_list (map (\<lambda>p. sp_accesses (snd p)) (rp_daily rp)) = sp_accesses (rp_totals rp))"
proof -
  have "[0..1 :: int] = [0, 1]" by (simp add: upto_rec1)
  with report_adds_up [OF counted_stats sample_days(2,3), of "''id''"] show ?thesis
    by (auto split: prod.splits sum.splits)
qed

section \<open>Public requests\<close>

definition sample_request :: http_request where
  "sample_request = \<lparr>hr_method = ''GET'', hr_original_url = ''/AAAAAA?x=1'',
     hr_user_agent = Some ''Mozilla/5.0'', hr_ip = Some ''8.8.8.8''\<rparr>"

definition sample_collection :: collection_deps where
  "sample_collection = \<lparr>cd_reader = None, cd_hmac = (\<lambda>s m. s @ m), cd_secret = ''k''\<rparr>"

lemma sample_verdict: "public_verdict sample_request [sample_link] = ReplyRedirect sample_url"
  by code_simp

lemma sample_not_automated: "\<not> automated_request sample_request"
  by code_simp

theorem public_resolve_verdict_witness:
  "fst (handle_public_link_resolve sample_app (Some sample_collection) sample_request linked_world) =
     Inr (ReplyRedirect sample_url)"
  using public_resolve_verdict [OF linked_served, of "Some sample_collection" sample_request] sample_verdict
  by simp

theorem redirect_is_counted_witness:
  "\<exists>job. w_access_jobs
      (snd (handle_public_link_resolve sample_app (Some sample_collection) sample_request linked_world))
    = [job]"
proof -
  have keys: "stats_keys (w_db linked_world)" using linked_stats_keys by (simp add: linked_world_def)
  have "w_net linked_world = []" "w_access_jobs linked_world = []"
    "w_strings linked_world (w_drawn linked_world) \<notin> ev_id ` set (access_events (w_db linked_world))"
    "\<not> day_finalized l (utc_date (w_clock linked_world)) (w_db linked_world)" for l
    by (simp_all add: linked_world_def sample_world_def linked_db_def sample_db_def empty_db_def
        day_finalized_def)
  with redirect_is_counted [OF linked_served keys, of sample_request sample_url sample_collection]
    sample_verdict sample_not_automated
  show ?thesis by (auto simp: case_prod_beta)
qed

theorem pseudonym_identifies_visit_witness:
  "create_pseudonym (\<lambda>s m. s @ m) ''k'' ''l'' ''2026-01-01'' ''8.8.8.8'' ''ua''
     \<noteq> create_pseudonym (\<lambda>s m. s @ m) ''k'' ''l'' ''2026-01-02'' ''8.8.8.8'' ''ua''"
  using pseudonym_identifies_visit [of "\<lambda>s m. s @ m" "''k''" "''l''" "''l''" "''2026-01-01''"
      "''2026-01-02''" "''8.8.8.8''" "''8.8.8.8''" "''ua''" "''ua''"]
  by simp

theorem private_addresses_are_unknown_witness:
  "resolve_country (Some (\<lambda>ip. Inr (Some ''US''))) (dotted 10 0 0 1) = ''Unknown''
   \<and> resolve_country (Some (\<lambda>ip. Inr (Some ''US''))) (dotted 8 8 8 8) = ''US''"
  using private_addresses_are_unknown [of 10 0 0 1 "\<lambda>ip. Inr (Some ''US'')"]
    private_addresses_are_unknown [of 8 8 8 8 "\<lambda>ip. Inr (Some ''US'')"]
  by simp

section \<open>Authenticated link requests\<close>

theorem create_status_code_witness:
  "(case fst (controller_create sample_app ''u1'' sample_url linked_world) of
      Inl e \<Rightarrow> True
    | Inr (status, resp) \<Rightarrow> status \<in> {200, 201})"
  using create_status_code [OF linked_served, of "''u1''" sample_url]
  by (auto split: prod.splits sum.splits if_splits)

text \<open>Of the link-local addresses \<open>fe80::/10\<close> only those that start with \<open>fe80:\<close> count as private.\<close>

lemma link_local_addresses_looked_up:
  "is_usable_public_ip ''fe90::1'' \<and> \<not> is_usable_public_ip ''fe80::1''"
  by code_simp

end
