(* ===== verification/AuthRepo.thy ===== *)
theory AuthRepo
  imports Entities
begin

text \<open>
  The authentication repository: src/src/modules/auth/typeorm-auth.repository.ts over the tables
  of the migration CreateAuthTables. Every writing operation is one transaction under the lock of
  the account's row. Identifiers the database generates and the clock are arguments. The part of
  an operation that runs once the lock is held is a definition of its own, because other
  transactions may commit between the first read and the lock.
\<close>

section \<open>Rows and constraints\<close>

definition missing_reference :: "string \<Rightarrow> exn" where
  "missing_reference constraint =
     QueryErr \<lparr>pg_code = ''23503'', pg_constraint = constraint, pg_detail = []\<rparr>"

definition key_detail :: "string \<Rightarrow> string \<Rightarrow> string" where
  "key_detail column v = ''Key ('' @ column @ '')=('' @ v @ '') already exists.''"

definition insert_account :: "account \<Rightarrow> account dbm" where
  "insert_account a = (\<lambda>d.
     if 320 < length (acc_email a) \<or> 60 < length (acc_password_hash a) then (Inl value_too_long, d)
     else if acc_id a \<in> acc_id ` set (accounts d)
     then (Inl (unique_violation ''PK_a3ffb1c0c8416b9fc6f907b7433'' (key_detail ''id'' (acc_id a))), d)
     else if acc_email a \<in> acc_email ` set (accounts d)
     then (Inl (unique_violation ''IDX_97672ac88f789774dd47f7c8be''
             (key_detail ''email'' (acc_email a))), d)
     else (Inr a, d\<lparr>accounts := accounts d @ [a]\<rparr>))"

definition insert_session :: "session \<Rightarrow> session dbm" where
  "insert_session s = (\<lambda>d.
     if 128 < length (ses_refresh_token_hash s) \<or> 128 < length (ses_csrf_token_hash s)
     then (Inl value_too_long, d)
     else if ses_id s \<in> ses_id ` set (sessions d)
     then (Inl (unique_violation ''PK_641507381f32580e8479efc36cd'' (key_detail ''id'' (ses_id s))), d)
     else if ses_user_id s \<notin> acc_id ` set (accounts d)
     then (Inl (missing_reference ''FK_925b24d7fc2f9324ce972aee025''), d)
     else (Inr s, d\<lparr>sessions := sessions d @ [s]\<rparr>))"

definition insert_refresh_token :: "refresh_token \<Rightarrow> refresh_token dbm" where
  "insert_refresh_token t = (\<lambda>d.
     if 128 < length (rt_token_hash t) then (Inl value_too_long, d)
     else if rt_id t \<in> rt_id ` set (refresh_tokens d)
     then (Inl (unique_violation ''PK_c25bb23cefd8e77e04f9a1283ef'' (key_detail ''id'' (rt_id t))), d)
     else if rt_token_hash t \<in> rt_token_hash ` set (refresh_tokens d)
     then (Inl (unique_violation ''IDX_b42ff12c5e4def8c548fb161f8''
             (key_detail ([CHR 0x22] @ ''tokenHash'' @ [CHR 0x22]) (rt_token_hash t))), d)
     else if rt_session_id t \<notin> ses_id ` set (sessions d)
     then (Inl (missing_reference ''FK_b7a5f598e03d861a529e1062c92''), d)
     else (Inr t, d\<lparr>refresh_tokens := refresh_tokens d @ [t]\<rparr>))"

definition insert_reset_token :: "reset_token \<Rightarrow> reset_token dbm" where
  "insert_reset_token t = (\<lambda>d.
     if 128 < length (prt_token_hash t) then (Inl value_too_long, d)
     else if prt_id t \<in> prt_id ` set (reset_tokens d)
     then (Inl (unique_violation ''PK_d16bebd73e844c48bca50ff8d3d'' (key_detail ''id'' (prt_id t))), d)
     else if prt_user_id t \<notin> acc_id ` set (accounts d)
     then (Inl (missing_reference ''FK_d6a19d4b4f6c62dcd29daa497e2''), d)
     else (Inr t, d\<lparr>reset_tokens := reset_tokens d @ [t]\<rparr>))"

text \<open>Saving a loaded row: UPDATE by primary key; an unchanged account is not written.\<close>

definition save_account :: "instant \<Rightarrow> account \<Rightarrow> account \<Rightarrow> account dbm" where
  "save_account now loaded edited =
     (if edited = loaded then returnM loaded
      else thenM
        (modifyM (\<lambda>d. d\<lparr>accounts :=
           update_where (\<lambda>a. acc_id a = acc_id loaded)
             (\<lambda>_. edited\<lparr>acc_updated_at := now\<rparr>) (accounts d)\<rparr>))
        (returnM (edited\<lparr>acc_updated_at := now\<rparr>)))"

definition save_session :: "session \<Rightarrow> session dbm" where
  "save_session s =
     thenM
       (modifyM (\<lambda>d. d\<lparr>sessions :=
          update_where (\<lambda>r. ses_id r = ses_id s) (\<lambda>_. s) (sessions d)\<rparr>))
       (returnM s)"

definition save_refresh_token :: "refresh_token \<Rightarrow> unit dbm" where
  "save_refresh_token t =
     modifyM (\<lambda>d. d\<lparr>refresh_tokens :=
       update_where (\<lambda>r. rt_id r = rt_id t) (\<lambda>_. t) (refresh_tokens d)\<rparr>)"

definition save_reset_token :: "reset_token \<Rightarrow> reset_token dbm" where
  "save_reset_token t =
     thenM
       (modifyM (\<lambda>d. d\<lparr>reset_tokens :=
          update_where (\<lambda>r. prt_id r = prt_id t) (\<lambda>_. t) (reset_tokens d)\<rparr>))
       (returnM t)"

section \<open>Accounts\<close>

definition find_account_by_email :: "string \<Rightarrow> account option dbm" where
  "find_account_by_email email = getsM (\<lambda>d. find (\<lambda>a. acc_email a = email) (accounts d))"

definition find_account_by_id :: "uuid \<Rightarrow> account option dbm" where
  "find_account_by_id i = getsM (account_by_id i)"

definition create_pending_account :: "uuid \<Rightarrow> instant \<Rightarrow> string \<Rightarrow> string \<Rightarrow> account dbm" where
  "create_pending_account new_id now email password_hash =
     insert_account \<lparr>acc_id = new_id, acc_email = email, acc_status = PENDING, acc_role = USER,
       acc_password_hash = password_hash, acc_created_at = now, acc_updated_at = now\<rparr>"

definition activate_account :: "instant \<Rightarrow> uuid \<Rightarrow> account dbm" where
  "activate_account now user_id =
     transaction (bindM (lock_account user_id) (\<lambda>account.
       save_account now account (account\<lparr>acc_status := ACTIVE_ACCOUNT\<rparr>)))"

definition update_password_hash :: "instant \<Rightarrow> uuid \<Rightarrow> string \<Rightarrow> unit dbm" where
  "update_password_hash now user_id password_hash =
     transaction (bindM (lock_account user_id) (\<lambda>account.
       if 60 < length password_hash then throwM value_too_long
       else thenM (save_account now account (account\<lparr>acc_password_hash := password_hash\<rparr>))
              (returnM ())))"

section \<open>Sessions\<close>

definition session_by_id :: "uuid \<Rightarrow> db \<Rightarrow> session option" where
  "session_by_id session_id d = find (\<lambda>s. ses_id s = session_id) (sessions d)"

definition is_active_session_of :: "uuid \<Rightarrow> session \<Rightarrow> bool" where
  "is_active_session_of user_id s \<longleftrightarrow> ses_user_id s = user_id \<and> ses_revoked_at s = None"

definition mark_revoked :: "instant \<Rightarrow> revocation_reason \<Rightarrow> session \<Rightarrow> session" where
  "mark_revoked now reason s =
     s\<lparr>ses_revoked_at := Some now, ses_revocation_reason := Some reason\<rparr>"

definition revoke_active_sessions ::
  "instant \<Rightarrow> uuid \<Rightarrow> revocation_reason \<Rightarrow> uuid list dbm" where
  "revoke_active_sessions now user_id reason =
     bindM (getsM (\<lambda>d. filter (is_active_session_of user_id) (sessions d))) (\<lambda>active_sessions.
       thenM
         (modifyM (\<lambda>d. d\<lparr>sessions :=
            update_where (is_active_session_of user_id) (mark_revoked now reason) (sessions d)\<rparr>))
         (returnM (map ses_id active_sessions)))"

record session_input =
  si_refresh_token_hash :: string
  si_csrf_token_hash :: string
  si_expires_at :: instant

record session_result =
  sr_session :: session
  sr_refresh_token :: refresh_token
  sr_revoked_session_ids :: "uuid list"

definition create_exclusive_session ::
  "uuid \<Rightarrow> uuid \<Rightarrow> instant \<Rightarrow> uuid \<Rightarrow> session_input \<Rightarrow> session_result dbm" where
  "create_exclusive_session new_session_id new_token_id now user_id session_data =
     transaction
       (thenM (lock_account user_id)
          (bindM (revoke_active_sessions now user_id NEW_LOGIN) (\<lambda>revoked.
             bindM (insert_session
                 \<lparr>ses_id = new_session_id, ses_user_id = user_id,
                  ses_refresh_token_hash = si_refresh_token_hash session_data,
                  ses_csrf_token_hash = si_csrf_token_hash session_data,
                  ses_expires_at = si_expires_at session_data,
                  ses_revoked_at = None, ses_revocation_reason = None,
                  ses_created_at = now, ses_last_rotated_at = now\<rparr>) (\<lambda>session.
               bindM (insert_refresh_token
                   \<lparr>rt_id = new_token_id, rt_session_id = ses_id session,
                    rt_token_hash = si_refresh_token_hash session_data,
                    rt_issued_at = now, rt_used_at = None,
                    rt_expires_at = si_expires_at session_data\<rparr>) (\<lambda>token.
                 returnM \<lparr>sr_session = session, sr_refresh_token = token,
                          sr_revoked_session_ids = revoked\<rparr>)))))"

record rotate_input =
  ri_current_token_hash :: string
  ri_new_token_hash :: string
  ri_new_expires_at :: instant

definition session_not_active :: exn where
  "session_not_active = PlainErr ''Session is not active.''"

definition usable_token :: "uuid \<Rightarrow> string \<Rightarrow> db \<Rightarrow> refresh_token option" where
  "usable_token session_id token_hash d =
     find (\<lambda>t. rt_session_id t = session_id \<and> rt_token_hash t = token_hash \<and> rt_used_at t = None)
       (refresh_tokens d)"

definition rotate_locked ::
  "uuid \<Rightarrow> instant \<Rightarrow> uuid \<Rightarrow> rotate_input \<Rightarrow> session_result dbm" where
  "rotate_locked new_token_id now session_id input =
     bindM (getsM (session_by_id session_id)) (\<lambda>found.
       case found of
         None \<Rightarrow> throwM session_not_active
       | Some locked \<Rightarrow>
           if ses_revoked_at locked \<noteq> None then throwM session_not_active
           else if ses_refresh_token_hash locked \<noteq> ri_current_token_hash input
           then throwM (PlainErr ''Current refresh token does not match the session.'')
           else bindM (getsM (usable_token session_id (ri_current_token_hash input))) (\<lambda>current.
             case current of
               None \<Rightarrow> throwM (PlainErr ''Current refresh token is not usable.'')
             | Some token \<Rightarrow>
                 thenM (save_refresh_token (token\<lparr>rt_used_at := Some now\<rparr>))
                   (bindM (if 128 < length (ri_new_token_hash input) then throwM value_too_long
                       else save_session (locked\<lparr>ses_refresh_token_hash := ri_new_token_hash input,
                         ses_expires_at := ri_new_expires_at input, ses_last_rotated_at := now\<rparr>))
                     (\<lambda>saved.
                     bindM (insert_refresh_token
                         \<lparr>rt_id = new_token_id, rt_session_id = session_id,
                          rt_token_hash = ri_new_token_hash input,
                          rt_issued_at = now, rt_used_at = None,
                          rt_expires_at = ri_new_expires_at input\<rparr>) (\<lambda>fresh.
                       returnM \<lparr>sr_session = saved, sr_refresh_token = fresh,
                                sr_revoked_session_ids = []\<rparr>)))))"

definition rotate_refresh_token ::
  "uuid \<Rightarrow> instant \<Rightarrow> uuid \<Rightarrow> rotate_input \<Rightarrow> session_result dbm" where
  "rotate_refresh_token new_token_id now session_id input =
     transaction
       (bindM (getsM (session_by_id session_id)) (\<lambda>found.
          case found of
            None \<Rightarrow> throwM session_not_active
          | Some session \<Rightarrow>
              if ses_revoked_at session \<noteq> None then throwM session_not_active
              else thenM (lock_account (ses_user_id session))
                     (rotate_locked new_token_id now session_id input)))"

definition revoke_locked :: "instant \<Rightarrow> uuid \<Rightarrow> revocation_reason \<Rightarrow> unit dbm" where
  "revoke_locked now session_id reason =
     bindM (getsM (session_by_id session_id)) (\<lambda>found.
       case found of
         None \<Rightarrow> returnM ()
       | Some locked \<Rightarrow>
           if ses_revoked_at locked \<noteq> None then returnM ()
           else thenM (save_session (mark_revoked now reason locked)) (returnM ()))"

definition revoke_session :: "instant \<Rightarrow> uuid \<Rightarrow> revocation_reason \<Rightarrow> unit dbm" where
  "revoke_session now session_id reason =
     transaction
       (bindM (getsM (session_by_id session_id)) (\<lambda>found.
          case found of
            None \<Rightarrow> returnM ()
          | Some session \<Rightarrow>
              if ses_revoked_at session \<noteq> None then returnM ()
              else thenM (lock_account (ses_user_id session)) (revoke_locked now session_id reason)))"

definition revoke_all_sessions :: "instant \<Rightarrow> uuid \<Rightarrow> revocation_reason \<Rightarrow> uuid list dbm" where
  "revoke_all_sessions now user_id reason =
     transaction (thenM (lock_account user_id) (revoke_active_sessions now user_id reason))"

definition find_session_by_refresh_token_hash :: "string \<Rightarrow> session option dbm" where
  "find_session_by_refresh_token_hash h =
     getsM (\<lambda>d. find (\<lambda>s. ses_refresh_token_hash s = h) (sessions d))"

definition find_active_session_by_id :: "uuid \<Rightarrow> session option dbm" where
  "find_active_session_by_id session_id =
     getsM (\<lambda>d. find (\<lambda>s. ses_id s = session_id \<and> ses_revoked_at s = None) (sessions d))"

definition find_refresh_token_history_by_hash :: "string \<Rightarrow> refresh_token option dbm" where
  "find_refresh_token_history_by_hash h =
     getsM (\<lambda>d. find (\<lambda>t. rt_token_hash t = h) (refresh_tokens d))"

section \<open>Password reset tokens\<close>

definition mark_reset_tokens_used :: "instant \<Rightarrow> uuid \<Rightarrow> unit dbm" where
  "mark_reset_tokens_used now user_id =
     modifyM (\<lambda>d. d\<lparr>reset_tokens :=
       update_where (\<lambda>t. prt_user_id t = user_id \<and> prt_used_at t = None)
         (\<lambda>t. t\<lparr>prt_used_at := Some now\<rparr>) (reset_tokens d)\<rparr>)"

definition create_password_reset_token ::
  "uuid \<Rightarrow> instant \<Rightarrow> uuid \<Rightarrow> string \<Rightarrow> instant \<Rightarrow> reset_token dbm" where
  "create_password_reset_token new_id now user_id token_hash expires_at =
     transaction
       (thenM (lock_account user_id)
          (thenM (mark_reset_tokens_used now user_id)
             (insert_reset_token
                \<lparr>prt_id = new_id, prt_user_id = user_id, prt_token_hash = token_hash,
                 prt_expires_at = expires_at, prt_used_at = None, prt_created_at = now\<rparr>)))"

definition reset_token_by_hash :: "string \<Rightarrow> db \<Rightarrow> reset_token option" where
  "reset_token_by_hash h d = find (\<lambda>t. prt_token_hash t = h) (reset_tokens d)"

definition reset_token_usable :: "instant \<Rightarrow> reset_token option \<Rightarrow> bool" where
  "reset_token_usable now found =
     (case found of None \<Rightarrow> False
      | Some t \<Rightarrow> prt_used_at t = None \<and> now < prt_expires_at t)"

definition consume_locked :: "instant \<Rightarrow> string \<Rightarrow> reset_token option dbm" where
  "consume_locked now token_hash =
     bindM (getsM (reset_token_by_hash token_hash)) (\<lambda>found.
       case found of
         None \<Rightarrow> returnM None
       | Some locked \<Rightarrow>
           if \<not> reset_token_usable now found then returnM None
           else bindM (save_reset_token (locked\<lparr>prt_used_at := Some now\<rparr>)) (\<lambda>saved.
             returnM (Some saved)))"

definition consume_password_reset_token :: "instant \<Rightarrow> string \<Rightarrow> reset_token option dbm" where
  "consume_password_reset_token now token_hash =
     transaction
       (bindM (getsM (reset_token_by_hash token_hash)) (\<lambda>found.
          case found of
            None \<Rightarrow> returnM None
          | Some t \<Rightarrow>
              if \<not> reset_token_usable now found then returnM None
              else thenM (lock_account (prt_user_id t)) (consume_locked now token_hash)))"

definition invalidate_previous_reset_tokens :: "instant \<Rightarrow> uuid \<Rightarrow> unit dbm" where
  "invalidate_previous_reset_tokens now user_id =
     transaction (thenM (lock_account user_id) (mark_reset_tokens_used now user_id))"

end
