(* ===== verification/AuthInvariant.thy ===== *)
theory AuthInvariant
  imports AuthRepo
begin

text \<open>
  What the authentication tables keep under every interleaving of the repository's operations: the
  invariant \<open>auth_wf\<close>, and the order \<open>auth_le\<close> of what is never undone (a used token stays used, a
  revoked session stays as it is, an account stays and stays active).
\<close>

section \<open>The invariant\<close>

text \<open>
  Keys and references; one active session per account; every session has exactly one unused
  refresh token, the one whose hash it carries; at most one unused reset token per account.
\<close>

definition auth_keys :: "db \<Rightarrow> bool" where
  "auth_keys d \<longleftrightarrow>
     distinct (map acc_id (accounts d)) \<and> distinct (map acc_email (accounts d))
     \<and> distinct (map ses_id (sessions d))
     \<and> distinct (map rt_id (refresh_tokens d)) \<and> distinct (map rt_token_hash (refresh_tokens d))
     \<and> distinct (map prt_id (reset_tokens d))
     \<and> (\<forall>s \<in> set (sessions d). ses_user_id s \<in> acc_id ` set (accounts d))
     \<and> (\<forall>t \<in> set (refresh_tokens d). rt_session_id t \<in> ses_id ` set (sessions d))
     \<and> (\<forall>t \<in> set (reset_tokens d). prt_user_id t \<in> acc_id ` set (accounts d))"

definition exclusive_sessions :: "session list \<Rightarrow> bool" where
  "exclusive_sessions ss \<longleftrightarrow>
     (\<forall>s \<in> set ss. \<forall>s' \<in> set ss. ses_revoked_at s = None \<longrightarrow> ses_revoked_at s' = None \<longrightarrow>
        ses_user_id s = ses_user_id s' \<longrightarrow> s = s')
     \<and> (\<forall>s \<in> set ss. ses_revoked_at s = None \<longleftrightarrow> ses_revocation_reason s = None)"

definition current_token :: "session \<Rightarrow> refresh_token \<Rightarrow> bool" where
  "current_token s t \<longleftrightarrow> rt_session_id t = ses_id s \<and> rt_used_at t = None"

definition token_chain :: "session list \<Rightarrow> refresh_token list \<Rightarrow> bool" where
  "token_chain ss ts \<longleftrightarrow>
     (\<forall>s \<in> set ss. (\<exists>t \<in> set ts. current_token s t)
        \<and> (\<forall>t \<in> set ts. current_token s t \<longrightarrow>
             rt_token_hash t = ses_refresh_token_hash s \<and> rt_expires_at t = ses_expires_at s))"

definition exclusive_resets :: "reset_token list \<Rightarrow> bool" where
  "exclusive_resets ts \<longleftrightarrow>
     (\<forall>t \<in> set ts. \<forall>t' \<in> set ts. prt_used_at t = None \<longrightarrow> prt_used_at t' = None \<longrightarrow>
        prt_user_id t = prt_user_id t' \<longrightarrow> t = t')"

definition auth_wf :: "db \<Rightarrow> bool" where
  "auth_wf d \<longleftrightarrow> auth_keys d \<and> exclusive_sessions (sessions d)
     \<and> token_chain (sessions d) (refresh_tokens d) \<and> exclusive_resets (reset_tokens d)"

section \<open>What no operation undoes\<close>

definition rows_le :: "('r \<Rightarrow> 'r \<Rightarrow> bool) \<Rightarrow> 'r list \<Rightarrow> 'r list \<Rightarrow> bool" where
  "rows_le R xs ys \<longleftrightarrow> (\<forall>x \<in> set xs. \<exists>y \<in> set ys. R x y)"

definition account_le :: "account \<Rightarrow> account \<Rightarrow> bool" where
  "account_le a a' \<longleftrightarrow> acc_id a' = acc_id a \<and> acc_email a' = acc_email a
     \<and> (acc_status a = ACTIVE_ACCOUNT \<longrightarrow> acc_status a' = ACTIVE_ACCOUNT)"

definition session_le :: "session \<Rightarrow> session \<Rightarrow> bool" where
  "session_le s s' \<longleftrightarrow> ses_id s' = ses_id s \<and> ses_user_id s' = ses_user_id s
     \<and> ses_csrf_token_hash s' = ses_csrf_token_hash s
     \<and> (ses_revoked_at s \<noteq> None \<longrightarrow> s' = s)"

definition token_le :: "refresh_token \<Rightarrow> refresh_token \<Rightarrow> bool" where
  "token_le t t' \<longleftrightarrow> rt_id t' = rt_id t \<and> rt_session_id t' = rt_session_id t
     \<and> rt_token_hash t' = rt_token_hash t \<and> (rt_used_at t \<noteq> None \<longrightarrow> t' = t)"

definition reset_le :: "reset_token \<Rightarrow> reset_token \<Rightarrow> bool" where
  "reset_le t t' \<longleftrightarrow> prt_id t' = prt_id t \<and> prt_user_id t' = prt_user_id t
     \<and> prt_token_hash t' = prt_token_hash t \<and> (prt_used_at t \<noteq> None \<longrightarrow> t' = t)"

definition auth_le :: "db \<Rightarrow> db \<Rightarrow> bool" where
  "auth_le d d' \<longleftrightarrow> rows_le account_le (accounts d) (accounts d')
     \<and> rows_le session_le (sessions d) (sessions d')
     \<and> rows_le token_le (refresh_tokens d) (refresh_tokens d')
     \<and> rows_le reset_le (reset_tokens d) (reset_tokens d')"

lemmas row_le_defs = account_le_def session_le_def token_le_def reset_le_def

lemma rows_le_refl: "(\<And>x. R x x) \<Longrightarrow> rows_le R xs xs"
  by (auto simp: rows_le_def)

lemma rows_le_append: "(\<And>x. R x x) \<Longrightarrow> rows_le R xs (xs @ ys)"
  by (auto simp: rows_le_def)

lemma rows_le_extend: "rows_le R xs ys \<Longrightarrow> rows_le R xs (ys @ zs)"
  by (auto simp: rows_le_def)

lemma rows_le_update:
  "(\<And>x. R x x) \<Longrightarrow> (\<And>x. x \<in> set xs \<Longrightarrow> p x \<Longrightarrow> R x (f x)) \<Longrightarrow> rows_le R xs (update_where p f xs)"
proof -
  assume refl: "\<And>x. R x x" and step: "\<And>x. x \<in> set xs \<Longrightarrow> p x \<Longrightarrow> R x (f x)"
  have "R x (if p x then f x else x)" if "x \<in> set xs" for x
    using refl step [OF that] by simp
  then show ?thesis unfolding rows_le_def set_update_where by blast
qed

lemma rows_le_trans:
  "(\<And>x y z. R x y \<Longrightarrow> R y z \<Longrightarrow> R x z) \<Longrightarrow> rows_le R xs ys \<Longrightarrow> rows_le R ys zs \<Longrightarrow> rows_le R xs zs"
  unfolding rows_le_def by blast

lemma row_le_refl [simp]: "account_le a a" "session_le s s" "token_le t t" "reset_le p p"
  by (simp_all add: row_le_defs)

lemma auth_le_refl [simp]: "auth_le d d"
  unfolding auth_le_def by (intro conjI rows_le_refl row_le_refl)

lemma row_le_trans:
  "account_le a b \<Longrightarrow> account_le b c \<Longrightarrow> account_le a c"
  "session_le s s' \<Longrightarrow> session_le s' s'' \<Longrightarrow> session_le s s''"
  "token_le t t' \<Longrightarrow> token_le t' t'' \<Longrightarrow> token_le t t''"
  "reset_le p p' \<Longrightarrow> reset_le p' p'' \<Longrightarrow> reset_le p p''"
  by (auto simp: row_le_defs)

lemma auth_le_trans: "auth_le d d' \<Longrightarrow> auth_le d' d'' \<Longrightarrow> auth_le d d''"
  unfolding auth_le_def
  using rows_le_trans [of account_le] rows_le_trans [of session_le] rows_le_trans [of token_le]
    rows_le_trans [of reset_le] row_le_trans by meson

section \<open>Changes of the tables that keep the invariant\<close>

lemma active_unique:
  "exclusive_sessions ss \<Longrightarrow> s \<in> set ss \<Longrightarrow> s' \<in> set ss \<Longrightarrow> is_active_session_of u s \<Longrightarrow>
     is_active_session_of u s' \<Longrightarrow> s = s'"
  by (auto simp: exclusive_sessions_def is_active_session_of_def)

lemma length_filter_le_one:
  "distinct xs \<Longrightarrow> (\<And>x y. x \<in> set xs \<Longrightarrow> y \<in> set xs \<Longrightarrow> p x \<Longrightarrow> p y \<Longrightarrow> x = y) \<Longrightarrow>
     length (filter p xs) \<le> 1"
proof (induction xs)
  case (Cons x xs)
  show ?case
  proof (cases "p x")
    case True
    then have "filter p xs = []" using Cons.prems by (auto simp: filter_empty_conv)
    with True show ?thesis by simp
  next
    case False
    with Cons show ?thesis by auto
  qed
qed simp

lemma update_by_key:
  assumes "distinct (map k xs)" and "x \<in> set xs"
  shows "set (update_where (\<lambda>r. k r = k x) (\<lambda>_. y) xs) = insert y (set xs - {x})"
  using assms distinct_key_eq [OF assms(1)] by (auto simp: set_update_where image_iff)

lemma map_update_key: "k y = i \<Longrightarrow> map k (update_where (\<lambda>r. k r = i) (\<lambda>_. y) xs) = map k xs"
  by (auto simp: update_where_def)

lemma auth_wf_parts:
  "auth_wf d \<Longrightarrow> distinct (map ses_id (sessions d))"
  "auth_wf d \<Longrightarrow> distinct (map rt_id (refresh_tokens d))"
  "auth_wf d \<Longrightarrow> distinct (map rt_token_hash (refresh_tokens d))"
  "auth_wf d \<Longrightarrow> distinct (map prt_id (reset_tokens d))"
  "auth_wf d \<Longrightarrow> distinct (map acc_id (accounts d))"
  "auth_wf d \<Longrightarrow> distinct (map acc_email (accounts d))"
  "auth_wf d \<Longrightarrow> exclusive_sessions (sessions d)"
  "auth_wf d \<Longrightarrow> token_chain (sessions d) (refresh_tokens d)"
  "auth_wf d \<Longrightarrow> exclusive_resets (reset_tokens d)"
  "auth_wf d \<Longrightarrow> auth_keys d"
  by (simp_all add: auth_wf_def auth_keys_def)

lemma auth_le_I:
  "rows_le account_le (accounts d) (accounts d') \<Longrightarrow> rows_le session_le (sessions d) (sessions d') \<Longrightarrow>
   rows_le token_le (refresh_tokens d) (refresh_tokens d') \<Longrightarrow>
   rows_le reset_le (reset_tokens d) (reset_tokens d') \<Longrightarrow> auth_le d d'"
  by (simp add: auth_le_def)

lemmas rows_le_same [simp] =
  rows_le_refl [of account_le, OF row_le_refl(1)] rows_le_refl [of session_le, OF row_le_refl(2)]
  rows_le_refl [of token_le, OF row_le_refl(3)] rows_le_refl [of reset_le, OF row_le_refl(4)]

lemma auth_keys_sessions:
  assumes "auth_keys d" and "map ses_id ss = map ses_id (sessions d)"
    and "\<forall>s \<in> set ss. ses_user_id s \<in> acc_id ` set (accounts d)"
  shows "auth_keys (d\<lparr>sessions := ss\<rparr>)"
proof -
  have "ses_id ` set ss = ses_id ` set (sessions d)" using assms(2) by (metis set_map)
  with assms show ?thesis by (simp add: auth_keys_def)
qed

lemma revoke_where_wf:
  assumes "auth_wf d" and p: "\<And>s. s \<in> set (sessions d) \<Longrightarrow> p s \<Longrightarrow> ses_revoked_at s = None"
  shows "auth_wf (d\<lparr>sessions := update_where p (mark_revoked now r) (sessions d)\<rparr>)"
    and "auth_le d (d\<lparr>sessions := update_where p (mark_revoked now r) (sessions d)\<rparr>)"
proof -
  let ?ss = "update_where p (mark_revoked now r) (sessions d)"
  have ids: "map ses_id ?ss = map ses_id (sessions d)"
    by (rule map_update_where) (simp add: mark_revoked_def)
  have users: "\<forall>s \<in> set ?ss. ses_user_id s \<in> acc_id ` set (accounts d)"
    using assms(1) by (auto simp: auth_wf_def auth_keys_def set_update_where mark_revoked_def)
  have keys: "auth_keys (d\<lparr>sessions := ?ss\<rparr>)"
    by (rule auth_keys_sessions [OF auth_wf_parts(10) [OF assms(1)] ids users])
  have live: "x \<in> set (sessions d)" if "x \<in> set ?ss" "ses_revoked_at x = None" for x
    using that by (auto simp: set_update_where mark_revoked_def split: if_splits)
  have "ses_revoked_at x = None \<longleftrightarrow> ses_revocation_reason x = None" if "x \<in> set ?ss" for x
    using that auth_wf_parts(7) [OF assms(1)]
    by (auto simp: exclusive_sessions_def set_update_where mark_revoked_def)
  with live auth_wf_parts(7) [OF assms(1)] have "exclusive_sessions ?ss"
    unfolding exclusive_sessions_def by blast
  moreover have "token_chain ?ss (refresh_tokens d)"
    using assms(1) unfolding auth_wf_def token_chain_def current_token_def
    by (auto simp: set_update_where mark_revoked_def)
  ultimately show "auth_wf (d\<lparr>sessions := ?ss\<rparr>)"
    using assms(1) keys by (simp add: auth_wf_def)
  have "session_le x (mark_revoked now r x)" if "x \<in> set (sessions d)" "p x" for x
    using p [OF that] by (simp add: session_le_def mark_revoked_def)
  then show "auth_le d (d\<lparr>sessions := ?ss\<rparr>)"
    by (auto intro!: auth_le_I rows_le_update)
qed

lemma new_session_wf:
  assumes "auth_wf d" and "\<forall>x \<in> set (sessions d). \<not> is_active_session_of (ses_user_id s) x"
    and "ses_user_id s \<in> acc_id ` set (accounts d)"
    and "ses_id s \<notin> ses_id ` set (sessions d)"
    and "rt_id t \<notin> rt_id ` set (refresh_tokens d)"
    and "rt_token_hash t \<notin> rt_token_hash ` set (refresh_tokens d)"
    and "ses_revoked_at s = None" "ses_revocation_reason s = None"
    and "rt_session_id t = ses_id s" "rt_used_at t = None"
    and "rt_token_hash t = ses_refresh_token_hash s" "rt_expires_at t = ses_expires_at s"
  shows "auth_wf (d\<lparr>sessions := sessions d @ [s], refresh_tokens := refresh_tokens d @ [t]\<rparr>)"
    and "auth_le d (d\<lparr>sessions := sessions d @ [s], refresh_tokens := refresh_tokens d @ [t]\<rparr>)"
proof -
  have ref: "rt_session_id t' \<in> ses_id ` set (sessions d)" if "t' \<in> set (refresh_tokens d)" for t'
    using assms(1) that by (simp add: auth_wf_def auth_keys_def)
  have "auth_keys (d\<lparr>sessions := sessions d @ [s], refresh_tokens := refresh_tokens d @ [t]\<rparr>)"
    using assms unfolding auth_wf_def auth_keys_def by auto
  moreover have "exclusive_sessions (sessions d @ [s])"
    using assms unfolding auth_wf_def exclusive_sessions_def is_active_session_of_def by auto
  moreover have "token_chain (sessions d @ [s]) (refresh_tokens d @ [t])"
    using assms ref unfolding auth_wf_def token_chain_def current_token_def
    by (fastforce simp: image_iff)
  ultimately show "auth_wf (d\<lparr>sessions := sessions d @ [s], refresh_tokens := refresh_tokens d @ [t]\<rparr>)"
    using assms(1) by (simp add: auth_wf_def)
  show "auth_le d (d\<lparr>sessions := sessions d @ [s], refresh_tokens := refresh_tokens d @ [t]\<rparr>)"
    by (auto intro!: auth_le_I rows_le_append)
qed

text \<open>A rotation: the used token, the session with the next hash, the next token.\<close>

definition rotated_session :: "instant \<Rightarrow> rotate_input \<Rightarrow> session \<Rightarrow> session" where
  "rotated_session now input s =
     s\<lparr>ses_refresh_token_hash := ri_new_token_hash input,
       ses_expires_at := ri_new_expires_at input, ses_last_rotated_at := now\<rparr>"

definition rotated_db :: "uuid \<Rightarrow> instant \<Rightarrow> rotate_input \<Rightarrow> session \<Rightarrow> refresh_token \<Rightarrow> db \<Rightarrow> db" where
  "rotated_db new_token_id now input s t d =
     d\<lparr>sessions := update_where (\<lambda>r. ses_id r = ses_id s) (\<lambda>_. rotated_session now input s) (sessions d),
       refresh_tokens :=
         update_where (\<lambda>r. rt_id r = rt_id t) (\<lambda>_. t\<lparr>rt_used_at := Some now\<rparr>) (refresh_tokens d)
         @ [\<lparr>rt_id = new_token_id, rt_session_id = ses_id s, rt_token_hash = ri_new_token_hash input,
             rt_issued_at = now, rt_used_at = None, rt_expires_at = ri_new_expires_at input\<rparr>]\<rparr>"

lemma rotated_wf:
  assumes "auth_wf d" and s: "s \<in> set (sessions d)" "ses_revoked_at s = None"
    and t: "t \<in> set (refresh_tokens d)" "current_token s t"
    and fresh: "i \<notin> rt_id ` set (refresh_tokens d)"
      "ri_new_token_hash input \<notin> rt_token_hash ` set (refresh_tokens d)"
  shows "auth_wf (rotated_db i now input s t d)" and "auth_le d (rotated_db i now input s t d)"
proof -
  let ?s = "rotated_session now input s"
  let ?t = "t\<lparr>rt_used_at := Some now\<rparr>"
  let ?n = "\<lparr>rt_id = i, rt_session_id = ses_id s, rt_token_hash = ri_new_token_hash input,
             rt_issued_at = now, rt_used_at = None, rt_expires_at = ri_new_expires_at input\<rparr>"
  let ?ss = "update_where (\<lambda>r. ses_id r = ses_id s) (\<lambda>_. ?s) (sessions d)"
  let ?ts = "update_where (\<lambda>r. rt_id r = rt_id t) (\<lambda>_. ?t) (refresh_tokens d)"
  note wf = auth_wf_parts [OF assms(1)]
  have sets: "set ?ss = insert ?s (set (sessions d) - {s})"
    "set ?ts = insert ?t (set (refresh_tokens d) - {t})"
    using update_by_key [OF wf(1) s(1)] update_by_key [OF wf(2) t(1)] by auto
  have same: "ses_id ?s = ses_id s" "ses_user_id ?s = ses_user_id s"
    "ses_revoked_at ?s = ses_revoked_at s" "ses_revocation_reason ?s = ses_revocation_reason s"
    "ses_csrf_token_hash ?s = ses_csrf_token_hash s"
    by (simp_all add: rotated_session_def)
  have ids: "map ses_id ?ss = map ses_id (sessions d)" "map rt_id ?ts = map rt_id (refresh_tokens d)"
    by (rule map_update_key, simp add: same)+
  have hashes: "map rt_token_hash ?ts = map rt_token_hash (refresh_tokens d)"
    using distinct_key_eq [OF wf(2)] t(1) by (auto simp: update_where_def)
  have idset: "ses_id ` set ?ss = ses_id ` set (sessions d)"
    "rt_id ` set ?ts = rt_id ` set (refresh_tokens d)"
    "rt_token_hash ` set ?ts = rt_token_hash ` set (refresh_tokens d)"
    using arg_cong [OF ids(1), of set] arg_cong [OF ids(2), of set] arg_cong [OF hashes, of set]
    by auto
  have keys: "auth_keys (rotated_db i now input s t d)"
    using assms(1) s t fresh unfolding auth_wf_def auth_keys_def rotated_db_def
    by (simp add: ids hashes idset sets(1) del: set_map) (auto simp: sets same)
  have ex: "exclusive_sessions ?ss"
    using wf(7) s unfolding exclusive_sessions_def sets by (auto simp: same)
  have only: "t' = t" if "t' \<in> set (refresh_tokens d)" "current_token s t'" for t'
  proof -
    have "rt_token_hash t' = rt_token_hash t"
      using wf(8) s(1) t that unfolding token_chain_def by metis
    with distinct_key_eq [OF wf(3) that(1) t(1)] show ?thesis by simp
  qed
  have chain: "token_chain ?ss (?ts @ [?n])"
    unfolding token_chain_def
  proof (intro ballI)
    fix x assume "x \<in> set ?ss"
    then consider "x = ?s" | "x \<in> set (sessions d)" "x \<noteq> s" by (auto simp: sets)
    then show "(\<exists>t \<in> set (?ts @ [?n]). current_token x t)
        \<and> (\<forall>t \<in> set (?ts @ [?n]). current_token x t \<longrightarrow>
             rt_token_hash t = ses_refresh_token_hash x \<and> rt_expires_at t = ses_expires_at x)"
    proof cases
      case 1
      have "current_token ?s t' \<longleftrightarrow> current_token s t'" for t'
        by (simp add: current_token_def same)
      with 1 only show ?thesis
        by (auto simp: sets current_token_def same rotated_session_def)
    next
      case 2
      then have ne: "ses_id x \<noteq> ses_id s" using distinct_key_eq [OF wf(1)] s(1) by blast
      then have no: "\<not> current_token x t" "\<not> current_token x ?t" "\<not> current_token x ?n"
        using t(2) by (auto simp: current_token_def)
      obtain y where y: "y \<in> set (refresh_tokens d)" "current_token x y"
        using wf(8) 2(1) unfolding token_chain_def by blast
      with no have "y \<in> set (?ts @ [?n])" by (auto simp: sets)
      with y no wf(8) 2(1) show ?thesis
        unfolding token_chain_def by (auto simp: sets)
    qed
  qed
  show "auth_wf (rotated_db i now input s t d)"
    using keys ex chain wf(9) by (simp add: auth_wf_def rotated_db_def)
  have "x = s" if "x \<in> set (sessions d)" "ses_id x = ses_id s" for x
    using distinct_key_eq [OF wf(1) that(1) s(1)] that(2) by simp
  then have "rows_le session_le (sessions d) ?ss"
    using s(2) by (intro rows_le_update) (fastforce simp: session_le_def same)+
  moreover have "rows_le token_le (refresh_tokens d) (?ts @ [?n])"
  proof -
    have "x = t" if "x \<in> set (refresh_tokens d)" "rt_id x = rt_id t" for x
      using distinct_key_eq [OF wf(2) that(1) t(1)] that(2) by simp
    then have "rows_le token_le (refresh_tokens d) ?ts"
      using t(2) by (intro rows_le_update) (fastforce simp: token_le_def current_token_def)+
    then show ?thesis by (rule rows_le_extend)
  qed
  ultimately show "auth_le d (rotated_db i now input s t d)"
    by (simp add: auth_le_def rotated_db_def)
qed

text \<open>Accounts: a new row, or one row replaced by a later state of it.\<close>

lemma new_account_wf:
  assumes "auth_wf d" and "acc_id a \<notin> acc_id ` set (accounts d)"
    and "acc_email a \<notin> acc_email ` set (accounts d)"
  shows "auth_wf (d\<lparr>accounts := accounts d @ [a]\<rparr>)" and "auth_le d (d\<lparr>accounts := accounts d @ [a]\<rparr>)"
  using assms by (auto simp: auth_wf_def auth_keys_def intro!: auth_le_I rows_le_append)

lemma edit_account_wf:
  assumes "auth_wf d" and a: "a \<in> set (accounts d)" and le: "account_le a a'"
  shows "auth_wf (d\<lparr>accounts := update_where (\<lambda>r. acc_id r = acc_id a) (\<lambda>_. a') (accounts d)\<rparr>)"
    and "auth_le d (d\<lparr>accounts := update_where (\<lambda>r. acc_id r = acc_id a) (\<lambda>_. a') (accounts d)\<rparr>)"
proof -
  let ?as = "update_where (\<lambda>r. acc_id r = acc_id a) (\<lambda>_. a') (accounts d)"
  note wf = auth_wf_parts [OF assms(1)]
  have same: "acc_id a' = acc_id a" "acc_email a' = acc_email a" using le by (auto simp: account_le_def)
  have only: "x = a" if "x \<in> set (accounts d)" "acc_id x = acc_id a" for x
    using distinct_key_eq [OF wf(5) that(1) a] that(2) by simp
  have maps: "map acc_id ?as = map acc_id (accounts d)"
    "map acc_email ?as = map acc_email (accounts d)"
    using only by (auto simp: update_where_def same)
  have "acc_id ` set ?as = acc_id ` set (accounts d)" using maps(1) by (metis set_map)
  with wf(10) maps have "auth_keys (d\<lparr>accounts := ?as\<rparr>)" by (simp add: auth_keys_def)
  with wf show "auth_wf (d\<lparr>accounts := ?as\<rparr>)" by (simp add: auth_wf_def)
  have "account_le x a'" if "x \<in> set (accounts d)" "acc_id x = acc_id a" for x
    using le only [OF that] by simp
  then show "auth_le d (d\<lparr>accounts := ?as\<rparr>)"
    by (auto intro!: auth_le_I rows_le_update)
qed

text \<open>Reset tokens: unused ones marked used, or a new one where none is unused.\<close>

definition spend :: "instant \<Rightarrow> reset_token \<Rightarrow> reset_token" where
  "spend now t = t\<lparr>prt_used_at := Some now\<rparr>"

lemma spend_where_wf:
  assumes "auth_wf d" and p: "\<And>t. t \<in> set (reset_tokens d) \<Longrightarrow> p t \<Longrightarrow> prt_used_at t = None"
  shows "auth_wf (d\<lparr>reset_tokens := update_where p (spend now) (reset_tokens d)\<rparr>)"
    and "auth_le d (d\<lparr>reset_tokens := update_where p (spend now) (reset_tokens d)\<rparr>)"
proof -
  let ?ts = "update_where p (spend now) (reset_tokens d)"
  note wf = auth_wf_parts [OF assms(1)]
  have ids: "map prt_id ?ts = map prt_id (reset_tokens d)"
    by (rule map_update_where) (simp add: spend_def)
  have "prt_user_id t \<in> acc_id ` set (accounts d)" if "t \<in> set ?ts" for t
    using that wf(10) by (auto simp: auth_keys_def set_update_where spend_def)
  with ids wf(10) have keys: "auth_keys (d\<lparr>reset_tokens := ?ts\<rparr>)"
    by (simp add: auth_keys_def)
  have "x \<in> set (reset_tokens d)" if "x \<in> set ?ts" "prt_used_at x = None" for x
    using that by (auto simp: set_update_where spend_def split: if_splits)
  with wf(9) have "exclusive_resets ?ts" unfolding exclusive_resets_def by blast
  with keys wf show "auth_wf (d\<lparr>reset_tokens := ?ts\<rparr>)" by (simp add: auth_wf_def)
  have "reset_le x (spend now x)" if "x \<in> set (reset_tokens d)" "p x" for x
    using p [OF that] by (simp add: reset_le_def spend_def)
  then show "auth_le d (d\<lparr>reset_tokens := ?ts\<rparr>)"
    by (auto intro!: auth_le_I rows_le_update)
qed

lemma new_reset_wf:
  assumes "auth_wf d" and "prt_id t \<notin> prt_id ` set (reset_tokens d)"
    and "prt_user_id t \<in> acc_id ` set (accounts d)"
    and "\<And>x. x \<in> set (reset_tokens d) \<Longrightarrow> prt_user_id x = prt_user_id t \<Longrightarrow> prt_used_at x \<noteq> None"
  shows "auth_wf (d\<lparr>reset_tokens := reset_tokens d @ [t]\<rparr>)"
    and "auth_le d (d\<lparr>reset_tokens := reset_tokens d @ [t]\<rparr>)"
proof -
  have "exclusive_resets (reset_tokens d @ [t])"
    using assms(4) auth_wf_parts(9) [OF assms(1)] unfolding exclusive_resets_def by fastforce
  then show "auth_wf (d\<lparr>reset_tokens := reset_tokens d @ [t]\<rparr>)"
    using assms(1-3) by (auto simp: auth_wf_def auth_keys_def)
  show "auth_le d (d\<lparr>reset_tokens := reset_tokens d @ [t]\<rparr>)"
    by (auto intro!: auth_le_I rows_le_append)
qed

end
