(* ===== verification/AuthHistory.thy ===== *)
theory AuthHistory
  imports AuthInvariant
begin

text \<open>
  Every operation of the authentication repository keeps the invariant and undoes nothing, also
  when the part of it that follows the lock runs on tables another transaction changed since its
  first read. The histories of the database under any interleaving of these operations.
\<close>

definition auth_safe :: "'a dbm \<Rightarrow> bool" where
  "auth_safe m \<longleftrightarrow> (\<forall>d r d'. auth_wf d \<longrightarrow> m d = (r, d') \<longrightarrow> auth_wf d' \<and> auth_le d d')"

lemma auth_safeI: "(\<And>d. auth_wf d \<Longrightarrow> wp m (\<lambda>r d'. auth_wf d' \<and> auth_le d d') d) \<Longrightarrow> auth_safe m"
  unfolding auth_safe_def wp_def by fastforce

lemma auth_safeD: "auth_safe m \<Longrightarrow> auth_wf d \<Longrightarrow> m d = (r, d') \<Longrightarrow> auth_wf d' \<and> auth_le d d'"
  unfolding auth_safe_def by blast

lemma update_row_eq:
  assumes "distinct (map k xs)" and "x \<in> set xs"
  shows "update_where (\<lambda>r. k r = k x) (\<lambda>_. f x) xs = update_where (\<lambda>r. k r = k x) f xs"
  using assms distinct_key_eq [OF assms(1) _ assms(2)] by (auto simp: update_where_def)

lemma account_by_id_SomeD: "account_by_id u d = Some a \<Longrightarrow> a \<in> set (accounts d) \<and> acc_id a = u"
  unfolding account_by_id_def by (auto dest: find_SomeD)

lemma session_by_id_SomeD: "session_by_id i d = Some s \<Longrightarrow> s \<in> set (sessions d) \<and> ses_id s = i"
  unfolding session_by_id_def by (auto dest: find_SomeD)

lemma reset_token_by_hash_SomeD:
  "reset_token_by_hash h d = Some t \<Longrightarrow> t \<in> set (reset_tokens d) \<and> prt_token_hash t = h"
  unfolding reset_token_by_hash_def by (auto dest: find_SomeD)

lemma locked_safe:
  assumes "\<And>d a. auth_wf d \<Longrightarrow> a \<in> set (accounts d) \<Longrightarrow> acc_id a = u \<Longrightarrow>
    wp (f a) (\<lambda>r d'. auth_wf d' \<and> auth_le d d') d"
  shows "auth_safe (transaction (bindM (lock_account u) f))"
proof (rule auth_safeI)
  fix d assume wf: "auth_wf d"
  show "wp (transaction (bindM (lock_account u) f)) (\<lambda>r d'. auth_wf d' \<and> auth_le d d') d"
  proof (cases "account_by_id u d")
    case None
    with wf show ?thesis by (simp add: wp_simps)
  next
    case (Some a)
    obtain r d' where run: "f a d = (r, d')" by force
    have "auth_wf d' \<and> auth_le d d'"
      using wp_run [OF assms [OF wf] run] account_by_id_SomeD [OF Some] by blast
    with wf Some run show ?thesis
      by (cases r) (simp_all add: wp_def transaction_def lock_account_def run_simps)
  qed
qed

section \<open>Accounts\<close>

lemma insert_account_safe: "auth_safe (insert_account a)"
  by (rule auth_safeI) (auto simp: wp_def insert_account_def dest: new_account_wf)

lemma save_account_wp:
  assumes "auth_wf d" and "a \<in> set (accounts d)"
    and "account_le a edited"
  shows "wp (save_account now a edited) (\<lambda>r d'. auth_wf d' \<and> auth_le d d') d"
proof -
  have "account_le a (edited\<lparr>acc_updated_at := now\<rparr>)" using assms(3) by (simp add: account_le_def)
  from edit_account_wf [OF assms(1,2) this] assms(1) show ?thesis
    by (simp add: save_account_def wp_simps)
qed

lemma create_pending_account_safe: "auth_safe (create_pending_account i now e h)"
  unfolding create_pending_account_def by (rule insert_account_safe)

lemma activate_account_safe: "auth_safe (activate_account now u)"
proof -
  have "account_le a (a\<lparr>acc_status := ACTIVE_ACCOUNT\<rparr>)" for a by (simp add: account_le_def)
  then show ?thesis
    unfolding activate_account_def by (intro locked_safe save_account_wp)
qed

lemma update_password_hash_safe: "auth_safe (update_password_hash now u h)"
proof -
  have "account_le a (a\<lparr>acc_password_hash := h\<rparr>)" for a by (simp add: account_le_def)
  then have "wp (if 60 < length h then throwM value_too_long
      else thenM (save_account now a (a\<lparr>acc_password_hash := h\<rparr>)) (returnM ()))
      (\<lambda>r d'. auth_wf d' \<and> auth_le d d') d" if "auth_wf d" "a \<in> set (accounts d)" for a d
    using save_account_wp [OF that, of "a\<lparr>acc_password_hash := h\<rparr>" now] that
    by (auto simp: wp_def run_simps split: prod.splits sum.splits)
  then show ?thesis
    unfolding update_password_hash_def by (intro locked_safe)
qed

section \<open>Sessions\<close>

definition revoked_db :: "instant \<Rightarrow> uuid \<Rightarrow> revocation_reason \<Rightarrow> db \<Rightarrow> db" where
  "revoked_db now u reason d =
     d\<lparr>sessions := update_where (is_active_session_of u) (mark_revoked now reason) (sessions d)\<rparr>"

lemma revoke_active_sessions_run:
  "revoke_active_sessions now u reason d =
     (Inr (map ses_id (filter (is_active_session_of u) (sessions d))), revoked_db now u reason d)"
  by (simp add: revoke_active_sessions_def run_simps revoked_db_def)

lemma revoked_db_wf:
  assumes "auth_wf d"
  shows "auth_wf (revoked_db now u reason d)" "auth_le d (revoked_db now u reason d)"
    "\<forall>s \<in> set (sessions (revoked_db now u reason d)). \<not> is_active_session_of u s"
proof -
  have live: "ses_revoked_at s = None" if "is_active_session_of u s" for s
    using that by (simp add: is_active_session_of_def)
  show "auth_wf (revoked_db now u reason d)" "auth_le d (revoked_db now u reason d)"
    unfolding revoked_db_def by (intro revoke_where_wf assms live; assumption)+
  have dead: "\<not> is_active_session_of u (mark_revoked now reason s)" for s
    by (simp add: is_active_session_of_def mark_revoked_def)
  show "\<forall>s \<in> set (sessions (revoked_db now u reason d)). \<not> is_active_session_of u s"
    unfolding revoked_db_def using dead by (auto simp: set_update_where)
qed

lemma revoked_db_frame [simp]:
  "accounts (revoked_db now u reason d) = accounts d"
  "refresh_tokens (revoked_db now u reason d) = refresh_tokens d"
  "reset_tokens (revoked_db now u reason d) = reset_tokens d"
  by (simp_all add: revoked_db_def)

lemma revoke_all_sessions_safe: "auth_safe (revoke_all_sessions now u reason)"
  unfolding revoke_all_sessions_def thenM_def
  by (rule locked_safe) (auto simp: wp_def revoke_active_sessions_run intro: revoked_db_wf)

lemma create_exclusive_session_wp:
  assumes wf: "auth_wf d"
  shows "wp (create_exclusive_session i j now u inp)
    (\<lambda>r d'. auth_wf d' \<and> auth_le d d' \<and> (case r of
        Inl e \<Rightarrow> d' = d
      | Inr res \<Rightarrow>
          (\<exists>a \<in> set (accounts d). acc_id a = u)
          \<and> sr_session res = \<lparr>ses_id = i, ses_user_id = u,
              ses_refresh_token_hash = si_refresh_token_hash inp,
              ses_csrf_token_hash = si_csrf_token_hash inp, ses_expires_at = si_expires_at inp,
              ses_revoked_at = None, ses_revocation_reason = None,
              ses_created_at = now, ses_last_rotated_at = now\<rparr>
          \<and> sr_revoked_session_ids res = map ses_id (filter (is_active_session_of u) (sessions d))
          \<and> sessions d' = sessions (revoked_db now u NEW_LOGIN d) @ [sr_session res]
          \<and> i \<notin> ses_id ` set (sessions d)
          \<and> accounts d' = accounts d)) d"
proof (cases "account_by_id u d")
  case None
  with wf show ?thesis by (simp add: create_exclusive_session_def wp_simps)
next
  case (Some a)
  then have a: "a \<in> set (accounts d)" "acc_id a = u" by (auto dest: account_by_id_SomeD)
  have ids: "ses_id ` set (sessions (revoked_db now u NEW_LOGIN d)) = ses_id ` set (sessions d)"
  proof -
    have "map ses_id (sessions (revoked_db now u NEW_LOGIN d)) = map ses_id (sessions d)"
      unfolding revoked_db_def by (simp add: map_update_where mark_revoked_def)
    then show ?thesis by (metis set_map)
  qed
  let ?d = "revoked_db now u NEW_LOGIN d"
  let ?s = "\<lparr>ses_id = i, ses_user_id = u,
              ses_refresh_token_hash = si_refresh_token_hash inp,
              ses_csrf_token_hash = si_csrf_token_hash inp, ses_expires_at = si_expires_at inp,
              ses_revoked_at = None, ses_revocation_reason = None,
              ses_created_at = now, ses_last_rotated_at = now\<rparr>"
  let ?t = "\<lparr>rt_id = j, rt_session_id = i, rt_token_hash = si_refresh_token_hash inp,
                    rt_issued_at = now, rt_used_at = None,
                    rt_expires_at = si_expires_at inp\<rparr>"
  note r = revoked_db_wf [OF wf, where now = now and u = u and reason = NEW_LOGIN]
  have new: "auth_wf (?d\<lparr>sessions := sessions ?d @ [?s], refresh_tokens := refresh_tokens ?d @ [?t]\<rparr>)
      \<and> auth_le d (?d\<lparr>sessions := sessions ?d @ [?s], refresh_tokens := refresh_tokens ?d @ [?t]\<rparr>)"
    if "i \<notin> ses_id ` set (sessions ?d)" "j \<notin> rt_id ` set (refresh_tokens d)"
      "si_refresh_token_hash inp \<notin> rt_token_hash ` set (refresh_tokens d)"
    using new_session_wf [OF r(1), of ?s ?t] that a r(3) auth_le_trans [OF r(2)] by fastforce
  show ?thesis
    using Some wf new a ids
    by (auto simp: create_exclusive_session_def wp_def transaction_def thenM_def lock_account_def
        run_simps revoke_active_sessions_run insert_session_def insert_refresh_token_def)
qed

lemma create_exclusive_session_safe: "auth_safe (create_exclusive_session i j now u inp)"
  by (rule auth_safeI) (blast intro: wp_mono [OF create_exclusive_session_wp])

lemma usable_token_SomeD:
  "usable_token i h d = Some t \<Longrightarrow>
     t \<in> set (refresh_tokens d) \<and> rt_session_id t = i \<and> rt_token_hash t = h \<and> rt_used_at t = None"
  unfolding usable_token_def by (auto dest: find_SomeD)

lemma rotate_locked_cases:
  assumes wf: "auth_wf d" and run: "rotate_locked j now i inp d = (Inr res, d')"
  obtains s t where "session_by_id i d = Some s" "ses_revoked_at s = None"
    "ses_refresh_token_hash s = ri_current_token_hash inp"
    "usable_token i (ri_current_token_hash inp) d = Some t"
    "j \<notin> rt_id ` set (refresh_tokens d)"
    "ri_new_token_hash inp \<notin> rt_token_hash ` set (refresh_tokens d)"
    "d' = rotated_db j now inp s t d" "sr_session res = rotated_session now inp s"
proof -
  from run obtain s t where st: "session_by_id i d = Some s" "ses_revoked_at s = None"
    "ses_refresh_token_hash s = ri_current_token_hash inp"
    "usable_token i (ri_current_token_hash inp) d = Some t"
    by (auto simp: rotate_locked_def run_simps split: option.splits if_splits)
  let ?ts = "update_where (\<lambda>r. rt_id r = rt_id t) (\<lambda>_. t\<lparr>rt_used_at := Some now\<rparr>) (refresh_tokens d)"
  have s: "s \<in> set (sessions d)" "ses_id s = i" using session_by_id_SomeD [OF st(1)] by auto
  have t: "t \<in> set (refresh_tokens d)" using usable_token_SomeD [OF st(4)] by simp
  have "map rt_token_hash ?ts = map rt_token_hash (refresh_tokens d)"
    using distinct_key_eq [OF auth_wf_parts(2) [OF wf]] t by (auto simp: update_where_def)
  then have hashes: "rt_token_hash ` set ?ts = rt_token_hash ` set (refresh_tokens d)"
    by (metis set_map)
  have "map rt_id ?ts = map rt_id (refresh_tokens d)" by (rule map_update_key) simp
  then have ids: "rt_id ` set ?ts = rt_id ` set (refresh_tokens d)" by (metis set_map)
  from run st s have "j \<notin> rt_id ` set ?ts" "ri_new_token_hash inp \<notin> rt_token_hash ` set ?ts"
    "d' = rotated_db j now inp s t d" "sr_session res = rotated_session now inp s"
    by (auto simp: rotate_locked_def run_simps save_refresh_token_def save_session_def
        insert_refresh_token_def rotated_db_def rotated_session_def split: if_splits)
  with that st show thesis unfolding hashes ids by blast
qed

lemma rotate_locked_safe:
  assumes "auth_wf d" and "rotate_locked j now i inp d = (Inr res, d')"
  shows "auth_wf d' \<and> auth_le d d'"
proof -
  from rotate_locked_cases [OF assms] obtain s t where
    st: "session_by_id i d = Some s" "ses_revoked_at s = None"
      "usable_token i (ri_current_token_hash inp) d = Some t"
      "j \<notin> rt_id ` set (refresh_tokens d)"
      "ri_new_token_hash inp \<notin> rt_token_hash ` set (refresh_tokens d)"
      "d' = rotated_db j now inp s t d" by metis
  have "current_token s t"
    using session_by_id_SomeD [OF st(1)] usable_token_SomeD [OF st(3)] by (simp add: current_token_def)
  with rotated_wf [OF assms(1) _ st(2) _ _ st(4,5)] session_by_id_SomeD [OF st(1)]
    usable_token_SomeD [OF st(3)] st(6)
  show ?thesis by blast
qed

lemma transaction_safe:
  assumes "\<And>d x d'. auth_wf d \<Longrightarrow> m d = (Inr x, d') \<Longrightarrow> auth_wf d' \<and> auth_le d d'"
  shows "auth_safe (transaction m)"
  unfolding auth_safe_def transaction_def
  using assms by (fastforce split: prod.splits sum.splits)

lemma lock_then_run:
  "thenM (lock_account u) m d = (Inr x, d') \<Longrightarrow> m d = (Inr x, d')"
  by (auto simp: lock_account_def run_simps split: option.splits)

lemma rotate_refresh_token_safe: "auth_safe (rotate_refresh_token j now i inp)"
  unfolding rotate_refresh_token_def
proof (rule transaction_safe)
  fix d x d'
  assume wf: "auth_wf d"
    and run: "bindM (getsM (session_by_id i)) (\<lambda>found. case found of
       None \<Rightarrow> throwM session_not_active
     | Some session \<Rightarrow> if ses_revoked_at session \<noteq> None then throwM session_not_active
         else thenM (lock_account (ses_user_id session)) (rotate_locked j now i inp)) d = (Inr x, d')"
  from run obtain u where "thenM (lock_account u) (rotate_locked j now i inp) d = (Inr x, d')"
    by (auto simp: bindM_def getsM_def throwM_def split: option.splits if_splits)
  note lock_then_run [OF this]
  from rotate_locked_safe [OF wf this] show "auth_wf d' \<and> auth_le d d'" .
qed

lemma revoke_locked_run:
  assumes "auth_wf d"
  shows "revoke_locked now i reason d = (Inr (), d\<lparr>sessions :=
    update_where (\<lambda>s. ses_id s = i \<and> ses_revoked_at s = None) (mark_revoked now reason) (sessions d)\<rparr>)"
proof (cases "session_by_id i d")
  case None
  then have none: "ses_id s \<noteq> i" if "s \<in> set (sessions d)" for s
    using that unfolding session_by_id_def by (auto dest: find_NoneD)
  then have "update_where (\<lambda>s. ses_id s = i \<and> ses_revoked_at s = None) (mark_revoked now reason)
      (sessions d) = sessions d"
    by (auto simp: update_where_def intro: map_idI)
  with None show ?thesis by (simp add: revoke_locked_def run_simps)
next
  case (Some s)
  then have s: "s \<in> set (sessions d)" "ses_id s = i" by (auto dest: session_by_id_SomeD)
  have only: "x = s" if "x \<in> set (sessions d)" "ses_id x = i" for x
    using distinct_key_eq [OF auth_wf_parts(1) [OF assms] that(1) s(1)] that(2) s(2) by simp
  show ?thesis
  proof (cases "ses_revoked_at s")
    case None
    have "update_where (\<lambda>s. ses_id s = i \<and> ses_revoked_at s = None) (mark_revoked now reason)
        (sessions d) = update_where (\<lambda>r. ses_id r = i) (\<lambda>_. mark_revoked now reason s) (sessions d)"
      using only None by (auto simp: update_where_def)
    with Some None s show ?thesis
      by (simp add: revoke_locked_def run_simps save_session_def mark_revoked_def)
  next
    case (Some y)
    have "update_where (\<lambda>s. ses_id s = i \<and> ses_revoked_at s = None) (mark_revoked now reason)
        (sessions d) = sessions d"
      using only Some by (auto simp: update_where_def intro!: map_idI)
    with \<open>session_by_id i d = Some s\<close> Some show ?thesis by (simp add: revoke_locked_def run_simps)
  qed
qed

lemma revoke_locked_safe:
  assumes "auth_wf d" and "revoke_locked now i reason d = (r, d')"
  shows "auth_wf d' \<and> auth_le d d'"
  using assms revoke_where_wf [OF assms(1), of "\<lambda>s. ses_id s = i \<and> ses_revoked_at s = None"]
  by (auto simp: revoke_locked_run)

lemma revoke_session_safe: "auth_safe (revoke_session now i reason)"
  unfolding revoke_session_def
proof (rule transaction_safe)
  fix d x d'
  assume wf: "auth_wf d"
    and run: "bindM (getsM (session_by_id i)) (\<lambda>found. case found of
       None \<Rightarrow> returnM ()
     | Some session \<Rightarrow> if ses_revoked_at session \<noteq> None then returnM ()
         else thenM (lock_account (ses_user_id session)) (revoke_locked now i reason)) d = (Inr x, d')"
  from run have "d' = d \<or> (\<exists>u. thenM (lock_account u) (revoke_locked now i reason) d = (Inr x, d'))"
    by (auto simp: bindM_def getsM_def returnM_def split: option.splits if_splits)
  then show "auth_wf d' \<and> auth_le d d'"
    using wf revoke_locked_safe [OF wf] lock_then_run by (metis auth_le_refl)
qed

section \<open>Reset tokens\<close>

lemma mark_reset_tokens_used_run:
  "mark_reset_tokens_used now u d = (Inr (), d\<lparr>reset_tokens :=
     update_where (\<lambda>t. prt_user_id t = u \<and> prt_used_at t = None) (spend now) (reset_tokens d)\<rparr>)"
  by (simp add: mark_reset_tokens_used_def modifyM_def spend_def [abs_def])

lemma mark_reset_tokens_used_wf:
  assumes "auth_wf d" and "mark_reset_tokens_used now u d = (r, d')"
  shows "auth_wf d'" "auth_le d d'"
    "\<And>t. t \<in> set (reset_tokens d') \<Longrightarrow> prt_user_id t = u \<Longrightarrow> prt_used_at t \<noteq> None"
proof -
  let ?p = "\<lambda>t. prt_user_id t = u \<and> prt_used_at t = None"
  have d': "d' = d\<lparr>reset_tokens := update_where ?p (spend now) (reset_tokens d)\<rparr>"
    using assms(2) by (simp add: mark_reset_tokens_used_run)
  show "auth_wf d'" "auth_le d d'"
    unfolding d' by (rule spend_where_wf [OF assms(1)], simp)+
  show "prt_used_at t \<noteq> None" if "t \<in> set (reset_tokens d')" "prt_user_id t = u" for t
  proof -
    have "t \<in> set (update_where ?p (spend now) (reset_tokens d))" using that(1) by (simp add: d')
    then have "\<not> ?p t \<or> (\<exists>y. t = spend now y)" unfolding in_update_where by blast
    with that(2) show ?thesis by (auto simp: spend_def)
  qed
qed

lemma invalidate_previous_reset_tokens_safe: "auth_safe (invalidate_previous_reset_tokens now u)"
  unfolding invalidate_previous_reset_tokens_def thenM_def
proof (rule locked_safe)
  fix d a assume "auth_wf d"
  then show "wp (mark_reset_tokens_used now u) (\<lambda>r d'. auth_wf d' \<and> auth_le d d') d"
    using mark_reset_tokens_used_wf unfolding wp_def by (simp add: prod.split) blast
qed

lemma create_password_reset_token_safe: "auth_safe (create_password_reset_token i now u h exp)"
  unfolding create_password_reset_token_def
proof (rule transaction_safe)
  fix d x d'
  assume wf: "auth_wf d" and run: "thenM (lock_account u) (thenM (mark_reset_tokens_used now u)
      (insert_reset_token \<lparr>prt_id = i, prt_user_id = u, prt_token_hash = h,
        prt_expires_at = exp, prt_used_at = None, prt_created_at = now\<rparr>)) d = (Inr x, d')"
  let ?t = "\<lparr>prt_id = i, prt_user_id = u, prt_token_hash = h,
        prt_expires_at = exp, prt_used_at = None, prt_created_at = now\<rparr>"
  obtain q d1 where mark: "mark_reset_tokens_used now u d = (q, d1)" by force
  note spent = mark_reset_tokens_used_wf [OF wf mark]
  from lock_then_run [OF run] mark have "insert_reset_token ?t d1 = (Inr x, d')"
    by (simp add: thenM_def bindM_def mark_reset_tokens_used_run)
  then have d': "d' = d1\<lparr>reset_tokens := reset_tokens d1 @ [?t]\<rparr>"
    "prt_id ?t \<notin> prt_id ` set (reset_tokens d1)" "prt_user_id ?t \<in> acc_id ` set (accounts d1)"
    by (auto simp: insert_reset_token_def split: if_splits)
  have used: "prt_used_at y \<noteq> None" if "y \<in> set (reset_tokens d1)" "prt_user_id y = prt_user_id ?t" for y
    using spent(3) [OF that(1)] that(2) by simp
  from new_reset_wf [OF spent(1) d'(2,3) used] auth_le_trans [OF spent(2)] d'(1)
  show "auth_wf d' \<and> auth_le d d'" by simp
qed

lemma consume_locked_run:
  assumes "auth_wf d"
  shows "consume_locked now h d =
    (case reset_token_by_hash h d of
       None \<Rightarrow> (Inr None, d)
     | Some t \<Rightarrow>
         if reset_token_usable now (Some t)
         then (Inr (Some (spend now t)), d\<lparr>reset_tokens :=
           update_where (\<lambda>r. prt_id r = prt_id t) (spend now) (reset_tokens d)\<rparr>)
         else (Inr None, d))"
proof (cases "reset_token_by_hash h d")
  case (Some t)
  with reset_token_by_hash_SomeD [OF Some] update_row_eq [OF auth_wf_parts(4) [OF assms], of t "spend now"]
  show ?thesis by (simp add: consume_locked_def run_simps save_reset_token_def spend_def)
qed (simp add: consume_locked_def run_simps)

lemma consume_locked_safe:
  assumes "auth_wf d" and "consume_locked now h d = (r, d')"
  shows "auth_wf d' \<and> auth_le d d'"
proof (cases "reset_token_by_hash h d")
  case None
  with assms show ?thesis by (auto simp: consume_locked_run)
next
  case (Some t)
  note t = reset_token_by_hash_SomeD [OF Some]
  show ?thesis
  proof (cases "reset_token_usable now (Some t)")
    case True
    have "prt_used_at x = None" if "x \<in> set (reset_tokens d)" "prt_id x = prt_id t" for x
      using distinct_key_eq [OF auth_wf_parts(4) [OF assms(1)] that(1)] t that(2) True
      by (auto simp: reset_token_usable_def)
    with spend_where_wf [OF assms(1), of "\<lambda>r. prt_id r = prt_id t"] assms Some True
    show ?thesis by (auto simp: consume_locked_run)
  next
    case False
    with assms Some show ?thesis by (auto simp: consume_locked_run)
  qed
qed

lemma consume_password_reset_token_safe: "auth_safe (consume_password_reset_token now h)"
  unfolding consume_password_reset_token_def
proof (rule transaction_safe)
  fix d x d'
  assume wf: "auth_wf d"
    and run: "bindM (getsM (reset_token_by_hash h)) (\<lambda>found. case found of
       None \<Rightarrow> returnM None
     | Some t \<Rightarrow> if \<not> reset_token_usable now found then returnM None
         else thenM (lock_account (prt_user_id t)) (consume_locked now h)) d = (Inr x, d')"
  from run have "d' = d \<or> (\<exists>u. thenM (lock_account u) (consume_locked now h) d = (Inr x, d'))"
    by (auto simp: bindM_def getsM_def returnM_def split: option.splits if_splits)
  then show "auth_wf d' \<and> auth_le d d'"
    using wf consume_locked_safe [OF wf] lock_then_run by (metis auth_le_refl)
qed

section \<open>Histories\<close>

text \<open>
  One committed transaction of the authentication tables, or of anything else. The three operations
  that read before they lock also occur with their locked part alone: that is what they do when
  other transactions committed after their first read.
\<close>

inductive auth_step :: "db \<Rightarrow> db \<Rightarrow> bool" where
  register: "create_pending_account i now e h d = (r, d') \<Longrightarrow> auth_step d d'"
| activate: "activate_account now u d = (r, d') \<Longrightarrow> auth_step d d'"
| password: "update_password_hash now u h d = (r, d') \<Longrightarrow> auth_step d d'"
| login: "create_exclusive_session i j now u inp d = (r, d') \<Longrightarrow> auth_step d d'"
| rotate: "rotate_refresh_token j now i rot d = (r, d') \<Longrightarrow> auth_step d d'"
| rotate_late: "transaction (thenM (lock_account u) (rotate_locked j now i rot)) d = (r, d') \<Longrightarrow>
    auth_step d d'"
| revoke: "revoke_session now i reason d = (r, d') \<Longrightarrow> auth_step d d'"
| revoke_late: "transaction (thenM (lock_account u) (revoke_locked now i reason)) d = (r, d') \<Longrightarrow>
    auth_step d d'"
| revoke_all: "revoke_all_sessions now u reason d = (r, d') \<Longrightarrow> auth_step d d'"
| reset_issued: "create_password_reset_token i now u h exp d = (r, d') \<Longrightarrow> auth_step d d'"
| reset_consumed: "consume_password_reset_token now h d = (r, d') \<Longrightarrow> auth_step d d'"
| reset_late: "transaction (thenM (lock_account u) (consume_locked now h)) d = (r, d') \<Longrightarrow>
    auth_step d d'"
| reset_invalidated: "invalidate_previous_reset_tokens now u d = (r, d') \<Longrightarrow> auth_step d d'"
| elsewhere: "accounts d' = accounts d \<Longrightarrow> sessions d' = sessions d \<Longrightarrow>
    refresh_tokens d' = refresh_tokens d \<Longrightarrow> reset_tokens d' = reset_tokens d \<Longrightarrow> auth_step d d'"

inductive auth_leads :: "db \<Rightarrow> db \<Rightarrow> bool" where
  stay: "auth_leads d d"
| step: "auth_leads d d' \<Longrightarrow> auth_step d' d'' \<Longrightarrow> auth_leads d d''"

lemma late_safe:
  assumes "\<And>d x d'. auth_wf d \<Longrightarrow> m d = (Inr x, d') \<Longrightarrow> auth_wf d' \<and> auth_le d d'"
  shows "auth_safe (transaction (thenM (lock_account u) m))"
  by (rule transaction_safe) (blast dest: lock_then_run assms)

lemma rotate_late_safe:
  "auth_safe (transaction (thenM (lock_account u) (rotate_locked j now i rot)))"
  by (rule late_safe) (rule rotate_locked_safe)

lemma revoke_late_safe:
  "auth_safe (transaction (thenM (lock_account u) (revoke_locked now i reason)))"
  by (rule late_safe) (rule revoke_locked_safe)

lemma consume_late_safe:
  "auth_safe (transaction (thenM (lock_account u) (consume_locked now h)))"
  by (rule late_safe) (rule consume_locked_safe)

lemma auth_step_safe: "auth_step d d' \<Longrightarrow> auth_wf d \<Longrightarrow> auth_wf d' \<and> auth_le d d'"
proof (induction rule: auth_step.induct)
  case register
  from auth_safeD [OF create_pending_account_safe register.prems register.hyps] show ?case .
next
  case activate
  from auth_safeD [OF activate_account_safe activate.prems activate.hyps] show ?case .
next
  case password
  from auth_safeD [OF update_password_hash_safe password.prems password.hyps] show ?case .
next
  case login
  from auth_safeD [OF create_exclusive_session_safe login.prems login.hyps] show ?case .
next
  case rotate
  from auth_safeD [OF rotate_refresh_token_safe rotate.prems rotate.hyps] show ?case .
next
  case rotate_late
  from auth_safeD [OF rotate_late_safe rotate_late.prems rotate_late.hyps] show ?case .
next
  case revoke
  from auth_safeD [OF revoke_session_safe revoke.prems revoke.hyps] show ?case .
next
  case revoke_late
  from auth_safeD [OF revoke_late_safe revoke_late.prems revoke_late.hyps] show ?case .
next
  case revoke_all
  from auth_safeD [OF revoke_all_sessions_safe revoke_all.prems revoke_all.hyps] show ?case .
next
  case reset_issued
  from auth_safeD [OF create_password_reset_token_safe reset_issued.prems reset_issued.hyps] show ?case .
next
  case reset_consumed
  from auth_safeD [OF consume_password_reset_token_safe reset_consumed.prems reset_consumed.hyps] show ?case .
next
  case reset_late
  from auth_safeD [OF consume_late_safe reset_late.prems reset_late.hyps] show ?case .
next
  case reset_invalidated
  from auth_safeD [OF invalidate_previous_reset_tokens_safe reset_invalidated.prems reset_invalidated.hyps] show ?case .
next
  case (elsewhere d' d)
  then show ?case by (simp add: auth_wf_def auth_keys_def auth_le_def)
qed

lemma auth_leads_safe: "auth_leads d d' \<Longrightarrow> auth_wf d \<Longrightarrow> auth_wf d' \<and> auth_le d d'"
  by (induction rule: auth_leads.induct) (auto dest: auth_step_safe intro: auth_le_trans)

lemma empty_db_auth_wf: "auth_wf empty_db"
  by (simp add: auth_wf_def auth_keys_def exclusive_sessions_def token_chain_def
      exclusive_resets_def empty_db_def)

lemma auth_wf_one_session:
  assumes "auth_wf d"
  shows "length (filter (is_active_session_of u) (sessions d)) \<le> 1"
proof (rule length_filter_le_one)
  show "distinct (sessions d)" using auth_wf_parts(1) [OF assms] by (simp add: distinct_map)
qed (rule active_unique [OF auth_wf_parts(7) [OF assms]])

lemma filter_unique:
  "distinct xs \<Longrightarrow> x \<in> set xs \<Longrightarrow> p x \<Longrightarrow> (\<And>y. y \<in> set xs \<Longrightarrow> p y \<Longrightarrow> y = x) \<Longrightarrow> filter p xs = [x]"
proof (induction xs)
  case (Cons a xs)
  show ?case
  proof (cases "a = x")
    case True
    with Cons.prems(1,4) have "\<forall>y \<in> set xs. \<not> p y" by (metis distinct.simps(2) list.set_intros(2))
    then have "filter p xs = []" by (simp add: filter_empty_conv)
    with True Cons.prems(3) show ?thesis by simp
  next
    case False
    then have "\<not> p a" using Cons.prems(4) [of a] by auto
    moreover have "filter p xs = [x]"
      by (rule Cons.IH) (use Cons.prems False in auto)
    ultimately show ?thesis by simp
  qed
qed simp

lemma auth_wf_one_token:
  assumes "auth_wf d" and s: "s \<in> set (sessions d)"
  shows "\<exists>t. filter (current_token s) (refresh_tokens d) = [t]
    \<and> rt_token_hash t = ses_refresh_token_hash s \<and> rt_expires_at t = ses_expires_at s"
proof -
  note wf = auth_wf_parts [OF assms(1)]
  from wf(8) s obtain t where t: "t \<in> set (refresh_tokens d)" "current_token s t"
    "rt_token_hash t = ses_refresh_token_hash s" "rt_expires_at t = ses_expires_at s"
    unfolding token_chain_def by blast
  have "y = t" if "y \<in> set (refresh_tokens d)" "current_token s y" for y
  proof -
    have "rt_token_hash y = rt_token_hash t"
      using wf(8) s that t(3) unfolding token_chain_def by metis
    then show ?thesis by (rule distinct_key_eq [OF wf(3) that(1) t(1)])
  qed
  moreover have "distinct (refresh_tokens d)" using wf(2) by (simp add: distinct_map)
  ultimately have "filter (current_token s) (refresh_tokens d) = [t]"
    using filter_unique t(1,2) by metis
  with t show ?thesis by blast
qed

lemma auth_wf_one_reset:
  assumes "auth_wf d"
  shows "length (filter (\<lambda>t. prt_user_id t = u \<and> prt_used_at t = None) (reset_tokens d)) \<le> 1"
proof (rule length_filter_le_one)
  show "distinct (reset_tokens d)" using auth_wf_parts(4) [OF assms] by (simp add: distinct_map)
next
  fix x y assume "x \<in> set (reset_tokens d)" "y \<in> set (reset_tokens d)"
    "prt_user_id x = u \<and> prt_used_at x = None" "prt_user_id y = u \<and> prt_used_at y = None"
  with auth_wf_parts(9) [OF assms] show "x = y" unfolding exclusive_resets_def by metis
qed

text \<open>
  Property C3. Whatever operations ran, in whatever order and interleaving: an account has at
  most one active session and at most one unused reset token; a session that is not active carries
  its revocation reason; every session has exactly one unused refresh token, the one whose hash
  and expiry the session carries.
\<close>

theorem one_active_session:
  assumes "auth_leads empty_db d"
  shows "length (filter (is_active_session_of u) (sessions d)) \<le> 1
    \<and> length (filter (\<lambda>t. prt_user_id t = u \<and> prt_used_at t = None) (reset_tokens d)) \<le> 1
    \<and> (\<forall>s \<in> set (sessions d).
         (ses_revoked_at s = None \<longleftrightarrow> ses_revocation_reason s = None)
         \<and> (\<exists>t. filter (current_token s) (refresh_tokens d) = [t]
              \<and> rt_token_hash t = ses_refresh_token_hash s \<and> rt_expires_at t = ses_expires_at s))"
proof -
  have wf: "auth_wf d" using auth_leads_safe [OF assms empty_db_auth_wf] by blast
  have "ses_revoked_at s = None \<longleftrightarrow> ses_revocation_reason s = None" if "s \<in> set (sessions d)" for s
    using that auth_wf_parts(7) [OF wf] unfolding exclusive_sessions_def by blast
  then show ?thesis
    using auth_wf_one_session [OF wf] auth_wf_one_reset [OF wf] auth_wf_one_token [OF wf] by blast
qed

end
