(* ===== verification/AuthCrypto.thy ===== *)
theory AuthCrypto
  imports World ValueObjects
begin

text \<open>
  src/src/modules/auth/node-auth-crypto.service.ts and bcrypt-password-hasher.service.ts. The
  digest functions, bcrypt and the JSON web token library are fields of \<open>auth_config\<close>, with the
  secrets the service is constructed with and the page the reset mail links to.
\<close>

record auth_config =
  ac_hmac_sha256 :: hmac
  ac_sha256 :: "string \<Rightarrow> string"
  ac_jwt_sign :: "string \<Rightarrow> instant \<Rightarrow> (string \<times> json) list \<Rightarrow> nat \<Rightarrow> string"
    \<comment> \<open>secret, clock, claims, seconds to live\<close>
  ac_jwt_verify :: "string \<Rightarrow> instant \<Rightarrow> string \<Rightarrow> string + json"
    \<comment> \<open>the message of what it throws, or the payload\<close>
  ac_bcrypt_hash :: "string \<Rightarrow> nat \<Rightarrow> string \<Rightarrow> string"
    \<comment> \<open>password, cost, salt\<close>
  ac_bcrypt_compare :: "string \<Rightarrow> string \<Rightarrow> bool"
  ac_hmac_secret :: string
  ac_token_hash_secret :: string
  ac_jwt_access_secret :: string
  ac_frontend_reset_url :: string

section \<open>Codes, tokens and digests\<close>

definition ACCESS_TOKEN_TTL_SECONDS :: nat where
  "ACCESS_TOKEN_TTL_SECONDS = 15 * 60"

definition generate_verification_code_io :: "string io" where
  "generate_verification_code_io =
     bindM (random_int 1000000) (\<lambda>n. returnM (generate_verification_code n))"

definition generate_opaque_token :: "string io" where
  "generate_opaque_token = draw_string"

definition generate_challenge_id :: "string io" where
  "generate_challenge_id = draw_string"

definition generate_csrf_token :: "string io" where
  "generate_csrf_token = generate_opaque_token"

definition generate_refresh_token :: "string io" where
  "generate_refresh_token = generate_opaque_token"

definition hmac_code :: "auth_config \<Rightarrow> string \<Rightarrow> string" where
  "hmac_code cfg code = ac_hmac_sha256 cfg (ac_hmac_secret cfg) code"

definition hash_token :: "auth_config \<Rightarrow> string \<Rightarrow> string" where
  "hash_token cfg token = ac_hmac_sha256 cfg (ac_token_hash_secret cfg) token"

section \<open>Access tokens\<close>

record access_claims =
  cl_sub :: string
  cl_role :: string
  cl_session_id :: string

record access_payload =
  ap_claims :: access_claims
  ap_iat :: int
  ap_exp :: int

definition sign_access_token :: "auth_config \<Rightarrow> instant \<Rightarrow> access_claims \<Rightarrow> string" where
  "sign_access_token cfg now claims =
     ac_jwt_sign cfg (ac_jwt_access_secret cfg) now
       [(''sub'', JStr (cl_sub claims)), (''role'', JStr (cl_role claims)),
        (''sessionId'', JStr (cl_session_id claims))]
       ACCESS_TOKEN_TTL_SECONDS"

definition verify_access_token :: "auth_config \<Rightarrow> instant \<Rightarrow> string \<Rightarrow> exn + access_payload" where
  "verify_access_token cfg now token =
     (case ac_jwt_verify cfg (ac_jwt_access_secret cfg) now token of
        Inl message \<Rightarrow> Inl (PlainErr message)
      | Inr payload \<Rightarrow>
          if (case payload of JObj _ \<Rightarrow> False | JArr _ \<Rightarrow> False | _ \<Rightarrow> True)
          then Inl (PlainErr ''Invalid access token payload.'')
          else (case (json_get payload ''sub'', json_get payload ''role'',
                      json_get payload ''sessionId'', json_get payload ''iat'',
                      json_get payload ''exp'') of
                  (Some (JStr sub), Some (JStr role), Some (JStr session_id), Some (JNum iat),
                   Some (JNum exp_at)) \<Rightarrow>
                    Inr \<lparr>ap_claims = \<lparr>cl_sub = sub, cl_role = role, cl_session_id = session_id\<rparr>,
                         ap_iat = iat, ap_exp = exp_at\<rparr>
                | _ \<Rightarrow> Inl (PlainErr ''Access token claims are incomplete.'')))"

section \<open>Passwords\<close>

definition BCRYPT_COST :: nat where
  "BCRYPT_COST = 12"

definition hash_password :: "auth_config \<Rightarrow> string \<Rightarrow> string io" where
  "hash_password cfg password =
     bindM draw_string (\<lambda>salt.
       case password_hash_create (ac_bcrypt_hash cfg password BCRYPT_COST salt) of
         Inl e \<Rightarrow> throwM e
       | Inr h \<Rightarrow> returnM h)"

definition compare_password :: "auth_config \<Rightarrow> string \<Rightarrow> string \<Rightarrow> bool" where
  "compare_password cfg password hash = ac_bcrypt_compare cfg password hash"

text \<open>The role as the source's enum spells it.\<close>

fun role_text :: "account_role \<Rightarrow> string" where
  "role_text USER = ''USER''"

text \<open>What the JSON web token library is relied on for: it reads back the claims it signed, until they expire.\<close>

definition jwt_faithful :: "auth_config \<Rightarrow> bool" where
  "jwt_faithful cfg \<longleftrightarrow>
     (\<forall>now later user role session ttl.
        ac_jwt_verify cfg (ac_jwt_access_secret cfg) later
            (ac_jwt_sign cfg (ac_jwt_access_secret cfg) now
              [(''sub'', JStr user), (''role'', JStr role), (''sessionId'', JStr session)] ttl) =
          (if later div 1000 < now div 1000 + int ttl
           then Inr (JObj [(''sub'', JStr user), (''role'', JStr role), (''sessionId'', JStr session),
                           (''iat'', JNum (now div 1000)), (''exp'', JNum (now div 1000 + int ttl))])
           else Inl ''jwt expired''))"

lemma verify_signed_token:
  assumes "jwt_faithful cfg"
  shows "verify_access_token cfg later (sign_access_token cfg now c) =
    (if later div 1000 < now div 1000 + 900
     then Inr \<lparr>ap_claims = \<lparr>cl_sub = cl_sub c, cl_role = cl_role c, cl_session_id = cl_session_id c\<rparr>,
               ap_iat = now div 1000, ap_exp = now div 1000 + 900\<rparr>
     else Inl (PlainErr ''jwt expired''))"
  using assms
  by (simp add: jwt_faithful_def verify_access_token_def sign_access_token_def
      ACCESS_TOKEN_TTL_SECONDS_def)

end
