(* ===== verification/IsoInstant.thy ===== *)
theory IsoInstant
  imports UtcPeriods
begin

text \<open>
  \<open>Date.prototype.toISOString\<close> and \<open>new Date(text)\<close> on such a text: how the source stores an
  instant in a JSON payload and reads it back. A text of another shape is an invalid date
  (\<open>None\<close>); the source only reads texts it wrote.
\<close>

definition clock_text :: "nat \<Rightarrow> nat \<Rightarrow> nat \<Rightarrow> nat \<Rightarrow> string" where
  "clock_text h m s ms =
     ''T'' @ fixed_digits 2 h @ '':'' @ fixed_digits 2 m @ '':'' @ fixed_digits 2 s @ ''.''
       @ fixed_digits 3 ms @ ''Z''"

definition to_iso_string :: "int \<Rightarrow> string" where
  "to_iso_string t =
     (let ms = nat (t mod MS_PER_DAY)
      in (case civil_of_day (day_of_instant t) of (y, m, d) \<Rightarrow>
            iso_year y @ ''-'' @ fixed_digits 2 m @ ''-'' @ fixed_digits 2 (nat d))
         @ clock_text (ms div 3600000) (ms div 60000 mod 60) (ms div 1000 mod 60) (ms mod 1000))"

definition parse_clock :: "string \<Rightarrow> int option" where
  "parse_clock t =
     (let h = digits_value (js_slice 1 3 t); m = digits_value (js_slice 4 6 t);
          s = digits_value (js_slice 7 9 t); ms = digits_value (js_slice 10 13 t)
      in if t = clock_text h m s ms \<and> h < 24 \<and> m < 60 \<and> s < 60
         then Some (int (h * 3600000 + m * 60000 + s * 1000 + ms)) else None)"

definition date_parse :: "string \<Rightarrow> int option" where
  "date_parse s =
     (case (parse_utc_midnight (take 10 s), parse_clock (drop 10 s)) of
        (Some day, Some ms) \<Rightarrow> Some (day * MS_PER_DAY + ms)
      | _ \<Rightarrow> None)"

lemma parse_clock_text:
  assumes "h < 24" and "m < 60" and "s < 60" and "ms < 1000"
  shows "parse_clock (clock_text h m s ms) = Some (int (h * 3600000 + m * 60000 + s * 1000 + ms))"
proof -
  let ?t = "clock_text h m s ms"
  have "js_slice 1 3 ?t = fixed_digits 2 h" "js_slice 4 6 ?t = fixed_digits 2 m"
    "js_slice 7 9 ?t = fixed_digits 2 s" "js_slice 10 13 ?t = fixed_digits 3 ms"
    by (simp_all add: clock_text_def js_slice_def del: fixed_digits.simps)
  moreover have "digits_value (fixed_digits 2 h) = h" "digits_value (fixed_digits 2 m) = m"
    "digits_value (fixed_digits 2 s) = s" "digits_value (fixed_digits 3 ms) = ms"
    using assms by (auto intro!: digits_value_fixed)
  ultimately show ?thesis using assms by (simp add: parse_clock_def)
qed

lemma clock_parts:
  "n = n div 3600000 * 3600000 + n div 60000 mod 60 * 60000 + n div 1000 mod 60 * 1000 + n mod (1000::nat)"
proof -
  define a where "a = n div 1000"
  define b where "b = a div 60"
  have sums: "x = y * 1000 + r \<Longrightarrow> y = z * 60 + s \<Longrightarrow> z = u * 60 + v \<Longrightarrow>
      x = u * 3600000 + v * 60000 + s * 1000 + r" for x y z u v s r :: nat
    by simp
  have "n = b div 60 * 3600000 + b mod 60 * 60000 + a mod 60 * 1000 + n mod 1000"
    by (rule sums [of n a "n mod 1000" b]) (simp_all add: a_def b_def)
  moreover have "n div 60000 = b" "n div 3600000 = b div 60"
    by (simp_all add: a_def b_def div_mult2_eq [symmetric])
  ultimately show ?thesis unfolding a_def [symmetric] by simp
qed

lemma date_parse_iso:
  assumes "four_digit_day (day_of_instant t)"
  shows "date_parse (to_iso_string t) = Some t"
proof -
  let ?n = "nat (t mod MS_PER_DAY)"
  obtain y m d where c: "civil_of_day (day_of_instant t) = (y, m, d)"
    by (cases "civil_of_day (day_of_instant t)") auto
  have n: "?n < 86400000" "int ?n = t mod MS_PER_DAY" by (auto simp: MS_PER_DAY_def)
  have "iso_date (day_of_instant t) = iso_year y @ ''-'' @ fixed_digits 2 m @ ''-'' @ fixed_digits 2 (nat d)"
    using iso_date_civil [OF assms c] by (simp add: iso_year_def)
  then have shape: "to_iso_string t = iso_date (day_of_instant t)
      @ clock_text (?n div 3600000) (?n div 60000 mod 60) (?n div 1000 mod 60) (?n mod 1000)"
    by (simp add: to_iso_string_def c Let_def)
  have len: "length (iso_date (day_of_instant t)) = 10"
    using iso_date_civil(1) [OF assms c] by (simp del: fixed_digits.simps)
  have "parse_clock (clock_text (?n div 3600000) (?n div 60000 mod 60) (?n div 1000 mod 60) (?n mod 1000))
      = Some (int ?n)"
    using n(1) clock_parts [of ?n] by (subst parse_clock_text) (auto simp: less_mult_imp_div_less)
  with len shape parse_iso_date [OF assms] n(2) show ?thesis
    by (simp add: date_parse_def day_of_instant_def)
qed

end
