(* ===== verification/AuthState.thy ===== *)
theory AuthState
  imports AuthCrypto IsoInstant
begin

text \<open>
  src/src/modules/auth/redis-auth-state.service.ts with the result types of auth-state.service.ts:
  activation codes, mail issuances, login challenges, cooldowns, rate limits, failed logins and
  the session cache, each a family of Redis keys. A script runs atomically: it is one function of
  the keyspace, with no effect when a command of it fails. A payload's JSON text is the value it
  denotes.
\<close>

section \<open>Keys\<close>

definition KEY_PREFIX :: string where
  "KEY_PREFIX = ''shortlink:auth:''"

definition activation_key :: "uuid \<Rightarrow> string" where
  "activation_key user_id = KEY_PREFIX @ ''verification:activation:'' @ user_id"

fun issuance_key :: "issuance_purpose \<Rightarrow> uuid \<Rightarrow> string" where
  "issuance_key ISSUE_RESET subject = KEY_PREFIX @ ''reset-issuance:'' @ subject"
| "issuance_key ISSUE_LOGIN subject = KEY_PREFIX @ ''verification-issuance:login:'' @ subject"
| "issuance_key ISSUE_ACTIVATION subject =
     KEY_PREFIX @ ''verification-issuance:activation:'' @ subject"

definition login_challenge_key :: "uuid \<Rightarrow> string" where
  "login_challenge_key challenge_id = KEY_PREFIX @ ''login-challenge:'' @ challenge_id"

definition login_challenge_account_key :: "uuid \<Rightarrow> string" where
  "login_challenge_account_key user_id = KEY_PREFIX @ ''login-challenge:account:'' @ user_id"

definition resend_key :: "string \<Rightarrow> uuid \<Rightarrow> string" where
  "resend_key purpose user_id = KEY_PREFIX @ ''resend:'' @ purpose @ '':'' @ user_id"

definition failed_login_key :: "uuid \<Rightarrow> string" where
  "failed_login_key user_id = KEY_PREFIX @ ''failed-login:'' @ user_id"

definition login_lock_key :: "uuid \<Rightarrow> string" where
  "login_lock_key user_id = KEY_PREFIX @ ''login-lock:'' @ user_id"

datatype rate_limit_dimension = ByEmail | ByIp

fun dimension_text :: "rate_limit_dimension \<Rightarrow> string" where
  "dimension_text ByEmail = ''email''"
| "dimension_text ByIp = ''ip''"

definition rate_key :: "string \<Rightarrow> rate_limit_dimension \<Rightarrow> string \<Rightarrow> string" where
  "rate_key operation dimension h =
     KEY_PREFIX @ ''rate:'' @ operation @ '':'' @ dimension_text dimension @ '':'' @ h"

definition session_key :: "uuid \<Rightarrow> string" where
  "session_key session_id = KEY_PREFIX @ ''session:'' @ session_id"

definition TTL_ONE_HOUR_SECONDS :: nat where
  "TTL_ONE_HOUR_SECONDS = 3600"

definition TTL_RESEND_COOLDOWN_SECONDS :: nat where
  "TTL_RESEND_COOLDOWN_SECONDS = 60"

definition MAX_FAILED_LOGINS :: int where
  "MAX_FAILED_LOGINS = 5"

text \<open>Any failure of a round trip is the one error the service throws.\<close>

definition safe :: "'a io \<Rightarrow> 'a io" where
  "safe operation = catchM operation (\<lambda>_. throwM StorageUnavailableExn)"

section \<open>Activation codes\<close>

datatype consume_activation_result =
    ActivationConsumed
  | ActivationInvalid int
  | ActivationMissing

definition set_activation_code :: "auth_config \<Rightarrow> uuid \<Rightarrow> string \<Rightarrow> instant \<Rightarrow> unit io" where
  "set_activation_code cfg user_id code resend_available_at =
     safe (redis_service_set (activation_key user_id)
       (RJson (JObj [(''codeHmac'', JStr (hmac_code cfg code)), (''attempts'', JNum 0),
                     (''resendAvailableAt'', JNum resend_available_at)]))
       (Some TTL_ONE_HOUR_SECONDS))"

definition json_put :: "string \<Rightarrow> json \<Rightarrow> (string \<times> json) list \<Rightarrow> (string \<times> json) list" where
  "json_put k v kvs = update_where (\<lambda>(k', _). k' = k) (\<lambda>_. (k, v)) kvs
     @ (if k \<in> fst ` set kvs then [] else [(k, v)])"

definition consume_activation_lua ::
  "string \<Rightarrow> string \<Rightarrow> instant \<Rightarrow> redis \<Rightarrow> (consume_activation_result \<times> redis) option" where
  "consume_activation_lua key code_hmac now s =
     (case redis_get now key s of
        None \<Rightarrow> Some (ActivationMissing, s)
      | Some (RJson (JObj payload)) \<Rightarrow>
          if map_of payload ''codeHmac'' = Some (JStr code_hmac)
          then Some (ActivationConsumed, redis_del key s)
          else (case map_of payload ''attempts'' of
                  None \<Rightarrow> Some (ActivationInvalid 1,
                    redis_set_keepttl now key (RJson (JObj (json_put ''attempts'' (JNum 1) payload))) s)
                | Some (JNum n) \<Rightarrow> Some (ActivationInvalid (n + 1),
                    redis_set_keepttl now key
                      (RJson (JObj (json_put ''attempts'' (JNum (n + 1)) payload))) s)
                | _ \<Rightarrow> None)
      | _ \<Rightarrow> None)"

definition consume_activation_code ::
  "auth_config \<Rightarrow> uuid \<Rightarrow> string \<Rightarrow> consume_activation_result io" where
  "consume_activation_code cfg user_id code =
     safe (redis_call (consume_activation_lua (activation_key user_id) (hmac_code cfg code)))"

section \<open>Issuances\<close>

definition set_issuance :: "issuance_purpose \<Rightarrow> uuid \<Rightarrow> uuid \<Rightarrow> unit io" where
  "set_issuance purpose subject issuance_id =
     safe (redis_service_set (issuance_key purpose subject) (RText issuance_id)
       (Some TTL_ONE_HOUR_SECONDS))"

text \<open>Equality in constant time; the key only ever holds an identifier.\<close>

definition is_current_issuance :: "issuance_purpose \<Rightarrow> uuid \<Rightarrow> uuid \<Rightarrow> bool io" where
  "is_current_issuance purpose subject issuance_id =
     bindM (safe (redis_service_get (issuance_key purpose subject))) (\<lambda>current.
       returnM (case current of Some (RText t) \<Rightarrow> t = issuance_id | _ \<Rightarrow> False))"

section \<open>Login challenges\<close>

datatype consume_login_result =
    ChallengeConsumed uuid
  | ChallengeInvalid
  | ChallengeMissing

definition challenge_payload :: "auth_config \<Rightarrow> uuid \<Rightarrow> string \<Rightarrow> instant \<Rightarrow> json" where
  "challenge_payload cfg user_id code expires_at =
     JObj [(''userId'', JStr user_id), (''codeHmac'', JStr (hmac_code cfg code)),
           (''expiresAtMs'', JNum expires_at), (''used'', JBool False)]"

definition create_login_challenge_lua ::
  "string \<Rightarrow> string \<Rightarrow> json \<Rightarrow> nat \<Rightarrow> string \<Rightarrow> string \<Rightarrow> instant \<Rightarrow> redis \<Rightarrow> (unit \<times> redis) option" where
  "create_login_challenge_lua account_key challenge_key payload ttl challenge_id prefix now s =
     (let s1 = (case redis_get now account_key s of
                  Some (RText previous) \<Rightarrow> redis_del (prefix @ previous) s
                | _ \<Rightarrow> s);
          s2 = redis_set now challenge_key (RJson payload) (Some ttl) s1
      in Some ((), redis_set now account_key (RText challenge_id) (Some ttl) s2))"

definition create_login_challenge ::
  "auth_config \<Rightarrow> uuid \<Rightarrow> uuid \<Rightarrow> string \<Rightarrow> instant \<Rightarrow> unit io" where
  "create_login_challenge cfg user_id challenge_id code expires_at =
     safe (redis_call (create_login_challenge_lua
       (login_challenge_account_key user_id) (login_challenge_key challenge_id)
       (challenge_payload cfg user_id code expires_at) TTL_ONE_HOUR_SECONDS challenge_id
       (KEY_PREFIX @ ''login-challenge:'')))"

text \<open>Lua's truth: only \<open>nil\<close> and \<open>false\<close> are false.\<close>

definition lua_truthy :: "json option \<Rightarrow> bool" where
  "lua_truthy v \<longleftrightarrow> v \<noteq> None \<and> v \<noteq> Some (JBool False)"

definition consume_login_challenge_lua ::
  "string \<Rightarrow> string \<Rightarrow> int \<Rightarrow> instant \<Rightarrow> redis \<Rightarrow> (consume_login_result \<times> redis) option" where
  "consume_login_challenge_lua key code_hmac now_ms now s =
     (case redis_get now key s of
        None \<Rightarrow> Some (ChallengeMissing, s)
      | Some (RJson (JObj payload)) \<Rightarrow>
          if lua_truthy (map_of payload ''used'') then Some (ChallengeMissing, s)
          else if map_of payload ''codeHmac'' \<noteq> Some (JStr code_hmac)
          then Some (ChallengeInvalid, s)
          else if (case map_of payload ''expiresAtMs'' of Some (JNum t) \<Rightarrow> t < now_ms | _ \<Rightarrow> False)
          then Some (ChallengeMissing, redis_del key s)
          else Some (case map_of payload ''userId'' of
                 Some (JStr u) \<Rightarrow> if u = [] then ChallengeMissing else ChallengeConsumed u
               | _ \<Rightarrow> ChallengeMissing, redis_del key s)
      | _ \<Rightarrow> None)"

definition consume_login_challenge :: "auth_config \<Rightarrow> uuid \<Rightarrow> string \<Rightarrow> consume_login_result io" where
  "consume_login_challenge cfg challenge_id code =
     bindM now_io (\<lambda>now_ms.
       safe (redis_call (consume_login_challenge_lua (login_challenge_key challenge_id)
         (hmac_code cfg code) now_ms)))"

definition challenge_user :: "instant \<Rightarrow> json \<Rightarrow> uuid option" where
  "challenge_user now payload =
     (case json_get payload ''userId'' of
        Some (JStr u) \<Rightarrow>
          if u = [] \<or> json_get payload ''used'' = Some (JBool True) then None
          else (case json_get payload ''expiresAtMs'' of
                  Some (JNum t) \<Rightarrow> if t \<noteq> 0 \<and> t < now then None else Some u
                | _ \<Rightarrow> Some u)
      | _ \<Rightarrow> None)"

definition find_login_challenge_user_id :: "uuid \<Rightarrow> uuid option io" where
  "find_login_challenge_user_id challenge_id =
     bindM (safe (redis_service_get (login_challenge_key challenge_id))) (\<lambda>raw.
       case raw of
         None \<Rightarrow> returnM None
       | Some (RJson payload) \<Rightarrow> bindM now_io (\<lambda>now. returnM (challenge_user now payload))
       | Some _ \<Rightarrow> throwM (PlainErr ''Unexpected token in JSON''))"

section \<open>Cooldowns and rate limits\<close>

definition set_resend_cooldown :: "string \<Rightarrow> uuid \<Rightarrow> unit io" where
  "set_resend_cooldown purpose user_id =
     safe (redis_service_set (resend_key purpose user_id) (RText ''1'')
       (Some TTL_RESEND_COOLDOWN_SECONDS))"

definition is_resend_cooldown_active :: "string \<Rightarrow> uuid \<Rightarrow> bool io" where
  "is_resend_cooldown_active purpose user_id =
     bindM (safe (redis_service_exists (resend_key purpose user_id))) (\<lambda>n. returnM (n = 1))"

definition increment_rate_limit_lua ::
  "string \<Rightarrow> nat \<Rightarrow> instant \<Rightarrow> redis \<Rightarrow> (int \<times> redis) option" where
  "increment_rate_limit_lua key ttl now s =
     (case redis_incr now key s of
        None \<Rightarrow> None
      | Some (count, s1) \<Rightarrow> Some (count, if count = 1 then redis_expire now key ttl s1 else s1))"

definition increment_rate_limit ::
  "string \<Rightarrow> rate_limit_dimension \<Rightarrow> string \<Rightarrow> nat \<Rightarrow> int io" where
  "increment_rate_limit operation dimension h ttl_seconds =
     safe (redis_call (increment_rate_limit_lua (rate_key operation dimension h) ttl_seconds))"

definition get_rate_limit_count :: "string \<Rightarrow> rate_limit_dimension \<Rightarrow> string \<Rightarrow> int io" where
  "get_rate_limit_count operation dimension h =
     bindM (safe (redis_service_get (rate_key operation dimension h))) (\<lambda>raw.
       returnM (case raw of Some (RInt n) \<Rightarrow> n | _ \<Rightarrow> 0))"

section \<open>Failed logins\<close>

definition increment_failed_login_lua ::
  "string \<Rightarrow> string \<Rightarrow> nat \<Rightarrow> int \<Rightarrow> instant \<Rightarrow> redis \<Rightarrow> ((int \<times> bool) \<times> redis) option" where
  "increment_failed_login_lua failed_key lock_key ttl max_failures now s =
     (case redis_incr now failed_key s of
        None \<Rightarrow> None
      | Some (failures, s1) \<Rightarrow>
          let s2 = (if failures = 1 then redis_expire now failed_key ttl s1 else s1)
          in if max_failures \<le> failures
             then Some ((failures, True), redis_set now lock_key (RText ''1'') (Some ttl) s2)
             else Some ((failures, False), s2))"

definition increment_failed_login :: "uuid \<Rightarrow> (int \<times> bool) io" where
  "increment_failed_login user_id =
     safe (redis_call (increment_failed_login_lua (failed_login_key user_id) (login_lock_key user_id)
       TTL_ONE_HOUR_SECONDS MAX_FAILED_LOGINS))"

definition is_login_locked :: "uuid \<Rightarrow> bool io" where
  "is_login_locked user_id =
     bindM (safe (redis_service_exists (login_lock_key user_id))) (\<lambda>n. returnM (n = 1))"

section \<open>The session cache\<close>

text \<open>An expiry read back may be an invalid date (\<open>None\<close>), which is never in the past.\<close>

record session_cache_record =
  sc_session_id :: uuid
  sc_user_id :: uuid
  sc_role :: string
  sc_expires_at :: "instant option"
  sc_active :: bool

definition cache_ttl_seconds :: "instant \<Rightarrow> instant \<Rightarrow> nat" where
  "cache_ttl_seconds now expires_at = nat (max 1 (- ((now - expires_at) div 1000)))"

definition session_payload :: "session_cache_record \<Rightarrow> instant \<Rightarrow> json" where
  "session_payload session expires_at =
     JObj [(''sessionId'', JStr (sc_session_id session)), (''userId'', JStr (sc_user_id session)),
           (''role'', JStr (sc_role session)), (''expiresAt'', JStr (to_iso_string expires_at)),
           (''active'', JBool (sc_active session))]"

definition set_session_cache :: "session_cache_record \<Rightarrow> unit io" where
  "set_session_cache session =
     bindM now_io (\<lambda>now.
       case sc_expires_at session of
         None \<Rightarrow> throwM (PlainErr ''Invalid time value'')
       | Some expires_at \<Rightarrow>
           safe (redis_service_set (session_key (sc_session_id session))
             (RJson (session_payload session expires_at))
             (Some (cache_ttl_seconds now expires_at))))"

definition json_text :: "json \<Rightarrow> string \<Rightarrow> string" where
  "json_text payload k = (case json_get payload k of Some (JStr t) \<Rightarrow> t | _ \<Rightarrow> [])"

definition parse_session_cache :: "json \<Rightarrow> session_cache_record" where
  "parse_session_cache payload =
     \<lparr>sc_session_id = json_text payload ''sessionId'', sc_user_id = json_text payload ''userId'',
      sc_role = json_text payload ''role'',
      sc_expires_at = date_parse (json_text payload ''expiresAt''),
      sc_active = (json_get payload ''active'' = Some (JBool True))\<rparr>"

definition get_session_cache :: "uuid \<Rightarrow> session_cache_record option io" where
  "get_session_cache session_id =
     bindM (safe (redis_service_get (session_key session_id))) (\<lambda>raw.
       case raw of
         None \<Rightarrow> returnM None
       | Some (RJson payload) \<Rightarrow> returnM (Some (parse_session_cache payload))
       | Some _ \<Rightarrow> throwM (PlainErr ''Unexpected token in JSON''))"

definition delete_session_cache :: "uuid \<Rightarrow> unit io" where
  "delete_session_cache session_id = safe (redis_service_del (session_key session_id))"

end
