(* ===== verification/AuthSession.thy ===== *)
theory AuthSession
  imports AuthHistory AuthState
begin

text \<open>
  src/src/modules/auth/auth-session.service.ts: sessions created after a login, refreshed, ended and
  validated. The service works over a record of the operations it calls (the repository, the Redis
  state and the crypto service), so that it is stated once for every implementation of them;
  \<open>app_sessions\<close> is the application's.
\<close>

section \<open>Dependencies\<close>

record 'w session_deps =
  sd_create_exclusive :: "uuid \<Rightarrow> session_input \<Rightarrow> (exn, 'w, session_result) eff"
  sd_rotate :: "uuid \<Rightarrow> rotate_input \<Rightarrow> (exn, 'w, session_result) eff"
  sd_revoke :: "uuid \<Rightarrow> revocation_reason \<Rightarrow> (exn, 'w, unit) eff"
  sd_revoke_all :: "uuid \<Rightarrow> revocation_reason \<Rightarrow> (exn, 'w, uuid list) eff"
  sd_find_by_hash :: "string \<Rightarrow> (exn, 'w, session option) eff"
  sd_find_active :: "uuid \<Rightarrow> (exn, 'w, session option) eff"
  sd_find_history :: "string \<Rightarrow> (exn, 'w, refresh_token option) eff"
  sd_find_account :: "uuid \<Rightarrow> (exn, 'w, account option) eff"
  sd_set_cache :: "session_cache_record \<Rightarrow> (exn, 'w, unit) eff"
  sd_get_cache :: "uuid \<Rightarrow> (exn, 'w, session_cache_record option) eff"
  sd_delete_cache :: "uuid \<Rightarrow> (exn, 'w, unit) eff"
  sd_new_token :: "(exn, 'w, string) eff"
  sd_new_csrf :: "(exn, 'w, string) eff"
  sd_hash :: "string \<Rightarrow> string"
  sd_sign :: "instant \<Rightarrow> access_claims \<Rightarrow> string"
  sd_now :: "(exn, 'w, instant) eff"

definition SESSION_TTL_MS :: int where
  "SESSION_TTL_MS = 7 * 24 * 60 * 60 * 1000"

record issued_session =
  is_access_token :: string
  is_expires_in :: nat
  is_csrf_token :: string
  is_refresh_token :: string
  is_session_id :: uuid

record auth_principal =
  pr_user_id :: uuid
  pr_role :: string
  pr_session_id :: uuid

section \<open>Operations\<close>

definition issue_tokens ::
  "'w session_deps \<Rightarrow> uuid \<Rightarrow> string \<Rightarrow> uuid \<Rightarrow> string \<Rightarrow> string \<Rightarrow> (exn, 'w, issued_session) eff" where
  "issue_tokens deps user_id role session_id refresh_token csrf_token =
     bindM (sd_now deps) (\<lambda>now.
       returnM \<lparr>is_access_token = sd_sign deps now
                  \<lparr>cl_sub = user_id, cl_role = role, cl_session_id = session_id\<rparr>,
                is_expires_in = ACCESS_TOKEN_TTL_SECONDS,
                is_csrf_token = csrf_token,
                is_refresh_token = refresh_token,
                is_session_id = session_id\<rparr>)"

definition delete_session_cache_best_effort :: "'w session_deps \<Rightarrow> uuid \<Rightarrow> (exn, 'w, unit) eff" where
  "delete_session_cache_best_effort deps session_id =
     catchM (sd_delete_cache deps session_id) (\<lambda>e.
       if e = StorageUnavailableExn then returnM () else throwM e)"

definition create_session_after_login ::
  "'w session_deps \<Rightarrow> uuid \<Rightarrow> string \<Rightarrow> (exn, 'w, issued_session) eff" where
  "create_session_after_login deps user_id role =
     bindM (sd_new_token deps) (\<lambda>refresh_token.
       bindM (sd_new_csrf deps) (\<lambda>csrf_token.
         bindM (sd_now deps) (\<lambda>now.
           bindM (sd_create_exclusive deps user_id
               \<lparr>si_refresh_token_hash = sd_hash deps refresh_token,
                si_csrf_token_hash = sd_hash deps csrf_token,
                si_expires_at = now + SESSION_TTL_MS\<rparr>) (\<lambda>created.
             thenM (forM (sr_revoked_session_ids created) (delete_session_cache_best_effort deps))
               (thenM (sd_set_cache deps
                   \<lparr>sc_session_id = ses_id (sr_session created), sc_user_id = user_id, sc_role = role,
                    sc_expires_at = Some (ses_expires_at (sr_session created)), sc_active = True\<rparr>)
                 (issue_tokens deps user_id role (ses_id (sr_session created)) refresh_token csrf_token))))))"

definition refresh :: "'w session_deps \<Rightarrow> string \<Rightarrow> (exn, 'w, issued_session) eff" where
  "refresh deps refresh_token =
     (let token_hash = sd_hash deps refresh_token
      in bindM (sd_find_history deps token_hash) (\<lambda>history.
        case history of
          None \<Rightarrow> throwM InvalidRefreshExn
        | Some h \<Rightarrow>
            if rt_used_at h \<noteq> None
            then thenM (sd_revoke deps (rt_session_id h) REFRESH_REUSE)
                   (thenM (sd_delete_cache deps (rt_session_id h)) (throwM RefreshReuseExn))
            else bindM (sd_find_active deps (rt_session_id h)) (\<lambda>session.
              bindM (sd_now deps) (\<lambda>now.
                case session of
                  None \<Rightarrow> throwM InvalidRefreshExn
                | Some s \<Rightarrow>
                    if ses_expires_at s \<le> now \<or> ses_refresh_token_hash s \<noteq> token_hash
                    then throwM InvalidRefreshExn
                    else bindM (sd_find_account deps (ses_user_id s)) (\<lambda>account.
                      case account of
                        None \<Rightarrow> throwM InvalidRefreshExn
                      | Some a \<Rightarrow>
                          bindM (sd_new_token deps) (\<lambda>next_token.
                            bindM (sd_rotate deps (ses_id s)
                                \<lparr>ri_current_token_hash = token_hash,
                                 ri_new_token_hash = sd_hash deps next_token,
                                 ri_new_expires_at = now + SESSION_TTL_MS\<rparr>) (\<lambda>rotated.
                              thenM (sd_set_cache deps
                                  \<lparr>sc_session_id = ses_id (sr_session rotated), sc_user_id = acc_id a,
                                   sc_role = role_text (acc_role a),
                                   sc_expires_at = Some (ses_expires_at (sr_session rotated)),
                                   sc_active = True\<rparr>)
                                (issue_tokens deps (acc_id a) (role_text (acc_role a))
                                  (ses_id (sr_session rotated)) next_token []))))))))"

definition logout :: "'w session_deps \<Rightarrow> string \<Rightarrow> (exn, 'w, unit) eff" where
  "logout deps refresh_token =
     bindM (sd_find_by_hash deps (sd_hash deps refresh_token)) (\<lambda>session.
       case session of
         None \<Rightarrow> returnM ()
       | Some s \<Rightarrow>
           if ses_revoked_at s \<noteq> None then returnM ()
           else thenM (sd_revoke deps (ses_id s) LOGOUT) (sd_delete_cache deps (ses_id s)))"

definition revoke_all :: "'w session_deps \<Rightarrow> uuid \<Rightarrow> revocation_reason \<Rightarrow> (exn, 'w, unit) eff" where
  "revoke_all deps user_id reason =
     bindM (sd_revoke_all deps user_id reason) (\<lambda>revoked_session_ids.
       forM revoked_session_ids (delete_session_cache_best_effort deps))"

text \<open>An absent entry and an unavailable cache are the same to the caller.\<close>

definition read_session_cache ::
  "'w session_deps \<Rightarrow> uuid \<Rightarrow> (exn, 'w, session_cache_record option) eff" where
  "read_session_cache deps session_id =
     catchM (sd_get_cache deps session_id) (\<lambda>e.
       if e = StorageUnavailableExn then returnM None else throwM e)"

definition cache_entry_expired :: "instant \<Rightarrow> session_cache_record \<Rightarrow> bool" where
  "cache_entry_expired now cached =
     (case sc_expires_at cached of None \<Rightarrow> False | Some t \<Rightarrow> t \<le> now)"

text \<open>
  What validation does after a miss up to its write: the entry to cache, when the session is
  active and its account exists.
\<close>

definition load_session :: "'w session_deps \<Rightarrow> uuid \<Rightarrow> (exn, 'w, session_cache_record option) eff" where
  "load_session deps session_id =
     bindM (sd_find_active deps session_id) (\<lambda>session.
       bindM (sd_now deps) (\<lambda>now.
         case session of
           None \<Rightarrow> returnM None
         | Some s \<Rightarrow>
             if ses_expires_at s \<le> now then returnM None
             else bindM (sd_find_account deps (ses_user_id s)) (\<lambda>account.
               case account of
                 None \<Rightarrow> returnM None
               | Some a \<Rightarrow> returnM (Some
                   \<lparr>sc_session_id = ses_id s, sc_user_id = acc_id a,
                    sc_role = role_text (acc_role a), sc_expires_at = Some (ses_expires_at s),
                    sc_active = True\<rparr>))))"

definition remember_session ::
  "'w session_deps \<Rightarrow> session_cache_record \<Rightarrow> (exn, 'w, auth_principal option) eff" where
  "remember_session deps entry =
     thenM (catchM (sd_set_cache deps entry) (\<lambda>e.
         if e = StorageUnavailableExn then returnM () else throwM e))
       (returnM (Some \<lparr>pr_user_id = sc_user_id entry, pr_role = sc_role entry,
                       pr_session_id = sc_session_id entry\<rparr>))"

definition validate_session :: "'w session_deps \<Rightarrow> uuid \<Rightarrow> (exn, 'w, auth_principal option) eff" where
  "validate_session deps session_id =
     bindM (read_session_cache deps session_id) (\<lambda>hit.
       case hit of
         Some cached \<Rightarrow>
           bindM (sd_now deps) (\<lambda>now.
             if \<not> sc_active cached \<or> cache_entry_expired now cached then returnM None
             else returnM (Some \<lparr>pr_user_id = sc_user_id cached, pr_role = sc_role cached,
                                 pr_session_id = sc_session_id cached\<rparr>))
       | None \<Rightarrow>
           bindM (load_session deps session_id) (\<lambda>entry.
             case entry of
               None \<Rightarrow> returnM None
             | Some e \<Rightarrow> remember_session deps e))"

section \<open>The application's dependencies\<close>

definition create_exclusive_session_io :: "uuid \<Rightarrow> session_input \<Rightarrow> session_result io" where
  "create_exclusive_session_io user_id session_data =
     bindM draw_string (\<lambda>new_session_id. bindM draw_string (\<lambda>new_token_id.
       bindM now_io (\<lambda>now.
         db_op (create_exclusive_session new_session_id new_token_id now user_id session_data))))"

definition rotate_refresh_token_io :: "uuid \<Rightarrow> rotate_input \<Rightarrow> session_result io" where
  "rotate_refresh_token_io session_id input =
     bindM draw_string (\<lambda>new_token_id. bindM now_io (\<lambda>now.
       db_op (rotate_refresh_token new_token_id now session_id input)))"

definition revoke_session_io :: "uuid \<Rightarrow> revocation_reason \<Rightarrow> unit io" where
  "revoke_session_io session_id reason =
     bindM now_io (\<lambda>now. db_op (revoke_session now session_id reason))"

definition revoke_all_sessions_io :: "uuid \<Rightarrow> revocation_reason \<Rightarrow> uuid list io" where
  "revoke_all_sessions_io user_id reason =
     bindM now_io (\<lambda>now. db_op (revoke_all_sessions now user_id reason))"

definition app_sessions :: "auth_config \<Rightarrow> world session_deps" where
  "app_sessions cfg =
     \<lparr>sd_create_exclusive = create_exclusive_session_io,
      sd_rotate = rotate_refresh_token_io,
      sd_revoke = revoke_session_io,
      sd_revoke_all = revoke_all_sessions_io,
      sd_find_by_hash = (\<lambda>h. db_op (find_session_by_refresh_token_hash h)),
      sd_find_active = (\<lambda>i. db_op (find_active_session_by_id i)),
      sd_find_history = (\<lambda>h. db_op (find_refresh_token_history_by_hash h)),
      sd_find_account = (\<lambda>i. db_op (find_account_by_id i)),
      sd_set_cache = set_session_cache,
      sd_get_cache = get_session_cache,
      sd_delete_cache = delete_session_cache,
      sd_new_token = generate_refresh_token,
      sd_new_csrf = generate_csrf_token,
      sd_hash = hash_token cfg,
      sd_sign = sign_access_token cfg,
      sd_now = now_io\<rparr>"

end
