(* ===== verification/SessionBackend.thy ===== *)
theory SessionBackend
  imports AuthSession
begin

text \<open>
  The contract between the session service and what it calls: a store of sessions, refresh tokens
  and accounts, and a cache of validated sessions. The service's lemmas are proved once under the
  contract; \<open>SessionApp\<close> discharges it for PostgreSQL and Redis as modelled.
\<close>

section \<open>Coherence of the cache with the store\<close>

definition session_of_user :: "uuid \<Rightarrow> uuid \<Rightarrow> string \<Rightarrow> session list \<Rightarrow> account list \<Rightarrow> bool" where
  "session_of_user i u role ss accs \<longleftrightarrow>
     (\<exists>s \<in> set ss. ses_id s = i \<and> ses_revoked_at s = None \<and> ses_user_id s = u)
     \<and> (\<exists>a \<in> set accs. acc_id a = u \<and> role_text (acc_role a) = role)"

definition session_coherent ::
  "(uuid \<Rightarrow> session_cache_record option) \<Rightarrow> session list \<Rightarrow> account list \<Rightarrow> bool" where
  "session_coherent cache ss accs \<longleftrightarrow>
     (\<forall>i e. cache i = Some e \<longrightarrow> sc_active e \<longrightarrow>
        sc_session_id e = i \<and> session_of_user i (sc_user_id e) (sc_role e) ss accs)"

text \<open>Two entries that say the same of a session, its expiry aside.\<close>

definition same_entry :: "session_cache_record \<Rightarrow> session_cache_record \<Rightarrow> bool" where
  "same_entry e y \<longleftrightarrow> sc_session_id y = sc_session_id e \<and> sc_user_id y = sc_user_id e
     \<and> sc_role y = sc_role e \<and> sc_active y = sc_active e"

lemma session_coherent_mono:
  "session_coherent cache ss accs \<Longrightarrow> (\<And>i e. cache' i = Some e \<Longrightarrow> cache i = Some e) \<Longrightarrow>
     session_coherent cache' ss accs"
  unfolding session_coherent_def by blast

lemma session_coherent_set:
  assumes "session_coherent cache ss accs"
    and "\<And>i y. cache' i = Some y \<Longrightarrow> cache i = Some y \<or> (i = sc_session_id e \<and> same_entry e y)"
    and "session_of_user (sc_session_id e) (sc_user_id e) (sc_role e) ss accs"
  shows "session_coherent cache' ss accs"
  unfolding session_coherent_def
proof (intro allI impI)
  fix i y assume y: "cache' i = Some y" "sc_active y"
  from assms(2) [OF y(1)] show "sc_session_id y = i \<and> session_of_user i (sc_user_id y) (sc_role y) ss accs"
    using assms(1,3) y(2) unfolding session_coherent_def same_entry_def by auto
qed

lemma session_coherent_revoke:
  assumes "session_coherent cache ss accs"
    and "\<And>i e. cache' i = Some e \<Longrightarrow> cache i = Some e \<and> i \<notin> ses_id ` {s \<in> set ss. p s}"
  shows "session_coherent cache' (update_where p f ss) accs"
  unfolding session_coherent_def
proof (intro allI impI)
  fix i e assume e: "cache' i = Some e" "sc_active e"
  from assms(2) [OF e(1)] assms(1) e(2) obtain s where
    s: "s \<in> set ss" "ses_id s = i" "ses_revoked_at s = None" "ses_user_id s = sc_user_id e"
    and rest: "sc_session_id e = i" "\<exists>a \<in> set accs. acc_id a = sc_user_id e \<and> role_text (acc_role a) = sc_role e"
    unfolding session_coherent_def session_of_user_def by blast
  have "\<not> p s" using assms(2) [OF e(1)] s(1,2) by blast
  with s(1) have "s \<in> set (update_where p f ss)" by (simp add: in_update_where)
  with s rest show "sc_session_id e = i
      \<and> session_of_user i (sc_user_id e) (sc_role e) (update_where p f ss) accs"
    unfolding session_of_user_def by blast
qed

lemma session_of_user_append:
  "session_of_user i u role ss accs \<Longrightarrow> session_of_user i u role (ss @ ts) accs"
  unfolding session_of_user_def by auto

lemma session_coherent_sessions:
  "session_coherent cache ss accs \<Longrightarrow>
     (\<And>j u role. session_of_user j u role ss accs \<Longrightarrow> session_of_user j u role ss' accs) \<Longrightarrow>
     session_coherent cache ss' accs"
  unfolding session_coherent_def by blast

lemma session_coherent_append:
  "session_coherent cache ss accs \<Longrightarrow> session_coherent cache (ss @ ts) accs"
  unfolding session_coherent_def using session_of_user_append by blast

section \<open>The contract\<close>

locale session_store =
  fixes deps :: "'w session_deps"
    and sess :: "'w \<Rightarrow> session list"
    and hist :: "'w \<Rightarrow> refresh_token list"
    and accs :: "'w \<Rightarrow> account list"
    and wf :: "'w \<Rightarrow> bool"
  assumes wf_unique: "wf w \<Longrightarrow> distinct (map ses_id (sess w))"
    and history_law: "sd_find_history deps h w = (Inr (find (\<lambda>t. rt_token_hash t = h) (hist w)), w)"
    and active_law: "sd_find_active deps i w =
      (Inr (find (\<lambda>s. ses_id s = i \<and> ses_revoked_at s = None) (sess w)), w)"
    and by_hash_law: "sd_find_by_hash deps h w =
      (Inr (find (\<lambda>s. ses_refresh_token_hash s = h) (sess w)), w)"
    and account_law: "sd_find_account deps u w = (Inr (find (\<lambda>a. acc_id a = u) (accs w)), w)"
    and revoke_law: "wf w \<Longrightarrow> sd_revoke deps i reason w = (r, w') \<Longrightarrow>
      r = Inr () \<and> wf w' \<and> accs w' = accs w
      \<and> (\<exists>now. sess w' = update_where (\<lambda>s. ses_id s = i \<and> ses_revoked_at s = None)
                (mark_revoked now reason) (sess w))"
    and revoke_all_law: "wf w \<Longrightarrow> sd_revoke_all deps u reason w = (q, w') \<Longrightarrow>
      wf w' \<and> accs w' = accs w
      \<and> (case q of Inl e \<Rightarrow> sess w' = sess w
         | Inr ids \<Rightarrow> ids = map ses_id (filter (is_active_session_of u) (sess w))
             \<and> (\<exists>now. sess w' = update_where (is_active_session_of u) (mark_revoked now reason) (sess w)))"
    and create_law: "wf w \<Longrightarrow> sd_create_exclusive deps u inp w = (c, w') \<Longrightarrow>
      wf w' \<and> accs w' = accs w
      \<and> (case c of Inl e \<Rightarrow> sess w' = sess w
         | Inr res \<Rightarrow>
             sr_revoked_session_ids res = map ses_id (filter (is_active_session_of u) (sess w))
             \<and> ses_user_id (sr_session res) = u \<and> ses_revoked_at (sr_session res) = None
             \<and> ses_id (sr_session res) \<notin> ses_id ` set (sess w)
             \<and> (\<exists>a \<in> set (accs w). acc_id a = u)
             \<and> (\<exists>now. sess w' = update_where (is_active_session_of u) (mark_revoked now NEW_LOGIN) (sess w)
                          @ [sr_session res]))"
    and rotate_law: "wf w \<Longrightarrow> sd_rotate deps i rot w = (c, w') \<Longrightarrow>
      wf w' \<and> accs w' = accs w
      \<and> (case c of Inl e \<Rightarrow> sess w' = sess w
         | Inr res \<Rightarrow>
             ses_id (sr_session res) = i
             \<and> (\<exists>t \<in> set (hist w'). rt_token_hash t = ri_current_token_hash rot
                  \<and> rt_session_id t = i \<and> rt_used_at t \<noteq> None)
             \<and> (\<exists>s f. find (\<lambda>s. ses_id s = i \<and> ses_revoked_at s = None) (sess w) = Some s
                  \<and> sess w' = update_where (\<lambda>r. ses_id r = i) f (sess w)
                  \<and> (\<forall>x. ses_id (f x) = ses_id s \<and> ses_user_id (f x) = ses_user_id s
                         \<and> ses_revoked_at (f x) = None)))"
    and now_law: "\<exists>t. sd_now deps w = (Inr t, w)"

locale session_cache =
  fixes deps :: "'w session_deps"
    and cached :: "'w \<Rightarrow> uuid \<Rightarrow> session_cache_record option"
    and up :: "'w \<Rightarrow> bool"
  assumes get_law: "sd_get_cache deps i w = (g, w') \<Longrightarrow>
      cached w' = cached w \<and> (\<forall>x. g = Inr x \<longrightarrow> x = cached w i)"
    and set_law: "sd_set_cache deps e w = (r, w') \<Longrightarrow> cached w' j = Some y \<Longrightarrow>
      cached w j = Some y \<or> (j = sc_session_id e \<and> same_entry e y)"
    and delete_law: "sd_delete_cache deps i w = (r, w') \<Longrightarrow>
      (\<forall>j y. cached w' j = Some y \<longrightarrow> cached w j = Some y)
      \<and> (r = Inr () \<longrightarrow> cached w' i = None)
      \<and> (\<forall>e. r = Inl e \<longrightarrow> e = StorageUnavailableExn)"
    and delete_up: "up w \<Longrightarrow> sd_delete_cache deps i w = (r, w') \<Longrightarrow> r = Inr () \<and> up w'"

text \<open>Both over one state: each leaves the other's part alone.\<close>

locale session_backend =
  session_store deps sess hist accs wf + session_cache deps cached up
  for deps :: "'w session_deps" and sess hist accs wf cached up +
  assumes cache_frame:
      "sd_get_cache deps i w = (g, w') \<Longrightarrow> sess w' = sess w \<and> hist w' = hist w \<and> accs w' = accs w \<and> wf w' = wf w"
      "sd_set_cache deps e w = (r, w') \<Longrightarrow> sess w' = sess w \<and> hist w' = hist w \<and> accs w' = accs w \<and> wf w' = wf w"
      "sd_delete_cache deps i w = (r, w') \<Longrightarrow> sess w' = sess w \<and> hist w' = hist w \<and> accs w' = accs w \<and> wf w' = wf w"
    and token_frame:
      "sd_new_token deps w = (t, w') \<Longrightarrow>
         sess w' = sess w \<and> hist w' = hist w \<and> accs w' = accs w \<and> wf w' = wf w \<and> cached w' = cached w \<and> up w' = up w"
      "sd_new_csrf deps w = (t, w') \<Longrightarrow>
         sess w' = sess w \<and> hist w' = hist w \<and> accs w' = accs w \<and> wf w' = wf w \<and> cached w' = cached w \<and> up w' = up w"
    and store_frame:
      "sd_revoke deps i reason w = (r, w') \<Longrightarrow> cached w' = cached w \<and> (up w \<longrightarrow> up w')"
      "sd_revoke_all deps u reason w = (q, w') \<Longrightarrow> cached w' = cached w \<and> (up w \<longrightarrow> up w')"
      "sd_create_exclusive deps u inp w = (c, w') \<Longrightarrow> cached w' = cached w \<and> (up w \<longrightarrow> up w')"
      "sd_rotate deps i rot w = (c, w') \<Longrightarrow> cached w' = cached w \<and> (up w \<longrightarrow> up w')"
begin

lemma issue_tokens_run:
  "\<exists>x. issue_tokens deps u role i t csrf w = (Inr x, w) \<and> is_session_id x = i \<and> is_refresh_token x = t"
proof -
  obtain n where "sd_now deps w = (Inr n, w)" using now_law by blast
  then show ?thesis by (simp add: issue_tokens_def run_simps)
qed

text \<open>The paths of a refresh: refused with nothing done, reuse, and rotation up to where it stops.\<close>

definition rotation_path ::
  "string \<Rightarrow> 'w \<Rightarrow> session \<Rightarrow> account \<Rightarrow> instant \<Rightarrow> string \<Rightarrow> 'w \<Rightarrow> exn + session_result \<Rightarrow> 'w \<Rightarrow> bool" where
  "rotation_path token_hash w s a now next_token w1 c w2 \<longleftrightarrow>
     find (\<lambda>x. ses_id x = ses_id s \<and> ses_revoked_at x = None) (sess w) = Some s
     \<and> find (\<lambda>a. acc_id a = ses_user_id s) (accs w) = Some a
     \<and> sd_new_token deps w = (Inr next_token, w1)
     \<and> sd_rotate deps (ses_id s)
         \<lparr>ri_current_token_hash = token_hash, ri_new_token_hash = sd_hash deps next_token,
          ri_new_expires_at = now + SESSION_TTL_MS\<rparr> w1 = (c, w2)"

definition refreshed_entry :: "account \<Rightarrow> session_result \<Rightarrow> session_cache_record" where
  "refreshed_entry a res =
     \<lparr>sc_session_id = ses_id (sr_session res), sc_user_id = acc_id a, sc_role = role_text (acc_role a),
      sc_expires_at = Some (ses_expires_at (sr_session res)), sc_active = True\<rparr>"

lemma refresh_cases:
  assumes run: "refresh deps token w = (r, w')"
  obtains (refused) e where "r = Inl e" "w' = w"
  | (reuse) h q w1 where "find (\<lambda>t. rt_token_hash t = sd_hash deps token) (hist w) = Some h"
      "sd_revoke deps (rt_session_id h) REFRESH_REUSE w = (q, w1)"
      "(\<exists>e. q = Inl e \<and> r = Inl e \<and> w' = w1) \<or>
       (\<exists>x v. q = Inr x \<and> sd_delete_cache deps (rt_session_id h) w1 = (v, w')
          \<and> r = (case v of Inl e \<Rightarrow> Inl e | Inr _ \<Rightarrow> Inl RefreshReuseExn))"
      "\<exists>e. r = Inl e"
  | (no_token) e where "sd_new_token deps w = (Inl e, w')" "r = Inl e"
  | (failed) s a now t w1 e where "rotation_path (sd_hash deps token) w s a now t w1 (Inl e) w'" "r = Inl e"
  | (rotated) s a now t w1 res w2 v where
      "rotation_path (sd_hash deps token) w s a now t w1 (Inr res) w2"
      "sd_set_cache deps (refreshed_entry a res) w2 = (v, w')"
      "\<And>x. r = Inr x \<Longrightarrow> is_session_id x = ses_id (sr_session res)"
proof -
  let ?h = "sd_hash deps token"
  obtain n where n: "sd_now deps w = (Inr n, w)" using now_law by blast
  note eval = refresh_def Let_def run_simps history_law active_law account_law n
  show thesis
  proof (cases "\<exists>h s a. find (\<lambda>t. rt_token_hash t = ?h) (hist w) = Some h \<and> rt_used_at h = None
      \<and> find (\<lambda>s. ses_id s = rt_session_id h \<and> ses_revoked_at s = None) (sess w) = Some s
      \<and> \<not> ses_expires_at s \<le> n \<and> ses_refresh_token_hash s = ?h
      \<and> find (\<lambda>a. acc_id a = ses_user_id s) (accs w) = Some a")
    case False
    show thesis
    proof (cases "\<exists>h. find (\<lambda>t. rt_token_hash t = ?h) (hist w) = Some h \<and> rt_used_at h \<noteq> None")
      case True
      then obtain h where h: "find (\<lambda>t. rt_token_hash t = ?h) (hist w) = Some h" "rt_used_at h \<noteq> None" by blast
      obtain q w1 where rev: "sd_revoke deps (rt_session_id h) REFRESH_REUSE w = (q, w1)" by force
      from run h rev show thesis
        by (intro reuse [OF h(1) rev]) (auto simp: eval split: sum.splits prod.splits)
    next
      case nope: False
      from run False nope have "\<exists>e. r = Inl e \<and> w' = w"
        by (auto simp: eval split: option.splits if_splits)
      with refused show thesis by blast
    qed
  next
    case True
    then obtain h s a where h: "find (\<lambda>t. rt_token_hash t = ?h) (hist w) = Some h" "rt_used_at h = None"
      and s: "find (\<lambda>s. ses_id s = rt_session_id h \<and> ses_revoked_at s = None) (sess w) = Some s"
        "\<not> ses_expires_at s \<le> n" "ses_refresh_token_hash s = ?h"
      and a: "find (\<lambda>a. acc_id a = ses_user_id s) (accs w) = Some a" by blast
    have i: "rt_session_id h = ses_id s" using find_SomeD [OF s(1)] by simp
    obtain t1 w1 where tok: "sd_new_token deps w = (t1, w1)" by force
    show thesis
    proof (cases t1)
      case (Inl e)
      with run h s a tok show thesis by (intro no_token [of e]) (auto simp: eval)
    next
      case (Inr t)
      obtain c w2 where rot: "sd_rotate deps (ses_id s) \<lparr>ri_current_token_hash = ?h,
          ri_new_token_hash = sd_hash deps t, ri_new_expires_at = n + SESSION_TTL_MS\<rparr> w1 = (c, w2)" by force
      have path: "rotation_path ?h w s a n t w1 c w2"
        using s(1) a tok rot Inr i by (simp add: rotation_path_def)
      show thesis
      proof (cases c)
        case (Inl e)
        with run h s a tok \<open>t1 = Inr t\<close> rot path show thesis by (intro failed) (auto simp: eval)
      next
        case (Inr res)
        obtain v w3 where set: "sd_set_cache deps (refreshed_entry a res) w2 = (v, w3)" by force
        have "w' = w3 \<and> (\<forall>x. r = Inr x \<longrightarrow> is_session_id x = ses_id (sr_session res))"
          using run h s a tok \<open>t1 = Inr t\<close> rot Inr set
            issue_tokens_run [of "acc_id a" "role_text (acc_role a)" "ses_id (sr_session res)" t "[]" w3]
          by (auto simp: eval refreshed_entry_def split: sum.splits)
        with path Inr set show thesis by (intro rotated) auto
      qed
    qed
  qed
qed

text \<open>A used token presented again ends its session.\<close>

lemma reuse_revokes:
  assumes "wf w" and h: "find (\<lambda>t. rt_token_hash t = sd_hash deps token) (hist w) = Some h"
    "rt_used_at h \<noteq> None" and run: "refresh deps token w = (r, w')"
  shows "r \<in> {Inl RefreshReuseExn, Inl StorageUnavailableExn}
    \<and> (\<forall>s \<in> set (sess w'). ses_id s = rt_session_id h \<longrightarrow> ses_revoked_at s \<noteq> None)"
proof -
  obtain q w1 where rev: "sd_revoke deps (rt_session_id h) REFRESH_REUSE w = (q, w1)" by force
  obtain v w2 where del: "sd_delete_cache deps (rt_session_id h) w1 = (v, w2)" by force
  from revoke_law [OF assms(1) rev] obtain now where q: "q = Inr ()" "wf w1"
    and ss: "sess w1 = update_where (\<lambda>s. ses_id s = rt_session_id h \<and> ses_revoked_at s = None)
      (mark_revoked now REFRESH_REUSE) (sess w)" by blast
  have dead: "\<forall>s \<in> set (sess w1). ses_id s = rt_session_id h \<longrightarrow> ses_revoked_at s \<noteq> None"
    unfolding ss by (auto simp: in_update_where mark_revoked_def)
  have "r = (case v of Inl e \<Rightarrow> Inl e | Inr x \<Rightarrow> Inl RefreshReuseExn) \<and> w' = w2"
    using run h rev del q by (auto simp: refresh_def Let_def run_simps history_law split: sum.splits)
  with dead cache_frame(3) [OF del] delete_law [OF del] show ?thesis
    by (auto split: sum.splits)
qed

text \<open>A refresh that answers has used the token it was given.\<close>

lemma refresh_success:
  assumes "wf w" and "refresh deps token w = (Inr x, w')"
  shows "(\<exists>h \<in> set (hist w'). rt_token_hash h = sd_hash deps token \<and> rt_used_at h \<noteq> None
           \<and> rt_session_id h = is_session_id x)
    \<and> (\<exists>s \<in> set (sess w). ses_id s = is_session_id x \<and> ses_revoked_at s = None) \<and> wf w'"
  using assms(2)
proof (cases rule: refresh_cases)
  case (rotated s a now t w1 res w2 v)
  then have tok: "sd_new_token deps w = (Inr t, w1)"
    and s: "find (\<lambda>x. ses_id x = ses_id s \<and> ses_revoked_at x = None) (sess w) = Some s"
    and rot: "sd_rotate deps (ses_id s) \<lparr>ri_current_token_hash = sd_hash deps token,
        ri_new_token_hash = sd_hash deps t, ri_new_expires_at = now + SESSION_TTL_MS\<rparr> w1 = (Inr res, w2)"
    by (auto simp: rotation_path_def)
  have "wf w1" using token_frame(1) [OF tok] assms(1) by simp
  from rotate_law [OF this rot] rotated(2,3) cache_frame(2) [OF rotated(2)] find_SomeD [OF s]
  show ?thesis by auto
qed (auto split: sum.splits)

lemma delete_all_up:
  "up w \<Longrightarrow> forM ids (delete_session_cache_best_effort deps) w = (r, w') \<Longrightarrow>
     r = Inr () \<and> up w' \<and> sess w' = sess w \<and> accs w' = accs w \<and> wf w' = wf w
     \<and> (\<forall>j y. cached w' j = Some y \<longrightarrow> cached w j = Some y \<and> j \<notin> set ids)"
proof (induction ids arbitrary: w)
  case Nil
  then show ?case by (simp add: run_simps)
next
  case (Cons i ids)
  obtain v w1 where del: "sd_delete_cache deps i w = (v, w1)" by force
  note d = delete_up [OF Cons.prems(1) del] and l = delete_law [OF del] and f = cache_frame(3) [OF del]
  have "forM ids (delete_session_cache_best_effort deps) w1 = (r, w')"
  proof -
    have "delete_session_cache_best_effort deps i w = (Inr (), w1)"
      using del d by (simp add: delete_session_cache_best_effort_def run_simps)
    with Cons.prems(2) show ?thesis by (simp add: bindM_def)
  qed
  from Cons.IH [OF _ this] d l f show ?case by auto
qed

lemma validate_sound:
  assumes "wf w" and "session_coherent (cached w) (sess w) (accs w)"
    and "validate_session deps i w = (r, w')"
  shows "sess w' = sess w \<and> accs w' = accs w \<and> wf w' = wf w
    \<and> session_coherent (cached w') (sess w') (accs w')
    \<and> (\<forall>p. r = Inr (Some p) \<longrightarrow> pr_session_id p = i
         \<and> session_of_user i (pr_user_id p) (pr_role p) (sess w) (accs w))"
proof -
  obtain g w1 where get: "sd_get_cache deps i w = (g, w1)" by force
  have w1: "sess w1 = sess w" "accs w1 = accs w" "wf w1 = wf w" "cached w1 = cached w"
    "\<And>x. g = Inr x \<Longrightarrow> x = cached w i"
    using get_law [OF get] cache_frame(1) [OF get] by auto
  obtain n where now: "sd_now deps w1 = (Inr n, w1)" using now_law by blast
  have store: "load_session deps i w1 = (Inr entry, w1) \<Longrightarrow>
      (case entry of None \<Rightarrow> returnM None | Some e \<Rightarrow> remember_session deps e) w1 = (r, w') \<Longrightarrow> ?thesis"
    for entry
  proof -
    assume load: "load_session deps i w1 = (Inr entry, w1)"
      and rest: "(case entry of None \<Rightarrow> returnM None | Some e \<Rightarrow> remember_session deps e) w1 = (r, w')"
    show ?thesis
    proof (cases entry)
      case None
      with rest w1 assms show ?thesis by (auto simp: run_simps)
    next
      case (Some e)
      from load Some now obtain s a where
        s: "find (\<lambda>s. ses_id s = i \<and> ses_revoked_at s = None) (sess w) = Some s"
        and a: "find (\<lambda>a. acc_id a = ses_user_id s) (accs w) = Some a"
        and e: "e = \<lparr>sc_session_id = ses_id s, sc_user_id = acc_id a, sc_role = role_text (acc_role a),
                     sc_expires_at = Some (ses_expires_at s), sc_active = True\<rparr>"
        by (auto simp: load_session_def run_simps active_law account_law w1
            split: option.splits if_splits)
      have of_user: "sc_session_id e = i" "session_of_user i (sc_user_id e) (sc_role e) (sess w) (accs w)"
        using find_SomeD [OF s] find_SomeD [OF a] unfolding session_of_user_def e by auto
      obtain v w2 where set: "sd_set_cache deps e w1 = (v, w2)" by force
      have w': "w' = w2" "\<And>p. r = Inr (Some p) \<Longrightarrow>
          pr_user_id p = sc_user_id e \<and> pr_role p = sc_role e \<and> pr_session_id p = sc_session_id e"
        using rest Some set
        by (auto simp: remember_session_def run_simps split: sum.splits if_splits)
      have "session_coherent (cached w2) (sess w) (accs w)"
        by (rule session_coherent_set [OF assms(2) _ of_user(2) [folded of_user(1)]])
          (use set_law [OF set] w1(4) in auto)
      with w' of_user cache_frame(2) [OF set] w1 show ?thesis by auto
    qed
  qed
  have total: "\<exists>entry. load_session deps i w1 = (Inr entry, w1)"
    using now by (auto simp: load_session_def run_simps active_law account_law split: option.splits)
  have miss: ?thesis if "read_session_cache deps i w = (Inr None, w1)"
  proof -
    obtain entry where load: "load_session deps i w1 = (Inr entry, w1)" using total by blast
    with that assms(3) show ?thesis by (intro store [OF load]) (simp add: validate_session_def bindM_def)
  qed
  show ?thesis
  proof (cases g)
    case (Inr x)
    show ?thesis
    proof (cases x)
      case None
      with get Inr show ?thesis by (intro miss) (simp add: read_session_cache_def catchM_def)
    next
      case (Some e)
      with Inr w1(5) have hit: "cached w i = Some e" by simp
      show ?thesis
      proof (cases "sc_active e")
        case True
        with assms(2) hit have "sc_session_id e = i"
          "session_of_user i (sc_user_id e) (sc_role e) (sess w) (accs w)"
          unfolding session_coherent_def by auto
        with assms(2,3) get Inr Some now w1 True show ?thesis
          by (auto simp: validate_session_def read_session_cache_def run_simps split: if_splits)
      next
        case False
        with assms(2,3) get Inr Some now w1 show ?thesis
          by (auto simp: validate_session_def read_session_cache_def run_simps)
      qed
    qed
  next
    case (Inl e)
    show ?thesis
    proof (cases "e = StorageUnavailableExn")
      case True
      with get Inl show ?thesis
        by (intro miss) (simp add: read_session_cache_def catchM_def returnM_def)
    next
      case False
      with assms(2,3) get Inl w1 show ?thesis
        by (auto simp: validate_session_def read_session_cache_def run_simps)
    qed
  qed
qed

lemma logout_coherent:
  assumes "up w" "wf w" and "session_coherent (cached w) (sess w) (accs w)"
    and "logout deps token w = (r, w')"
  shows "r = Inr () \<and> wf w' \<and> up w' \<and> session_coherent (cached w') (sess w') (accs w')
    \<and> (\<forall>s \<in> set (sess w). ses_refresh_token_hash s = sd_hash deps token \<longrightarrow>
         (\<exists>s' \<in> set (sess w). ses_refresh_token_hash s' = sd_hash deps token
            \<and> (\<forall>x \<in> set (sess w'). ses_id x = ses_id s' \<longrightarrow> ses_revoked_at x \<noteq> None)))"
proof (cases "find (\<lambda>s. ses_refresh_token_hash s = sd_hash deps token) (sess w)")
  case None
  then have "\<forall>s \<in> set (sess w). ses_refresh_token_hash s \<noteq> sd_hash deps token"
    by (auto simp: find_None_iff)
  with None assms show ?thesis by (auto simp: logout_def run_simps by_hash_law)
next
  case (Some s)
  note s = find_SomeD [OF Some]
  show ?thesis
  proof (cases "ses_revoked_at s = None")
    case False
    have "x = s" if "x \<in> set (sess w)" "ses_id x = ses_id s" for x
      using distinct_key_eq [OF wf_unique [OF assms(2)] that(1)] s that(2) by blast
    with False s have "\<forall>x \<in> set (sess w). ses_id x = ses_id s \<longrightarrow> ses_revoked_at x \<noteq> None" by auto
    with Some s False assms show ?thesis by (auto simp: logout_def run_simps by_hash_law)
  next
    case True
    obtain q w1 where rev: "sd_revoke deps (ses_id s) LOGOUT w = (q, w1)" by force
    obtain v w2 where del: "sd_delete_cache deps (ses_id s) w1 = (v, w2)" by force
    from revoke_law [OF assms(2) rev] obtain now where q: "q = Inr ()" "wf w1" "accs w1 = accs w"
      and ss: "sess w1 = update_where (\<lambda>x. ses_id x = ses_id s \<and> ses_revoked_at x = None)
        (mark_revoked now LOGOUT) (sess w)" by blast
    have up1: "up w1" "cached w1 = cached w" using store_frame(1) [OF rev] assms(1) by auto
    note d = delete_up [OF up1(1) del] and l = delete_law [OF del] and f = cache_frame(3) [OF del]
    have run: "r = Inr ()" "w' = w2"
      using assms(4) Some True rev q del d by (auto simp: logout_def run_simps by_hash_law)
    have "session_coherent (cached w2) (sess w1) (accs w)"
      unfolding ss using l d up1(2) by (intro session_coherent_revoke [OF assms(3)]) auto
    moreover have "\<forall>x \<in> set (sess w1). ses_id x = ses_id s \<longrightarrow> ses_revoked_at x \<noteq> None"
      unfolding ss by (auto simp: in_update_where mark_revoked_def)
    ultimately show ?thesis using run f q d s by auto
  qed
qed

lemma revoke_all_coherent:
  assumes "up w" "wf w" and "session_coherent (cached w) (sess w) (accs w)"
    and "revoke_all deps u reason w = (r, w')"
  shows "wf w' \<and> up w' \<and> session_coherent (cached w') (sess w') (accs w')"
proof -
  obtain q w1 where rev: "sd_revoke_all deps u reason w = (q, w1)" by force
  note law = revoke_all_law [OF assms(2) rev] and fr = store_frame(2) [OF rev]
  show ?thesis
  proof (cases q)
    case (Inl e)
    with assms rev law fr show ?thesis by (auto simp: revoke_all_def run_simps)
  next
    case (Inr ids)
    from law Inr obtain now where ids: "ids = map ses_id (filter (is_active_session_of u) (sess w))"
      and w1: "wf w1" "accs w1 = accs w"
        "sess w1 = update_where (is_active_session_of u) (mark_revoked now reason) (sess w)" by auto
    have "forM ids (delete_session_cache_best_effort deps) w1 = (r, w')"
      using assms(4) rev Inr by (simp add: revoke_all_def run_simps)
    from delete_all_up [OF _ this] fr assms(1) have d: "up w'" "sess w' = sess w1" "accs w' = accs w1"
      "wf w' = wf w1" "\<forall>j y. cached w' j = Some y \<longrightarrow> cached w j = Some y \<and> j \<notin> set ids" by auto
    have "session_coherent (cached w') (sess w1) (accs w)"
      unfolding w1(3) using d(5) ids by (intro session_coherent_revoke [OF assms(3)]) auto
    with d w1 show ?thesis by simp
  qed
qed

lemma login_coherent:
  assumes "up w" "wf w" and "session_coherent (cached w) (sess w) (accs w)"
    and role: "\<forall>a \<in> set (accs w). acc_id a = u \<longrightarrow> role_text (acc_role a) = role"
    and "create_session_after_login deps u role w = (r, w')"
  shows "wf w' \<and> session_coherent (cached w') (sess w') (accs w')"
proof -
  obtain t w1 where tok: "sd_new_token deps w = (t, w1)" by force
  obtain k w2 where csrf: "sd_new_csrf deps w1 = (k, w2)" by force
  note f = token_frame(1) [OF tok] token_frame(2) [OF csrf]
  have w2: "up w2" "wf w2" "session_coherent (cached w2) (sess w2) (accs w2)" "accs w2 = accs w"
    "wf w1" "session_coherent (cached w1) (sess w1) (accs w1)" using f assms by auto
  show ?thesis
  proof (cases "(\<exists>e. t = Inl e) \<or> (\<exists>e. k = Inl e)")
    case True
    with assms(5) tok csrf w2 show ?thesis
      by (cases t) (auto simp: create_session_after_login_def run_simps)
  next
    case False
    then obtain t' k' where tk: "t = Inr t'" "k = Inr k'" by (cases t; cases k) auto
    obtain n where now: "sd_now deps w2 = (Inr n, w2)" using now_law by blast
    let ?inp = "\<lparr>si_refresh_token_hash = sd_hash deps t', si_csrf_token_hash = sd_hash deps k',
                 si_expires_at = n + SESSION_TTL_MS\<rparr>"
    obtain c w3 where cr: "sd_create_exclusive deps u ?inp w2 = (c, w3)" by force
    note law = create_law [OF w2(2) cr] and fr = store_frame(3) [OF cr]
    show ?thesis
    proof (cases c)
      case (Inl e)
      with assms(5) tok csrf tk now cr law fr w2 show ?thesis
        by (auto simp: create_session_after_login_def run_simps)
    next
      case (Inr res)
      let ?p = "is_active_session_of u" and ?s = "sr_session res"
      from law Inr obtain m where l: "wf w3" "accs w3 = accs w2"
        "sr_revoked_session_ids res = map ses_id (filter ?p (sess w2))"
        "ses_user_id ?s = u" "ses_revoked_at ?s = None" "\<exists>a \<in> set (accs w2). acc_id a = u"
        "sess w3 = update_where ?p (mark_revoked m NEW_LOGIN) (sess w2) @ [?s]" by auto
      obtain v w4 where del: "forM (sr_revoked_session_ids res) (delete_session_cache_best_effort deps) w3
          = (v, w4)" by force
      from delete_all_up [OF _ del] fr w2(1) have d: "v = Inr ()" "sess w4 = sess w3" "accs w4 = accs w3"
        "wf w4 = wf w3" "\<forall>j y. cached w4 j = Some y \<longrightarrow> cached w2 j = Some y
          \<and> j \<notin> set (sr_revoked_session_ids res)" by auto
      have "session_coherent (cached w4) (update_where ?p (mark_revoked m NEW_LOGIN) (sess w2)) (accs w2)"
        using d(5) l(3) by (intro session_coherent_revoke [OF w2(3)]) auto
      then have coh: "session_coherent (cached w4) (sess w3) (accs w2)"
        unfolding l(7) by (rule session_coherent_append)
      let ?e = "\<lparr>sc_session_id = ses_id ?s, sc_user_id = u, sc_role = role,
                 sc_expires_at = Some (ses_expires_at ?s), sc_active = True\<rparr>"
      obtain z w5 where set: "sd_set_cache deps ?e w4 = (z, w5)" by force
      have "session_of_user (ses_id ?s) u role (sess w3) (accs w2)"
        using l role w2(4) unfolding session_of_user_def by auto
      then have coh5: "session_coherent (cached w5) (sess w3) (accs w2)"
        by (intro session_coherent_set [OF coh, of _ ?e]) (use set_law [OF set] in auto)
      have "w' = w5"
        using assms(5) tok csrf tk now cr Inr del d(1) set
          issue_tokens_run [of u role "ses_id ?s" t' k' w5]
        by (auto simp: create_session_after_login_def run_simps split: sum.splits)
      with coh5 cache_frame(2) [OF set] d l show ?thesis by simp
    qed
  qed
qed

lemma session_of_user_rotate:
  assumes "wf w" and s: "find (\<lambda>s. ses_id s = i \<and> ses_revoked_at s = None) (sess w) = Some s"
    and f: "\<And>x. ses_id (f x) = ses_id s \<and> ses_user_id (f x) = ses_user_id s \<and> ses_revoked_at (f x) = None"
    and "session_of_user j u role (sess w) al"
  shows "session_of_user j u role (update_where (\<lambda>r. ses_id r = i) f (sess w)) al"
proof -
  note s' = find_SomeD [OF s]
  from assms(4) obtain x where x: "x \<in> set (sess w)" "ses_id x = j" "ses_revoked_at x = None" "ses_user_id x = u"
    and a: "\<exists>a \<in> set al. acc_id a = u \<and> role_text (acc_role a) = role"
    unfolding session_of_user_def by blast
  have "\<exists>y \<in> set (update_where (\<lambda>r. ses_id r = i) f (sess w)).
      ses_id y = j \<and> ses_revoked_at y = None \<and> ses_user_id y = u"
  proof (cases "j = i")
    case True
    then have "x = s" using distinct_key_eq [OF wf_unique [OF assms(1)] x(1)] s' x(2) by simp
    with x s' f True show ?thesis by (intro bexI [of _ "f s"]) (auto simp: in_update_where)
  next
    case False
    with x show ?thesis by (intro bexI [of _ x]) (auto simp: in_update_where)
  qed
  with a show ?thesis unfolding session_of_user_def by blast
qed

lemma rotated_coherent:
  assumes "wf w" and coh: "session_coherent (cached w) (sess w) (accs w)"
    and path: "rotation_path token_hash w s a now t w1 (Inr res) w2"
    and set: "sd_set_cache deps (refreshed_entry a res) w2 = (v, w3)"
  shows "wf w3 \<and> session_coherent (cached w3) (sess w3) (accs w3)"
proof -
  from path have s: "find (\<lambda>x. ses_id x = ses_id s \<and> ses_revoked_at x = None) (sess w) = Some s"
    and a: "find (\<lambda>a. acc_id a = ses_user_id s) (accs w) = Some a"
    and tok: "sd_new_token deps w = (Inr t, w1)"
    and rot: "sd_rotate deps (ses_id s) \<lparr>ri_current_token_hash = token_hash,
        ri_new_token_hash = sd_hash deps t, ri_new_expires_at = now + SESSION_TTL_MS\<rparr> w1 = (Inr res, w2)"
    by (auto simp: rotation_path_def)
  note f1 = token_frame(1) [OF tok]
  have wf1: "wf w1" using f1 assms(1) by simp
  from rotate_law [OF wf1 rot] obtain s2 f where
    s2: "find (\<lambda>x. ses_id x = ses_id s \<and> ses_revoked_at x = None) (sess w1) = Some s2"
    and ss: "sess w2 = update_where (\<lambda>r. ses_id r = ses_id s) f (sess w1)"
    and f: "\<And>x. ses_id (f x) = ses_id s2 \<and> ses_user_id (f x) = ses_user_id s2 \<and> ses_revoked_at (f x) = None"
    and w2: "wf w2" "accs w2 = accs w1" "ses_id (sr_session res) = ses_id s" by auto
  have keep: "session_of_user j u role (sess w1) al \<Longrightarrow> session_of_user j u role (sess w2) al" for j u role al
    unfolding ss by (rule session_of_user_rotate [OF wf1 s2 f])
  have same: "cached w2 = cached w" using f1 store_frame(4) [OF rot] by simp
  have coh2: "session_coherent (cached w2) (sess w2) (accs w2)"
  proof (rule session_coherent_sessions [of _ "sess w1"])
    show "session_coherent (cached w2) (sess w1) (accs w2)"
      using coh f1 w2(2) same by simp
  qed (rule keep)
  have "session_of_user (ses_id s) (acc_id a) (role_text (acc_role a)) (sess w1) (accs w1)"
    using find_SomeD [OF s] find_SomeD [OF a] f1 unfolding session_of_user_def by auto
  from keep [OF this] have "session_of_user (ses_id s) (acc_id a) (role_text (acc_role a)) (sess w2) (accs w2)"
    using w2 by simp
  then have "session_coherent (cached w3) (sess w2) (accs w2)"
    by (intro session_coherent_set [OF coh2, of _ "refreshed_entry a res"])
      (use set_law [OF set] w2(3) in \<open>auto simp: refreshed_entry_def\<close>)
  with cache_frame(2) [OF set] w2 show ?thesis by simp
qed

lemma refresh_coherent:
  assumes "up w" "wf w" and coh: "session_coherent (cached w) (sess w) (accs w)"
    and "refresh deps token w = (r, w')"
  shows "wf w' \<and> session_coherent (cached w') (sess w') (accs w')"
  using assms(4)
proof (cases rule: refresh_cases)
  case (refused e)
  with assms show ?thesis by simp
next
  case (reuse h q w1)
  from revoke_law [OF assms(2) reuse(2)] obtain now where q: "q = Inr ()" "wf w1" "accs w1 = accs w"
    and ss: "sess w1 = update_where (\<lambda>s. ses_id s = rt_session_id h \<and> ses_revoked_at s = None)
      (mark_revoked now REFRESH_REUSE) (sess w)" by blast
  with reuse(3) obtain v where del: "sd_delete_cache deps (rt_session_id h) w1 = (v, w')" by auto
  have up1: "up w1" "cached w1 = cached w" using store_frame(1) [OF reuse(2)] assms(1) by auto
  note d = delete_up [OF up1(1) del] and l = delete_law [OF del] and f = cache_frame(3) [OF del]
  have "session_coherent (cached w') (sess w1) (accs w)"
    unfolding ss using l d up1(2) by (intro session_coherent_revoke [OF coh]) auto
  with f q show ?thesis by simp
next
  case (no_token e)
  with token_frame(1) [OF no_token(1)] assms show ?thesis by simp
next
  case (failed s a now t w1 e)
  then have tok: "sd_new_token deps w = (Inr t, w1)"
    and rot: "sd_rotate deps (ses_id s) \<lparr>ri_current_token_hash = sd_hash deps token,
        ri_new_token_hash = sd_hash deps t, ri_new_expires_at = now + SESSION_TTL_MS\<rparr> w1 = (Inl e, w')"
    by (auto simp: rotation_path_def)
  note f1 = token_frame(1) [OF tok]
  with rotate_law [OF _ rot] store_frame(4) [OF rot] assms show ?thesis by simp
next
  case (rotated s a now t w1 res w2 v)
  from rotated_coherent [OF assms(2) coh rotated(1,2)] show ?thesis .
qed

end

end
