(* ===== verification/SessionApp.thy ===== *)
theory SessionApp
  imports SessionBackend
begin

text \<open>
  The session service over PostgreSQL and Redis: the contract holds of the modelled repository and
  session cache, and what follows for refresh tokens and validated sessions.
\<close>

section \<open>Runs of the operations\<close>

lemma safe_run: "safe m w = (case m w of (Inl e, w') \<Rightarrow> (Inl StorageUnavailableExn, w') | (Inr x, w') \<Rightarrow> (Inr x, w'))"
  by (simp add: safe_def run_simps split: prod.splits sum.splits)

lemma safe_redis_cases:
  assumes "safe (redis_call cmd) w = (r, w')"
  shows "(\<exists>x s. r = Inr x \<and> cmd (w_clock w) (w_redis w) = Some (x, s)
            \<and> w' = w\<lparr>w_net := tl (w_net w), w_redis := s\<rparr>)
       \<or> (r = Inl StorageUnavailableExn \<and> w' = w\<lparr>w_net := tl (w_net w)\<rparr>)
       \<or> (r = Inl StorageUnavailableExn \<and> (\<exists>x s. cmd (w_clock w) (w_redis w) = Some (x, s)
            \<and> w' = w\<lparr>w_net := tl (w_net w), w_redis := s\<rparr>))"
proof -
  obtain q v where q: "redis_call cmd w = (q, v)" by force
  with assms have "w' = v" "r = (case q of Inl e \<Rightarrow> Inl StorageUnavailableExn | Inr x \<Rightarrow> Inr x)"
    by (auto simp: safe_run split: sum.splits)
  with redis_call_cases [OF q] show ?thesis by auto
qed

lemma safe_redis_up:
  "w_net w = [] \<Longrightarrow> cmd (w_clock w) (w_redis w) = Some (x, s) \<Longrightarrow>
     safe (redis_call cmd) w = (Inr x, w\<lparr>w_redis := s\<rparr>)"
  by (simp add: safe_run redis_call_up)

lemma account_by_id_exists: "u \<in> acc_id ` set (accounts d) \<Longrightarrow> \<exists>a. account_by_id u d = Some a"
  by (cases "account_by_id u d") (auto simp: account_by_id_def dest: find_NoneD)

lemma revoke_session_run:
  assumes "auth_wf d"
  shows "revoke_session now i reason d = (Inr (), d\<lparr>sessions :=
    update_where (\<lambda>s. ses_id s = i \<and> ses_revoked_at s = None) (mark_revoked now reason) (sessions d)\<rparr>)"
proof -
  have "revoke_session now i reason d = revoke_locked now i reason d"
  proof (cases "session_by_id i d")
    case None
    then show ?thesis by (simp add: revoke_session_def revoke_locked_def transaction_def run_simps)
  next
    case (Some s)
    then have "ses_user_id s \<in> acc_id ` set (accounts d)"
      using auth_wf_parts(10) [OF assms] session_by_id_SomeD [OF Some] by (auto simp: auth_keys_def)
    then obtain a where "account_by_id (ses_user_id s) d = Some a"
      using account_by_id_exists by blast
    with Some revoke_locked_run [OF assms, of now i reason] show ?thesis
      by (auto simp: revoke_session_def transaction_def thenM_def bindM_def getsM_def lock_account_def
          returnM_def revoke_locked_def split: option.splits)
  qed
  with revoke_locked_run [OF assms] show ?thesis by simp
qed

lemma revoke_all_sessions_cases:
  assumes "revoke_all_sessions now u reason d = (q, d')"
  shows "(\<exists>e. q = Inl e \<and> d' = d)
    \<or> (q = Inr (map ses_id (filter (is_active_session_of u) (sessions d))) \<and> d' = revoked_db now u reason d)"
  using assms
  by (auto simp: revoke_all_sessions_def transaction_def lock_account_def thenM_def bindM_def getsM_def
      throwM_def returnM_def revoke_active_sessions_run split: option.splits)

lemma rotate_refresh_token_cases:
  assumes wf: "auth_wf d" and run: "rotate_refresh_token j now i rot d = (c, d')"
  shows "(\<exists>e. c = Inl e \<and> d' = d)
    \<or> (\<exists>res s t. c = Inr res \<and> session_by_id i d = Some s \<and> ses_revoked_at s = None
         \<and> ses_refresh_token_hash s = ri_current_token_hash rot
         \<and> usable_token i (ri_current_token_hash rot) d = Some t
         \<and> d' = rotated_db j now rot s t d \<and> sr_session res = rotated_session now rot s)"
proof (cases c)
  case (Inl e)
  with run have "d' = d" unfolding rotate_refresh_token_def by (auto dest: transaction_Inl)
  with Inl show ?thesis by blast
next
  case (Inr res)
  from run [unfolded Inr rotate_refresh_token_def transaction_Inr] obtain u
    where "thenM (lock_account u) (rotate_locked j now i rot) d = (Inr res, d')"
    by (auto simp: bindM_def getsM_def throwM_def split: option.splits if_splits)
  note lock_then_run [OF this]
  from rotate_locked_cases [OF wf this] Inr show ?thesis by metis
qed

section \<open>The session cache\<close>

definition cached_sessions :: "world \<Rightarrow> uuid \<Rightarrow> session_cache_record option" where
  "cached_sessions w i =
     (case redis_get (w_clock w) (session_key i) (w_redis w) of
        Some (RJson payload) \<Rightarrow> Some (parse_session_cache payload)
      | _ \<Rightarrow> None)"

lemma session_key_inject [simp]: "session_key i = session_key j \<longleftrightarrow> i = j"
  by (simp add: session_key_def)

lemma parse_session_payload: "same_entry e (parse_session_cache (session_payload e t))"
  by (simp add: same_entry_def parse_session_cache_def session_payload_def json_text_def)

lemma cached_sessions_frame:
  "w_clock w' = w_clock w \<Longrightarrow> w_redis w' = w_redis w \<Longrightarrow> cached_sessions w' = cached_sessions w"
  by (rule ext) (simp add: cached_sessions_def)

definition untouched :: "world \<Rightarrow> world \<Rightarrow> bool" where
  "untouched w w' \<longleftrightarrow> w_db w' = w_db w \<and> w_clock w' = w_clock w"

lemma get_session_cache_law:
  assumes "get_session_cache i w = (g, w')"
  shows "untouched w w' \<and> w_redis w' = w_redis w \<and> (\<forall>x. g = Inr x \<longrightarrow> x = cached_sessions w i)"
proof -
  obtain q v where q: "safe (redis_service_get (session_key i)) w = (q, v)" by force
  from safe_redis_cases [OF q [unfolded redis_service_get_def]] have v: "untouched w v" "w_redis v = w_redis w"
    "\<And>x. q = Inr x \<Longrightarrow> x = redis_get (w_clock w) (session_key i) (w_redis w)"
    by (auto simp: untouched_def)
  with assms q show ?thesis
    by (auto simp: get_session_cache_def run_simps cached_sessions_def
        split: sum.splits option.splits redis_value.splits)
qed

lemma set_session_cache_law:
  assumes "set_session_cache e w = (r, w')"
  shows "untouched w w'"
    and "cached_sessions w' j = Some y \<Longrightarrow>
      cached_sessions w j = Some y \<or> (j = sc_session_id e \<and> same_entry e y)"
proof -
  have "untouched w w' \<and> (w_redis w' = w_redis w \<or> (\<exists>t. w_redis w' = redis_set (w_clock w)
      (session_key (sc_session_id e)) (RJson (session_payload e t))
      (Some (cache_ttl_seconds (w_clock w) t)) (w_redis w)))"
  proof (cases "sc_expires_at e")
    case None
    with assms show ?thesis
      by (auto simp: set_session_cache_def now_io_def run_simps untouched_def)
  next
    case (Some t)
    with assms have "safe (redis_service_set (session_key (sc_session_id e))
        (RJson (session_payload e t)) (Some (cache_ttl_seconds (w_clock w) t))) w = (r, w')"
      by (simp add: set_session_cache_def now_io_def run_simps)
    from safe_redis_cases [OF this [unfolded redis_service_set_def]] show ?thesis
      by (auto simp: untouched_def)
  qed
  then have w': "untouched w w'" and cache: "w_redis w' = w_redis w \<or> (\<exists>t. w_redis w' = redis_set (w_clock w)
      (session_key (sc_session_id e)) (RJson (session_payload e t))
      (Some (cache_ttl_seconds (w_clock w) t)) (w_redis w))" by auto
  show "untouched w w'" by (rule w')
  assume y: "cached_sessions w' j = Some y"
  show "cached_sessions w j = Some y \<or> (j = sc_session_id e \<and> same_entry e y)"
  proof (cases "j = sc_session_id e")
    case True
    with y cache w' parse_session_payload show ?thesis
      by (auto simp: cached_sessions_def untouched_def split: if_splits)
  next
    case False
    with y cache w' show ?thesis by (auto simp: cached_sessions_def untouched_def)
  qed
qed

lemma delete_session_cache_law:
  assumes "delete_session_cache i w = (r, w')"
  shows "untouched w w'"
    and "cached_sessions w' j = Some y \<Longrightarrow> cached_sessions w j = Some y"
    and "r = Inr () \<Longrightarrow> cached_sessions w' i = None"
    and "r = Inl e \<Longrightarrow> e = StorageUnavailableExn"
proof -
  note cases = safe_redis_cases [OF assms [unfolded delete_session_cache_def redis_service_del_def]]
  from cases show "untouched w w'" "r = Inl e \<Longrightarrow> e = StorageUnavailableExn"
    by (auto simp: untouched_def)
  from cases have "w_redis w' = w_redis w \<or> w_redis w' = redis_del (session_key i) (w_redis w)"
    and "w_clock w' = w_clock w" by auto
  then show "cached_sessions w' j = Some y \<Longrightarrow> cached_sessions w j = Some y"
    by (cases "i = j") (auto simp: cached_sessions_def)
  from cases show "r = Inr () \<Longrightarrow> cached_sessions w' i = None"
    by (auto simp: cached_sessions_def)
qed

lemma delete_session_cache_up:
  assumes "w_net w = []" and "delete_session_cache i w = (r, w')"
  shows "r = Inr () \<and> w_net w' = []"
  using assms safe_redis_up [OF assms(1), of "\<lambda>now s. Some ((), redis_del (session_key i) s)"]
  by (auto simp: delete_session_cache_def redis_service_del_def)

section \<open>The contract holds\<close>

lemma create_exclusive_session_io_cases:
  assumes wf: "auth_wf (w_db w)" and run: "create_exclusive_session_io u inp w = (c, w')"
  shows "auth_wf (w_db w') \<and> accounts (w_db w') = accounts (w_db w)
    \<and> w_redis w' = w_redis w \<and> w_clock w' = w_clock w \<and> w_net w' = w_net w
    \<and> (case c of Inl e \<Rightarrow> sessions (w_db w') = sessions (w_db w)
       | Inr res \<Rightarrow>
           sr_revoked_session_ids res = map ses_id (filter (is_active_session_of u) (sessions (w_db w)))
           \<and> ses_user_id (sr_session res) = u \<and> ses_revoked_at (sr_session res) = None
           \<and> ses_id (sr_session res) \<notin> ses_id ` set (sessions (w_db w))
           \<and> (\<exists>a \<in> set (accounts (w_db w)). acc_id a = u)
           \<and> (\<exists>now. sessions (w_db w') = update_where (is_active_session_of u)
                (mark_revoked now NEW_LOGIN) (sessions (w_db w)) @ [sr_session res]))"
proof -
  from run obtain i j where "create_exclusive_session i j (w_clock w) u inp (w_db w) = (c, w_db w')"
    and frame: "w_redis w' = w_redis w" "w_clock w' = w_clock w" "w_net w' = w_net w"
    by (auto simp: create_exclusive_session_io_def draw_string_def now_io_def db_op_def run_simps
        split: prod.splits)
  from wp_run [OF create_exclusive_session_wp [OF wf] this(1)] frame show ?thesis
    by (auto simp: revoked_db_def split: sum.splits)
qed

lemma rotate_refresh_token_io_cases:
  assumes wf: "auth_wf (w_db w)" and run: "rotate_refresh_token_io i rot w = (c, w')"
  shows "auth_wf (w_db w') \<and> accounts (w_db w') = accounts (w_db w)
    \<and> w_redis w' = w_redis w \<and> w_clock w' = w_clock w \<and> w_net w' = w_net w
    \<and> (case c of Inl e \<Rightarrow> sessions (w_db w') = sessions (w_db w)
       | Inr res \<Rightarrow> ses_id (sr_session res) = i
           \<and> (\<exists>t \<in> set (refresh_tokens (w_db w')). rt_token_hash t = ri_current_token_hash rot
                \<and> rt_session_id t = i \<and> rt_used_at t \<noteq> None)
           \<and> (\<exists>s f. find (\<lambda>s. ses_id s = i \<and> ses_revoked_at s = None) (sessions (w_db w)) = Some s
                \<and> sessions (w_db w') = update_where (\<lambda>r. ses_id r = i) f (sessions (w_db w))
                \<and> (\<forall>x. ses_id (f x) = ses_id s \<and> ses_user_id (f x) = ses_user_id s
                       \<and> ses_revoked_at (f x) = None)))"
proof -
  from run obtain j where rot: "rotate_refresh_token j (w_clock w) i rot (w_db w) = (c, w_db w')"
    and frame: "w_redis w' = w_redis w" "w_clock w' = w_clock w" "w_net w' = w_net w"
    by (auto simp: rotate_refresh_token_io_def draw_string_def now_io_def db_op_def run_simps
        split: prod.splits)
  have wf': "auth_wf (w_db w')" using auth_safeD [OF rotate_refresh_token_safe wf rot] by blast
  from rotate_refresh_token_cases [OF wf rot] show ?thesis
  proof (elim disjE exE conjE)
    fix e assume "c = Inl e" "w_db w' = w_db w"
    with wf' frame show ?thesis by simp
  next
    fix res s t
    assume c: "c = Inr res" and s: "session_by_id i (w_db w) = Some s" "ses_revoked_at s = None"
      and t: "usable_token i (ri_current_token_hash rot) (w_db w) = Some t"
      and d: "w_db w' = rotated_db j (w_clock w) rot s t (w_db w)"
      and res: "sr_session res = rotated_session (w_clock w) rot s"
    note sD = session_by_id_SomeD [OF s(1)] and tD = usable_token_SomeD [OF t]
    have "find (\<lambda>s. ses_id s = i \<and> ses_revoked_at s = None) (sessions (w_db w)) = Some s"
    proof (cases "find (\<lambda>s. ses_id s = i \<and> ses_revoked_at s = None) (sessions (w_db w))")
      case None
      with sD s(2) show ?thesis by (auto dest: find_NoneD)
    next
      case (Some x)
      with find_SomeD [OF Some] sD distinct_key_eq [OF auth_wf_parts(1) [OF wf], of x s]
      show ?thesis by simp
    qed
    moreover have "\<exists>x \<in> set (refresh_tokens (w_db w')). rt_token_hash x = ri_current_token_hash rot
        \<and> rt_session_id x = i \<and> rt_used_at x \<noteq> None"
      using update_by_key [OF auth_wf_parts(2) [OF wf] tD [THEN conjunct1]] tD
      by (intro bexI [of _ "t\<lparr>rt_used_at := Some (w_clock w)\<rparr>"]) (auto simp: d rotated_db_def)
    ultimately show ?thesis
      using wf' frame c d res sD s(2)
      by (auto simp: rotated_db_def rotated_session_def)
  qed
qed

lemma db_only_frame:
  "db_op m w = (r, w') \<Longrightarrow> w_redis w' = w_redis w \<and> w_clock w' = w_clock w \<and> w_net w' = w_net w"
  by (auto simp: db_op_def split: prod.splits)

lemma revoke_session_io_law:
  assumes wf: "auth_wf (w_db w)" and run: "revoke_session_io i reason w = (r, w')"
  shows "r = Inr () \<and> auth_wf (w_db w') \<and> accounts (w_db w') = accounts (w_db w)
    \<and> sessions (w_db w') = update_where (\<lambda>s. ses_id s = i \<and> ses_revoked_at s = None)
        (mark_revoked (w_clock w) reason) (sessions (w_db w))
    \<and> w_redis w' = w_redis w \<and> w_clock w' = w_clock w \<and> w_net w' = w_net w"
proof -
  from run have d: "revoke_session (w_clock w) i reason (w_db w) = (r, w_db w')"
    and "w_redis w' = w_redis w \<and> w_clock w' = w_clock w \<and> w_net w' = w_net w"
    by (auto simp: revoke_session_io_def now_io_def run_simps db_op_def split: prod.splits)
  moreover from auth_safeD [OF revoke_session_safe wf d] have "auth_wf (w_db w')" by blast
  moreover have "r = Inr ()"
    "w_db w' = w_db w\<lparr>sessions := update_where (\<lambda>s. ses_id s = i \<and> ses_revoked_at s = None)
        (mark_revoked (w_clock w) reason) (sessions (w_db w))\<rparr>"
    using d by (simp_all add: revoke_session_run [OF wf])
  ultimately show ?thesis by simp
qed

lemma revoke_all_sessions_io_law:
  assumes wf: "auth_wf (w_db w)" and run: "revoke_all_sessions_io u reason w = (q, w')"
  shows "auth_wf (w_db w') \<and> accounts (w_db w') = accounts (w_db w)
    \<and> (case q of Inl e \<Rightarrow> sessions (w_db w') = sessions (w_db w)
       | Inr ids \<Rightarrow> ids = map ses_id (filter (is_active_session_of u) (sessions (w_db w)))
           \<and> (\<exists>now. sessions (w_db w') = update_where (is_active_session_of u) (mark_revoked now reason)
                      (sessions (w_db w))))
    \<and> w_redis w' = w_redis w \<and> w_clock w' = w_clock w \<and> w_net w' = w_net w"
proof -
  from run have d: "revoke_all_sessions (w_clock w) u reason (w_db w) = (q, w_db w')"
    and "w_redis w' = w_redis w \<and> w_clock w' = w_clock w \<and> w_net w' = w_net w"
    by (auto simp: revoke_all_sessions_io_def now_io_def run_simps db_op_def split: prod.splits)
  moreover from auth_safeD [OF revoke_all_sessions_safe wf d] have "auth_wf (w_db w')" by blast
  ultimately show ?thesis
    using revoke_all_sessions_cases [OF d] by (auto simp: revoked_db_def)
qed

interpretation app_session: session_backend "app_sessions cfg"
  "\<lambda>w. sessions (w_db w)" "\<lambda>w. refresh_tokens (w_db w)" "\<lambda>w. accounts (w_db w)"
  "\<lambda>w. auth_wf (w_db w)" cached_sessions "\<lambda>w. w_net w = []" for cfg
proof (unfold_locales, goal_cases)
  case (1 w)
  then show ?case by (rule auth_wf_parts)
next
  case (2 h w)
  show ?case by (simp add: app_sessions_def db_op_def find_refresh_token_history_by_hash_def getsM_def)
next
  case (3 i w)
  show ?case by (simp add: app_sessions_def db_op_def find_active_session_by_id_def getsM_def)
next
  case (4 h w)
  show ?case by (simp add: app_sessions_def db_op_def find_session_by_refresh_token_hash_def getsM_def)
next
  case (5 u w)
  show ?case by (simp add: app_sessions_def db_op_def find_account_by_id_def getsM_def account_by_id_def)
next
  case (6 w i reason r w')
  then show ?case using revoke_session_io_law [of w i reason r w'] by (simp add: app_sessions_def) blast
next
  case (7 w u reason q w')
  then show ?case using revoke_all_sessions_io_law [of w u reason q w'] by (simp add: app_sessions_def)
next
  case (8 w u inp c w')
  then show ?case using create_exclusive_session_io_cases [of w u inp c w'] by (simp add: app_sessions_def)
next
  case (9 w i rot c w')
  then show ?case using rotate_refresh_token_io_cases [of w i rot c w'] by (simp add: app_sessions_def)
next
  case (10 w)
  show ?case by (simp add: app_sessions_def now_io_def getsM_def)
next
  case (11 i w g w')
  then have "get_session_cache i w = (g, w')" by (simp add: app_sessions_def)
  note law = get_session_cache_law [OF this, unfolded untouched_def]
  then have "cached_sessions w' = cached_sessions w" by (intro cached_sessions_frame) auto
  with law show ?case by blast
next
  case (12 e w r w' j y)
  then show ?case using set_session_cache_law(2) [of e w r w' j y] by (simp add: app_sessions_def)
next
  case (13 i w r w')
  then have del: "delete_session_cache i w = (r, w')" by (simp add: app_sessions_def)
  show ?case using delete_session_cache_law(2-4) [OF del] by blast
next
  case (14 w i r w')
  then show ?case using delete_session_cache_up [of w i r w'] by (simp add: app_sessions_def)
next
  case (15 i w g w')
  then show ?case using get_session_cache_law [of i w g w'] by (simp add: app_sessions_def untouched_def)
next
  case (16 e w r w')
  then show ?case using set_session_cache_law(1) [of e w r w'] by (simp add: app_sessions_def untouched_def)
next
  case (17 i w r w')
  then show ?case using delete_session_cache_law(1) [of i w r w'] by (simp add: app_sessions_def untouched_def)
next
  case (18 w t w')
  then have "w' = w\<lparr>w_drawn := Suc (w_drawn w)\<rparr>"
    by (simp add: app_sessions_def generate_refresh_token_def generate_opaque_token_def draw_string_def)
  then show ?case using cached_sessions_frame [of w' w] by simp
next
  case (19 w t w')
  then have "w' = w\<lparr>w_drawn := Suc (w_drawn w)\<rparr>"
    by (simp add: app_sessions_def generate_csrf_token_def generate_opaque_token_def draw_string_def)
  then show ?case using cached_sessions_frame [of w' w] by simp
next
  case (20 i reason w r w')
  then have "w_redis w' = w_redis w \<and> w_clock w' = w_clock w \<and> w_net w' = w_net w"
    by (auto simp: app_sessions_def revoke_session_io_def now_io_def run_simps db_op_def split: prod.splits)
  then show ?case using cached_sessions_frame [of w' w] by simp
next
  case (21 u reason w q w')
  then have "w_redis w' = w_redis w \<and> w_clock w' = w_clock w \<and> w_net w' = w_net w"
    by (auto simp: app_sessions_def revoke_all_sessions_io_def now_io_def run_simps db_op_def split: prod.splits)
  then show ?case using cached_sessions_frame [of w' w] by simp
next
  case (22 u inp w c w')
  then have "w_redis w' = w_redis w \<and> w_clock w' = w_clock w \<and> w_net w' = w_net w"
    by (auto simp: app_sessions_def create_exclusive_session_io_def draw_string_def now_io_def run_simps
        db_op_def split: prod.splits)
  then show ?case using cached_sessions_frame [of w' w] by simp
next
  case (23 i rot w c w')
  then have "w_redis w' = w_redis w \<and> w_clock w' = w_clock w \<and> w_net w' = w_net w"
    by (auto simp: app_sessions_def rotate_refresh_token_io_def draw_string_def now_io_def run_simps
        db_op_def split: prod.splits)
  then show ?case using cached_sessions_frame [of w' w] by simp
qed

section \<open>Refresh tokens\<close>

lemma used_token_stays:
  assumes wf: "auth_wf d" and leads: "auth_leads d d'"
    and h: "h \<in> set (refresh_tokens d)" "rt_used_at h \<noteq> None"
  shows "find (\<lambda>t. rt_token_hash t = rt_token_hash h) (refresh_tokens d') = Some h"
proof -
  from auth_leads_safe [OF leads wf] have wf': "auth_wf d'" and le: "auth_le d d'" by auto
  from le h obtain h' where "h' \<in> set (refresh_tokens d')" "token_le h h'"
    by (auto simp: auth_le_def rows_le_def)
  with h(2) have "h \<in> set (refresh_tokens d')" by (simp add: token_le_def)
  with auth_wf_parts(3) [OF wf'] show ?thesis by (rule find_unique_key)
qed

text \<open>
  Property C9. A refresh token works once. After a refresh has answered, whatever the database
  went through since, presenting the same token again is refused and ends the session, also when
  Redis fails on the way.
\<close>

theorem refresh_token_single_use:
  assumes "auth_leads empty_db (w_db w)"
    and "refresh (app_sessions cfg) token w = (Inr x, w1)"
    and "auth_leads (w_db w1) (w_db v)"
    and "refresh (app_sessions cfg) token v = (r, v')"
  shows "r \<in> {Inl RefreshReuseExn, Inl StorageUnavailableExn}
    \<and> (\<forall>s \<in> set (sessions (w_db v')). ses_id s = is_session_id x \<longrightarrow> ses_revoked_at s \<noteq> None)"
proof -
  have wf: "auth_wf (w_db w)" using auth_leads_safe [OF assms(1) empty_db_auth_wf] by blast
  from app_session.refresh_success [OF wf assms(2)] obtain h where
    h: "h \<in> set (refresh_tokens (w_db w1))" "rt_used_at h \<noteq> None" "rt_session_id h = is_session_id x"
      "rt_token_hash h = sd_hash (app_sessions cfg) token"
    and wf1: "auth_wf (w_db w1)" by blast
  have wfv: "auth_wf (w_db v)" using auth_leads_safe [OF assms(3) wf1] by blast
  from used_token_stays [OF wf1 assms(3) h(1,2)]
  have "find (\<lambda>t. rt_token_hash t = sd_hash (app_sessions cfg) token) (refresh_tokens (w_db v)) = Some h"
    by (simp add: h(4))
  from app_session.reuse_revokes [OF wfv this h(2) assms(4)] h(3) show ?thesis by simp
qed

section \<open>Validated sessions\<close>

text \<open>
  The worlds reached when Redis answers the requests that end sessions; validations may meet any
  failure, time passes, and every other handler leaves the sessions and their cache alone.
\<close>

inductive sessions_served :: "auth_config \<Rightarrow> world \<Rightarrow> bool" for cfg where
  start: "auth_leads empty_db (w_db w) \<Longrightarrow> w_redis w = (\<lambda>k. None) \<Longrightarrow> sessions_served cfg w"
| validate: "sessions_served cfg w \<Longrightarrow> validate_session (app_sessions cfg) i w = (p, w') \<Longrightarrow>
    sessions_served cfg w'"
| login: "sessions_served cfg w \<Longrightarrow> w_net w = [] \<Longrightarrow>
    create_session_after_login (app_sessions cfg) u (role_text USER) w = (x, w') \<Longrightarrow>
    sessions_served cfg w'"
| refreshed: "sessions_served cfg w \<Longrightarrow> w_net w = [] \<Longrightarrow> refresh (app_sessions cfg) token w = (x, w') \<Longrightarrow>
    sessions_served cfg w'"
| logged_out: "sessions_served cfg w \<Longrightarrow> w_net w = [] \<Longrightarrow> logout (app_sessions cfg) token w = (r, w') \<Longrightarrow>
    sessions_served cfg w'"
| all_revoked: "sessions_served cfg w \<Longrightarrow> w_net w = [] \<Longrightarrow>
    revoke_all (app_sessions cfg) u reason w = (r, w') \<Longrightarrow> sessions_served cfg w'"
| elsewhere: "sessions_served cfg w \<Longrightarrow> auth_step (w_db w) (w_db w') \<Longrightarrow>
    sessions (w_db w') = sessions (w_db w) \<Longrightarrow>
    (\<And>i. w_redis w' (session_key i) = w_redis w (session_key i)) \<Longrightarrow> w_clock w \<le> w_clock w' \<Longrightarrow>
    sessions_served cfg w'"

lemma all_users: "role_text r = role_text USER"
  by (cases r) simp

definition served_inv :: "world \<Rightarrow> bool" where
  "served_inv w \<longleftrightarrow> auth_wf (w_db w)
     \<and> session_coherent (cached_sessions w) (sessions (w_db w)) (accounts (w_db w))"

lemma session_of_user_accounts:
  assumes "session_of_user i u role ss al" and "rows_le account_le al al'"
  shows "session_of_user i u role ss al'"
proof -
  from assms obtain a a' where "acc_id a = u" "role_text (acc_role a) = role" "a' \<in> set al'" "account_le a a'"
    unfolding session_of_user_def rows_le_def by blast
  then have "acc_id a' = u \<and> role_text (acc_role a') = role"
    using all_users [of "acc_role a"] all_users [of "acc_role a'"] by (simp add: account_le_def)
  with assms(1) \<open>a' \<in> set al'\<close> show ?thesis unfolding session_of_user_def by blast
qed

lemma cached_sessions_later:
  assumes "\<And>i. w_redis w' (session_key i) = w_redis w (session_key i)" and "w_clock w \<le> w_clock w'"
    and "cached_sessions w' i = Some e"
  shows "cached_sessions w i = Some e"
proof -
  have "redis_live t (w_redis w') (session_key i) = redis_live t (w_redis w) (session_key i)" for t
    using assms(1) by (simp add: redis_live_def)
  with assms(3) redis_live_later [OF assms(2), of "w_redis w" "session_key i"] show ?thesis
    by (auto simp: cached_sessions_def redis_get_def split: option.splits redis_value.splits)
qed

lemma sessions_served_inv: "sessions_served cfg w \<Longrightarrow> served_inv w"
proof (induction rule: sessions_served.induct)
  case (start w)
  have "cached_sessions w i = None" for i
    using start(2) by (simp add: cached_sessions_def redis_get_def)
  then show ?case
    using auth_leads_safe [OF start(1) empty_db_auth_wf]
    by (auto simp: served_inv_def session_coherent_def)
next
  case (validate w i p w')
  then show ?case using app_session.validate_sound [of w cfg i p w'] unfolding served_inv_def by metis
next
  case (login w u x w')
  then show ?case
    using app_session.login_coherent [of w u "role_text USER" cfg x w'] all_users
    by (simp add: served_inv_def)
next
  case (refreshed w token x w')
  then show ?case using app_session.refresh_coherent [of w cfg token x w'] by (simp add: served_inv_def)
next
  case (logged_out w token r w')
  then show ?case using app_session.logout_coherent [of w cfg token r w'] by (simp add: served_inv_def)
next
  case (all_revoked w u reason r w')
  then show ?case using app_session.revoke_all_coherent [of w cfg u reason r w'] by (simp add: served_inv_def)
next
  case (elsewhere w w')
  then have wf: "auth_wf (w_db w')" and le: "auth_le (w_db w) (w_db w')"
    using auth_step_safe [OF elsewhere.hyps(2)] by (auto simp: served_inv_def)
  have "rows_le account_le (accounts (w_db w)) (accounts (w_db w'))" using le by (simp add: auth_le_def)
  note more = session_of_user_accounts [OF _ this]
  have "session_coherent (cached_sessions w) (sessions (w_db w')) (accounts (w_db w'))"
    using elsewhere.IH more unfolding served_inv_def session_coherent_def elsewhere.hyps(3) by blast
  then have "session_coherent (cached_sessions w') (sessions (w_db w')) (accounts (w_db w'))"
    by (rule session_coherent_mono) (rule cached_sessions_later [OF elsewhere.hyps(4,5)])
  with wf show ?case by (simp add: served_inv_def)
qed

end
