(* ===== verification/AuthGuards.thy ===== *)
theory AuthGuards
  imports SessionApp
begin

text \<open>
  The guards in front of the protected routes: src/src/modules/auth/auth-session.guard.ts (bearer
  token and live session) and csrf-origin.guard.ts (origin, CSRF token and refresh cookie). A guard
  answers the principal or nothing, or throws. URL parsing and percent decoding are parameters.
\<close>

section \<open>Requests\<close>

datatype header_value = SingleValue string | ManyValues "string list"

record guarded_request =
  gr_authorization :: "string option"
  gr_origin :: "string option"
  gr_referer :: "string option"
  gr_cookie_header :: "string option"
  gr_csrf_token :: "header_value option"
  gr_cookies :: "string \<Rightarrow> string option"

record guard_config =
  gc_allowed_origins :: "string list"
  gc_refresh_cookie_name :: string
  gc_url_origin :: "string \<Rightarrow> string option"
  gc_decode_uri_component :: "string \<Rightarrow> string option"

section \<open>The session guard\<close>

definition bearer_token :: "guarded_request \<Rightarrow> string option" where
  "bearer_token request =
     (case gr_authorization request of
        None \<Rightarrow> None
      | Some authorization \<Rightarrow>
          if \<not> starts_with ''Bearer '' authorization then None
          else (let token = js_trim (drop 7 authorization)
                in if token = [] then None else Some token))"

definition session_guard :: "auth_config \<Rightarrow> guarded_request \<Rightarrow> auth_principal io" where
  "session_guard cfg request =
     (case bearer_token request of
        None \<Rightarrow> throwM unauthorized_exception
      | Some token \<Rightarrow>
          bindM now_io (\<lambda>now.
            case verify_access_token cfg now token of
              Inl _ \<Rightarrow> throwM unauthorized_exception
            | Inr payload \<Rightarrow>
                bindM (validate_session (app_sessions cfg) (cl_session_id (ap_claims payload))) (\<lambda>principal.
                  case principal of
                    None \<Rightarrow> throwM unauthorized_exception
                  | Some p \<Rightarrow>
                      if pr_user_id p \<noteq> cl_sub (ap_claims payload) \<or> pr_role p \<noteq> cl_role (ap_claims payload)
                      then throwM unauthorized_exception
                      else returnM p)))"

section \<open>The CSRF guard\<close>

definition csrf_failed :: exn where
  "csrf_failed = http_error 403 ''CSRF_VALIDATION_FAILED'' ''CSRF validation failed.''"

definition csrf_header :: "guarded_request \<Rightarrow> string option" where
  "csrf_header request =
     (case gr_csrf_token request of
        None \<Rightarrow> None
      | Some (SingleValue t) \<Rightarrow> Some t
      | Some (ManyValues []) \<Rightarrow> None
      | Some (ManyValues (t # _)) \<Rightarrow> Some t)"

definition resolve_origin ::
  "(string \<Rightarrow> string option) \<Rightarrow> string option \<Rightarrow> string option \<Rightarrow> string option" where
  "resolve_origin origin_of origin referer =
     (if (case origin of None \<Rightarrow> False | Some v \<Rightarrow> js_trim v \<noteq> []) then map_option js_trim origin
      else (case referer of
              None \<Rightarrow> None
            | Some r \<Rightarrow> if js_trim r = [] then None else origin_of r))"

text \<open>The first cookie of the name decides; a value that does not decode throws.\<close>

fun scan_cookies :: "(string \<Rightarrow> string option) \<Rightarrow> string \<Rightarrow> string list \<Rightarrow> exn + string option" where
  "scan_cookies decode prefix [] = Inr None"
| "scan_cookies decode prefix (part # parts) =
     (let trimmed = js_trim part
      in if starts_with prefix trimmed
         then (let v = drop (length prefix) trimmed
               in if v = [] then Inr None
                  else (case decode v of
                          None \<Rightarrow> Inl (PlainErr ''URI malformed'')
                        | Some t \<Rightarrow> Inr (Some t)))
         else scan_cookies decode prefix parts)"

definition guard_refresh_cookie :: "guard_config \<Rightarrow> guarded_request \<Rightarrow> exn + string option" where
  "guard_refresh_cookie gc request =
     (case gr_cookies request (gc_refresh_cookie_name gc) of
        Some (c # cs) \<Rightarrow> Inr (Some (c # cs))
      | _ \<Rightarrow>
          (case gr_cookie_header request of
             Some (c # cs) \<Rightarrow>
               scan_cookies (gc_decode_uri_component gc) (gc_refresh_cookie_name gc @ ''='')
                 (split_on (CHR '';'') (c # cs))
           | _ \<Rightarrow> Inr None))"

definition resolve_csrf_session :: "auth_config \<Rightarrow> string \<Rightarrow> session option io" where
  "resolve_csrf_session cfg refresh_token =
     (let token_hash = hash_token cfg refresh_token
      in bindM (db_op (find_session_by_refresh_token_hash token_hash)) (\<lambda>by_current_hash.
        case by_current_hash of
          Some s \<Rightarrow> returnM (Some s)
        | None \<Rightarrow>
            bindM (db_op (find_refresh_token_history_by_hash token_hash)) (\<lambda>history.
              case history of
                None \<Rightarrow> returnM None
              | Some h \<Rightarrow> db_op (find_active_session_by_id (rt_session_id h)))))"

definition csrf_origin_guard :: "auth_config \<Rightarrow> guard_config \<Rightarrow> guarded_request \<Rightarrow> unit io" where
  "csrf_origin_guard cfg gc request =
     (case csrf_header request of
        None \<Rightarrow> throwM csrf_failed
      | Some csrf_token \<Rightarrow>
          if js_trim csrf_token = [] then throwM csrf_failed
          else (case resolve_origin (gc_url_origin gc) (gr_origin request) (gr_referer request) of
            None \<Rightarrow> throwM csrf_failed
          | Some origin \<Rightarrow>
              if origin = [] \<or> origin \<notin> set (gc_allowed_origins gc) then throwM csrf_failed
              else (case guard_refresh_cookie gc request of
                Inl e \<Rightarrow> throwM e
              | Inr None \<Rightarrow> throwM csrf_failed
              | Inr (Some refresh_token) \<Rightarrow>
                  if refresh_token = [] then throwM csrf_failed
                  else bindM (resolve_csrf_session cfg refresh_token) (\<lambda>session.
                    case session of
                      None \<Rightarrow> throwM csrf_failed
                    | Some s \<Rightarrow>
                        if hash_token cfg csrf_token \<noteq> ses_csrf_token_hash s then throwM csrf_failed
                        else returnM ()))))"

section \<open>What the guards let through\<close>

lemma session_guard_accepts:
  assumes "session_guard cfg request w = (Inr p, w')"
  obtains token payload where "bearer_token request = Some token"
    "verify_access_token cfg (w_clock w) token = Inr payload"
    "validate_session (app_sessions cfg) (cl_session_id (ap_claims payload)) w = (Inr (Some p), w')"
    "pr_user_id p = cl_sub (ap_claims payload)" "pr_role p = cl_role (ap_claims payload)"
  using assms
  by (auto simp: session_guard_def now_io_def run_simps
      split: option.splits sum.splits if_splits prod.splits)

lemma guarded_session:
  assumes "sessions_served cfg w" and "session_guard cfg request w = (Inr p, w')"
  shows "sessions (w_db w') = sessions (w_db w) \<and> accounts (w_db w') = accounts (w_db w)
    \<and> (\<exists>token payload s a. bearer_token request = Some token
         \<and> verify_access_token cfg (w_clock w) token = Inr payload
         \<and> ap_claims payload =
             \<lparr>cl_sub = pr_user_id p, cl_role = pr_role p, cl_session_id = pr_session_id p\<rparr>
         \<and> s \<in> set (sessions (w_db w)) \<and> ses_id s = pr_session_id p
         \<and> ses_user_id s = pr_user_id p \<and> ses_revoked_at s = None
         \<and> a \<in> set (accounts (w_db w)) \<and> acc_id a = pr_user_id p
         \<and> role_text (acc_role a) = pr_role p)"
proof -
  from assms(2) obtain token payload where t: "bearer_token request = Some token"
    "verify_access_token cfg (w_clock w) token = Inr payload"
    and v: "validate_session (app_sessions cfg) (cl_session_id (ap_claims payload)) w = (Inr (Some p), w')"
    and m: "pr_user_id p = cl_sub (ap_claims payload)" "pr_role p = cl_role (ap_claims payload)"
    by (rule session_guard_accepts)
  have inv: "auth_wf (w_db w)"
    "session_coherent (cached_sessions w) (sessions (w_db w)) (accounts (w_db w))"
    using sessions_served_inv [OF assms(1)] by (auto simp: served_inv_def)
  note sound = app_session.validate_sound [OF inv v]
  then have i: "pr_session_id p = cl_session_id (ap_claims payload)"
    and u: "session_of_user (pr_session_id p) (pr_user_id p) (pr_role p) (sessions (w_db w)) (accounts (w_db w))"
    by auto
  have "ap_claims payload = \<lparr>cl_sub = pr_user_id p, cl_role = pr_role p, cl_session_id = pr_session_id p\<rparr>"
    using m i by simp
  with t u sound show ?thesis unfolding session_of_user_def by blast
qed

text \<open>
  A request the session guard lets through carries an unexpired access token the
  application signed, for a session that is active in PostgreSQL and belongs to the user the token
  names, with the account's role; guarding changes neither accounts nor sessions.
\<close>

theorem guarded_request_is_authenticated:
  assumes "sessions_served cfg w" and "session_guard cfg request w = (Inr p, w')"
  shows "sessions (w_db w') = sessions (w_db w) \<and> accounts (w_db w') = accounts (w_db w)
    \<and> (\<exists>token payload s a. bearer_token request = Some token
         \<and> verify_access_token cfg (w_clock w) token = Inr payload
         \<and> ap_claims payload =
             \<lparr>cl_sub = pr_user_id p, cl_role = pr_role p, cl_session_id = pr_session_id p\<rparr>
         \<and> s \<in> set (sessions (w_db w)) \<and> ses_id s = pr_session_id p
         \<and> ses_user_id s = pr_user_id p \<and> ses_revoked_at s = None
         \<and> a \<in> set (accounts (w_db w)) \<and> acc_id a = pr_user_id p
         \<and> role_text (acc_role a) = pr_role p)"
  using assms by (rule guarded_session)

definition csrf_session :: "auth_config \<Rightarrow> string \<Rightarrow> db \<Rightarrow> session option" where
  "csrf_session cfg refresh_token d =
     (case find (\<lambda>s. ses_refresh_token_hash s = hash_token cfg refresh_token) (sessions d) of
        Some s \<Rightarrow> Some s
      | None \<Rightarrow>
          (case find (\<lambda>t. rt_token_hash t = hash_token cfg refresh_token) (refresh_tokens d) of
             None \<Rightarrow> None
           | Some h \<Rightarrow> find (\<lambda>s. ses_id s = rt_session_id h \<and> ses_revoked_at s = None) (sessions d)))"

lemma resolve_csrf_session_run:
  "resolve_csrf_session cfg refresh_token w = (Inr (csrf_session cfg refresh_token (w_db w)), w)"
  by (simp add: resolve_csrf_session_def csrf_session_def run_simps db_op_def Let_def
      find_session_by_refresh_token_hash_def find_refresh_token_history_by_hash_def
      find_active_session_by_id_def split: option.splits)

text \<open>
  Property C23. The CSRF guard lets a request through exactly when it names an allowed origin, its
  refresh cookie belongs to a session (by its current token, or by a former one while the session
  is active), and its CSRF token hashes to that session's; otherwise it answers 403, except for a
  cookie that does not decode. It reads only.
\<close>

theorem csrf_guard_verdict:
  "(case csrf_origin_guard cfg gc request w of (r, w') \<Rightarrow>
      w' = w
      \<and> (r = Inr () \<longleftrightarrow>
           (\<exists>csrf origin refresh_token s.
              csrf_header request = Some csrf \<and> js_trim csrf \<noteq> []
              \<and> resolve_origin (gc_url_origin gc) (gr_origin request) (gr_referer request) = Some origin
              \<and> origin \<noteq> [] \<and> origin \<in> set (gc_allowed_origins gc)
              \<and> guard_refresh_cookie gc request = Inr (Some refresh_token) \<and> refresh_token \<noteq> []
              \<and> csrf_session cfg refresh_token (w_db w) = Some s
              \<and> hash_token cfg csrf = ses_csrf_token_hash s))
      \<and> (\<forall>e. r = Inl e \<longrightarrow> e = csrf_failed \<or> guard_refresh_cookie gc request = Inl e))"
  by (auto simp: csrf_origin_guard_def run_simps resolve_csrf_session_run
      split: option.splits sum.splits)

end
