(* ===== verification/AuthAudit.thy ===== *)
theory AuthAudit
  imports AuthRepo World ValueObjects
begin

text \<open>
  src/src/modules/auth/typeorm-auth-audit.service.ts: audit events and the sanitisation of their
  metadata.
\<close>

section \<open>Sanitisation\<close>

definition SENSITIVE_METADATA_KEYS :: "string list" where
  "SENSITIVE_METADATA_KEYS =
     [''password'', ''passwordconfirmation'', ''passwordhash'', ''code'', ''verificationcode'',
      ''refreshtoken'', ''resettoken'', ''accesstoken'', ''csrftoken'', ''token'', ''email'',
      ''rawemail'', ''authorization'', ''cookie'', ''cookies'', ''header'', ''headers'']"

definition EMAIL_VALUE_PATTERN :: rx where
  "EMAIL_VALUE_PATTERN =
     RxSeq (rx_plus (RxClass not_at_space))
       (RxSeq (rx_lit ''@'')
         (RxSeq (rx_plus (RxClass not_at_space))
           (RxSeq (rx_lit ''.'') (rx_plus (RxClass not_at_space)))))"

definition normalize_key :: "string \<Rightarrow> string" where
  "normalize_key key = filter (\<lambda>c. is_lower c \<or> is_digit c) (to_lower_case key)"

definition is_sensitive_metadata_key :: "string \<Rightarrow> bool" where
  "is_sensitive_metadata_key key \<longleftrightarrow> normalize_key key \<in> set SENSITIVE_METADATA_KEYS"

definition looks_like_raw_email :: "string \<Rightarrow> bool" where
  "looks_like_raw_email v = rx_test EMAIL_VALUE_PATTERN (js_trim v)"

definition keeps_entry :: "string \<times> json \<Rightarrow> bool" where
  "keeps_entry entry \<longleftrightarrow>
     \<not> is_sensitive_metadata_key (fst entry)
     \<and> (case snd entry of JStr s \<Rightarrow> \<not> looks_like_raw_email s | _ \<Rightarrow> True)"

definition sanitize_auth_audit_metadata ::
  "(string \<times> json) list option \<Rightarrow> (string \<times> json) list option" where
  "sanitize_auth_audit_metadata metadata =
     (case metadata of
        None \<Rightarrow> None
      | Some entries \<Rightarrow>
          (let sanitized = filter keeps_entry entries
           in if sanitized = [] then None else Some sanitized))"

section \<open>Recording\<close>

record audit_input =
  au_user_id :: "uuid option"
  au_type :: audit_event_type
  au_session_id :: "uuid option"
  au_ip_hash :: "string option"
  au_metadata :: "(string \<times> json) list option"

definition insert_audit_event :: "audit_event \<Rightarrow> audit_event dbm" where
  "insert_audit_event e = (\<lambda>d.
     if (case ae_ip_hash e of None \<Rightarrow> False | Some h \<Rightarrow> 128 < length h) then (Inl value_too_long, d)
     else if ae_id e \<in> ae_id ` set (audit_events d)
     then (Inl (unique_violation ''PK_4ce7e89f8c00d8b6a81408713f9'' (key_detail ''id'' (ae_id e))), d)
     else if (case ae_user_id e of None \<Rightarrow> False | Some u \<Rightarrow> u \<notin> acc_id ` set (accounts d))
     then (Inl (missing_reference ''FK_344e93546353176fcd839bd25a2''), d)
     else (Inr e, d\<lparr>audit_events := audit_events d @ [e]\<rparr>))"

definition record_audit :: "audit_input \<Rightarrow> audit_event io" where
  "record_audit input =
     bindM draw_string (\<lambda>new_id. bindM now_io (\<lambda>now.
       db_op (insert_audit_event
         \<lparr>ae_id = new_id, ae_user_id = au_user_id input, ae_type = au_type input,
          ae_session_id = au_session_id input, ae_ip_hash = au_ip_hash input,
          ae_created_at = now,
          ae_metadata = sanitize_auth_audit_metadata (au_metadata input)\<rparr>)))"

definition audit :: "audit_event_type \<Rightarrow> uuid \<Rightarrow> audit_input" where
  "audit type user_id =
     \<lparr>au_user_id = Some user_id, au_type = type, au_session_id = None, au_ip_hash = None,
      au_metadata = None\<rparr>"

section \<open>Lemmas\<close>

lemma sanitized_entries:
  "sanitize_auth_audit_metadata metadata = Some kept \<Longrightarrow>
     \<exists>entries. metadata = Some entries \<and> kept = filter keeps_entry entries \<and> kept \<noteq> []"
  by (auto simp: sanitize_auth_audit_metadata_def Let_def split: option.splits if_splits)

lemma sanitize_idempotent:
  "sanitize_auth_audit_metadata (sanitize_auth_audit_metadata metadata) = sanitize_auth_audit_metadata metadata"
  by (auto simp: sanitize_auth_audit_metadata_def Let_def split: option.splits)

end
