(* ===== verification/AuthService.thy ===== *)
theory AuthService
  imports SessionApp AuthAudit
begin

text \<open>
  src/src/modules/auth/auth.service.ts with queue-auth-email.service.ts: registration, email
  verification, the two steps of a login, refresh, logout and password reset, over the repository,
  the Redis state, the session service, the mail queue and the audit trail.
\<close>

section \<open>Mail jobs\<close>

definition add_email_job :: "email_job \<Rightarrow> unit io" where
  "add_email_job job = enqueue (\<lambda>w. w\<lparr>w_email_jobs := w_email_jobs w @ [job]\<rparr>)"

definition enqueue_verification_code ::
  "issuance_purpose \<Rightarrow> uuid option \<Rightarrow> uuid option \<Rightarrow> uuid \<Rightarrow> unit io" where
  "enqueue_verification_code purpose user_id challenge_id issuance_id =
     (if purpose = ISSUE_ACTIVATION
      then (if user_id = None \<or> user_id = Some []
            then throwM (PlainErr ''Activation email jobs require userId.'')
            else add_email_job (SendVerificationCode ISSUE_ACTIVATION user_id None issuance_id))
      else if challenge_id = None \<or> challenge_id = Some []
      then throwM (PlainErr ''Login email jobs require challengeId.'')
      else add_email_job (SendVerificationCode ISSUE_LOGIN None challenge_id issuance_id))"

definition enqueue_password_reset :: "uuid \<Rightarrow> uuid \<Rightarrow> unit io" where
  "enqueue_password_reset user_id issuance_id = add_email_job (SendPasswordReset user_id issuance_id)"

section \<open>Exceptions and checks\<close>

definition RATE_LIMIT_TTL_SECONDS :: nat where
  "RATE_LIMIT_TTL_SECONDS = 3600"

definition LOGIN_RATE_LIMIT_TTL_SECONDS :: nat where
  "LOGIN_RATE_LIMIT_TTL_SECONDS = 15 * 60"

definition EMAIL_RATE_LIMIT :: int where
  "EMAIL_RATE_LIMIT = 3"

definition IP_RATE_LIMIT :: int where
  "IP_RATE_LIMIT = 10"

definition LOGIN_RATE_LIMIT :: int where
  "LOGIN_RATE_LIMIT = 10"

definition LOGIN_CHALLENGE_TTL_MS :: int where
  "LOGIN_CHALLENGE_TTL_MS = 60 * 60 * 1000"

definition LOGIN_LOCK_RETRY_AFTER_SECONDS :: int where
  "LOGIN_LOCK_RETRY_AFTER_SECONDS = 3600"

definition rate_limited_exception :: exn where
  "rate_limited_exception = http_error 429 ''RATE_LIMITED'' ''Too many requests.''"

definition invalid_credentials_exception :: exn where
  "invalid_credentials_exception = http_error 401 ''INVALID_CREDENTIALS'' ''Invalid credentials.''"

definition email_not_verified_exception :: exn where
  "email_not_verified_exception =
     http_error 403 ''EMAIL_NOT_VERIFIED'' ''Email address has not been verified.''"

definition account_temporarily_locked_exception :: exn where
  "account_temporarily_locked_exception =
     HttpExn \<lparr>he_status = 429,
       he_response = JObj [(''code'', JStr ''ACCOUNT_TEMPORARILY_LOCKED''),
         (''message'', JStr ''Account is temporarily locked.''),
         (''retryAfter'', JNum LOGIN_LOCK_RETRY_AFTER_SECONDS)],
       he_message = ''Account is temporarily locked.''\<rparr>"

definition invalid_verification_exception :: exn where
  "invalid_verification_exception =
     http_error 401 ''INVALID_VERIFICATION'' ''Invalid or expired verification.''"

definition session_invalid_exception :: exn where
  "session_invalid_exception = http_error 401 ''SESSION_INVALID'' ''Session is invalid.''"

definition storage_unavailable_exception :: exn where
  "storage_unavailable_exception =
     http_error 503 ''AUTH_SECURITY_STORAGE_UNAVAILABLE''
       ''Authentication security storage is unavailable.''"

definition with_security_storage :: "'a io \<Rightarrow> 'a io" where
  "with_security_storage operation =
     catchM operation (\<lambda>e.
       if e = StorageUnavailableExn then throwM storage_unavailable_exception else throwM e)"

definition parse_email :: "string \<Rightarrow> string io" where
  "parse_email raw =
     (case email_create raw of
        Inl _ \<Rightarrow> throwM (validation_exception [(''email'', [''email must be a valid email address''])])
      | Inr email \<Rightarrow> returnM email)"

definition parse_password :: "string \<Rightarrow> string io" where
  "parse_password raw =
     (case password_create raw of
        Inl _ \<Rightarrow> throwM (validation_exception [(''password'',
          [''password must be at least 8 characters and include upper, lower, digit, and special characters''])])
      | Inr password \<Rightarrow> returnM password)"

definition assert_password_confirmation :: "string \<Rightarrow> string \<Rightarrow> unit io" where
  "assert_password_confirmation password confirmation =
     (if password \<noteq> confirmation
      then throwM (validation_exception
        [(''passwordConfirmation'', [''passwordConfirmation must match password''])])
      else returnM ())"

definition client_or_unknown :: "string \<Rightarrow> string" where
  "client_or_unknown client_ip = (if client_ip = [] then ''unknown'' else client_ip)"

definition assert_login_rate_limit :: "auth_config \<Rightarrow> string \<Rightarrow> string \<Rightarrow> unit io" where
  "assert_login_rate_limit cfg email client_ip =
     with_security_storage
       (bindM (increment_rate_limit ''login'' ByEmail
           (ac_sha256 cfg (client_or_unknown client_ip @ ''|'' @ email)) LOGIN_RATE_LIMIT_TTL_SECONDS)
         (\<lambda>count. if LOGIN_RATE_LIMIT < count then throwM rate_limited_exception else returnM ()))"

definition assert_within_rate_limits :: "auth_config \<Rightarrow> string \<Rightarrow> string \<Rightarrow> string \<Rightarrow> unit io" where
  "assert_within_rate_limits cfg operation email client_ip =
     with_security_storage
       (bindM (increment_rate_limit operation ByEmail (ac_sha256 cfg email) RATE_LIMIT_TTL_SECONDS)
         (\<lambda>email_count.
           if EMAIL_RATE_LIMIT < email_count then throwM rate_limited_exception
           else bindM (increment_rate_limit operation ByIp
               (ac_sha256 cfg (client_or_unknown client_ip)) RATE_LIMIT_TTL_SECONDS)
             (\<lambda>ip_count.
               if IP_RATE_LIMIT < ip_count then throwM rate_limited_exception else returnM ())))"

definition password_matches_account :: "auth_config \<Rightarrow> string \<Rightarrow> string option \<Rightarrow> bool" where
  "password_matches_account cfg raw_password password_hash =
     (case password_hash of
        None \<Rightarrow> False
      | Some stored \<Rightarrow>
          stored \<noteq> []
          \<and> (case password_create raw_password of
               Inl _ \<Rightarrow> False
             | Inr password \<Rightarrow>
                 (case password_hash_create stored of
                    Inl _ \<Rightarrow> False
                  | Inr h \<Rightarrow> compare_password cfg password h)))"

definition record_failed_login :: "uuid \<Rightarrow> (int \<times> bool) io" where
  "record_failed_login user_id =
     bindM (increment_failed_login user_id) (\<lambda>(failures, locked).
       thenM (record_audit
           \<lparr>au_user_id = Some user_id, au_type = (if locked then LOGIN_LOCKED else LOGIN_FAILURE),
            au_session_id = None, au_ip_hash = None,
            au_metadata = Some [(''failures'', JNum failures)]\<rparr>)
         (returnM (failures, locked)))"

section \<open>Registration and activation\<close>

definition enqueue_activation :: "uuid \<Rightarrow> unit io" where
  "enqueue_activation user_id =
     bindM generate_challenge_id (\<lambda>issuance_id.
       thenM (set_issuance ISSUE_ACTIVATION user_id issuance_id)
         (thenM (set_resend_cooldown ''activation'' user_id)
           (enqueue_verification_code ISSUE_ACTIVATION (Some user_id) None issuance_id)))"

definition enqueue_activation_if_allowed :: "uuid \<Rightarrow> unit io" where
  "enqueue_activation_if_allowed user_id =
     bindM (is_resend_cooldown_active ''activation'' user_id) (\<lambda>cooling_down.
       if cooling_down then returnM () else enqueue_activation user_id)"

definition create_pending_account_io :: "string \<Rightarrow> string \<Rightarrow> account io" where
  "create_pending_account_io email password_hash =
     bindM draw_string (\<lambda>new_id. bindM now_io (\<lambda>now.
       db_op (create_pending_account new_id now email password_hash)))"

definition register_user ::
  "auth_config \<Rightarrow> string \<Rightarrow> string \<Rightarrow> string \<Rightarrow> string \<Rightarrow> unit io" where
  "register_user cfg raw_email raw_password confirmation client_ip =
     bindM (parse_email raw_email) (\<lambda>email.
       bindM (parse_password raw_password) (\<lambda>password.
         thenM (assert_password_confirmation raw_password confirmation)
           (thenM (assert_within_rate_limits cfg ''register'' email client_ip)
             (with_security_storage
               (bindM (db_op (find_account_by_email email)) (\<lambda>existing.
                 case existing of
                   None \<Rightarrow>
                     bindM (hash_password cfg password) (\<lambda>password_hash.
                       bindM (create_pending_account_io email password_hash) (\<lambda>account.
                         enqueue_activation (acc_id account)))
                 | Some account \<Rightarrow>
                     if acc_status account = ACTIVE_ACCOUNT then returnM ()
                     else enqueue_activation_if_allowed (acc_id account)))))))"

definition verify_email :: "auth_config \<Rightarrow> string \<Rightarrow> string \<Rightarrow> unit io" where
  "verify_email cfg raw_email code =
     bindM (parse_email raw_email) (\<lambda>email.
       with_security_storage
         (bindM (db_op (find_account_by_email email)) (\<lambda>found.
           case found of
             None \<Rightarrow> throwM invalid_verification_exception
           | Some account \<Rightarrow>
               if acc_status account \<noteq> PENDING then throwM invalid_verification_exception
               else bindM (consume_activation_code cfg (acc_id account) code) (\<lambda>result.
                 if result \<noteq> ActivationConsumed then throwM invalid_verification_exception
                 else bindM now_io (\<lambda>now.
                   thenM (db_op (activate_account now (acc_id account))) (returnM ()))))))"

definition resend_email_verification :: "auth_config \<Rightarrow> string \<Rightarrow> string \<Rightarrow> unit io" where
  "resend_email_verification cfg raw_email client_ip =
     bindM (parse_email raw_email) (\<lambda>email.
       thenM (assert_within_rate_limits cfg ''resend-email-verification'' email client_ip)
         (with_security_storage
           (bindM (db_op (find_account_by_email email)) (\<lambda>existing.
             case existing of
               None \<Rightarrow> returnM ()
             | Some account \<Rightarrow>
                 if acc_status account \<noteq> PENDING then returnM ()
                 else enqueue_activation_if_allowed (acc_id account)))))"

section \<open>Login\<close>

definition issue_login_challenge :: "auth_config \<Rightarrow> uuid \<Rightarrow> (uuid \<times> string) io" where
  "issue_login_challenge cfg user_id =
     bindM generate_challenge_id (\<lambda>challenge_id.
       bindM generate_challenge_id (\<lambda>issuance_id.
         bindM now_io (\<lambda>now.
           bindM generate_verification_code_io (\<lambda>placeholder_code.
             thenM (create_login_challenge cfg user_id challenge_id placeholder_code
                 (now + LOGIN_CHALLENGE_TTL_MS))
               (thenM (set_issuance ISSUE_LOGIN challenge_id issuance_id)
                 (thenM (enqueue_verification_code ISSUE_LOGIN None (Some challenge_id) issuance_id)
                   (returnM (challenge_id, to_iso_string (now + LOGIN_CHALLENGE_TTL_MS)))))))))"

definition start_login :: "auth_config \<Rightarrow> string \<Rightarrow> string \<Rightarrow> string \<Rightarrow> (uuid \<times> string) io" where
  "start_login cfg raw_email raw_password client_ip =
     bindM (parse_email raw_email) (\<lambda>email.
       thenM (assert_login_rate_limit cfg email client_ip)
         (with_security_storage
           (bindM (db_op (find_account_by_email email)) (\<lambda>found.
             case found of
               None \<Rightarrow> throwM invalid_credentials_exception
             | Some account \<Rightarrow>
                 if \<not> password_matches_account cfg raw_password (Some (acc_password_hash account))
                 then bindM (record_failed_login (acc_id account)) (\<lambda>(failures, locked).
                   if locked then throwM account_temporarily_locked_exception
                   else throwM invalid_credentials_exception)
                 else if acc_status account = PENDING then throwM email_not_verified_exception
                 else bindM (is_login_locked (acc_id account)) (\<lambda>locked.
                   if locked then throwM account_temporarily_locked_exception
                   else issue_login_challenge cfg (acc_id account))))))"

definition refuse_if_locked :: "uuid \<Rightarrow> unit io" where
  "refuse_if_locked user_id =
     bindM (is_login_locked user_id) (\<lambda>locked.
       if locked then throwM account_temporarily_locked_exception else returnM ())"

definition reject_challenge :: "uuid option \<Rightarrow> 'a io" where
  "reject_challenge challenge_user_id =
     (case challenge_user_id of
        None \<Rightarrow> throwM invalid_credentials_exception
      | Some u \<Rightarrow>
          bindM (record_failed_login u) (\<lambda>(failures, locked).
            if locked then throwM account_temporarily_locked_exception
            else throwM invalid_credentials_exception))"

definition open_session :: "auth_config \<Rightarrow> uuid \<Rightarrow> issued_session io" where
  "open_session cfg user_id =
     bindM (db_op (find_account_by_id user_id)) (\<lambda>found.
       case found of
         None \<Rightarrow> throwM invalid_credentials_exception
       | Some account \<Rightarrow>
           if acc_status account \<noteq> ACTIVE_ACCOUNT then throwM invalid_credentials_exception
           else bindM (create_session_after_login (app_sessions cfg) (acc_id account)
               (role_text (acc_role account))) (\<lambda>tokens.
             thenM (record_audit
                 \<lparr>au_user_id = Some (acc_id account), au_type = SESSION_CREATED,
                  au_session_id = Some (is_session_id tokens), au_ip_hash = None, au_metadata = None\<rparr>)
               (returnM tokens)))"

definition complete_login :: "auth_config \<Rightarrow> uuid \<Rightarrow> string \<Rightarrow> issued_session io" where
  "complete_login cfg challenge_id code =
     with_security_storage
       (bindM (find_login_challenge_user_id challenge_id) (\<lambda>challenge_user_id.
         thenM (case challenge_user_id of None \<Rightarrow> returnM () | Some u \<Rightarrow> refuse_if_locked u)
           (bindM (consume_login_challenge cfg challenge_id code) (\<lambda>consumed.
             case consumed of
               ChallengeConsumed user_id \<Rightarrow>
                 thenM (refuse_if_locked user_id) (open_session cfg user_id)
             | _ \<Rightarrow> reject_challenge challenge_user_id))))"

section \<open>Sessions\<close>

definition refresh_session :: "auth_config \<Rightarrow> string \<Rightarrow> issued_session io" where
  "refresh_session cfg refresh_token =
     with_security_storage
       (catchM (refresh (app_sessions cfg) refresh_token) (\<lambda>e.
          if e = RefreshReuseExn \<or> e = InvalidRefreshExn then throwM session_invalid_exception
          else throwM e))"

definition logout_session :: "auth_config \<Rightarrow> string \<Rightarrow> unit io" where
  "logout_session cfg refresh_token =
     with_security_storage (logout (app_sessions cfg) refresh_token)"

section \<open>Password reset\<close>

definition request_password_reset :: "auth_config \<Rightarrow> string \<Rightarrow> string \<Rightarrow> unit io" where
  "request_password_reset cfg raw_email client_ip =
     bindM (parse_email raw_email) (\<lambda>email.
       thenM (assert_within_rate_limits cfg ''forgot-password'' email client_ip)
         (with_security_storage
           (bindM (db_op (find_account_by_email email)) (\<lambda>found.
             case found of
               None \<Rightarrow> returnM ()
             | Some account \<Rightarrow>
                 if acc_status account \<noteq> ACTIVE_ACCOUNT then returnM ()
                 else bindM generate_challenge_id (\<lambda>issuance_id.
                   thenM (set_issuance ISSUE_RESET (acc_id account) issuance_id)
                     (thenM (enqueue_password_reset (acc_id account) issuance_id)
                       (thenM (record_audit (audit PASSWORD_RESET_REQUESTED (acc_id account)))
                         (returnM ()))))))))"

definition consume_password_reset_token_io :: "string \<Rightarrow> reset_token option io" where
  "consume_password_reset_token_io token_hash =
     bindM now_io (\<lambda>now. db_op (consume_password_reset_token now token_hash))"

definition update_password_hash_io :: "uuid \<Rightarrow> string \<Rightarrow> unit io" where
  "update_password_hash_io user_id password_hash =
     bindM now_io (\<lambda>now. db_op (update_password_hash now user_id password_hash))"

definition reset_password :: "auth_config \<Rightarrow> string \<Rightarrow> string \<Rightarrow> string \<Rightarrow> unit io" where
  "reset_password cfg token raw_password confirmation =
     bindM (parse_password raw_password) (\<lambda>password.
       thenM (assert_password_confirmation raw_password confirmation)
         (bindM (consume_password_reset_token_io (hash_token cfg token)) (\<lambda>consumed.
           case consumed of
             None \<Rightarrow> throwM invalid_verification_exception
           | Some t \<Rightarrow>
               bindM (hash_password cfg password) (\<lambda>password_hash.
                 thenM (update_password_hash_io (prt_user_id t) password_hash)
                   (thenM (revoke_all (app_sessions cfg) (prt_user_id t) PASSWORD_RESET)
                     (thenM (record_audit (audit PASSWORD_RESET_COMPLETED (prt_user_id t)))
                       (returnM ())))))))"

end
