(* ===== verification/EmailWorker.thy ===== *)
theory EmailWorker
  imports AuthService
begin

text \<open>
  src/src/email.processor.ts: the worker of the mail queue. It discards a job whose issuance was
  superseded, before it draws a code and again before it sends the mail. Sending is a round trip
  to the mail server that may fail like any other; a job that throws is retried by the queue.
\<close>

definition ONE_HOUR_MS :: int where
  "ONE_HOUR_MS = 60 * 60 * 1000"

definition RESEND_COOLDOWN_MS :: int where
  "RESEND_COOLDOWN_MS = 60000"

definition send_mail :: "mail \<Rightarrow> unit io" where
  "send_mail input =
     catchM (enqueue (\<lambda>w. w\<lparr>w_mails := w_mails w @ [input]\<rparr>)) (\<lambda>_.
       throwM (PlainErr ''Mail delivery failed''))"

definition activation_mail :: "string \<Rightarrow> string \<Rightarrow> mail" where
  "activation_mail to_address code =
     \<lparr>ml_to = to_address, ml_subject = ''Activate your Shortlink account'',
      ml_text = ''Your activation code is '' @ code @ ''. It expires in one hour.'',
      ml_html = ''<p>Your activation code is <strong>'' @ code
        @ ''</strong>. It expires in one hour.</p>''\<rparr>"

definition login_mail :: "string \<Rightarrow> string \<Rightarrow> mail" where
  "login_mail to_address code =
     \<lparr>ml_to = to_address, ml_subject = ''Your Shortlink login code'',
      ml_text = ''Your login code is '' @ code @ ''. It expires in one hour.'',
      ml_html = ''<p>Your login code is <strong>'' @ code
        @ ''</strong>. It expires in one hour.</p>''\<rparr>"

definition reset_mail :: "string \<Rightarrow> string \<Rightarrow> mail" where
  "reset_mail to_address reset_url =
     \<lparr>ml_to = to_address, ml_subject = ''Reset your Shortlink password'',
      ml_text = ''Reset your password using this link: '' @ reset_url
        @ ''. The link expires in one hour.'',
      ml_html = ''<p>Reset your password using this link:</p><p><a href='' @ [CHR 0x22] @ reset_url
        @ [CHR 0x22] @ ''>'' @ reset_url @ ''</a></p><p>The link expires in one hour.</p>''\<rparr>"

definition process_activation :: "auth_config \<Rightarrow> uuid option \<Rightarrow> uuid \<Rightarrow> unit io" where
  "process_activation cfg user_id issuance_id =
     (case user_id of
        None \<Rightarrow> returnM ()
      | Some u \<Rightarrow>
          if u = [] then returnM ()
          else bindM (is_current_issuance ISSUE_ACTIVATION u issuance_id) (\<lambda>current.
            if \<not> current then returnM ()
            else bindM (db_op (find_account_by_id u)) (\<lambda>found.
              case found of
                None \<Rightarrow> returnM ()
              | Some account \<Rightarrow>
                  bindM generate_verification_code_io (\<lambda>code.
                    bindM now_io (\<lambda>now.
                      thenM (set_activation_code cfg u code (now + RESEND_COOLDOWN_MS))
                        (bindM (is_current_issuance ISSUE_ACTIVATION u issuance_id) (\<lambda>still_current.
                          if \<not> still_current then returnM ()
                          else send_mail (activation_mail (acc_email account) code))))))))"

definition process_login :: "auth_config \<Rightarrow> uuid option \<Rightarrow> uuid \<Rightarrow> unit io" where
  "process_login cfg challenge_id issuance_id =
     (case challenge_id of
        None \<Rightarrow> returnM ()
      | Some c \<Rightarrow>
          if c = [] then returnM ()
          else bindM (is_current_issuance ISSUE_LOGIN c issuance_id) (\<lambda>current.
            if \<not> current then returnM ()
            else bindM (find_login_challenge_user_id c) (\<lambda>user.
              case user of
                None \<Rightarrow> returnM ()
              | Some u \<Rightarrow>
                  bindM (db_op (find_account_by_id u)) (\<lambda>found.
                    case found of
                      None \<Rightarrow> returnM ()
                    | Some account \<Rightarrow>
                        bindM generate_verification_code_io (\<lambda>code.
                          bindM now_io (\<lambda>now.
                            thenM (create_login_challenge cfg u c code (now + ONE_HOUR_MS))
                              (bindM (is_current_issuance ISSUE_LOGIN c issuance_id) (\<lambda>still_current.
                                if \<not> still_current then returnM ()
                                else send_mail (login_mail (acc_email account) code)))))))))"

definition create_password_reset_token_io :: "uuid \<Rightarrow> string \<Rightarrow> instant \<Rightarrow> reset_token io" where
  "create_password_reset_token_io user_id token_hash expires_at =
     bindM draw_string (\<lambda>new_id. bindM now_io (\<lambda>now.
       db_op (create_password_reset_token new_id now user_id token_hash expires_at)))"

definition process_password_reset :: "auth_config \<Rightarrow> uuid \<Rightarrow> uuid \<Rightarrow> unit io" where
  "process_password_reset cfg user_id issuance_id =
     bindM (is_current_issuance ISSUE_RESET user_id issuance_id) (\<lambda>current.
       if \<not> current then returnM ()
       else bindM (db_op (find_account_by_id user_id)) (\<lambda>found.
         case found of
           None \<Rightarrow> returnM ()
         | Some account \<Rightarrow>
             bindM generate_opaque_token (\<lambda>token.
               bindM now_io (\<lambda>now.
                 thenM (create_password_reset_token_io user_id (hash_token cfg token) (now + ONE_HOUR_MS))
                   (bindM (is_current_issuance ISSUE_RESET user_id issuance_id) (\<lambda>still_current.
                     if \<not> still_current then returnM ()
                     else send_mail (reset_mail (acc_email account)
                       (ac_frontend_reset_url cfg @ ''#token='' @ token))))))))"

definition process_email_job :: "auth_config \<Rightarrow> email_job \<Rightarrow> unit io" where
  "process_email_job cfg job =
     (case job of
        SendVerificationCode purpose user_id challenge_id issuance_id \<Rightarrow>
          if purpose = ISSUE_ACTIVATION then process_activation cfg user_id issuance_id
          else process_login cfg challenge_id issuance_id
      | SendPasswordReset user_id issuance_id \<Rightarrow> process_password_reset cfg user_id issuance_id)"

end
