(* ===== verification/AuthExamples.thy ===== *)
theory AuthExamples
  imports AuthGuards EmailWorker
begin

text \<open>
  Concrete databases, worlds and requests, at which the authentication theorems are applied. The
  library functions are instantiated by simple ones: a digest is key and data, bcrypt's text
  starts with its prefix, and the only token is \<open>jwt\<close>.
\<close>

section \<open>An account with a session\<close>

definition sample_hash :: string where
  "sample_hash = ''$2b$12$'' @ replicate 53 (CHR ''a'')"

definition sample_cfg :: auth_config where
  "sample_cfg =
     \<lparr>ac_hmac_sha256 = (\<lambda>k v. k @ ''/'' @ v), ac_sha256 = (\<lambda>v. v),
      ac_jwt_sign = (\<lambda>_ _ _ _. ''jwt''),
      ac_jwt_verify = (\<lambda>_ _ t. if t = ''jwt''
        then Inr (JObj [(''sub'', JStr ''u1''), (''role'', JStr ''USER''), (''sessionId'', JStr ''s1''),
                        (''iat'', JNum 0), (''exp'', JNum 900)])
        else Inl ''invalid signature''),
      ac_bcrypt_hash = (\<lambda>_ _ _. sample_hash), ac_bcrypt_compare = (\<lambda>p _. p = ''Secret-123''),
      ac_hmac_secret = ''H'', ac_token_hash_secret = ''T'', ac_jwt_access_secret = ''J'',
      ac_frontend_reset_url = ''https://app.example/reset''\<rparr>"

definition db_registered :: db where
  "db_registered = snd (create_pending_account ''u1'' 0 ''a@b.c'' sample_hash empty_db)"

definition db_active :: db where
  "db_active = snd (activate_account 0 ''u1'' db_registered)"

definition first_session :: session_input where
  "first_session = \<lparr>si_refresh_token_hash = ''T/r1'', si_csrf_token_hash = ''T/c1'',
     si_expires_at = 604800000\<rparr>"

definition db_logged_in :: db where
  "db_logged_in = snd (create_exclusive_session ''s1'' ''t1'' 0 ''u1'' first_session db_active)"

definition account_u1 :: "account_status \<Rightarrow> account" where
  "account_u1 status = \<lparr>acc_id = ''u1'', acc_email = ''a@b.c'', acc_status = status, acc_role = USER,
     acc_password_hash = sample_hash, acc_created_at = 0, acc_updated_at = 0\<rparr>"

definition session_s1 :: session where
  "session_s1 = \<lparr>ses_id = ''s1'', ses_user_id = ''u1'', ses_refresh_token_hash = ''T/r1'',
     ses_csrf_token_hash = ''T/c1'', ses_expires_at = 604800000, ses_revoked_at = None,
     ses_revocation_reason = None, ses_created_at = 0, ses_last_rotated_at = 0\<rparr>"

definition token_t1 :: refresh_token where
  "token_t1 = \<lparr>rt_id = ''t1'', rt_session_id = ''s1'', rt_token_hash = ''T/r1'', rt_issued_at = 0,
     rt_used_at = None, rt_expires_at = 604800000\<rparr>"

lemma db_registered_eq: "db_registered = empty_db\<lparr>accounts := [account_u1 PENDING]\<rparr>"
  by (simp add: db_registered_def create_pending_account_def insert_account_def empty_db_def
      account_u1_def sample_hash_def)

lemma db_active_eq: "db_active = empty_db\<lparr>accounts := [account_u1 ACTIVE_ACCOUNT]\<rparr>"
  by (simp add: db_active_def db_registered_eq activate_account_def transaction_def run_simps
      lock_account_def account_by_id_def save_account_def account_u1_def empty_db_def)

lemma db_logged_in_eq: "db_logged_in = empty_db\<lparr>accounts := [account_u1 ACTIVE_ACCOUNT],
    sessions := [session_s1], refresh_tokens := [token_t1]\<rparr>"
  by (simp add: db_logged_in_def db_active_eq create_exclusive_session_def transaction_def run_simps
      lock_account_def account_by_id_def account_u1_def empty_db_def revoke_active_sessions_def
      insert_session_def insert_refresh_token_def first_session_def session_s1_def token_t1_def)

lemma db_active_reached: "auth_leads empty_db db_active"
proof -
  have "auth_step empty_db db_registered"
    unfolding db_registered_def by (rule auth_step.register) (rule prod.collapse [symmetric])
  moreover have "auth_step db_registered db_active"
    unfolding db_active_def by (rule auth_step.activate) (rule prod.collapse [symmetric])
  ultimately show ?thesis by (blast intro: auth_leads.intros)
qed

lemma db_logged_in_reached: "auth_leads empty_db db_logged_in"
proof -
  have "auth_step db_active db_logged_in"
    unfolding db_logged_in_def by (rule auth_step.login) (rule prod.collapse [symmetric])
  with db_active_reached show ?thesis by (rule auth_leads.step)
qed

definition auth_world :: "db \<Rightarrow> world" where
  "auth_world d = \<lparr>w_db = d, w_redis = (\<lambda>k. None), w_net = [], w_clock = 1000, w_email_jobs = [],
     w_access_jobs = [], w_mails = [], w_strings = (\<lambda>n. ''x'' @ replicate n (CHR ''y'')),
     w_ints = (\<lambda>n. n), w_drawn = 0\<rparr>"

theorem one_active_session_witness:
  "length (filter (is_active_session_of ''u1'') (sessions db_logged_in)) \<le> 1"
  using one_active_session [OF db_logged_in_reached, of "''u1''"] by (rule conjunct1)

section \<open>Refreshing\<close>

definition world1 :: world where
  "world1 = auth_world db_logged_in"

text \<open>Whatever signs the access tokens.\<close>

lemma sample_hash_token: "hash_token sample_cfg t = ''T/'' @ t"
  by (simp add: hash_token_def sample_cfg_def)

lemma refresh_world1_of:
  assumes "\<And>t. hash_token cfg t = ''T/'' @ t"
  shows "\<exists>x. refresh (app_sessions cfg) ''r1'' world1
    = (Inr x, snd (refresh (app_sessions cfg) ''r1'' world1))"
  by (simp add: assms world1_def auth_world_def db_logged_in_eq empty_db_def refresh_def Let_def run_simps
      app_sessions_def db_op_def find_refresh_token_history_by_hash_def
      token_t1_def session_s1_def account_u1_def find_active_session_by_id_def now_io_def
      find_account_by_id_def account_by_id_def generate_refresh_token_def generate_opaque_token_def
      draw_string_def rotate_refresh_token_io_def rotate_refresh_token_def rotate_locked_def
      transaction_def session_by_id_def lock_account_def usable_token_def save_refresh_token_def
      save_session_def insert_refresh_token_def set_session_cache_def safe_def redis_service_set_def
      redis_call_def issue_tokens_def)

lemmas refresh_world1 = refresh_world1_of [OF sample_hash_token]

theorem refresh_token_single_use_witness:
  "fst (refresh (app_sessions sample_cfg) ''r1'' (snd (refresh (app_sessions sample_cfg) ''r1'' world1)))
     \<in> {Inl RefreshReuseExn, Inl StorageUnavailableExn}"
proof -
  from refresh_world1 obtain x where first: "refresh (app_sessions sample_cfg) ''r1'' world1
    = (Inr x, snd (refresh (app_sessions sample_cfg) ''r1'' world1))" by blast
  have reached: "auth_leads empty_db (w_db world1)"
    by (simp add: world1_def auth_world_def db_logged_in_reached)
  from refresh_token_single_use [OF reached first auth_leads.stay prod.collapse [symmetric]]
  show ?thesis by (rule conjunct1)
qed

section \<open>Guarded requests\<close>

definition sample_guarded :: guarded_request where
  "sample_guarded = \<lparr>gr_authorization = Some ''Bearer jwt'', gr_origin = Some ''https://app.example'',
     gr_referer = None, gr_cookie_header = None, gr_csrf_token = Some (SingleValue ''c1''),
     gr_cookies = (\<lambda>k. if k = ''shortlink_refresh'' then Some ''r1'' else None)\<rparr>"

definition sample_guards :: guard_config where
  "sample_guards = \<lparr>gc_allowed_origins = [''https://app.example''],
     gc_refresh_cookie_name = ''shortlink_refresh'', gc_url_origin = (\<lambda>_. None),
     gc_decode_uri_component = Some\<rparr>"

lemma world1_served: "sessions_served sample_cfg world1"
  by (rule sessions_served.start) (simp_all add: world1_def auth_world_def db_logged_in_reached)

lemma guard_world1: "\<exists>p. session_guard sample_cfg sample_guarded world1
    = (Inr p, snd (session_guard sample_cfg sample_guarded world1)) \<and> pr_session_id p = ''s1''"
  by (simp add: world1_def auth_world_def db_logged_in_eq empty_db_def session_guard_def bearer_token_def
      sample_guarded_def js_trim_def js_space_def Let_def now_io_def run_simps verify_access_token_def
      sample_cfg_def validate_session_def read_session_cache_def app_sessions_def get_session_cache_def
      safe_def redis_service_get_def redis_call_def redis_get_def load_session_def db_op_def
      find_active_session_by_id_def session_s1_def account_u1_def find_account_by_id_def
      account_by_id_def remember_session_def set_session_cache_def redis_service_set_def)

theorem guarded_request_is_authenticated_witness:
  "\<exists>p. fst (session_guard sample_cfg sample_guarded world1) = Inr p
    \<and> (\<exists>s. s \<in> set (sessions (w_db world1)) \<and> ses_id s = pr_session_id p \<and> ses_revoked_at s = None)"
proof -
  from guard_world1 obtain p where p: "session_guard sample_cfg sample_guarded world1
    = (Inr p, snd (session_guard sample_cfg sample_guarded world1))" by blast
  from guarded_request_is_authenticated [OF world1_served p]
  have "\<exists>s. s \<in> set (sessions (w_db world1)) \<and> ses_id s = pr_session_id p \<and> ses_revoked_at s = None"
    by blast
  moreover have "fst (session_guard sample_cfg sample_guarded world1) = Inr p" by (subst p) simp
  ultimately show ?thesis by blast
qed

theorem csrf_guard_verdict_witness:
  "csrf_origin_guard sample_cfg sample_guards sample_guarded world1 = (Inr (), world1)"
proof -
  obtain r w' where run: "csrf_origin_guard sample_cfg sample_guards sample_guarded world1 = (r, w')"
    by force
  have "csrf_header sample_guarded = Some ''c1'' \<and> js_trim ''c1'' \<noteq> []
      \<and> resolve_origin (gc_url_origin sample_guards) (gr_origin sample_guarded) (gr_referer sample_guarded)
          = Some ''https://app.example''
      \<and> ''https://app.example'' \<in> set (gc_allowed_origins sample_guards)
      \<and> guard_refresh_cookie sample_guards sample_guarded = Inr (Some ''r1'')
      \<and> csrf_session sample_cfg ''r1'' (w_db world1) = Some session_s1
      \<and> hash_token sample_cfg ''c1'' = ses_csrf_token_hash session_s1"
    by (simp add: csrf_header_def sample_guarded_def js_trim_def js_space_def resolve_origin_def
        sample_guards_def guard_refresh_cookie_def csrf_session_def world1_def auth_world_def
        db_logged_in_eq hash_token_def sample_cfg_def session_s1_def)
  with csrf_guard_verdict [where cfg = sample_cfg and gc = sample_guards and request = sample_guarded
      and w = world1, unfolded run prod.case] run
  show ?thesis by auto
qed

end
