(* ===== verification/LoginLimits.thy ===== *)
theory LoginLimits
  imports AuthService
begin

text \<open>
  What the counters of src/src/modules/auth/redis-auth-state.service.ts enforce in auth.service.ts:
  the rate limit on login attempts and the lock after failed logins, while Redis answers. Attempts
  are counted in a window that opens with the first one and closes a fixed time later.
\<close>

section \<open>Counters that expire\<close>

text \<open>\<open>counts n x k s\<close>: the key holds \<open>n\<close> until \<open>x\<close>.\<close>

definition counts :: "int \<Rightarrow> instant \<Rightarrow> string \<Rightarrow> redis \<Rightarrow> bool" where
  "counts n x k s \<longleftrightarrow> s k = Some \<lparr>re_value = RInt n, re_expires_at = Some x\<rparr>"

lemma counts_live: "counts n x k s \<Longrightarrow> redis_live now s k =
    (if now < x then Some \<lparr>re_value = RInt n, re_expires_at = Some x\<rparr> else None)"
  by (simp add: counts_def redis_live_def)

lemma counter_opens:
  assumes "redis_live now s k = None"
  shows "\<exists>s'. increment_rate_limit_lua k ttl now s = Some (1, s') \<and> counts 1 (now + 1000 * int ttl) k s'
    \<and> (\<forall>j. j \<noteq> k \<longrightarrow> s' j = s j)"
  using assms
  by (simp add: increment_rate_limit_lua_def redis_incr_def redis_expire_def counts_def redis_live_def)

lemma counter_ticks:
  assumes "counts n x k s" and "now < x" and "0 < n"
  shows "\<exists>s'. increment_rate_limit_lua k ttl now s = Some (n + 1, s') \<and> counts (n + 1) x k s'
    \<and> (\<forall>j. j \<noteq> k \<longrightarrow> s' j = s j)"
  using assms counts_live [OF assms(1), of now]
  by (simp add: increment_rate_limit_lua_def redis_incr_def counts_def)

text \<open>Counting one attempt in a window: \<open>v\<close> is the new value and \<open>y\<close> when the window closes.\<close>

lemma counter_step:
  assumes "redis_live now s k = None \<or> (counts n x k s \<and> now < x \<and> 0 < n)"
    and "v = (if redis_live now s k = None then 1 else n + 1)"
    and "y = (if redis_live now s k = None then now + 1000 * int ttl else x)"
  shows "\<exists>s'. increment_rate_limit_lua k ttl now s = Some (v, s') \<and> counts v y k s'
    \<and> (\<forall>j. j \<noteq> k \<longrightarrow> s' j = s j)"
proof (cases "redis_live now s k = None")
  case True
  then show ?thesis using counter_opens [OF True, of ttl] assms(2,3) by simp
next
  case False
  then show ?thesis using counter_ticks [of n x k s now ttl] assms by auto
qed

text \<open>The failed login script is the same counter, with a lock from the fifth failure on.\<close>

lemma failed_login_script:
  "increment_failed_login_lua fk lk ttl m now s =
     map_option (\<lambda>(n, s'). ((n, m \<le> n),
         if m \<le> n then redis_set now lk (RText ''1'') (Some ttl) s' else s'))
       (increment_rate_limit_lua fk ttl now s)"
  by (auto simp: increment_failed_login_lua_def increment_rate_limit_lua_def Let_def split: option.splits)

section \<open>Which keys an operation leaves alone\<close>

text \<open>Redis works, and the key and the clock are as they were.\<close>

definition key_kept :: "string \<Rightarrow> redis_entry option \<Rightarrow> instant \<Rightarrow> world \<Rightarrow> bool" where
  "key_kept k v t w \<longleftrightarrow> w_redis w k = v \<and> w_clock w = t"

lemma keeps_key_db [keeps_rules]: "keeps (key_kept k v t) (db_op m)"
  by (simp add: keeps_def key_kept_def db_op_def case_prod_beta)

lemma keeps_key_now [keeps_rules]: "keeps (key_kept k v t) now_io"
  by (simp add: now_io_def keeps_getsM)

lemma keeps_key_draw [keeps_rules]: "keeps (key_kept k v t) draw_string"
  by (simp add: keeps_def key_kept_def draw_string_def)

lemma keeps_key_int [keeps_rules]: "keeps (key_kept k v t) (random_int n)"
  by (simp add: keeps_def key_kept_def random_int_def)

lemma keeps_key_call:
  assumes "\<And>now s x s'. cmd now s = Some (x, s') \<Longrightarrow> s' k = s k"
  shows "keeps (key_kept k v t) (safe (redis_call cmd))"
  unfolding safe_def
  by (intro keeps_catchM keeps_throwM keeps_redis_call) (auto simp: key_kept_def assms)

lemma keeps_key_set [keeps_rules]:
  "j \<noteq> k \<Longrightarrow> keeps (key_kept k v t) (safe (redis_service_set j x ttl))"
  unfolding redis_service_set_def by (rule keeps_key_call) (auto simp: redis_set_def)

lemma keeps_key_exists [keeps_rules]: "keeps (key_kept k v t) (safe (redis_service_exists j))"
  unfolding redis_service_exists_def by (rule keeps_key_call) auto

lemma keeps_key_enqueue [keeps_rules]: "keeps (key_kept k v t) (add_email_job j)"
  by (auto simp: keeps_def key_kept_def add_email_job_def enqueue_def Let_def
      split: list.splits net_outcome.splits)

lemma keeps_key_audit [keeps_rules]: "keeps (key_kept k v t) (record_audit inp)"
  unfolding record_audit_def by (intro keeps_rules)

lemma keeps_key_failed [keeps_rules]:
  assumes "k \<noteq> failed_login_key u" and "k \<noteq> login_lock_key u"
  shows "keeps (key_kept k v t) (record_failed_login u)"
  unfolding record_failed_login_def increment_failed_login_def case_prod_beta
  using assms
  by (intro keeps_rules keeps_key_call)
    (auto simp: failed_login_script increment_rate_limit_lua_def redis_incr_def redis_expire_def
      redis_set_def split: option.splits redis_value.splits if_splits)

lemma keeps_key_challenge [keeps_rules]:
  assumes "\<And>c. k \<noteq> KEY_PREFIX @ ''login-challenge:'' @ c"
  shows "keeps (key_kept k v t) (create_login_challenge cfg u c code x)"
  unfolding create_login_challenge_def
proof (rule keeps_key_call)
  fix now s y s'
  assume "create_login_challenge_lua (login_challenge_account_key u) (login_challenge_key c)
    (challenge_payload cfg u code x) TTL_ONE_HOUR_SECONDS c (KEY_PREFIX @ ''login-challenge:'') now s
    = Some (y, s')"
  moreover have "k \<noteq> login_challenge_account_key u" "k \<noteq> login_challenge_key c"
    using assms [of c] assms [of "''account:'' @ u"]
    by (simp_all add: login_challenge_account_key_def login_challenge_key_def)
  ultimately show "s' k = s k"
    using assms
    by (auto simp: create_login_challenge_lua_def Let_def redis_set_def redis_del_def
        split: option.splits redis_value.splits)
qed

section \<open>The rate limit on login attempts\<close>

definition login_rate_key :: "auth_config \<Rightarrow> string \<Rightarrow> string \<Rightarrow> string" where
  "login_rate_key cfg email client_ip =
     rate_key ''login'' ByEmail (ac_sha256 cfg (client_or_unknown client_ip @ ''|'' @ email))"

lemma rate_key_apart:
  "rate_key op d h \<noteq> failed_login_key u" "rate_key op d h \<noteq> login_lock_key u"
  "rate_key op d h \<noteq> KEY_PREFIX @ ''login-challenge:'' @ c" "issuance_key p i \<noteq> rate_key op d h"
  by (cases p; simp add: rate_key_def failed_login_key_def login_lock_key_def KEY_PREFIX_def)+

lemma issue_login_challenge_keeps_rate [keeps_rules]:
  "keeps (key_kept (rate_key op d h) v t) (issue_login_challenge cfg u)"
  unfolding issue_login_challenge_def generate_challenge_id_def generate_verification_code_io_def
    set_issuance_def enqueue_verification_code_def
  by (intro keeps_rules) (auto simp: rate_key_def KEY_PREFIX_def)

lemma assert_login_rate_limit_up:
  assumes "w_net w = []"
    and "increment_rate_limit_lua (login_rate_key cfg email ip) LOGIN_RATE_LIMIT_TTL_SECONDS
      (w_clock w) (w_redis w) = Some (n, s)"
  shows "assert_login_rate_limit cfg email ip w =
    ((if 10 < n then Inl rate_limited_exception else Inr ()), w\<lparr>w_redis := s\<rparr>)"
  using safe_redis_up [where cmd = "increment_rate_limit_lua (login_rate_key cfg email ip)
      LOGIN_RATE_LIMIT_TTL_SECONDS", OF assms]
  by (simp add: assert_login_rate_limit_def with_security_storage_def increment_rate_limit_def
      login_rate_key_def run_simps LOGIN_RATE_LIMIT_def rate_limited_exception_def http_error_def)

lemma bind_return: "bindM (returnM x) f = f x"
  by (simp add: run_simps)

lemma start_login_run:
  assumes email: "email_create raw = Inr email" and run: "start_login cfg raw pw ip w = (r, w')"
    and limit: "assert_login_rate_limit cfg email ip w = (q, w1)"
  shows "case q of Inl e \<Rightarrow> r = Inl e \<and> w' = w1
    | Inr _ \<Rightarrow> w_clock w' = w_clock w1
        \<and> w_redis w' (login_rate_key cfg email ip) = w_redis w1 (login_rate_key cfg email ip)"
proof -
  have kept: "keeps (key_kept (login_rate_key cfg email ip) v t)
      (with_security_storage
           (bindM (db_op (find_account_by_email email)) (\<lambda>found.
             case found of
               None \<Rightarrow> throwM invalid_credentials_exception
             | Some account \<Rightarrow>
                 if \<not> password_matches_account cfg pw (Some (acc_password_hash account))
                 then bindM (record_failed_login (acc_id account)) (\<lambda>(failures, locked).
                   if locked then throwM account_temporarily_locked_exception
                   else throwM invalid_credentials_exception)
                 else if acc_status account = PENDING then throwM email_not_verified_exception
                 else bindM (is_login_locked (acc_id account)) (\<lambda>locked.
                   if locked then throwM account_temporarily_locked_exception
                   else issue_login_challenge cfg (acc_id account)))))" for v t
    unfolding with_security_storage_def login_rate_key_def is_login_locked_def case_prod_beta
    by (intro keeps_rules) (rule rate_key_apart)+
  show ?thesis
  proof (cases q)
    case (Inl e)
    with run email limit show ?thesis
      by (simp add: start_login_def parse_email_def run_simps)
  next
    case (Inr x)
    show ?thesis
      using run keepsD [OF kept, of "w_redis w1 (login_rate_key cfg email ip)" "w_clock w1" w1 r w']
      by (simp add: Inr start_login_def parse_email_def email limit key_kept_def thenM_def
          bindM_def [of "assert_login_rate_limit cfg email ip"] bind_return)
  qed
qed

text \<open>
  Login attempts of one client for one address, while Redis answers: \<open>n\<close> since the window opened,
  which closes at \<open>x\<close>. Anything else may happen in between, and time may pass.
\<close>

inductive login_attempts :: "auth_config \<Rightarrow> string \<Rightarrow> string \<Rightarrow> instant \<Rightarrow> int \<Rightarrow> world \<Rightarrow> bool"
  for cfg email ip where
  opened: "redis_live (w_clock w) (w_redis w) (login_rate_key cfg email ip) = None \<Longrightarrow> w_net w = [] \<Longrightarrow>
    email_create raw = Inr email \<Longrightarrow> start_login cfg raw pw ip w = (r, w') \<Longrightarrow>
    login_attempts cfg email ip (w_clock w + 900000) 1 w'"
| again: "login_attempts cfg email ip x n w \<Longrightarrow> w_net w = [] \<Longrightarrow> w_clock w < x \<Longrightarrow>
    email_create raw = Inr email \<Longrightarrow> start_login cfg raw pw ip w = (r, w') \<Longrightarrow>
    login_attempts cfg email ip x (n + 1) w'"
| elsewhere: "login_attempts cfg email ip x n w \<Longrightarrow> w_clock w \<le> w_clock w' \<Longrightarrow>
    w_redis w' (login_rate_key cfg email ip) = w_redis w (login_rate_key cfg email ip) \<Longrightarrow>
    login_attempts cfg email ip x n w'"

lemma start_login_counts:
  assumes email: "email_create raw = Inr email" and up: "w_net w = []"
    and run: "start_login cfg raw pw ip w = (r, w')"
    and window: "redis_live (w_clock w) (w_redis w) (login_rate_key cfg email ip) = None \<or>
      (counts n x (login_rate_key cfg email ip) (w_redis w) \<and> w_clock w < x \<and> 0 < n)"
    and v: "v = (if redis_live (w_clock w) (w_redis w) (login_rate_key cfg email ip) = None then 1 else n + 1)"
    and y: "y = (if redis_live (w_clock w) (w_redis w) (login_rate_key cfg email ip) = None
      then w_clock w + 900000 else x)"
  shows "counts v y (login_rate_key cfg email ip) (w_redis w')
    \<and> (10 < v \<longrightarrow> r = Inl rate_limited_exception \<and> w_db w' = w_db w \<and> w_email_jobs w' = w_email_jobs w)
    \<and> fst (assert_login_rate_limit cfg email ip w) = (if 10 < v then Inl rate_limited_exception else Inr ())"
proof -
  have "y = (if redis_live (w_clock w) (w_redis w) (login_rate_key cfg email ip) = None
      then w_clock w + 1000 * int LOGIN_RATE_LIMIT_TTL_SECONDS else x)"
    using y by (simp add: LOGIN_RATE_LIMIT_TTL_SECONDS_def)
  from counter_step [OF window v this] obtain s
    where s: "increment_rate_limit_lua (login_rate_key cfg email ip) LOGIN_RATE_LIMIT_TTL_SECONDS
      (w_clock w) (w_redis w) = Some (v, s)" "counts v y (login_rate_key cfg email ip) s" by blast
  note limit = assert_login_rate_limit_up [OF up s(1)]
  show ?thesis
    using start_login_run [OF email run limit] s(2) limit
    by (auto simp: counts_def split: if_splits)
qed

lemma login_attempts_counted:
  "login_attempts cfg email ip x n w \<Longrightarrow>
     counts n x (login_rate_key cfg email ip) (w_redis w) \<and> 0 < n"
proof (induction rule: login_attempts.induct)
  case (opened w raw pw r w')
  then show ?case using start_login_counts [OF opened(3,2,4)] by simp
next
  case (again x n w raw pw r w')
  then show ?case
    using start_login_counts [OF again(4,2,5), of n x "n + 1" x] counts_live [of n x _ "w_redis w" "w_clock w"]
    by auto
next
  case (elsewhere x n w w')
  then show ?case by (simp add: counts_def)
qed

text \<open>
  Property C22. A client gets ten login attempts for an address within fifteen minutes of the
  first. Each further attempt in that window is answered 429 before the password is looked at,
  right or wrong, and changes nothing but the counter; the first attempt after the window counts
  from one again.
\<close>

theorem login_attempts_limited:
  assumes "login_attempts cfg email ip x n w" and "w_net w = []"
    and "email_create raw = Inr email" and "start_login cfg raw pw ip w = (r, w')"
  shows "(w_clock w < x \<and> 10 \<le> n \<longrightarrow> r = Inl rate_limited_exception \<and> w_db w' = w_db w
           \<and> w_email_jobs w' = w_email_jobs w)
    \<and> (w_clock w < x \<longrightarrow> counts (n + 1) x (login_rate_key cfg email ip) (w_redis w'))
    \<and> (x \<le> w_clock w \<longrightarrow> counts 1 (w_clock w + 900000) (login_rate_key cfg email ip) (w_redis w'))
    \<and> (w_clock w < x \<and> n < 10 \<or> x \<le> w_clock w \<longrightarrow> fst (assert_login_rate_limit cfg email ip w) = Inr ())"
proof -
  note c = login_attempts_counted [OF assms(1)]
  then have live: "redis_live (w_clock w) (w_redis w) (login_rate_key cfg email ip) = None \<longleftrightarrow> x \<le> w_clock w"
    using counts_live by (metis leI not_le option.distinct(1))
  show ?thesis
  proof (cases "x \<le> w_clock w")
    case True
    with start_login_counts [OF assms(3,2,4), of n x 1 "w_clock w + 900000"] live show ?thesis by simp
  next
    case False
    with start_login_counts [OF assms(3,2,4), of n x "n + 1" x] live c show ?thesis by auto
  qed
qed

section \<open>The lock after failed logins\<close>

definition refusal :: "exn + 'a \<Rightarrow> exn option" where
  "refusal r = (case r of Inl e \<Rightarrow> Some e | Inr _ \<Rightarrow> None)"

text \<open>
  A failed login of an account: a password login, within the rate limit, whose password is wrong,
  or a wrong code for a pending login of the account while it is not locked. \<open>answer\<close> is the
  exception the request ends with.
\<close>

inductive failed_login :: "auth_config \<Rightarrow> uuid \<Rightarrow> world \<Rightarrow> exn option \<Rightarrow> world \<Rightarrow> bool" for cfg u where
  wrong_password: "email_create raw = Inr email \<Longrightarrow> fst (assert_login_rate_limit cfg email ip w) = Inr () \<Longrightarrow>
    find_account_by_email email (w_db w) = (Inr (Some a), w_db w) \<Longrightarrow> acc_id a = u \<Longrightarrow>
    \<not> password_matches_account cfg pw (Some (acc_password_hash a)) \<Longrightarrow>
    start_login cfg raw pw ip w = (r, w') \<Longrightarrow> failed_login cfg u w (refusal r) w'"
| wrong_code: "redis_get (w_clock w) (login_challenge_key c) (w_redis w) = Some (RJson (JObj p)) \<Longrightarrow>
    challenge_user (w_clock w) (JObj p) = Some u \<Longrightarrow>
    map_of p ''codeHmac'' \<noteq> Some (JStr (hmac_code cfg code)) \<Longrightarrow>
    redis_live (w_clock w) (w_redis w) (login_lock_key u) = None \<Longrightarrow>
    complete_login cfg c code w = (r, w') \<Longrightarrow> failed_login cfg u w (refusal r) w'"

text \<open>
  Failed logins of an account, while Redis answers: \<open>n\<close> since the counter started, which runs
  until \<open>x\<close>, the last one at \<open>t\<close>. Anything that leaves the two keys alone may happen in between.
\<close>

inductive failed_logins :: "auth_config \<Rightarrow> uuid \<Rightarrow> instant \<Rightarrow> int \<Rightarrow> instant \<Rightarrow> world \<Rightarrow> bool" for cfg u where
  first: "redis_live (w_clock w) (w_redis w) (failed_login_key u) = None \<Longrightarrow>
    redis_live (w_clock w) (w_redis w) (login_lock_key u) = None \<Longrightarrow> w_net w = [] \<Longrightarrow>
    failed_login cfg u w answer w' \<Longrightarrow> failed_logins cfg u (w_clock w + 3600000) 1 (w_clock w) w'"
| again: "failed_logins cfg u x n t w \<Longrightarrow> w_net w = [] \<Longrightarrow> w_clock w < x \<Longrightarrow>
    failed_login cfg u w answer w' \<Longrightarrow> failed_logins cfg u x (n + 1) (w_clock w) w'"
| elsewhere: "failed_logins cfg u x n t w \<Longrightarrow> w_clock w \<le> w_clock w' \<Longrightarrow>
    w_redis w' (failed_login_key u) = w_redis w (failed_login_key u) \<Longrightarrow>
    w_redis w' (login_lock_key u) = w_redis w (login_lock_key u) \<Longrightarrow> failed_logins cfg u x n t w'"

definition lock_state :: "uuid \<Rightarrow> instant \<Rightarrow> int \<Rightarrow> instant \<Rightarrow> world \<Rightarrow> bool" where
  "lock_state u x n t w \<longleftrightarrow> counts n x (failed_login_key u) (w_redis w) \<and> 0 < n
     \<and> (if 5 \<le> n
        then w_redis w (login_lock_key u) = Some \<lparr>re_value = RText ''1'', re_expires_at = Some (t + 3600000)\<rparr>
        else redis_live (w_clock w) (w_redis w) (login_lock_key u) = None)"

text \<open>The audit row of the next event can be written: its account exists and its identifier is new.\<close>

definition audit_writable :: "uuid \<Rightarrow> world \<Rightarrow> bool" where
  "audit_writable u w \<longleftrightarrow> u \<in> acc_id ` set (accounts (w_db w))
     \<and> w_strings w (w_drawn w) \<notin> ae_id ` set (audit_events (w_db w))"

lemma lock_key_apart [simp]: "failed_login_key u \<noteq> login_lock_key u" "login_lock_key u \<noteq> failed_login_key u"
  by (simp_all add: failed_login_key_def login_lock_key_def)

lemma record_failed_login_counts:
  assumes up: "w_net w = []" and run: "record_failed_login u w = (r, w')"
    and window: "redis_live (w_clock w) (w_redis w) (failed_login_key u) = None \<or>
      (counts n x (failed_login_key u) (w_redis w) \<and> w_clock w < x \<and> 0 < n)"
    and v: "v = (if redis_live (w_clock w) (w_redis w) (failed_login_key u) = None then 1 else n + 1)"
    and y: "y = (if redis_live (w_clock w) (w_redis w) (failed_login_key u) = None
      then w_clock w + 3600000 else x)"
  shows "((v < 5 \<longrightarrow> redis_live (w_clock w) (w_redis w) (login_lock_key u) = None) \<longrightarrow>
       lock_state u y v (w_clock w) w')
    \<and> (audit_writable u w \<longrightarrow> r = Inr (v, 5 \<le> v))"
proof -
  have "y = (if redis_live (w_clock w) (w_redis w) (failed_login_key u) = None
      then w_clock w + 1000 * int TTL_ONE_HOUR_SECONDS else x)"
    using y by (simp add: TTL_ONE_HOUR_SECONDS_def)
  from counter_step [OF window v this] obtain s where
    s: "increment_rate_limit_lua (failed_login_key u) TTL_ONE_HOUR_SECONDS (w_clock w) (w_redis w) = Some (v, s)"
      "counts v y (failed_login_key u) s" "\<forall>j. j \<noteq> failed_login_key u \<longrightarrow> s j = w_redis w j" by blast
  define s' where "s' = (if 5 \<le> v then redis_set (w_clock w) (login_lock_key u) (RText ''1'')
    (Some TTL_ONE_HOUR_SECONDS) s else s)"
  have inc: "increment_failed_login u w = (Inr (v, 5 \<le> v), w\<lparr>w_redis := s'\<rparr>)"
    unfolding increment_failed_login_def
    by (rule safe_redis_up [OF up]) (simp add: failed_login_script s(1) MAX_FAILED_LOGINS_def s'_def)
  obtain a w1 where "record_audit
      \<lparr>au_user_id = Some u, au_type = (if 5 \<le> v then LOGIN_LOCKED else LOGIN_FAILURE),
       au_session_id = None, au_ip_hash = None, au_metadata = Some [(''failures'', JNum v)]\<rparr>
      (w\<lparr>w_redis := s'\<rparr>) = (a, w1)" by force
  note audit = this keepsD [OF keeps_key_audit _ this, of k "s' k" "w_clock w" for k]
  have "w' = w1" and r: "r = (case a of Inl e \<Rightarrow> Inl e | Inr _ \<Rightarrow> Inr (v, 5 \<le> v))"
    using run inc audit(1) by (auto simp: record_failed_login_def run_simps split: sum.splits)
  with audit(2) have keys: "w_redis w' = s'" "w_clock w' = w_clock w"
    by (auto simp: key_kept_def)
  have "0 < v" using window v by auto
  then have "lock_state u y v (w_clock w) w'"
    if "v < 5 \<longrightarrow> redis_live (w_clock w) (w_redis w) (login_lock_key u) = None"
    using s(2,3) that keys
    by (auto simp: lock_state_def s'_def counts_def redis_set_def redis_live_def TTL_ONE_HOUR_SECONDS_def)
  moreover have "r = Inr (v, 5 \<le> v)" if "audit_writable u w"
    using r audit(1) that
    by (auto simp: audit_writable_def record_audit_def insert_audit_event_def run_simps draw_string_def
        now_io_def db_op_def split: if_splits)
  ultimately show ?thesis by blast
qed

lemma is_login_locked_up:
  "w_net w = [] \<Longrightarrow> is_login_locked u w =
     (Inr (redis_live (w_clock w) (w_redis w) (login_lock_key u) \<noteq> None), w)"
  by (simp add: is_login_locked_def redis_service_exists_def safe_redis_up run_simps redis_exists_def)

lemma assert_login_rate_limit_frame:
  assumes "w_net w = []" and "assert_login_rate_limit cfg email ip w = (Inr q, w1)"
  shows "w_db w1 = w_db w \<and> w_net w1 = [] \<and> w_clock w1 = w_clock w
    \<and> w_strings w1 = w_strings w \<and> w_drawn w1 = w_drawn w
    \<and> (\<forall>k. k \<noteq> login_rate_key cfg email ip \<longrightarrow> w_redis w1 k = w_redis w k)"
proof (cases "increment_rate_limit_lua (login_rate_key cfg email ip) LOGIN_RATE_LIMIT_TTL_SECONDS
    (w_clock w) (w_redis w)")
  case None
  with assms show ?thesis
    by (simp add: assert_login_rate_limit_def with_security_storage_def increment_rate_limit_def
        login_rate_key_def safe_run redis_call_def run_simps split: if_splits)
next
  case (Some p)
  obtain n s where p: "p = (n, s)" by (cases p)
  have "s k = w_redis w k" if "k \<noteq> login_rate_key cfg email ip" for k
    using Some p that
    by (auto simp: increment_rate_limit_lua_def redis_incr_def redis_expire_def login_rate_key_def
        split: option.splits redis_value.splits if_splits)
  with assms assert_login_rate_limit_up [OF assms(1) Some [unfolded p]] show ?thesis
    by (auto split: if_splits)
qed

lemma login_rate_key_apart:
  "failed_login_key u \<noteq> login_rate_key cfg email ip" "login_lock_key u \<noteq> login_rate_key cfg email ip"
  "KEY_PREFIX @ ''login-challenge:'' @ c \<noteq> login_rate_key cfg email ip"
  unfolding login_rate_key_def using rate_key_apart [THEN not_sym] by blast+

text \<open>What the answer to a failed login is, from what recording it returned.\<close>

definition failed_answer :: "exn + int \<times> bool \<Rightarrow> exn option" where
  "failed_answer r = (case r of
     Inl e \<Rightarrow> Some (if e = StorageUnavailableExn then storage_unavailable_exception else e)
   | Inr (failures, locked) \<Rightarrow>
       Some (if locked then account_temporarily_locked_exception else invalid_credentials_exception))"

lemma wrong_code_run:
  assumes up: "w_net w = []"
    and "redis_get (w_clock w) (login_challenge_key c) (w_redis w) = Some (RJson (JObj p))"
    and "challenge_user (w_clock w) (JObj p) = Some u"
    and "map_of p ''codeHmac'' \<noteq> Some (JStr (hmac_code cfg code))"
    and "redis_live (w_clock w) (w_redis w) (login_lock_key u) = None"
  shows "complete_login cfg c code w = with_security_storage (reject_challenge (Some u)) w"
proof -
  have "find_login_challenge_user_id c w = (Inr (Some u), w)"
    using assms(2,3)
    by (simp add: find_login_challenge_user_id_def redis_service_get_def safe_redis_up [OF up]
        run_simps now_io_def)
  moreover have "refuse_if_locked u w = (Inr (), w)"
    using assms(5) by (simp add: refuse_if_locked_def is_login_locked_up [OF up] run_simps)
  moreover obtain q where "consume_login_challenge cfg c code w = (Inr q, w)" "\<forall>v. q \<noteq> ChallengeConsumed v"
    using assms(2,4)
    by (cases "lua_truthy (map_of p ''used'')")
      (simp_all add: consume_login_challenge_def consume_login_challenge_lua_def safe_redis_up [OF up]
        run_simps now_io_def)
  ultimately show ?thesis
    by (cases q) (simp_all add: complete_login_def with_security_storage_def run_simps)
qed

lemma rejected_run:
  assumes "record_failed_login u w = (q, w')"
  shows "with_security_storage (reject_challenge (Some u)) w = (r, w') \<longrightarrow> refusal r = failed_answer q"
    and "with_security_storage (reject_challenge (Some u)) w = (r, w2) \<longrightarrow> w2 = w'"
  using assms
  by (auto simp: with_security_storage_def reject_challenge_def run_simps refusal_def failed_answer_def
      account_temporarily_locked_exception_def invalid_credentials_exception_def http_error_def
      split: sum.splits prod.splits if_splits)

lemma wrong_password_run:
  assumes "email_create raw = Inr email" and "assert_login_rate_limit cfg email ip w = (Inr (), w1)"
    and "find_account_by_email email (w_db w1) = (Inr (Some a), w_db w1)"
    and "\<not> password_matches_account cfg pw (Some (acc_password_hash a))"
  shows "start_login cfg raw pw ip w = with_security_storage (reject_challenge (Some (acc_id a))) w1"
proof -
  have "w1\<lparr>w_db := w_db w1\<rparr> = w1" by simp
  with assms show ?thesis
    by (simp add: start_login_def parse_email_def with_security_storage_def reject_challenge_def
        run_simps db_op_def)
qed

text \<open>So a failed login is recorded, exactly once, and answered by the count.\<close>

lemma failed_login_recorded:
  assumes "failed_login cfg u w answer w'" and up: "w_net w = []"
  shows "\<exists>w1 q. record_failed_login u w1 = (q, w') \<and> answer = failed_answer q
    \<and> w_net w1 = [] \<and> w_clock w1 = w_clock w \<and> (audit_writable u w1 \<longleftrightarrow> audit_writable u w)
    \<and> redis_live (w_clock w1) (w_redis w1) (failed_login_key u) = redis_live (w_clock w) (w_redis w) (failed_login_key u)
    \<and> redis_live (w_clock w1) (w_redis w1) (login_lock_key u) = redis_live (w_clock w) (w_redis w) (login_lock_key u)
    \<and> w_redis w1 (failed_login_key u) = w_redis w (failed_login_key u)"
  using assms(1)
proof cases
  case (wrong_password raw email ip a pw r)
  then obtain w1 where limit: "assert_login_rate_limit cfg email ip w = (Inr (), w1)"
    by (metis prod.collapse)
  note f = assert_login_rate_limit_frame [OF up limit] login_rate_key_apart [of _ cfg email ip]
  obtain q w2 where q: "record_failed_login u w1 = (q, w2)" by force
  have "with_security_storage (reject_challenge (Some u)) w1 = (r, w')"
    using wrong_password_run [OF wrong_password(2) limit] wrong_password(4-7) f by simp
  with rejected_run [OF q] have "w2 = w'" "refusal r = failed_answer q" by auto
  with wrong_password(1) q f show ?thesis
    by (intro exI [of _ w1] exI [of _ q]) (auto simp: redis_live_def audit_writable_def)
next
  case (wrong_code c p code r)
  obtain q w2 where q: "record_failed_login u w = (q, w2)" by force
  have "with_security_storage (reject_challenge (Some u)) w = (r, w')"
    using wrong_code_run [OF up wrong_code(2-5)] wrong_code(6) by simp
  with rejected_run [OF q] have "w2 = w'" "refusal r = failed_answer q" by auto
  with wrong_code(1) q up show ?thesis
    by (intro exI [of _ w] exI [of _ q]) simp
qed

lemma failed_login_counts:
  assumes "failed_login cfg u w answer w'" and "w_net w = []"
    and window: "redis_live (w_clock w) (w_redis w) (failed_login_key u) = None \<or>
      (counts n x (failed_login_key u) (w_redis w) \<and> w_clock w < x \<and> 0 < n)"
    and v: "v = (if redis_live (w_clock w) (w_redis w) (failed_login_key u) = None then 1 else n + 1)"
    and y: "y = (if redis_live (w_clock w) (w_redis w) (failed_login_key u) = None
      then w_clock w + 3600000 else x)"
  shows "((v < 5 \<longrightarrow> redis_live (w_clock w) (w_redis w) (login_lock_key u) = None) \<longrightarrow>
       lock_state u y v (w_clock w) w')
    \<and> (audit_writable u w \<longrightarrow> answer = Some (if 5 \<le> v then account_temporarily_locked_exception
         else invalid_credentials_exception))"
proof -
  from failed_login_recorded [OF assms(1,2)] obtain w1 q where
    q: "record_failed_login u w1 = (q, w')" "answer = failed_answer q" "w_net w1 = []"
      "w_clock w1 = w_clock w" "audit_writable u w1 \<longleftrightarrow> audit_writable u w"
    and keys: "redis_live (w_clock w1) (w_redis w1) (failed_login_key u) = redis_live (w_clock w) (w_redis w) (failed_login_key u)"
      "redis_live (w_clock w1) (w_redis w1) (login_lock_key u) = redis_live (w_clock w) (w_redis w) (login_lock_key u)"
      "w_redis w1 (failed_login_key u) = w_redis w (failed_login_key u)" by blast
  have "redis_live (w_clock w1) (w_redis w1) (failed_login_key u) = None \<or>
      (counts n x (failed_login_key u) (w_redis w1) \<and> w_clock w1 < x \<and> 0 < n)"
    using window q(4) keys by (simp add: counts_def)
  from record_failed_login_counts [OF q(3,1) this, of v y] v y q keys show ?thesis
    by (auto simp: failed_answer_def)
qed

lemma failed_logins_lock_state: "failed_logins cfg u x n t w \<Longrightarrow> lock_state u x n t w"
proof (induction rule: failed_logins.induct)
  case (first w answer w')
  then show ?case using failed_login_counts [OF first(4,3)] by simp
next
  case (again x n t w answer w')
  have "counts n x (failed_login_key u) (w_redis w)" "0 < n"
    using again.IH by (auto simp: lock_state_def)
  moreover have "n + 1 < 5 \<longrightarrow> redis_live (w_clock w) (w_redis w) (login_lock_key u) = None"
    using again.IH by (auto simp: lock_state_def)
  ultimately show ?case
    using failed_login_counts [OF again(4,2), of n x "n + 1" x] again(3)
      counts_live [of n x "failed_login_key u" "w_redis w" "w_clock w"] by simp
next
  case (elsewhere x n t w w')
  have "redis_live (w_clock w') (w_redis w') (login_lock_key u) = None"
    if "redis_live (w_clock w) (w_redis w) (login_lock_key u) = None"
    using redis_live_later [OF elsewhere(2), of "w_redis w" "login_lock_key u"] that elsewhere(4)
    by (cases "redis_live (w_clock w') (w_redis w) (login_lock_key u)") (auto simp: redis_live_def)
  with elsewhere(3,4) elsewhere.IH show ?case by (simp add: lock_state_def counts_def split: if_splits)
qed

text \<open>
  Property C21. While Redis answers, the fifth failed login of an account within an hour of the
  first, by a wrong password or a wrong code, locks the account until an hour after the last
  failure, and an earlier one does not. A failed login is answered 401 up to the fourth of its
  hour and 429 from the fifth on, when its audit row can be written. While the account is locked
  the code of a pending login is not looked at and the right password of an active account starts
  no login: both are answered 429. The password logins are within the rate limit of the client.
\<close>

theorem failed_logins_lock:
  assumes "failed_logins cfg u x n t w" and "w_net w = []"
  shows "fst (is_login_locked u w) = Inr (5 \<le> n \<and> w_clock w < t + 3600000)
    \<and> (\<forall>answer w'. failed_login cfg u w answer w' \<and> audit_writable u w \<longrightarrow>
         answer = Some (if 4 \<le> n \<and> w_clock w < x then account_temporarily_locked_exception
           else invalid_credentials_exception))
    \<and> (5 \<le> n \<and> w_clock w < t + 3600000 \<longrightarrow>
         (\<forall>c code. find_login_challenge_user_id c w = (Inr (Some u), w) \<longrightarrow>
            complete_login cfg c code w = (Inl account_temporarily_locked_exception, w))
         \<and> (\<forall>raw pw ip email a w1. email_create raw = Inr email
              \<and> assert_login_rate_limit cfg email ip w = (Inr (), w1)
              \<and> find_account_by_email email (w_db w) = (Inr (Some a), w_db w) \<and> acc_id a = u
              \<and> acc_status a = ACTIVE_ACCOUNT
              \<and> password_matches_account cfg pw (Some (acc_password_hash a)) \<longrightarrow>
            start_login cfg raw pw ip w = (Inl account_temporarily_locked_exception, w1)))"
proof -
  note ls = failed_logins_lock_state [OF assms(1), unfolded lock_state_def]
  have live: "(redis_live (w_clock w) (w_redis w) (login_lock_key u) \<noteq> None)
      = (5 \<le> n \<and> w_clock w < t + 3600000)"
    using ls by (cases "5 \<le> n") (simp_all add: redis_live_def)
  have counter: "redis_live (w_clock w) (w_redis w) (failed_login_key u) = None \<longleftrightarrow> \<not> w_clock w < x"
    using ls counts_live [of n x "failed_login_key u" "w_redis w" "w_clock w"] by auto
  have answered: "answer = Some (if 4 \<le> n \<and> w_clock w < x then account_temporarily_locked_exception
      else invalid_credentials_exception)"
    if "failed_login cfg u w answer w'" "audit_writable u w" for answer w'
    using failed_login_counts [OF that(1) assms(2), of n x "if w_clock w < x then n + 1 else 1"
        "if w_clock w < x then x else w_clock w + 3600000"] ls counter that(2)
    by (auto split: if_splits)
  have code: "complete_login cfg c code w = (Inl account_temporarily_locked_exception, w)"
    if "5 \<le> n \<and> w_clock w < t + 3600000" "find_login_challenge_user_id c w = (Inr (Some u), w)" for c code
    using that live is_login_locked_up [OF assms(2), of u]
    by (simp add: complete_login_def with_security_storage_def refuse_if_locked_def run_simps
        account_temporarily_locked_exception_def)
  have right: "start_login cfg raw pw ip w = (Inl account_temporarily_locked_exception, w1)"
    if lock: "5 \<le> n \<and> w_clock w < t + 3600000" and email: "email_create raw = Inr email"
      and limit: "assert_login_rate_limit cfg email ip w = (Inr (), w1)"
      and a: "find_account_by_email email (w_db w) = (Inr (Some a), w_db w)" "acc_id a = u"
        "acc_status a = ACTIVE_ACCOUNT" "password_matches_account cfg pw (Some (acc_password_hash a))"
    for raw pw ip email a w1
  proof -
    note f = assert_login_rate_limit_frame [OF assms(2) limit] login_rate_key_apart [of _ cfg email ip]
    then have "is_login_locked u w1 = (Inr True, w1)"
      using is_login_locked_up [of w1 u] lock live by (simp add: redis_live_def)
    moreover have "w1\<lparr>w_db := w_db w\<rparr> = w1" using f by simp
    ultimately have "is_login_locked u (w1\<lparr>w_db := w_db w\<rparr>) = (Inr True, w1)" by (simp only:)
    then show ?thesis using email limit a f
      by (simp add: start_login_def parse_email_def with_security_storage_def run_simps db_op_def
          account_temporarily_locked_exception_def)
  qed
  have "fst (is_login_locked u w) = Inr (5 \<le> n \<and> w_clock w < t + 3600000)"
    using live is_login_locked_up [OF assms(2), of u] by simp
  then show ?thesis
    by (intro conjI allI impI; (elim conjE)?) (assumption | rule answered code right; simp)+
qed

end
