(* ===== verification/AuthFlows.thy ===== *)
theory AuthFlows
  imports EmailWorker LoginLimits
begin

text \<open>
  The authentication flows end to end: what a mailed activation code, a completed login and a
  password reset guarantee, across auth.service.ts, email.processor.ts and the stores.
\<close>

section \<open>Activation\<close>

text \<open>The stored activation code of a user: its digest, with a count of the failed attempts, until \<open>x\<close>.\<close>

definition activation_pending :: "auth_config \<Rightarrow> uuid \<Rightarrow> string \<Rightarrow> instant \<Rightarrow> redis \<Rightarrow> bool" where
  "activation_pending cfg u code x s \<longleftrightarrow>
     (\<exists>payload n. s (activation_key u) = Some \<lparr>re_value = RJson (JObj payload), re_expires_at = Some x\<rparr>
        \<and> map_of payload ''codeHmac'' = Some (JStr (hmac_code cfg code))
        \<and> map_of payload ''attempts'' = Some (JNum n))"

lemma map_of_json_put: "map_of (json_put k v kvs) = (map_of kvs)(k \<mapsto> v)"
proof -
  have "map_of (update_where (\<lambda>(k', _). k' = k) (\<lambda>_. (k, v)) kvs) j =
      (if j = k then (if k \<in> fst ` set kvs then Some v else None) else map_of kvs j)" for j
    by (induction kvs) (force simp: image_iff)+
  then show ?thesis
    by (intro ext) (auto simp: json_put_def map_add_def split: option.splits)
qed

lemma consume_pending:
  assumes "activation_pending cfg u code x s"
  shows "if now < x \<and> hmac_code cfg c = hmac_code cfg code
    then consume_activation_lua (activation_key u) (hmac_code cfg c) now s
      = Some (ActivationConsumed, redis_del (activation_key u) s)
    else \<exists>r s'. consume_activation_lua (activation_key u) (hmac_code cfg c) now s = Some (r, s')
      \<and> r \<noteq> ActivationConsumed \<and> activation_pending cfg u code x s'"
proof -
  from assms obtain payload n where p:
    "s (activation_key u) = Some \<lparr>re_value = RJson (JObj payload), re_expires_at = Some x\<rparr>"
    "map_of payload ''codeHmac'' = Some (JStr (hmac_code cfg code))"
    "map_of payload ''attempts'' = Some (JNum n)" unfolding activation_pending_def by blast
  have "activation_pending cfg u code x (redis_set_keepttl now (activation_key u)
      (RJson (JObj (json_put ''attempts'' (JNum (n + 1)) payload))) s)" if "now < x"
    using p that by (simp add: activation_pending_def redis_set_keepttl_def redis_live_def map_of_json_put)
  with p assms show ?thesis
    by (auto simp: consume_activation_lua_def redis_get_def redis_live_def)
qed

lemma activate_account_run:
  assumes "account_by_id u d = Some a" and "acc_status a = PENDING"
  shows "activate_account now u d =
    (Inr (a\<lparr>acc_status := ACTIVE_ACCOUNT, acc_updated_at := now\<rparr>), d\<lparr>accounts :=
      update_where (\<lambda>b. acc_id b = u) (\<lambda>_. a\<lparr>acc_status := ACTIVE_ACCOUNT, acc_updated_at := now\<rparr>) (accounts d)\<rparr>)"
proof -
  have "a\<lparr>acc_status := ACTIVE_ACCOUNT\<rparr> \<noteq> a"
    using assms(2) by (metis account.select_convs(3) account.surjective account.update_convs(3) account_status.distinct(1))
  with assms account_by_id_SomeD [OF assms(1)] show ?thesis
    by (simp add: activate_account_def transaction_def lock_account_def run_simps save_account_def)
qed

lemma verify_email_pending:
  assumes "w_net v = []" and "activation_pending cfg u code x (w_redis v)"
    and "email_create raw = Inr email" and "auth_wf (w_db v)"
    and "find_account_by_email email (w_db v) = (Inr (Some b), w_db v)" and "acc_id b = u"
    and "acc_status b = PENDING" and "verify_email cfg raw c v = (r, v')"
  shows "if w_clock v < x \<and> hmac_code cfg c = hmac_code cfg code
    then r = Inr () \<and> w_redis v' (activation_key u) = None \<and> accounts (w_db v') =
        update_where (\<lambda>a. acc_id a = u) (\<lambda>_. b\<lparr>acc_status := ACTIVE_ACCOUNT, acc_updated_at := w_clock v\<rparr>)
          (accounts (w_db v))
    else r = Inl invalid_verification_exception \<and> w_db v' = w_db v
      \<and> activation_pending cfg u code x (w_redis v')"
proof -
  have "b \<in> set (accounts (w_db v))"
    using assms(5) by (auto simp: find_account_by_email_def getsM_def dest: find_SomeD)
  with find_unique_key [OF auth_wf_parts(5) [OF assms(4)], of b] assms(6)
  have b: "account_by_id u (w_db v) = Some b" by (simp add: account_by_id_def)
  show ?thesis
  proof (cases "w_clock v < x \<and> hmac_code cfg c = hmac_code cfg code")
    case True
    with consume_pending [OF assms(2), of "w_clock v" c]
    have "consume_activation_code cfg u c v = (Inr ActivationConsumed,
        v\<lparr>w_redis := redis_del (activation_key u) (w_redis v)\<rparr>)"
      unfolding consume_activation_code_def by (intro safe_redis_up [OF assms(1)]) simp
    with True assms(3,5-8) activate_account_run [OF b assms(7), of "w_clock v"] show ?thesis
      by (auto simp: verify_email_def parse_email_def with_security_storage_def run_simps db_op_def
          now_io_def redis_del_def)
  next
    case False
    with consume_pending [OF assms(2), of "w_clock v" c] obtain q s where
      "consume_activation_lua (activation_key u) (hmac_code cfg c) (w_clock v) (w_redis v) = Some (q, s)"
      "q \<noteq> ActivationConsumed" "activation_pending cfg u code x s" by auto
    moreover from this have "consume_activation_code cfg u c v = (Inr q, v\<lparr>w_redis := s\<rparr>)"
      unfolding consume_activation_code_def by (intro safe_redis_up [OF assms(1)])
    ultimately show ?thesis using False assms(3,5-8)
      by (auto simp: verify_email_def parse_email_def with_security_storage_def run_simps db_op_def
          invalid_verification_exception_def http_error_def)
  qed
qed

lemma key_apart_activation:
  "issuance_key p i \<noteq> activation_key u"
  by (cases p; simp add: activation_key_def KEY_PREFIX_def)

lemma is_current_issuance_up:
  "w_net w = [] \<Longrightarrow> is_current_issuance p u i w =
     (Inr (redis_get (w_clock w) (issuance_key p u) (w_redis w) = Some (RText i)), w)"
  by (auto simp: is_current_issuance_def redis_service_get_def safe_redis_up run_simps
      split: option.splits redis_value.splits)

lemma generate_code_run: "\<exists>code w'. generate_verification_code_io w = (Inr code, w')
    \<and> w' = w\<lparr>w_drawn := Suc (w_drawn w)\<rparr> \<and> code_dto_valid code"
  using generate_verification_code_valid
  by (simp add: generate_verification_code_io_def random_int_def run_simps)

lemma process_activation_run:
  assumes "w_net w = []" and "u \<noteq> []" and "account_by_id u (w_db w) = Some a"
    and "redis_get (w_clock w) (issuance_key ISSUE_ACTIVATION u) (w_redis w) = Some (RText i)"
  shows "\<exists>code w1. process_activation cfg (Some u) i w = (Inr (), w1) \<and> code_dto_valid code
    \<and> w_mails w1 = w_mails w @ [activation_mail (acc_email a) code]
    \<and> w_db w1 = w_db w \<and> activation_pending cfg u code (w_clock w + 3600000) (w_redis w1)"
proof -
  obtain code where code: "generate_verification_code_io w = (Inr code, w\<lparr>w_drawn := Suc (w_drawn w)\<rparr>)"
    "code_dto_valid code" using generate_code_run by blast
  define s where "s = redis_set (w_clock w) (activation_key u) (RJson (JObj
    [(''codeHmac'', JStr (hmac_code cfg code)), (''attempts'', JNum 0),
     (''resendAvailableAt'', JNum (w_clock w + RESEND_COOLDOWN_MS))])) (Some TTL_ONE_HOUR_SECONDS) (w_redis w)"
  define v where "v = w\<lparr>w_drawn := Suc (w_drawn w), w_redis := s\<rparr>"
  have stored: "set_activation_code cfg u code (w_clock w + RESEND_COOLDOWN_MS) (w\<lparr>w_drawn := Suc (w_drawn w)\<rparr>)
      = (Inr (), v)"
    unfolding set_activation_code_def redis_service_set_def v_def
    by (subst safe_redis_up) (simp_all add: assms(1) s_def)
  have "redis_get (w_clock w) (issuance_key ISSUE_ACTIVATION u) s = Some (RText i)"
    unfolding s_def
    by (subst redis_get_set_other) (rule key_apart_activation [THEN not_sym], rule assms(4))
  then have still: "is_current_issuance ISSUE_ACTIVATION u i v = (Inr True, v)"
    using is_current_issuance_up [of v] assms(1) by (simp add: v_def)
  have sent: "send_mail (activation_mail (acc_email a) code) v =
      (Inr (), v\<lparr>w_mails := w_mails w @ [activation_mail (acc_email a) code]\<rparr>)"
    using assms(1) by (simp add: send_mail_def enqueue_def run_simps v_def)
  have "process_activation cfg (Some u) i w =
      (Inr (), v\<lparr>w_mails := w_mails w @ [activation_mail (acc_email a) code]\<rparr>)"
    using assms(2,3) is_current_issuance_up [OF assms(1), of ISSUE_ACTIVATION u i] assms(4)
      code(1) stored still sent
    by (simp add: process_activation_def run_simps db_op_def find_account_by_id_def now_io_def)
  moreover have "activation_pending cfg u code (w_clock w + 3600000) s"
    by (simp add: activation_pending_def s_def redis_set_def TTL_ONE_HOUR_SECONDS_def)
  ultimately show ?thesis using code by (intro exI) (auto simp: v_def)
qed

text \<open>
  Property C39. The activation flow works and each code works once. Processing the job of the
  current issuance mails the account a code the API accepts; for an hour, that code activates the
  pending account and is gone, any other leaves the account pending and the code usable; after
  that hour every code is refused.
\<close>

theorem mailed_code_activates:
  assumes "w_net w = []" and "u \<noteq> []" and "account_by_id u (w_db w) = Some a"
    and "redis_get (w_clock w) (issuance_key ISSUE_ACTIVATION u) (w_redis w) = Some (RText i)"
  shows "\<exists>code w1. process_email_job cfg (SendVerificationCode ISSUE_ACTIVATION (Some u) None i) w = (Inr (), w1)
    \<and> w_mails w1 = w_mails w @ [activation_mail (acc_email a) code] \<and> w_db w1 = w_db w
    \<and> code_dto_valid code
    \<and> activation_pending cfg u code (w_clock w + 3600000) (w_redis w1)
    \<and> (\<forall>v raw email b c r v'.
         w_net v = [] \<and> activation_pending cfg u code (w_clock w + 3600000) (w_redis v)
         \<and> auth_leads empty_db (w_db v) \<and> email_create raw = Inr email
         \<and> find_account_by_email email (w_db v) = (Inr (Some b), w_db v) \<and> acc_id b = u
         \<and> acc_status b = PENDING \<and> verify_email cfg raw c v = (r, v') \<longrightarrow>
         (if w_clock v < w_clock w + 3600000 \<and> hmac_code cfg c = hmac_code cfg code
          then r = Inr () \<and> w_redis v' (activation_key u) = None \<and> accounts (w_db v') =
              update_where (\<lambda>a. acc_id a = u)
                (\<lambda>_. b\<lparr>acc_status := ACTIVE_ACCOUNT, acc_updated_at := w_clock v\<rparr>) (accounts (w_db v))
          else r = Inl invalid_verification_exception \<and> w_db v' = w_db v
            \<and> activation_pending cfg u code (w_clock w + 3600000) (w_redis v')))"
proof -
  from process_activation_run [OF assms, of cfg] obtain code w1 where
    run: "process_activation cfg (Some u) i w = (Inr (), w1)" "code_dto_valid code"
      "w_mails w1 = w_mails w @ [activation_mail (acc_email a) code]" "w_db w1 = w_db w"
      "activation_pending cfg u code (w_clock w + 3600000) (w_redis w1)" by blast
  have "process_email_job cfg (SendVerificationCode ISSUE_ACTIVATION (Some u) None i) w = (Inr (), w1)"
    using run(1) by (simp add: process_email_job_def)
  moreover have "auth_wf d" if "auth_leads empty_db d" for d
    using auth_leads_safe [OF that empty_db_auth_wf] by blast
  ultimately show ?thesis
    using run(2-) verify_email_pending [of _ cfg u code "w_clock w + 3600000"]
    by (intro exI conjI allI impI) (assumption | (elim conjE, rule verify_email_pending; blast))+
qed

section \<open>Login\<close>

text \<open>A round trip that answered.\<close>

lemma safe_redis_Inr:
  "safe (redis_call cmd) w = (Inr x, w') \<Longrightarrow>
     \<exists>s. cmd (w_clock w) (w_redis w) = Some (x, s) \<and> w' = w\<lparr>w_net := tl (w_net w), w_redis := s\<rparr>"
  using safe_redis_cases [of cmd w "Inr x" w'] by auto

text \<open>The cached entry of a session that a login or a refresh writes.\<close>

definition session_entry :: "session \<Rightarrow> string \<Rightarrow> session_cache_record" where
  "session_entry s role = \<lparr>sc_session_id = ses_id s, sc_user_id = ses_user_id s, sc_role = role,
     sc_expires_at = Some (ses_expires_at s), sc_active = True\<rparr>"

definition entry_cached :: "session \<Rightarrow> string \<Rightarrow> redis \<Rightarrow> bool" where
  "entry_cached s role r \<longleftrightarrow>
     (\<exists>x. ses_expires_at s \<le> x \<and> r (session_key (ses_id s)) =
        Some \<lparr>re_value = RJson (session_payload (session_entry s role) (ses_expires_at s)),
              re_expires_at = Some x\<rparr>)"

lemma set_session_cache_stores:
  assumes "set_session_cache (session_entry s role) w = (Inr x, w')"
  shows "untouched w w' \<and> entry_cached s role (w_redis w')"
proof -
  let ?n = "cache_ttl_seconds (w_clock w) (ses_expires_at s)"
  from assms have "safe (redis_service_set (session_key (ses_id s))
      (RJson (session_payload (session_entry s role) (ses_expires_at s))) (Some ?n)) w = (Inr x, w')"
    by (simp add: set_session_cache_def now_io_def run_simps session_entry_def)
  from safe_redis_Inr [OF this [unfolded redis_service_set_def]]
  have "w' = w\<lparr>w_net := tl (w_net w), w_redis := redis_set (w_clock w) (session_key (ses_id s))
      (RJson (session_payload (session_entry s role) (ses_expires_at s))) (Some ?n) (w_redis w)\<rparr>" by simp
  moreover have "ses_expires_at s \<le> w_clock w + 1000 * int ?n" unfolding cache_ttl_seconds_def by linarith
  ultimately show ?thesis by (simp add: untouched_def entry_cached_def redis_set_def)
qed

text \<open>The cache, the audit trail and the tapes leave the database's sessions and accounts alone.\<close>

lemma keeps_untouched_best_effort:
  "keeps (untouched w) (delete_session_cache_best_effort (app_sessions cfg) i)"
  unfolding delete_session_cache_best_effort_def
proof (intro keeps_rules)
  show "keeps (untouched w) (sd_delete_cache (app_sessions cfg) i)"
    using delete_session_cache_law(1) by (intro keepsI) (auto simp: app_sessions_def untouched_def)
qed

lemma session_after_login_success:
  assumes wf: "auth_wf (w_db w)" and run: "create_session_after_login (app_sessions cfg) u role w = (Inr x, w')"
  shows "\<exists>s \<in> set (sessions (w_db w')). ses_id s = is_session_id x \<and> ses_user_id s = u
    \<and> ses_revoked_at s = None \<and> ses_expires_at s = w_clock w + SESSION_TTL_MS
    \<and> ses_refresh_token_hash s = hash_token cfg (is_refresh_token x)
    \<and> ses_csrf_token_hash s = hash_token cfg (is_csrf_token x)
    \<and> auth_wf (w_db w') \<and> accounts (w_db w') = accounts (w_db w) \<and> w_clock w' = w_clock w
    \<and> entry_cached s role (w_redis w')
    \<and> is_access_token x = sign_access_token cfg (w_clock w)
        \<lparr>cl_sub = u, cl_role = role, cl_session_id = ses_id s\<rparr>
    \<and> is_expires_in x = ACCESS_TOKEN_TTL_SECONDS"
proof -
  let ?D = "app_sessions cfg"
  define t where "t = w_strings w (w_drawn w)"
  define k where "k = w_strings w (Suc (w_drawn w))"
  define inp where "inp = \<lparr>si_refresh_token_hash = hash_token cfg t, si_csrf_token_hash = hash_token cfg k,
    si_expires_at = w_clock w + SESSION_TTL_MS\<rparr>"
  let ?w2 = "w\<lparr>w_drawn := Suc (Suc (w_drawn w))\<rparr>"
  obtain c w3 where create: "create_exclusive_session_io u inp ?w2 = (c, w3)" by force
  from run obtain res where c: "c = Inr res"
    using create by (cases c) (auto simp: create_session_after_login_def app_sessions_def run_simps
        generate_refresh_token_def generate_csrf_token_def generate_opaque_token_def draw_string_def
        now_io_def t_def k_def inp_def)
  let ?s = "sr_session res"
  obtain q w4 where loop: "forM (sr_revoked_session_ids res) (delete_session_cache_best_effort ?D) w3 = (q, w4)"
    by force
  have same: "untouched w3 w4"
    using keepsD [OF keeps_forM [OF keeps_untouched_best_effort] _ loop] by (simp add: untouched_def)
  obtain z w5 where set: "set_session_cache \<lparr>sc_session_id = ses_id ?s, sc_user_id = u,
      sc_role = role, sc_expires_at = Some (ses_expires_at ?s), sc_active = True\<rparr> w4 = (z, w5)" by force
  have out: "w' = w5 \<and> z = Inr () \<and> is_session_id x = ses_id ?s \<and> is_refresh_token x = t
      \<and> is_csrf_token x = k \<and> is_access_token x = sign_access_token cfg (w_clock w5)
          \<lparr>cl_sub = u, cl_role = role, cl_session_id = ses_id ?s\<rparr>
      \<and> is_expires_in x = ACCESS_TOKEN_TTL_SECONDS"
    using run create c loop set
    by (cases q; cases z) (auto simp: create_session_after_login_def app_sessions_def run_simps
        generate_refresh_token_def generate_csrf_token_def generate_opaque_token_def draw_string_def
        now_io_def t_def k_def inp_def issue_tokens_def)
  from create c obtain i j where "create_exclusive_session i j (w_clock w) u inp (w_db w) = (Inr res, w_db w3)"
    by (auto simp: create_exclusive_session_io_def draw_string_def now_io_def db_op_def run_simps
        split: prod.splits)
  from wp_run [OF create_exclusive_session_wp [OF wf] this]
  have "ses_refresh_token_hash ?s = si_refresh_token_hash inp"
    "ses_csrf_token_hash ?s = si_csrf_token_hash inp" "ses_expires_at ?s = si_expires_at inp" by auto
  moreover have "auth_wf (w_db w3)" "accounts (w_db w3) = accounts (w_db w)" "?s \<in> set (sessions (w_db w3))"
    "ses_user_id ?s = u" "ses_revoked_at ?s = None" "w_clock w3 = w_clock w"
    using create_exclusive_session_io_cases [OF _ create] wf c by auto
  moreover from this have "untouched w4 w5 \<and> entry_cached ?s role (w_redis w5)"
    using set out by (intro set_session_cache_stores) (simp add: session_entry_def)
  ultimately show ?thesis using out same by (intro bexI [of _ ?s]) (simp_all add: inp_def untouched_def)
qed

text \<open>What the steps of \<open>complete_login\<close> do when they pass.\<close>

lemma refuse_if_locked_pass:
  assumes "refuse_if_locked u w = (Inr (), w')"
  shows "w' = w\<lparr>w_net := tl (w_net w)\<rparr> \<and> redis_live (w_clock w) (w_redis w) (login_lock_key u) = None"
proof -
  from assms obtain n where "safe (redis_service_exists (login_lock_key u)) w = (Inr n, w')" "n \<noteq> 1"
    by (auto simp: refuse_if_locked_def is_login_locked_def run_simps split: prod.splits sum.splits if_splits)
  with safe_redis_Inr [OF this(1) [unfolded redis_service_exists_def]] show ?thesis
    by (auto simp: redis_exists_def split: if_splits)
qed

lemma consumed_challenge:
  assumes "consume_login_challenge cfg c code w = (Inr (ChallengeConsumed u), w')"
  shows "\<exists>payload. redis_get (w_clock w) (login_challenge_key c) (w_redis w) = Some (RJson (JObj payload))
    \<and> map_of payload ''codeHmac'' = Some (JStr (hmac_code cfg code))
    \<and> map_of payload ''userId'' = Some (JStr u)
    \<and> (\<forall>t. map_of payload ''expiresAtMs'' = Some (JNum t) \<longrightarrow> w_clock w \<le> t)
    \<and> w' = w\<lparr>w_net := tl (w_net w), w_redis := redis_del (login_challenge_key c) (w_redis w)\<rparr>"
proof -
  from assms have "safe (redis_call (consume_login_challenge_lua (login_challenge_key c)
      (hmac_code cfg code) (w_clock w))) w = (Inr (ChallengeConsumed u), w')"
    by (simp add: consume_login_challenge_def now_io_def run_simps)
  from safe_redis_Inr [OF this] show ?thesis
    by (auto simp: consume_login_challenge_lua_def not_less
        split: option.splits redis_value.splits json.splits if_splits)
qed

lemma recorded_event:
  assumes "record_audit inp w = (Inr e, w')"
  shows "w_db w' = (w_db w)\<lparr>audit_events := audit_events (w_db w) @ [e]\<rparr> \<and> w_redis w' = w_redis w
    \<and> ae_type e = au_type inp \<and> ae_user_id e = au_user_id inp \<and> ae_session_id e = au_session_id inp"
  using assms
  by (auto simp: record_audit_def draw_string_def now_io_def db_op_def insert_audit_event_def run_simps
      split: prod.splits if_splits)

lemma session_key_apart: "session_key i \<noteq> login_challenge_key c"
  by (simp add: session_key_def login_challenge_key_def KEY_PREFIX_def)

lemma keeps_key_session_cache:
  assumes "\<And>i. session_key i \<noteq> k"
  shows "keeps (key_kept k v t) (set_session_cache e)" "keeps (key_kept k v t) (delete_session_cache i)"
  unfolding set_session_cache_def delete_session_cache_def redis_service_set_def redis_service_del_def
  using assms [THEN not_sym]
  by (auto intro!: keeps_rules keeps_key_call simp: redis_set_def redis_del_def)

lemma keeps_key_login:
  assumes "\<And>i. session_key i \<noteq> k"
  shows "keeps (key_kept k v t) (create_session_after_login (app_sessions cfg) u role)"
  unfolding create_session_after_login_def delete_session_cache_best_effort_def issue_tokens_def
  by (simp add: app_sessions_def create_exclusive_session_io_def generate_refresh_token_def
      generate_csrf_token_def generate_opaque_token_def)
    (intro keeps_rules keeps_key_session_cache assms)

lemma find_challenge_frame:
  assumes "find_login_challenge_user_id c w = (q, w')"
  shows "untouched w w' \<and> w_redis w' = w_redis w"
proof -
  obtain g v where g: "safe (redis_service_get (login_challenge_key c)) w = (g, v)" by force
  from safe_redis_cases [OF g [unfolded redis_service_get_def]] have "untouched w v" "w_redis v = w_redis w"
    by (auto simp: untouched_def)
  with assms g show ?thesis
    by (auto simp: find_login_challenge_user_id_def run_simps now_io_def
        split: sum.splits option.splits redis_value.splits)
qed

lemma reject_challenge_throws: "reject_challenge cu w \<noteq> (Inr x, w')"
  by (auto simp: reject_challenge_def run_simps split: option.splits sum.splits prod.splits)

lemma complete_login_steps:
  assumes "complete_login cfg c code w = (Inr x, w')"
  shows "\<exists>u a w1 w2 w3 e. consume_login_challenge cfg c code w1 = (Inr (ChallengeConsumed u), w2)
    \<and> w_db w1 = w_db w \<and> w_redis w1 = w_redis w \<and> w_clock w1 = w_clock w
    \<and> redis_live (w_clock w2) (w_redis w2) (login_lock_key u) = None
    \<and> account_by_id u (w_db w) = Some a \<and> acc_status a = ACTIVE_ACCOUNT
    \<and> create_session_after_login (app_sessions cfg) u (role_text (acc_role a))
        (w2\<lparr>w_net := tl (w_net w2)\<rparr>) = (Inr x, w3)
    \<and> record_audit \<lparr>au_user_id = Some u, au_type = SESSION_CREATED,
        au_session_id = Some (is_session_id x), au_ip_hash = None, au_metadata = None\<rparr> w3 = (Inr e, w')"
proof -
  obtain q wa where q: "find_login_challenge_user_id c w = (q, wa)" by force
  with assms obtain cu where cu: "q = Inr cu"
    by (cases q) (auto simp: complete_login_def with_security_storage_def run_simps split: if_splits)
  let ?refuse = "case cu of None \<Rightarrow> returnM () | Some u \<Rightarrow> refuse_if_locked u"
  obtain g w1 where g: "?refuse wa = (g, w1)" by force
  with assms q cu have "g = Inr ()"
    by (cases g) (auto simp: complete_login_def with_security_storage_def thenM_def bindM_def catchM_def
        throwM_def split: if_splits)
  with g have w1: "w1 = wa \<or> w1 = wa\<lparr>w_net := tl (w_net wa)\<rparr>"
    by (auto simp: returnM_def dest: refuse_if_locked_pass split: option.splits)
  obtain k w2 where k: "consume_login_challenge cfg c code w1 = (k, w2)" by force
  have rest: "(case k of Inl e \<Rightarrow> throwM e | Inr r \<Rightarrow> (case r of
      ChallengeConsumed u \<Rightarrow> thenM (refuse_if_locked u) (open_session cfg u)
    | _ \<Rightarrow> reject_challenge cu)) w2 = (Inr x, w')"
    using assms q cu g \<open>g = Inr ()\<close> k
    by (auto simp: complete_login_def with_security_storage_def thenM_def bindM_def catchM_def throwM_def
        split: prod.splits sum.splits if_splits)
  then obtain u where u: "k = Inr (ChallengeConsumed u)"
    by (auto simp: throwM_def reject_challenge_throws split: sum.splits consume_login_result.splits)
  from rest [unfolded u] obtain w3 where "refuse_if_locked u w2 = (Inr (), w3)" "open_session cfg u w3 = (Inr x, w')"
    by (auto simp: thenM_def bindM_def split: prod.splits sum.splits)
  note opened = this refuse_if_locked_pass [OF this(1)]
  have frame: "w_db w1 = w_db w" "w_redis w1 = w_redis w" "w_clock w1 = w_clock w" "w_db w2 = w_db w"
    using find_challenge_frame [OF q] w1 consumed_challenge [OF k [unfolded u]] by (auto simp: untouched_def)
  from opened obtain a w4 e where "account_by_id u (w_db w) = Some a" "acc_status a = ACTIVE_ACCOUNT"
    "create_session_after_login (app_sessions cfg) (acc_id a) (role_text (acc_role a))
        (w2\<lparr>w_net := tl (w_net w2)\<rparr>) = (Inr x, w4)"
    "record_audit \<lparr>au_user_id = Some (acc_id a), au_type = SESSION_CREATED,
        au_session_id = Some (is_session_id x), au_ip_hash = None, au_metadata = None\<rparr> w4 = (Inr e, w')"
    using frame by (auto simp: open_session_def run_simps db_op_def find_account_by_id_def
        split: option.splits if_splits prod.splits sum.splits)
  moreover from this(1) have "acc_id a = u" by (simp add: account_by_id_SomeD)
  ultimately show ?thesis
    using k u frame opened(3)
    by (intro exI [of _ u] exI [of _ a] exI [of _ w1] exI [of _ w2] exI [of _ w4] exI [of _ e]) simp
qed

lemma absent_challenge_refused:
  assumes "w_redis v (login_challenge_key c) = None" and "complete_login cfg c code v = (r, v')"
  shows "r \<in> {Inl invalid_credentials_exception, Inl storage_unavailable_exception} \<and> w_db v' = w_db v"
proof -
  have gone: "redis_get t (login_challenge_key c) (w_redis v) = None" for t
    using assms(1) by (simp add: redis_get_def)
  obtain q v1 where q: "safe (redis_service_get (login_challenge_key c)) v = (q, v1)" by force
  from safe_redis_cases [OF q [unfolded redis_service_get_def]] gone
  have q': "q = Inr None \<or> q = Inl StorageUnavailableExn" and v1: "w_db v1 = w_db v" "w_redis v1 = w_redis v"
    by auto
  obtain k v2 where k: "consume_login_challenge cfg c code v1 = (k, v2)" by force
  then have "safe (redis_call (consume_login_challenge_lua (login_challenge_key c)
      (hmac_code cfg code) (w_clock v1))) v1 = (k, v2)"
    by (simp add: consume_login_challenge_def now_io_def run_simps)
  from safe_redis_cases [OF this] gone v1
  have k': "k = Inr ChallengeMissing \<or> k = Inl StorageUnavailableExn" "w_db v2 = w_db v"
    by (auto simp: consume_login_challenge_lua_def)
  show ?thesis
    using assms(2) q q' k k' v1
    by (auto simp: complete_login_def with_security_storage_def find_login_challenge_user_id_def run_simps
        reject_challenge_def invalid_credentials_exception_def http_error_def)
qed

text \<open>
  Property C10. A login that answers was entitled to: the code is the one of the stored, unexpired
  challenge, whose user has an active account that is not locked. It opens the account's only
  active session, for seven days, with the tokens it answers, records it in the audit trail, and
  uses the challenge up: completing it again is refused and changes nothing.
\<close>

theorem login_needs_challenge_code:
  assumes "auth_leads empty_db (w_db w)" and "complete_login cfg c code w = (Inr x, w')"
  shows "\<exists>payload a s e. redis_get (w_clock w) (login_challenge_key c) (w_redis w) = Some (RJson (JObj payload))
    \<and> map_of payload ''codeHmac'' = Some (JStr (hmac_code cfg code))
    \<and> map_of payload ''userId'' = Some (JStr (acc_id a))
    \<and> (\<forall>t. map_of payload ''expiresAtMs'' = Some (JNum t) \<longrightarrow> w_clock w \<le> t)
    \<and> a \<in> set (accounts (w_db w)) \<and> acc_status a = ACTIVE_ACCOUNT
    \<and> redis_live (w_clock w) (w_redis w) (login_lock_key (acc_id a)) = None
    \<and> filter (is_active_session_of (acc_id a)) (sessions (w_db w')) = [s]
    \<and> ses_id s = is_session_id x \<and> ses_expires_at s = w_clock w + 604800000
    \<and> ses_refresh_token_hash s = hash_token cfg (is_refresh_token x)
    \<and> ses_csrf_token_hash s = hash_token cfg (is_csrf_token x)
    \<and> e \<in> set (audit_events (w_db w')) \<and> ae_type e = SESSION_CREATED
    \<and> ae_user_id e = Some (acc_id a) \<and> ae_session_id e = Some (is_session_id x)
    \<and> w_redis w' (login_challenge_key c) = None
    \<and> (\<forall>v code' r v'. w_redis v (login_challenge_key c) = None \<and> complete_login cfg c code' v = (r, v') \<longrightarrow>
         r \<in> {Inl invalid_credentials_exception, Inl storage_unavailable_exception} \<and> w_db v' = w_db v)"
proof -
  have wf: "auth_wf (w_db w)" using auth_leads_safe [OF assms(1) empty_db_auth_wf] by blast
  from complete_login_steps [OF assms(2)] obtain u a w1 w2 w3 e where
    used: "consume_login_challenge cfg c code w1 = (Inr (ChallengeConsumed u), w2)"
    and w1: "w_db w1 = w_db w" "w_redis w1 = w_redis w" "w_clock w1 = w_clock w"
    and free: "redis_live (w_clock w2) (w_redis w2) (login_lock_key u) = None"
    and a: "account_by_id u (w_db w) = Some a" "acc_status a = ACTIVE_ACCOUNT"
    and opened: "create_session_after_login (app_sessions cfg) u (role_text (acc_role a))
        (w2\<lparr>w_net := tl (w_net w2)\<rparr>) = (Inr x, w3)"
    and event: "record_audit \<lparr>au_user_id = Some u, au_type = SESSION_CREATED,
        au_session_id = Some (is_session_id x), au_ip_hash = None, au_metadata = None\<rparr> w3 = (Inr e, w')"
    by blast
  from consumed_challenge [OF used] w1 obtain payload where
    p: "redis_get (w_clock w) (login_challenge_key c) (w_redis w) = Some (RJson (JObj payload))"
      "map_of payload ''codeHmac'' = Some (JStr (hmac_code cfg code))"
      "map_of payload ''userId'' = Some (JStr u)"
      "\<forall>t. map_of payload ''expiresAtMs'' = Some (JNum t) \<longrightarrow> w_clock w \<le> t"
    and w2: "w_db w2 = w_db w" "w_clock w2 = w_clock w"
      "w_redis w2 = redis_del (login_challenge_key c) (w_redis w)" by auto
  have u: "a \<in> set (accounts (w_db w))" "acc_id a = u" using account_by_id_SomeD [OF a(1)] by auto
  have "login_lock_key u \<noteq> login_challenge_key c"
    by (simp add: login_lock_key_def login_challenge_key_def KEY_PREFIX_def)
  with free w2 have lock: "redis_live (w_clock w) (w_redis w) (login_lock_key u) = None"
    by (simp add: redis_del_def)
  from session_after_login_success [OF _ opened] wf w2 obtain s where
    s: "s \<in> set (sessions (w_db w3))" "ses_id s = is_session_id x" "ses_user_id s = u"
      "ses_revoked_at s = None" "ses_expires_at s = w_clock w + SESSION_TTL_MS"
      "ses_refresh_token_hash s = hash_token cfg (is_refresh_token x)"
      "ses_csrf_token_hash s = hash_token cfg (is_csrf_token x)" "auth_wf (w_db w3)" by auto
  have "filter (is_active_session_of u) (sessions (w_db w3)) = [s]"
  proof (rule filter_unique [OF _ s(1)])
    show "distinct (sessions (w_db w3))" using auth_wf_parts(1) [OF s(8)] by (simp add: distinct_map)
    show "is_active_session_of u s" using s by (simp add: is_active_session_of_def)
  qed (use active_unique [OF auth_wf_parts(7) [OF s(8)] _ s(1)] s(3,4) in \<open>auto simp: is_active_session_of_def\<close>)
  moreover note ev = recorded_event [OF event]
  moreover have "w_redis w3 (login_challenge_key c) = None"
    using keepsD [OF keeps_key_login [OF session_key_apart] _ opened, of c None "w_clock w"] w2
    by (simp add: key_kept_def redis_del_def)
  moreover have "\<forall>v code' r v'. w_redis v (login_challenge_key c) = None
      \<and> complete_login cfg c code' v = (r, v') \<longrightarrow>
      r \<in> {Inl invalid_credentials_exception, Inl storage_unavailable_exception} \<and> w_db v' = w_db v"
    using absent_challenge_refused by blast
  ultimately show ?thesis
    using p u a(2) lock s(2,5-7)
    by (intro exI [of _ payload] exI [of _ a] exI [of _ s] exI [of _ e]) (simp add: SESSION_TTL_MS_def)
qed

end
