(* ===== verification/PasswordReset.thy ===== *)
theory PasswordReset
  imports AuthFlows
begin

text \<open>
  What a password reset of src/src/modules/auth/auth.service.ts guarantees: the token was usable
  and is spent, the password is the new one, no session of the account survives.
\<close>

lemma consumed_reset_token:
  assumes wf: "auth_wf d" and run: "consume_password_reset_token now h d = (Inr (Some t'), d')"
  shows "\<exists>t. reset_token_by_hash h d = Some t \<and> reset_token_usable now (Some t) \<and> t' = spend now t
    \<and> d' = d\<lparr>reset_tokens := update_where (\<lambda>r. prt_id r = prt_id t) (spend now) (reset_tokens d)\<rparr>"
proof -
  from run obtain u where "thenM (lock_account u) (consume_locked now h) d = (Inr (Some t'), d')"
    by (auto simp: consume_password_reset_token_def transaction_Inr bindM_def getsM_def returnM_def
        split: option.splits if_splits)
  note lock_then_run [OF this]
  then show ?thesis by (auto simp: consume_locked_run [OF wf] split: option.splits if_splits)
qed

lemma spent_token_refused:
  assumes "auth_wf d" and "t \<in> set (reset_tokens d)" and "prt_used_at t \<noteq> None"
    and "\<forall>x \<in> set (reset_tokens d). prt_token_hash x = h \<longrightarrow> prt_id x = prt_id t"
  shows "consume_password_reset_token now h d = (Inr None, d)"
proof (cases "reset_token_by_hash h d")
  case (Some x)
  note xD = reset_token_by_hash_SomeD [OF Some]
  with assms(4) have "x = t" using distinct_key_eq [OF auth_wf_parts(4) [OF assms(1)] _ assms(2)] by blast
  with Some assms(3) show ?thesis
    by (simp add: consume_password_reset_token_def transaction_def run_simps reset_token_usable_def)
qed (simp add: consume_password_reset_token_def transaction_def run_simps)

lemma updated_password:
  assumes wf: "auth_wf d" and run: "update_password_hash now u h d = (Inr (), d')"
  shows "\<exists>a. account_by_id u d' = Some a \<and> acc_password_hash a = h \<and> sessions d' = sessions d
    \<and> reset_tokens d' = reset_tokens d"
proof -
  from run obtain a where a: "account_by_id u d = Some a" and
    save: "\<exists>b. save_account now a (a\<lparr>acc_password_hash := h\<rparr>) d = (Inr b, d')"
    by (auto simp: update_password_hash_def transaction_Inr lock_account_def run_simps
        split: option.splits if_splits prod.splits sum.splits)
  note aD = account_by_id_SomeD [OF a]
  show ?thesis
  proof (cases "a\<lparr>acc_password_hash := h\<rparr> = a")
    case True
    then have "acc_password_hash a = h" by (metis account.select_convs(5) account.surjective account.update_convs(5))
    with True save a show ?thesis by (auto simp: save_account_def run_simps)
  next
    case False
    with save have d': "d' = d\<lparr>accounts := update_where (\<lambda>b. acc_id b = u)
        (\<lambda>_. a\<lparr>acc_password_hash := h, acc_updated_at := now\<rparr>) (accounts d)\<rparr>"
      using aD by (auto simp: save_account_def run_simps)
    have "find (\<lambda>b. acc_id b = u) (update_where (\<lambda>b. acc_id b = u)
        (\<lambda>_. a\<lparr>acc_password_hash := h, acc_updated_at := now\<rparr>) xs) =
        map_option (\<lambda>_. a\<lparr>acc_password_hash := h, acc_updated_at := now\<rparr>) (find (\<lambda>b. acc_id b = u) xs)" for xs
      using aD by (induction xs) auto
    with a d' show ?thesis by (simp add: account_by_id_def)
  qed
qed

lemma hash_password_frame:
  assumes "hash_password cfg p w = (r, w')"
  shows "w_db w' = w_db w \<and> w_clock w' = w_clock w
    \<and> (\<forall>h. r = Inr h \<longrightarrow> (\<exists>salt. h = ac_bcrypt_hash cfg p BCRYPT_COST salt))"
  using assms
  by (auto simp: hash_password_def draw_string_def run_simps password_hash_create_def
      split: sum.splits if_splits)

lemma revoke_all_success:
  assumes wf: "auth_wf (w_db w)" and run: "revoke_all (app_sessions cfg) u reason w = (Inr (), w')"
  shows "\<exists>now. w_db w' = revoked_db now u reason (w_db w)"
proof -
  obtain q v where q: "revoke_all_sessions_io u reason w = (q, v)" by force
  then have db: "revoke_all_sessions (w_clock w) u reason (w_db w) = (q, w_db v)"
    by (auto simp: revoke_all_sessions_io_def now_io_def run_simps db_op_def split: prod.splits)
  from run q obtain ids where ids: "q = Inr ids"
    "forM ids (delete_session_cache_best_effort (app_sessions cfg)) v = (Inr (), w')"
    by (cases q) (auto simp: revoke_all_def bindM_def, simp_all add: app_sessions_def)
  have "w_db w' = w_db v"
    using keepsD [OF keeps_forM [OF keeps_untouched_best_effort] _ ids(2), of v] by (simp add: untouched_def)
  with revoke_all_sessions_cases [OF db] ids(1) show ?thesis by auto
qed

text \<open>The steps of a reset that answered: the token it consumed and what it left behind.\<close>

lemma reset_password_steps:
  assumes wf: "auth_wf (w_db w)" and run: "reset_password cfg token raw confirmation w = (Inr (), w')"
  obtains t and w1 w2 w3 w4 :: world and h salt e where "meets_policy raw" "confirmation = raw"
    "reset_token_by_hash (hash_token cfg token) (w_db w) = Some t" "reset_token_usable (w_clock w) (Some t)"
    "reset_tokens (w_db w1) =
      update_where (\<lambda>r. prt_id r = prt_id t) (spend (w_clock w)) (reset_tokens (w_db w))"
    "auth_wf (w_db w1)" "w_db w2 = w_db w1" "h = ac_bcrypt_hash cfg raw BCRYPT_COST salt"
    "update_password_hash (w_clock w2) (prt_user_id t) h (w_db w2) = (Inr (), w_db w3)"
    "revoke_all (app_sessions cfg) (prt_user_id t) PASSWORD_RESET w3 = (Inr (), w4)"
    "record_audit (audit PASSWORD_RESET_COMPLETED (prt_user_id t)) w4 = (Inr e, w')"
proof -
  let ?h = "hash_token cfg token"
  from run have raw: "meets_policy raw" "confirmation = raw"
    by (auto simp: reset_password_def parse_password_def password_create_def assert_password_confirmation_def
        bindM_def thenM_def throwM_def returnM_def split: if_splits)
  obtain q w1 where consume: "consume_password_reset_token_io ?h w = (q, w1)" by force
  obtain k w2 where hash: "hash_password cfg raw w1 = (k, w2)" by force
  from run raw consume hash obtain t' h w3 w4 e where
    q: "q = Inr (Some t')" and k: "k = Inr h"
    and update: "update_password_hash_io (prt_user_id t') h w2 = (Inr (), w3)"
    and revoke: "revoke_all (app_sessions cfg) (prt_user_id t') PASSWORD_RESET w3 = (Inr (), w4)"
    and event: "record_audit (audit PASSWORD_RESET_COMPLETED (prt_user_id t')) w4 = (Inr e, w')"
    by (auto simp: reset_password_def parse_password_def password_create_def assert_password_confirmation_def
        bindM_def thenM_def throwM_def returnM_def split: prod.splits sum.splits option.splits)
  have "consume_password_reset_token (w_clock w) ?h (w_db w) = (Inr (Some t'), w_db w1)"
    using consume q by (auto simp: consume_password_reset_token_io_def now_io_def run_simps db_op_def
        split: prod.splits)
  note eaten = consumed_reset_token [OF wf this] auth_safeD [OF consume_password_reset_token_safe wf this]
  from eaten(1) obtain t where t: "reset_token_by_hash ?h (w_db w) = Some t"
    "reset_token_usable (w_clock w) (Some t)" "t' = spend (w_clock w) t"
    and d1: "reset_tokens (w_db w1) = update_where (\<lambda>r. prt_id r = prt_id t) (spend (w_clock w))
      (reset_tokens (w_db w))" by auto
  have user: "prt_user_id t' = prt_user_id t" using t(3) by (simp add: spend_def)
  from hash_password_frame [OF hash] k obtain salt where h: "w_db w2 = w_db w1"
    "h = ac_bcrypt_hash cfg raw BCRYPT_COST salt" by auto
  have "update_password_hash (w_clock w2) (prt_user_id t) h (w_db w2) = (Inr (), w_db w3)"
    using update user by (auto simp: update_password_hash_io_def now_io_def run_simps db_op_def split: prod.splits)
  from that [OF raw t(1,2) d1 _ h this revoke [unfolded user] event [unfolded user]] eaten(2) show thesis
    by simp
qed

lemma reset_password_effect:
  assumes wf: "auth_wf (w_db w)" and run: "reset_password cfg token raw confirmation w = (Inr (), w')"
  shows "\<exists>t a salt. t \<in> set (reset_tokens (w_db w)) \<and> prt_token_hash t = hash_token cfg token
    \<and> prt_used_at t = None \<and> w_clock w < prt_expires_at t \<and> meets_policy raw \<and> confirmation = raw
    \<and> account_by_id (prt_user_id t) (w_db w') = Some a
    \<and> acc_password_hash a = ac_bcrypt_hash cfg raw BCRYPT_COST salt
    \<and> (\<forall>s \<in> set (sessions (w_db w')). ses_user_id s = prt_user_id t \<longrightarrow> ses_revoked_at s \<noteq> None)
    \<and> auth_wf (w_db w') \<and> spend (w_clock w) t \<in> set (reset_tokens (w_db w'))"
  using assms
proof (rule reset_password_steps)
  fix t and w1 w2 w3 w4 :: world and h salt e
  assume raw: "meets_policy raw" "confirmation = raw"
    and t: "reset_token_by_hash (hash_token cfg token) (w_db w) = Some t" "reset_token_usable (w_clock w) (Some t)"
    and d1: "reset_tokens (w_db w1) =
      update_where (\<lambda>r. prt_id r = prt_id t) (spend (w_clock w)) (reset_tokens (w_db w))"
    and wf1: "auth_wf (w_db w1)" and db2: "w_db w2 = w_db w1" and h: "h = ac_bcrypt_hash cfg raw BCRYPT_COST salt"
    and update: "update_password_hash (w_clock w2) (prt_user_id t) h (w_db w2) = (Inr (), w_db w3)"
    and revoke: "revoke_all (app_sessions cfg) (prt_user_id t) PASSWORD_RESET w3 = (Inr (), w4)"
    and event: "record_audit (audit PASSWORD_RESET_COMPLETED (prt_user_id t)) w4 = (Inr e, w')"
  note tD = reset_token_by_hash_SomeD [OF t(1)]
  note up = updated_password [OF _ update] auth_safeD [OF update_password_hash_safe _ update]
  from up wf1 db2 obtain a where a: "account_by_id (prt_user_id t) (w_db w3) = Some a"
    "acc_password_hash a = h" "reset_tokens (w_db w3) = reset_tokens (w_db w1)" and wf3: "auth_wf (w_db w3)"
    by auto
  from revoke_all_success [OF wf3 revoke] obtain now where
    db4: "w_db w4 = revoked_db now (prt_user_id t) PASSWORD_RESET (w_db w3)" by auto
  note wf4 = revoked_db_wf [OF wf3, of now "prt_user_id t" PASSWORD_RESET, folded db4]
  note ev = recorded_event [OF event]
  have "account_by_id (prt_user_id t) (w_db w') = Some a"
    using ev db4 a(1) by (simp add: account_by_id_def)
  moreover have "\<forall>s \<in> set (sessions (w_db w')). ses_user_id s = prt_user_id t \<longrightarrow> ses_revoked_at s \<noteq> None"
    using ev wf4(3) by (auto simp: is_active_session_of_def)
  moreover have "auth_wf (w_db w')" using ev wf4(1) by (simp add: auth_wf_def auth_keys_def)
  moreover have "spend (w_clock w) t \<in> set (reset_tokens (w_db w1))"
    using tD d1 by (auto simp: in_update_where)
  then have "spend (w_clock w) t \<in> set (reset_tokens (w_db w'))" using ev db4 a(3) by simp
  moreover have "prt_used_at t = None" "w_clock w < prt_expires_at t"
    "acc_password_hash a = ac_bcrypt_hash cfg raw BCRYPT_COST salt"
    using t(2) h a(2) by (simp_all add: reset_token_usable_def)
  ultimately show ?thesis using tD raw by (intro exI [of _ t] exI [of _ a] exI [of _ salt] conjI) blast+
qed

lemma spent_token_resets_nothing:
  assumes "auth_wf (w_db w)" and "auth_leads (w_db w) (w_db v)"
    and "t \<in> set (reset_tokens (w_db w))" and "prt_used_at t \<noteq> None"
    and "\<forall>x \<in> set (reset_tokens (w_db v)). prt_token_hash x = hash_token cfg token \<longrightarrow> prt_id x = prt_id t"
    and "reset_password cfg token raw confirmation v = (r, v')"
  shows "r \<noteq> Inr () \<and> w_db v' = w_db v"
proof -
  from auth_leads_safe [OF assms(2,1)] have wf: "auth_wf (w_db v)" and le: "auth_le (w_db w) (w_db v)" by auto
  from le assms(3,4) have "t \<in> set (reset_tokens (w_db v))"
    unfolding auth_le_def rows_le_def reset_le_def by metis
  from spent_token_refused [OF wf this assms(4)] assms(5)
  have "consume_password_reset_token_io (hash_token cfg token) v = (Inr None, v)"
    by (simp add: consume_password_reset_token_io_def now_io_def run_simps db_op_def)
  with assms(6) show ?thesis
    by (auto simp: reset_password_def parse_password_def assert_password_confirmation_def run_simps
        split: sum.splits if_splits)
qed

text \<open>
  Property C11. A password reset that answers had an unused, unexpired token and the confirmed,
  acceptable new password. Afterwards the account has that password, none of its sessions is
  active, and the token is spent: whatever the database goes through, it resets no password again.
\<close>

theorem password_reset_once:
  assumes "auth_leads empty_db (w_db w)" and "reset_password cfg token raw confirmation w = (Inr (), w')"
  shows "\<exists>t a salt. t \<in> set (reset_tokens (w_db w)) \<and> prt_token_hash t = hash_token cfg token
    \<and> prt_used_at t = None \<and> w_clock w < prt_expires_at t
    \<and> meets_policy raw \<and> confirmation = raw
    \<and> account_by_id (prt_user_id t) (w_db w') = Some a
    \<and> acc_password_hash a = ac_bcrypt_hash cfg raw BCRYPT_COST salt
    \<and> (\<forall>s \<in> set (sessions (w_db w')). ses_user_id s = prt_user_id t \<longrightarrow> ses_revoked_at s \<noteq> None)
    \<and> (\<forall>v raw' confirmation' r v'. auth_leads (w_db w') (w_db v)
         \<and> (\<forall>x \<in> set (reset_tokens (w_db v)). prt_token_hash x = hash_token cfg token \<longrightarrow> prt_id x = prt_id t)
         \<and> reset_password cfg token raw' confirmation' v = (r, v') \<longrightarrow> r \<noteq> Inr () \<and> w_db v' = w_db v)"
proof -
  have "auth_wf (w_db w)" using auth_leads_safe [OF assms(1) empty_db_auth_wf] by blast
  from reset_password_effect [OF this assms(2)] obtain t a salt where
    t: "t \<in> set (reset_tokens (w_db w))" "prt_token_hash t = hash_token cfg token" "prt_used_at t = None"
      "w_clock w < prt_expires_at t" "meets_policy raw" "confirmation = raw"
      "account_by_id (prt_user_id t) (w_db w') = Some a"
      "acc_password_hash a = ac_bcrypt_hash cfg raw BCRYPT_COST salt"
      "\<forall>s \<in> set (sessions (w_db w')). ses_user_id s = prt_user_id t \<longrightarrow> ses_revoked_at s \<noteq> None"
    and wf': "auth_wf (w_db w')" and spent: "spend (w_clock w) t \<in> set (reset_tokens (w_db w'))" by metis
  have id: "prt_id (spend (w_clock w) t) = prt_id t" "prt_used_at (spend (w_clock w) t) \<noteq> None"
    by (simp_all add: spend_def)
  have "\<forall>v raw' confirmation' r v'. auth_leads (w_db w') (w_db v)
      \<and> (\<forall>x \<in> set (reset_tokens (w_db v)). prt_token_hash x = hash_token cfg token \<longrightarrow> prt_id x = prt_id t)
      \<and> reset_password cfg token raw' confirmation' v = (r, v') \<longrightarrow> r \<noteq> Inr () \<and> w_db v' = w_db v"
    using spent_token_resets_nothing [OF wf' _ spent id(2), unfolded id(1)] by blast
  with t show ?thesis by (intro exI [of _ t] exI [of _ a] exI [of _ salt] conjI) assumption+
qed

end
