(* ===== verification/SessionRace.thy ===== *)
theory SessionRace
  imports SessionApp
begin

text \<open>
  A validation of src/src/modules/auth/auth-session.service.ts cut between its read of PostgreSQL
  and its write of the cache, with a logout in between.
\<close>

lemma session_of_token_hash:
  assumes "auth_wf d" and "s \<in> set (sessions d)"
  shows "find (\<lambda>x. ses_refresh_token_hash x = ses_refresh_token_hash s) (sessions d) = Some s"
proof -
  have owner: "\<exists>t \<in> set (refresh_tokens d). current_token x t
      \<and> rt_token_hash t = ses_refresh_token_hash x" if "x \<in> set (sessions d)" for x
  proof -
    from auth_wf_one_token [OF assms(1) that] obtain t
      where t: "filter (current_token x) (refresh_tokens d) = [t]"
        "rt_token_hash t = ses_refresh_token_hash x" by blast
    from t(1) have "t \<in> set (filter (current_token x) (refresh_tokens d))" by simp
    with t(2) show ?thesis by auto
  qed
  obtain x where x: "find (\<lambda>x. ses_refresh_token_hash x = ses_refresh_token_hash s) (sessions d) = Some x"
    using assms(2) by (cases "find (\<lambda>x. ses_refresh_token_hash x = ses_refresh_token_hash s) (sessions d)")
      (auto dest: find_NoneD)
  note xD = find_SomeD [OF x]
  from owner [of x] xD obtain t where t: "t \<in> set (refresh_tokens d)" "current_token x t"
      "rt_token_hash t = ses_refresh_token_hash s" by auto
  from owner [OF assms(2)] obtain t' where t': "t' \<in> set (refresh_tokens d)" "current_token s t'"
      "rt_token_hash t' = ses_refresh_token_hash s" by auto
  have "t = t'" using distinct_key_eq [OF auth_wf_parts(3) [OF assms(1)] t(1) t'(1)] t(3) t'(3) by simp
  with t(2) t'(2) have "ses_id x = ses_id s" by (simp add: current_token_def)
  with distinct_key_eq [OF auth_wf_parts(1) [OF assms(1)]] xD assms(2) have "x = s" by blast
  with x show ?thesis by simp
qed

lemma active_session_found:
  assumes "auth_wf d" and "s \<in> set (sessions d)" and "ses_revoked_at s = None"
  shows "find (\<lambda>x. ses_id x = ses_id s \<and> ses_revoked_at x = None) (sessions d) = Some s"
proof (cases "find (\<lambda>x. ses_id x = ses_id s \<and> ses_revoked_at x = None) (sessions d)")
  case None
  with assms show ?thesis by (auto dest: find_NoneD)
next
  case (Some x)
  with find_SomeD [OF Some] assms(2) distinct_key_eq [OF auth_wf_parts(1) [OF assms(1)], of x s]
  show ?thesis by simp
qed

lemma session_has_account:
  assumes "auth_wf d" and "s \<in> set (sessions d)"
  shows "\<exists>a. account_by_id (ses_user_id s) d = Some a"
  using auth_wf_parts(10) [OF assms(1)] assms(2)
  by (intro account_by_id_exists) (auto simp: auth_keys_def)

text \<open>What a validation answers from a cached entry, and once the entry has expired.\<close>

lemma validate_cached:
  assumes "w_net v = []" and "sc_active e" and "sc_expires_at e = Some t"
    and "four_digit_day (day_of_instant t)"
    and "w_redis v (session_key i) = Some \<lparr>re_value = RJson (session_payload e t), re_expires_at = Some x\<rparr>"
    and "w_clock v < x"
  shows "fst (validate_session (app_sessions cfg) i v) =
    Inr (if w_clock v < t then Some \<lparr>pr_user_id = sc_user_id e, pr_role = sc_role e,
                                  pr_session_id = sc_session_id e\<rparr> else None)"
  using assms date_parse_iso [OF assms(4)]
  by (simp add: validate_session_def read_session_cache_def app_sessions_def get_session_cache_def
      redis_service_get_def safe_redis_up redis_get_def redis_live_def run_simps now_io_def
      parse_session_cache_def session_payload_def json_text_def cache_entry_expired_def)

lemma validate_revoked:
  assumes "w_net v = []" and "redis_get (w_clock v) (session_key i) (w_redis v) = None"
    and "\<forall>x \<in> set (sessions (w_db v)). ses_id x = i \<longrightarrow> ses_revoked_at x \<noteq> None"
  shows "fst (validate_session (app_sessions cfg) i v) = Inr None"
proof -
  have "find (\<lambda>x. ses_id x = i \<and> ses_revoked_at x = None) (sessions (w_db v)) = None"
    using assms(3) by (auto simp: find_None_iff)
  with assms(1,2) show ?thesis
    by (simp add: validate_session_def read_session_cache_def app_sessions_def get_session_cache_def
        redis_service_get_def safe_redis_up run_simps now_io_def load_session_def db_op_def
        find_active_session_by_id_def)
qed

text \<open>An entry that was written for a session whose row is revoked by then.\<close>

lemma stale_entry_validates:
  assumes "w_redis v = redis_set now (session_key i) (RJson (session_payload e t)) (Some (cache_ttl_seconds now t)) s"
    and "w_net v = []" and "sc_active e" and "sc_expires_at e = Some t" and "four_digit_day (day_of_instant t)"
    and "\<forall>x \<in> set (sessions (w_db v)). ses_id x = i \<longrightarrow> ses_revoked_at x \<noteq> None"
  shows "fst (validate_session (app_sessions cfg) i v) = Inr (if w_clock v < t
    then Some \<lparr>pr_user_id = sc_user_id e, pr_role = sc_role e, pr_session_id = sc_session_id e\<rparr> else None)"
proof (cases "w_clock v < now + 1000 * int (cache_ttl_seconds now t)")
  case True
  with validate_cached [OF assms(2,3,4,5) _ True] assms(1) show ?thesis by (simp add: redis_set_def)
next
  case False
  have "t \<le> now + 1000 * int (cache_ttl_seconds now t)" unfolding cache_ttl_seconds_def by linarith
  moreover have "fst (validate_session (app_sessions cfg) i v) = Inr None"
    by (rule validate_revoked [OF assms(2)]) (use False assms(1,6) in auto)
  ultimately show ?thesis using False by simp
qed

lemma revoked_session_gone:
  assumes "auth_wf d" and "s \<in> set (sessions d)" and "ses_revoked_at s = None" and "ses_id x = ses_id s"
    and "x \<in> set (update_where (\<lambda>y. ses_id y = ses_id s \<and> ses_revoked_at y = None)
      (mark_revoked now reason) (sessions d))"
  shows "ses_revocation_reason x = Some reason \<and> ses_revoked_at x \<noteq> None"
proof -
  from assms(5) consider "x \<in> set (sessions d)" "\<not> (ses_id x = ses_id s \<and> ses_revoked_at x = None)"
    | y where "x = mark_revoked now reason y" unfolding in_update_where by blast
  then show ?thesis
  proof cases
    case 1
    with distinct_key_eq [OF auth_wf_parts(1) [OF assms(1)] _ assms(2)] assms(3,4) have False by blast
    then show ?thesis ..
  qed (simp add: mark_revoked_def)
qed

text \<open>
  Property C26. A revoked session can stay valid. When a validation has read PostgreSQL and a
  logout runs before it writes the cache, the logout succeeds and the session is revoked in
  PostgreSQL, but the entry written afterwards keeps the session valid until it expires, with
  every store working.
\<close>

theorem revoked_session_revalidates:
  assumes "auth_leads empty_db (w_db w)" and "w_net w = []"
    and "s \<in> set (sessions (w_db w))" and "ses_revoked_at s = None" and "w_clock w < ses_expires_at s"
    and "hash_token cfg token = ses_refresh_token_hash s"
    and "four_digit_day (day_of_instant (ses_expires_at s))"
  shows "\<exists>e p w1 w2. load_session (app_sessions cfg) (ses_id s) w = (Inr (Some e), w)
    \<and> logout (app_sessions cfg) token w = (Inr (), w1)
    \<and> remember_session (app_sessions cfg) e w1 = (Inr (Some p), w2)
    \<and> (\<forall>x \<in> set (sessions (w_db w2)). ses_id x = ses_id s \<longrightarrow> ses_revocation_reason x = Some LOGOUT)
    \<and> (\<forall>v. w_db v = w_db w2 \<and> w_redis v = w_redis w2 \<and> w_net v = [] \<and> w_clock w2 \<le> w_clock v \<longrightarrow>
         fst (validate_session (app_sessions cfg) (ses_id s) v) =
           Inr (if w_clock v < ses_expires_at s then Some p else None))"
proof -
  let ?D = "app_sessions cfg" and ?i = "ses_id s" and ?t = "ses_expires_at s"
  have wf: "auth_wf (w_db w)" using auth_leads_safe [OF assms(1) empty_db_auth_wf] by blast
  obtain a where a: "account_by_id (ses_user_id s) (w_db w) = Some a"
    using session_has_account [OF wf assms(3)] by blast
  define e where "e = \<lparr>sc_session_id = ?i, sc_user_id = acc_id a, sc_role = role_text (acc_role a),
    sc_expires_at = Some ?t, sc_active = True\<rparr>"
  define p where "p = \<lparr>pr_user_id = acc_id a, pr_role = role_text (acc_role a), pr_session_id = ?i\<rparr>"
  define rows where "rows = update_where (\<lambda>x. ses_id x = ?i \<and> ses_revoked_at x = None)
    (mark_revoked (w_clock w) LOGOUT) (sessions (w_db w))"
  define w1 where "w1 = w\<lparr>w_db := (w_db w)\<lparr>sessions := rows\<rparr>,
    w_redis := redis_del (session_key ?i) (w_redis w)\<rparr>"
  define w2 where "w2 = w1\<lparr>w_redis := redis_set (w_clock w) (session_key ?i)
    (RJson (session_payload e ?t)) (Some (cache_ttl_seconds (w_clock w) ?t)) (w_redis w1)\<rparr>"
  have load: "load_session ?D ?i w = (Inr (Some e), w)"
    using active_session_found [OF wf assms(3,4)] assms(5) a
    by (simp add: load_session_def app_sessions_def run_simps db_op_def find_active_session_by_id_def
        now_io_def find_account_by_id_def e_def)
  have out: "logout ?D token w = (Inr (), w1)"
    using session_of_token_hash [OF wf assms(3)] assms(2,4,6)
    by (simp add: logout_def app_sessions_def run_simps db_op_def find_session_by_refresh_token_hash_def
        revoke_session_io_def now_io_def revoke_session_run [OF wf] delete_session_cache_def
        redis_service_del_def safe_redis_up w1_def rows_def)
  have mem: "remember_session ?D e w1 = (Inr (Some p), w2)"
    using assms(2)
    by (simp add: remember_session_def app_sessions_def run_simps set_session_cache_def now_io_def
        redis_service_set_def safe_redis_up w2_def w1_def e_def p_def)
  have gone: "ses_revocation_reason x = Some LOGOUT \<and> ses_revoked_at x \<noteq> None"
    if "x \<in> set (sessions (w_db w2))" "ses_id x = ?i" for x
    using revoked_session_gone [OF wf assms(3,4) that(2), of "w_clock w" LOGOUT] that(1)
    by (simp add: w2_def w1_def rows_def)
  have later: "fst (validate_session ?D ?i v) = Inr (if w_clock v < ?t then Some p else None)"
    if v: "w_db v = w_db w2" "w_redis v = w_redis w2" "w_net v = []" for v
    using stale_entry_validates [where e = e and t = ?t and i = ?i and v = v, OF _ v(3) _ _ assms(7)] v(1,2) gone
    by (simp add: w2_def e_def p_def)
  from load out mem gone later show ?thesis by blast
qed

text \<open>
  Two refreshes with one token: the rotation that gets the lock second, on the tables the first one
  left, fails with an error that is not an HTTP exception, which the API answers with 500; it
  neither reports the reuse nor ends the session.
\<close>

theorem lost_rotation_is_500:
  assumes "auth_wf d" and "rotate_locked j now i rot d = (Inr res, d1)"
    and "ri_current_token_hash rot' = ri_current_token_hash rot"
  shows "\<exists>e. rotate_locked j' now' i rot' d1 = (Inl e, d1) \<and> eb_status (to_error_body e) = 500
    \<and> e \<noteq> RefreshReuseExn \<and> e \<noteq> InvalidRefreshExn"
proof -
  from rotate_locked_cases [OF assms(1,2)] obtain s t where st: "session_by_id i d = Some s"
    "ses_revoked_at s = None" "usable_token i (ri_current_token_hash rot) d = Some t"
    "ri_new_token_hash rot \<notin> rt_token_hash ` set (refresh_tokens d)" "d1 = rotated_db j now rot s t d"
    by metis
  have new: "ri_new_token_hash rot \<noteq> ri_current_token_hash rot"
    using st(4) usable_token_SomeD [OF st(3)] by (metis image_eqI)
  have i: "ses_id s = i" using session_by_id_SomeD [OF st(1)] by simp
  have "find (\<lambda>x. ses_id x = i) (update_where (\<lambda>r. ses_id r = i) (\<lambda>_. rotated_session now rot s) xs)
      = map_option (\<lambda>_. rotated_session now rot s) (find (\<lambda>x. ses_id x = i) xs)" for xs
    using i by (induction xs) (auto simp: rotated_session_def)
  then have "session_by_id i d1 = Some (rotated_session now rot s)"
    using st(1) i by (simp add: st(5) session_by_id_def rotated_db_def)
  with st(2) new assms(3) show ?thesis
    by (simp add: rotate_locked_def run_simps rotated_session_def to_error_body_def)
qed

end
