(* ===== verification/FlowExamples.thy ===== *)
theory FlowExamples
  imports AuthExamples PasswordReset SessionRace
begin

text \<open>Concrete worlds at which the theorems about the authentication flows are applied.\<close>

section \<open>Effects that keep Redis answering and the clock still\<close>

definition calm :: "instant \<Rightarrow> world \<Rightarrow> bool" where
  "calm t w \<longleftrightarrow> w_net w = [] \<and> w_clock w = t"

lemma keeps_calm_db [keeps_rules]: "keeps (calm t) (db_op m)"
  by (simp add: keeps_def calm_def db_op_def case_prod_beta)

lemma keeps_calm_now [keeps_rules]: "keeps (calm t) now_io"
  by (simp add: now_io_def keeps_getsM)

lemma keeps_calm_draw [keeps_rules]: "keeps (calm t) draw_string"
  by (simp add: keeps_def calm_def draw_string_def)

lemma keeps_calm_int [keeps_rules]: "keeps (calm t) (random_int n)"
  by (simp add: keeps_def calm_def random_int_def)

lemma keeps_calm_safe [keeps_rules]: "keeps (calm t) (safe (redis_call cmd))"
  unfolding safe_def
  by (intro keeps_catchM keeps_throwM keeps_redis_call) (simp_all add: calm_def)

lemma keeps_calm_enqueue [keeps_rules]: "keeps (calm t) (add_email_job j)"
  by (auto simp: keeps_def calm_def add_email_job_def enqueue_def Let_def)

lemmas calm_unfold = record_failed_login_def increment_failed_login_def record_audit_def case_prod_beta
  redis_service_get_def redis_service_set_def redis_service_exists_def

lemma keeps_calm_failed [keeps_rules]: "keeps (calm t) (record_failed_login u)"
  unfolding calm_unfold by (intro keeps_rules)

lemma keeps_calm_start_login: "keeps (calm t) (start_login cfg raw pw ip)"
  unfolding start_login_def assert_login_rate_limit_def with_security_storage_def increment_rate_limit_def
    issue_login_challenge_def generate_challenge_id_def generate_verification_code_io_def
    create_login_challenge_def set_issuance_def enqueue_verification_code_def is_login_locked_def
    parse_email_def calm_unfold
  by (intro keeps_rules) (auto intro!: keeps_rules split: sum.splits)

section \<open>Revocation and validation\<close>

theorem revoked_session_revalidates_witness:
  "\<exists>e w1. load_session (app_sessions sample_cfg) ''s1'' world1 = (Inr (Some e), world1)
    \<and> logout (app_sessions sample_cfg) ''r1'' world1 = (Inr (), w1)"
proof -
  have "session_s1 \<in> set (sessions (w_db world1))" "auth_leads empty_db (w_db world1)" "w_net world1 = []"
    "w_clock world1 < ses_expires_at session_s1" "ses_revoked_at session_s1 = None"
    "hash_token sample_cfg ''r1'' = ses_refresh_token_hash session_s1"
    by (simp_all add: world1_def auth_world_def db_logged_in_eq session_s1_def hash_token_def sample_cfg_def
        db_logged_in_reached [unfolded db_logged_in_eq session_s1_def])
  moreover have "four_digit_day (day_of_instant (ses_expires_at session_s1))"
    by (simp add: session_s1_def) code_simp
  ultimately show ?thesis
    using revoked_session_revalidates [where w = world1 and s = session_s1 and cfg = sample_cfg
        and token = "''r1''"] by (fastforce simp: session_s1_def)
qed

section \<open>Limits\<close>

definition world2 :: world where
  "world2 = auth_world db_active"

fun attempted :: "nat \<Rightarrow> world" where
  "attempted 0 = world2"
| "attempted (Suc k) = snd (start_login sample_cfg ''a@b.c'' ''wrong'' ''ip'' (attempted k))"

lemma calm_world2: "calm 1000 world2"
  by (simp add: calm_def world2_def auth_world_def)

lemma calm_attempted: "calm 1000 (attempted k)"
  by (induction k)
    (simp add: calm_world2, simp add: keepsD [OF keeps_calm_start_login _ prod.collapse [symmetric]])

lemma sample_email: "email_create ''a@b.c'' = Inr ''a@b.c''"
  by code_simp

lemma attempt_run:
  "\<exists>r. start_login sample_cfg ''a@b.c'' ''wrong'' ''ip'' (attempted k) = (r, attempted (Suc k))"
  by (metis attempted.simps(2) prod.collapse)

lemma attempted_counts: "login_attempts sample_cfg ''a@b.c'' ''ip'' 901000 (1 + int k) (attempted (Suc k))"
proof (induction k)
  case 0
  from attempt_run [of 0] obtain r
    where "start_login sample_cfg ''a@b.c'' ''wrong'' ''ip'' world2 = (r, attempted (Suc 0))" by auto
  from login_attempts.opened [OF _ _ sample_email this]
  show ?case by (simp del: attempted.simps add: world2_def auth_world_def)
next
  case (Suc k)
  from attempt_run [of "Suc k"] obtain r
    where "start_login sample_cfg ''a@b.c'' ''wrong'' ''ip'' (attempted (Suc k)) = (r, attempted (Suc (Suc k)))" ..
  from login_attempts.again [OF Suc _ _ sample_email this] calm_attempted [of "Suc k"]
  show ?case by (simp del: attempted.simps add: calm_def add_ac)
qed

theorem login_attempts_limited_witness:
  "fst (start_login sample_cfg ''a@b.c'' ''Secret-123'' ''ip'' (attempted 10)) = Inl rate_limited_exception"
proof -
  have "login_attempts sample_cfg ''a@b.c'' ''ip'' 901000 10 (attempted 10)"
    using attempted_counts [of 9] by (simp del: attempted.simps add: numeral_eq_Suc)
  from login_attempts_limited [OF this _ sample_email prod.collapse [symmetric]] calm_attempted [of 10]
  show ?thesis by (simp del: attempted.simps add: calm_def)
qed

section \<open>Activation\<close>

definition pending_world :: world where
  "pending_world = (auth_world db_registered)\<lparr>w_redis :=
     redis_set 1000 (issuance_key ISSUE_ACTIVATION ''u1'') (RText ''i1'') (Some 3600) (\<lambda>k. None)\<rparr>"

theorem mailed_code_activates_witness:
  "\<exists>code w1. process_email_job sample_cfg (SendVerificationCode ISSUE_ACTIVATION (Some ''u1'') None ''i1'')
      pending_world = (Inr (), w1) \<and> w_mails w1 = [activation_mail ''a@b.c'' code]"
proof -
  have "w_net pending_world = []" "account_by_id ''u1'' (w_db pending_world) = Some (account_u1 PENDING)"
    "redis_get (w_clock pending_world) (issuance_key ISSUE_ACTIVATION ''u1'') (w_redis pending_world)
      = Some (RText ''i1'')"
    by (simp_all add: pending_world_def auth_world_def db_registered_eq account_by_id_def account_u1_def
        del: issuance_key.simps)
  note facts = this
  have "''u1'' \<noteq> []" by simp
  from mailed_code_activates [OF facts(1) this facts(2,3), of sample_cfg] obtain code w1 where
    "process_email_job sample_cfg (SendVerificationCode ISSUE_ACTIVATION (Some ''u1'') None ''i1'')
      pending_world = (Inr (), w1)"
    "w_mails w1 = w_mails pending_world @ [activation_mail (acc_email (account_u1 PENDING)) code]"
    by (elim exE conjE)
  then show ?thesis by (intro exI conjI) (assumption, simp add: pending_world_def auth_world_def account_u1_def)
qed

section \<open>Login\<close>

definition challenged_world :: world where
  "challenged_world = (auth_world db_active)\<lparr>w_redis :=
     redis_set 1000 (login_challenge_key ''c1'')
       (RJson (challenge_payload sample_cfg ''u1'' ''123456'' 3601000)) (Some 3600) (\<lambda>k. None)\<rparr>"

definition used_world :: world where
  "used_world = challenged_world\<lparr>w_redis := redis_del (login_challenge_key ''c1'') (w_redis challenged_world)\<rparr>"

lemma challenge_steps:
  "find_login_challenge_user_id ''c1'' challenged_world = (Inr (Some ''u1''), challenged_world)"
  "consume_login_challenge sample_cfg ''c1'' ''123456'' challenged_world
    = (Inr (ChallengeConsumed ''u1''), used_world)"
  "refuse_if_locked ''u1'' challenged_world = (Inr (), challenged_world)"
  "refuse_if_locked ''u1'' used_world = (Inr (), used_world)"
proof -
  have up: "w_net challenged_world = []" "w_net used_world = []"
    by (simp_all add: used_world_def challenged_world_def auth_world_def)
  have key: "login_challenge_key ''c1'' \<noteq> login_lock_key ''u1''"
    by (simp add: login_lock_key_def login_challenge_key_def KEY_PREFIX_def)
  show "find_login_challenge_user_id ''c1'' challenged_world = (Inr (Some ''u1''), challenged_world)"
    using up(1)
    by (simp add: find_login_challenge_user_id_def redis_service_get_def safe_redis_up run_simps now_io_def)
      (simp add: challenged_world_def auth_world_def challenge_user_def challenge_payload_def run_simps
        now_io_def)
  have "consume_login_challenge_lua (login_challenge_key ''c1'') (hmac_code sample_cfg ''123456'') 1000 1000
      (w_redis challenged_world) = Some (ChallengeConsumed ''u1'', w_redis used_world)"
    by (simp add: consume_login_challenge_lua_def used_world_def challenged_world_def auth_world_def
        challenge_payload_def lua_truthy_def)
  with safe_redis_up [OF up(1)] show "consume_login_challenge sample_cfg ''c1'' ''123456'' challenged_world
      = (Inr (ChallengeConsumed ''u1''), used_world)"
    by (simp add: consume_login_challenge_def run_simps now_io_def used_world_def challenged_world_def
        auth_world_def)
  have "redis_live t (w_redis challenged_world) (login_lock_key ''u1'') = None"
    "redis_live t (w_redis used_world) (login_lock_key ''u1'') = None" for t
    using key by (simp_all add: used_world_def challenged_world_def auth_world_def redis_set_def redis_del_def)
  with is_login_locked_up [OF up(1)] is_login_locked_up [OF up(2)]
  show "refuse_if_locked ''u1'' challenged_world = (Inr (), challenged_world)"
    "refuse_if_locked ''u1'' used_world = (Inr (), used_world)"
    by (simp_all add: refuse_if_locked_def run_simps)
qed

section \<open>Failed logins\<close>

text \<open>Four wrong codes for the pending login, then a wrong password.\<close>

fun failed :: "nat \<Rightarrow> world" where
  "failed 0 = challenged_world"
| "failed (Suc k) = (if k < 4 then snd (complete_login sample_cfg ''c1'' ''000000'' (failed k))
     else snd (start_login sample_cfg ''a@b.c'' ''wrong'' ''ip'' (failed k)))"

definition ids_drawn :: "world \<Rightarrow> bool" where
  "ids_drawn w \<longleftrightarrow> inj (w_strings w)
     \<and> ae_id ` set (audit_events (w_db w)) \<subseteq> w_strings w ` {..<w_drawn w}"

definition still_pending :: "world \<Rightarrow> bool" where
  "still_pending w \<longleftrightarrow> calm 1000 w \<and> ids_drawn w \<and> accounts (w_db w) = accounts db_active
     \<and> (\<forall>k. k \<noteq> failed_login_key ''u1'' \<longrightarrow> k \<noteq> login_lock_key ''u1'' \<longrightarrow>
          key_kept k (w_redis challenged_world k) 1000 w)"

lemma accounts_after_failure: "keeps (\<lambda>w. accounts (w_db w) = A) (record_failed_login u)"
  unfolding record_failed_login_def increment_failed_login_def record_audit_def case_prod_beta safe_def
  by (intro keeps_rules keeps_redis_call)
    (auto simp: keeps_def now_io_def draw_string_def db_op_def insert_audit_event_def getsM_def)

lemma ids_drawn_safe: "keeps ids_drawn (safe (redis_call cmd))"
  unfolding safe_def
  by (intro keeps_catchM keeps_throwM keeps_redis_call) (simp_all add: ids_drawn_def)

lemma ids_drawn_audit: "keeps ids_drawn (record_audit inp)"
proof (rule keepsI)
  fix w r w'
  assume "ids_drawn w" and "record_audit inp w = (r, w')"
  then show "ids_drawn w'"
    by (auto simp: ids_drawn_def record_audit_def insert_audit_event_def run_simps draw_string_def
        now_io_def db_op_def lessThan_Suc image_subset_iff
        split: if_splits)
qed

lemma ids_drawn_recorded: "keeps ids_drawn (record_failed_login u)"
  unfolding record_failed_login_def increment_failed_login_def case_prod_beta
  by (intro keeps_rules ids_drawn_safe ids_drawn_audit)

lemma still_pending_writable: "still_pending w \<Longrightarrow> audit_writable ''u1'' w"
  by (auto simp: still_pending_def ids_drawn_def audit_writable_def db_active_eq account_u1_def
      dest: injD)

lemma still_pending_recorded: "keeps still_pending (record_failed_login ''u1'')"
  using keeps_calm_failed [of 1000 "''u1''"] accounts_after_failure [of _ "''u1''"]
    keeps_key_failed [of _ "''u1''"] ids_drawn_recorded [of "''u1''"]
  unfolding keeps_def still_pending_def by metis

lemma still_pending_start: "still_pending challenged_world"
  by (simp add: still_pending_def challenged_world_def auth_world_def calm_def key_kept_def ids_drawn_def
      db_active_eq empty_db_def inj_def)

lemma wrong_code_step:
  assumes "still_pending w" and "redis_live 1000 (w_redis w) (login_lock_key ''u1'') = None"
    and run: "complete_login sample_cfg ''c1'' ''000000'' w = (r, w')"
  shows "failed_login sample_cfg ''u1'' w (refusal r) w' \<and> still_pending w'"
proof -
  have up: "w_net w = []" "w_clock w = 1000"
    and key: "w_redis w (login_challenge_key ''c1'') = w_redis challenged_world (login_challenge_key ''c1'')"
    using assms(1) by (auto simp: still_pending_def calm_def key_kept_def login_challenge_key_def
        failed_login_key_def login_lock_key_def KEY_PREFIX_def)
  obtain p where p: "challenge_payload sample_cfg ''u1'' ''123456'' 3601000 = JObj p"
    "challenge_user 1000 (JObj p) = Some ''u1''"
    "map_of p ''codeHmac'' \<noteq> Some (JStr (hmac_code sample_cfg ''000000''))"
    by (simp add: challenge_payload_def challenge_user_def hmac_code_def sample_cfg_def)
  have stored: "redis_get (w_clock w) (login_challenge_key ''c1'') (w_redis w) = Some (RJson (JObj p))"
    using key up p(1)
    by (simp add: redis_get_def redis_live_def challenged_world_def redis_set_def)
  note wrong = stored p(2) [folded up(2)] p(3) assms(2) [folded up(2)]
  obtain q w2 where q: "record_failed_login ''u1'' w = (q, w2)" by force
  with rejected_run(2) [OF q] run wrong_code_run [OF up(1) wrong] have "w2 = w'" by auto
  with keepsD [OF still_pending_recorded assms(1) q] failed_login.wrong_code [OF wrong run]
  show ?thesis by blast
qed

lemma failed_counts:
  "k \<le> 4 \<Longrightarrow> still_pending (failed k)
     \<and> (0 < k \<longrightarrow> failed_logins sample_cfg ''u1'' 3601000 (int k) 1000 (failed k))"
proof (induction k)
  case 0
  then show ?case by (simp add: still_pending_start)
next
  case (Suc k)
  then have pending: "still_pending (failed k)" by simp
  then have up: "w_net (failed k) = []" "w_clock (failed k) = 1000"
    by (simp_all add: still_pending_def calm_def)
  obtain r where run: "complete_login sample_cfg ''c1'' ''000000'' (failed k) = (r, failed (Suc k))"
    using Suc.prems by (cases "complete_login sample_cfg ''c1'' ''000000'' (failed k)") simp
  have unlocked: "redis_live 1000 (w_redis (failed k)) (login_lock_key ''u1'') = None"
    using Suc failed_logins_lock_state [of sample_cfg "''u1''" 3601000 "int k" 1000 "failed k"] up(2)
    by (cases k) (simp_all add: lock_state_def challenged_world_def auth_world_def redis_set_def
        login_challenge_key_def login_lock_key_def KEY_PREFIX_def)
  note step = wrong_code_step [OF pending unlocked run]
  show ?case
  proof (cases k)
    case 0
    have "redis_live 1000 (w_redis (failed k)) (failed_login_key ''u1'') = None"
      using 0 by (simp add: challenged_world_def auth_world_def redis_set_def
          login_challenge_key_def failed_login_key_def KEY_PREFIX_def)
    with failed_logins.first [of "failed k" "''u1''" sample_cfg _ "failed (Suc k)"] step unlocked up 0
    show ?thesis by auto
  next
    case (Suc j)
    with Suc.IH Suc.prems have "failed_logins sample_cfg ''u1'' 3601000 (int k) 1000 (failed k)" by simp
    from failed_logins.again [OF this up(1) _ conjunct1 [OF step]] step up(2)
    show ?thesis by (simp del: failed.simps add: add_ac)
  qed
qed

lemma fifth_failure:
  assumes run: "start_login sample_cfg ''a@b.c'' ''wrong'' ''ip'' (failed 4) = (r, w')"
  shows "failed_login sample_cfg ''u1'' (failed 4) (refusal r) w'"
proof -
  have pending: "still_pending (failed 4)" using failed_counts [of 4] by simp
  then have up: "w_net (failed 4) = []" "accounts (w_db (failed 4)) = [account_u1 ACTIVE_ACCOUNT]"
    by (simp_all add: still_pending_def calm_def db_active_eq)
  have "key_kept (login_rate_key sample_cfg ''a@b.c'' ''ip'')
      (w_redis challenged_world (login_rate_key sample_cfg ''a@b.c'' ''ip'')) 1000 (failed 4)"
    using pending login_rate_key_apart(1,2) [of "''u1''" sample_cfg "''a@b.c''" "''ip''", THEN not_sym]
    unfolding still_pending_def by blast
  moreover have "w_redis challenged_world (login_rate_key sample_cfg ''a@b.c'' ''ip'') = None"
    using login_rate_key_apart(3) [of "''c1''" sample_cfg "''a@b.c''" "''ip''", THEN not_sym]
    by (simp add: challenged_world_def auth_world_def redis_set_def login_challenge_key_def)
  ultimately have "redis_live (w_clock (failed 4)) (w_redis (failed 4))
      (login_rate_key sample_cfg ''a@b.c'' ''ip'') = None"
    by (simp add: key_kept_def)
  with start_login_counts [OF sample_email up(1) run, where v = 1]
  have limit: "fst (assert_login_rate_limit sample_cfg ''a@b.c'' ''ip'' (failed 4)) = Inr ()" by simp
  have found: "find_account_by_email ''a@b.c'' (w_db (failed 4))
      = (Inr (Some (account_u1 ACTIVE_ACCOUNT)), w_db (failed 4))"
    using up(2) by (simp add: find_account_by_email_def getsM_def account_u1_def)
  have "acc_id (account_u1 ACTIVE_ACCOUNT) = ''u1''" by (simp add: account_u1_def)
  moreover have "\<not> password_matches_account sample_cfg ''wrong''
      (Some (acc_password_hash (account_u1 ACTIVE_ACCOUNT)))"
    by (auto simp: password_matches_account_def compare_password_def sample_cfg_def password_create_def
        split: sum.splits if_splits)
  ultimately show ?thesis
    by (rule failed_login.wrong_password [OF sample_email limit found _ _ run])
qed

theorem failed_logins_lock_witness:
  "fst (is_login_locked ''u1'' (failed 4)) = Inr False \<and> fst (is_login_locked ''u1'' (failed 5)) = Inr True
    \<and> refusal (fst (start_login sample_cfg ''a@b.c'' ''wrong'' ''ip'' (failed 4)))
      = Some account_temporarily_locked_exception"
proof -
  obtain r where run: "start_login sample_cfg ''a@b.c'' ''wrong'' ''ip'' (failed 4) = (r, failed 5)"
    by (cases "start_login sample_cfg ''a@b.c'' ''wrong'' ''ip'' (failed 4)") (simp add: eval_nat_numeral)
  note fifth = fifth_failure [OF run]
  have calm: "w_net (failed 4) = []" "w_clock (failed 4) = 1000" "w_net (failed 5) = []" "w_clock (failed 5) = 1000"
    using failed_counts [of 4] keepsD [OF keeps_calm_start_login _ run]
    by (auto simp: still_pending_def calm_def)
  have four: "failed_logins sample_cfg ''u1'' 3601000 4 1000 (failed 4)" using failed_counts [of 4] by simp
  from failed_logins.again [OF four calm(1) _ fifth] calm(2)
  have five: "failed_logins sample_cfg ''u1'' 3601000 5 1000 (failed 5)" by simp
  have "audit_writable ''u1'' (failed 4)" using failed_counts [of 4] still_pending_writable by simp
  with failed_logins_lock [OF four calm(1)] failed_logins_lock [OF five calm(3)] fifth calm run
  show ?thesis by auto
qed


text \<open>Whatever signs the access tokens.\<close>

lemma open_used_of:
  assumes "\<And>t. hash_token cfg t = ''T/'' @ t"
  shows "\<exists>x. open_session cfg ''u1'' used_world = (Inr x, snd (open_session cfg ''u1'' used_world))"
  by (simp add: assms used_world_def challenged_world_def auth_world_def db_active_eq empty_db_def
      safe_def redis_call_def run_simps now_io_def
      open_session_def db_op_def find_account_by_id_def account_by_id_def account_u1_def
      create_session_after_login_def app_sessions_def generate_refresh_token_def generate_csrf_token_def
      generate_opaque_token_def draw_string_def create_exclusive_session_io_def create_exclusive_session_def
      transaction_def lock_account_def revoke_active_sessions_def insert_session_def
      insert_refresh_token_def set_session_cache_def redis_service_set_def issue_tokens_def
      record_audit_def insert_audit_event_def)

lemmas open_used = open_used_of [OF sample_hash_token]

lemma login_challenged: "\<exists>x. complete_login sample_cfg ''c1'' ''123456'' challenged_world
    = (Inr x, snd (complete_login sample_cfg ''c1'' ''123456'' challenged_world))"
proof -
  from open_used obtain x w' where "open_session sample_cfg ''u1'' used_world = (Inr x, w')" by blast
  then show ?thesis
    by (simp add: complete_login_def with_security_storage_def run_simps challenge_steps)
qed

theorem login_needs_challenge_code_witness:
  "w_redis (snd (complete_login sample_cfg ''c1'' ''123456'' challenged_world)) (login_challenge_key ''c1'') = None"
proof -
  from login_challenged obtain x where x: "complete_login sample_cfg ''c1'' ''123456'' challenged_world
    = (Inr x, snd (complete_login sample_cfg ''c1'' ''123456'' challenged_world))" by blast
  have "auth_leads empty_db (w_db challenged_world)"
    using db_active_reached by (simp add: challenged_world_def auth_world_def)
  from login_needs_challenge_code [OF this x] show ?thesis by (auto simp: account_u1_def)
qed

section \<open>Password reset\<close>

definition db_reset :: db where
  "db_reset = snd (create_password_reset_token ''p1'' 0 ''u1'' ''T/tok'' 3600000 db_active)"

definition token_p1 :: reset_token where
  "token_p1 = \<lparr>prt_id = ''p1'', prt_user_id = ''u1'', prt_token_hash = ''T/tok'',
     prt_expires_at = 3600000, prt_used_at = None, prt_created_at = 0\<rparr>"

lemma db_reset_eq: "db_reset = empty_db\<lparr>accounts := [account_u1 ACTIVE_ACCOUNT], reset_tokens := [token_p1]\<rparr>"
  by (simp add: db_reset_def db_active_eq create_password_reset_token_def transaction_def run_simps
      lock_account_def account_by_id_def account_u1_def empty_db_def mark_reset_tokens_used_def
      insert_reset_token_def token_p1_def)

lemma db_reset_reached: "auth_leads empty_db db_reset"
proof -
  have "auth_step db_active db_reset"
    unfolding db_reset_def by (rule auth_step.reset_issued) (rule prod.collapse [symmetric])
  with db_active_reached show ?thesis by (rule auth_leads.step)
qed

lemma sample_password: "password_create ''Secret-123'' = Inr ''Secret-123''"
  by code_simp

lemma sample_hash_valid: "password_hash_create sample_hash = Inr sample_hash"
  by code_simp

lemma sample_hash_length: "length sample_hash = 60"
  by (simp add: sample_hash_def)

lemma reset_sample: "reset_password sample_cfg ''tok'' ''Secret-123'' ''Secret-123'' (auth_world db_reset)
    = (Inr (), snd (reset_password sample_cfg ''tok'' ''Secret-123'' ''Secret-123'' (auth_world db_reset)))"
  using sample_hash_valid sample_hash_length
  by (simp add: auth_world_def db_reset_eq empty_db_def reset_password_def parse_password_def sample_password
      run_simps assert_password_confirmation_def consume_password_reset_token_io_def now_io_def db_op_def
      consume_password_reset_token_def consume_locked_def transaction_def reset_token_by_hash_def
      reset_token_usable_def token_p1_def hash_token_def sample_cfg_def lock_account_def account_by_id_def
      account_u1_def save_reset_token_def hash_password_def draw_string_def update_password_hash_io_def
      update_password_hash_def save_account_def revoke_all_def app_sessions_def revoke_all_sessions_io_def
      revoke_all_sessions_def revoke_active_sessions_def record_audit_def insert_audit_event_def audit_def)

theorem password_reset_once_witness:
  "\<exists>t. t \<in> set (reset_tokens db_reset) \<and> prt_token_hash t = ''T/tok'' \<and> prt_used_at t = None"
proof -
  have "auth_leads empty_db (w_db (auth_world db_reset))"
    using db_reset_reached by (simp add: auth_world_def)
  from password_reset_once [OF this reset_sample] show ?thesis
    by (auto simp: auth_world_def hash_token_def sample_cfg_def)
qed

end
