(* ===== verification/JsNumber.thy ===== *)
theory JsNumber
  imports Decimals
begin

text \<open>
  \<open>Number(text)\<close> of JavaScript followed by \<open>Number.isInteger\<close>: the literal's exact value, rounded
  to the nearest double (ties to even), when that is a finite integer. Decimal literals with sign,
  fraction and exponent, hexadecimal, octal and binary ones, surrounding white space.
\<close>

section \<open>Rounding to a double\<close>

fun log2 :: "nat \<Rightarrow> nat" where
  "log2 n = (if n < 2 then 0 else Suc (log2 (n div 2)))"

declare log2.simps [simp del]

text \<open>The exponent \<open>e\<close> with \<open>2 ^ e \<le> a / b < 2 ^ (e + 1)\<close>.\<close>

definition binade :: "nat \<Rightarrow> nat \<Rightarrow> int" where
  "binade a b =
     (if b \<le> a then int (log2 (a div b)) else - int (Suc (log2 ((b + a - 1) div a - 1))))"

definition round_half_even :: "nat \<Rightarrow> nat \<Rightarrow> nat" where
  "round_half_even a b =
     (let q = a div b; r = a mod b
      in if 2 * r < b \<or> (2 * r = b \<and> even q) then q else Suc q)"

text \<open>The double nearest to \<open>a / b\<close>, when it is a finite integer.\<close>

definition double_integer :: "nat \<Rightarrow> nat \<Rightarrow> nat option" where
  "double_integer a b =
     (if a = 0 then Some 0
      else let k = max (- 1074) (binade a b - 52)
           in if 0 \<le> k
              then (let v = round_half_even a (b * 2 ^ nat k) * 2 ^ nat k
                    in if v < 2 ^ 1024 then Some v else None)
              else (let n = round_half_even (a * 2 ^ nat (- k)) b
                    in if n mod 2 ^ nat (- k) = 0 then Some (n div 2 ^ nat (- k)) else None))"

section \<open>Literals\<close>

definition span_digits :: "(char \<Rightarrow> bool) \<Rightarrow> string \<Rightarrow> string \<times> string" where
  "span_digits f s = (takeWhile f s, dropWhile f s)"

definition hex_value :: "char \<Rightarrow> nat" where
  "hex_value c =
     (if is_digit c then digit_value c
      else if is_lower c then of_char c - 87 else of_char c - 55)"

definition radix_value :: "nat \<Rightarrow> string \<Rightarrow> nat" where
  "radix_value r s = foldl (\<lambda>a c. r * a + hex_value c) 0 s"

definition radix_digit :: "nat \<Rightarrow> char \<Rightarrow> bool" where
  "radix_digit r c \<longleftrightarrow> (is_digit c \<or> is_lower c \<or> is_upper c) \<and> hex_value c < r"

text \<open>The exponent part of a decimal literal: absent, or \<open>e\<close> with an optional sign and digits.\<close>

definition exponent_part :: "string \<Rightarrow> int option" where
  "exponent_part s =
     (case s of
        [] \<Rightarrow> Some 0
      | c # t \<Rightarrow>
          if c \<noteq> CHR ''e'' \<and> c \<noteq> CHR ''E'' then None
          else (let (negative, ds) =
                  (case t of
                     d # u \<Rightarrow> if d = CHR ''-'' then (True, u) else if d = CHR ''+'' then (False, u)
                              else (False, t)
                   | [] \<Rightarrow> (False, t))
                in if ds \<noteq> [] \<and> list_all is_digit ds
                   then Some ((if negative then - 1 else 1) * int (digits_value ds)) else None))"

text \<open>An unsigned decimal literal as a fraction; \<open>None\<close> is \<open>NaN\<close>.\<close>

definition decimal_fraction :: "string \<Rightarrow> (nat \<times> nat) option" where
  "decimal_fraction s =
     (let (whole, rest) = span_digits is_digit s;
          (frac, rest') =
            (case rest of
               c # t \<Rightarrow> if c = CHR ''.'' then span_digits is_digit t else ([], rest)
             | [] \<Rightarrow> ([], []))
      in if whole = [] \<and> frac = [] then None
         else map_option (\<lambda>e.
           let m = digits_value (whole @ frac); x = e - int (length frac)
           in if 0 \<le> x then (m * 10 ^ nat x, 1) else (m, 10 ^ nat (- x))) (exponent_part rest'))"

definition unsigned_integer :: "string \<Rightarrow> nat option" where
  "unsigned_integer s = (case decimal_fraction s of None \<Rightarrow> None | Some (a, b) \<Rightarrow> double_integer a b)"

definition radix_integer :: "nat \<Rightarrow> string \<Rightarrow> int option" where
  "radix_integer r ds =
     (if ds \<noteq> [] \<and> list_all (radix_digit r) ds
      then map_option int (double_integer (radix_value r ds) 1) else None)"

text \<open>\<open>n\<close> when \<open>Number(s)\<close> is the integer \<open>n\<close>; \<open>None\<close> for any other number, infinity and \<open>NaN\<close>.\<close>

definition js_integer :: "string \<Rightarrow> int option" where
  "js_integer raw =
     (let s = js_trim raw
      in case s of
           [] \<Rightarrow> Some 0
         | c # t \<Rightarrow>
             if c = CHR ''-'' then map_option (\<lambda>n. - int n) (unsigned_integer t)
             else if c = CHR ''+'' then map_option int (unsigned_integer t)
             else if c = CHR ''0'' \<and> t \<noteq> [] \<and> hd t \<in> set ''xX'' then radix_integer 16 (tl t)
             else if c = CHR ''0'' \<and> t \<noteq> [] \<and> hd t \<in> set ''oO'' then radix_integer 8 (tl t)
             else if c = CHR ''0'' \<and> t \<noteq> [] \<and> hd t \<in> set ''bB'' then radix_integer 2 (tl t)
             else map_option int (unsigned_integer s))"

section \<open>Lemmas\<close>

lemma log2_bounds: "0 < n \<Longrightarrow> 2 ^ log2 n \<le> n \<and> n < 2 ^ Suc (log2 n)"
proof (induction n rule: log2.induct)
  case (1 n)
  show ?case
  proof (cases "n < 2")
    case True
    with 1(2) show ?thesis by (simp add: log2.simps [of n])
  next
    case False
    with 1(1) have "2 ^ log2 (n div 2) \<le> n div 2" "n div 2 < 2 ^ Suc (log2 (n div 2))" by auto
    then have "2 * 2 ^ log2 (n div 2) \<le> n \<and> n < 4 * 2 ^ log2 (n div 2)"
      by (intro conjI; simp; linarith)
    then show ?thesis using False by (simp add: log2.simps [of n])
  qed
qed

lemma log2_less: "n < 2 ^ k \<Longrightarrow> 0 < k \<Longrightarrow> log2 n < k"
  using log2_bounds [of n] by (cases "n = 0") (auto simp: log2.simps [of 0] dest: le_less_trans)

text \<open>Integers below \<open>2 ^ 53\<close> are doubles.\<close>

lemma double_integer_exact:
  assumes "n < 2 ^ 53"
  shows "double_integer n 1 = Some n"
proof (cases "n = 0")
  case False
  let ?k = "int (log2 n) - 52"
  have "log2 n < 53" using log2_less [OF assms] by simp
  then have k: "?k \<le> 0" "- 1074 \<le> ?k" by simp_all
  have "binade n 1 = int (log2 n)" using False by (simp add: binade_def)
  moreover have "round_half_even (n * m) 1 = n * m" for m by (simp add: round_half_even_def)
  ultimately show ?thesis
    using False k assms by (auto simp: double_integer_def Let_def max_def round_half_even_def)
qed (simp add: double_integer_def)

lemma decimal_fraction_digits:
  assumes "s \<noteq> []" and "list_all is_digit s"
  shows "decimal_fraction s = Some (digits_value s, 1)"
proof -
  have span: "takeWhile is_digit s = s" "dropWhile is_digit s = []"
    using assms(2) by (auto simp: list_all_iff takeWhile_eq_all_conv dropWhile_eq_Nil_conv)
  show ?thesis
    unfolding decimal_fraction_def span_digits_def span using assms(1) by (simp add: exponent_part_def)
qed

lemma digit_not_space: "is_digit c \<Longrightarrow> \<not> js_space c"
  by (auto simp: is_digit_range js_space_def)

lemma js_integer_digits:
  assumes "s \<noteq> []" and "list_all is_digit s" and "digits_value s < 2 ^ 53"
  shows "js_integer s = Some (int (digits_value s))"
proof -
  have "js_trim s = s"
    using assms(2) digit_not_space by (intro js_trim_no_space) (auto simp: list_all_iff)
  moreover obtain c t where s: "s = c # t" using assms(1) by (cases s) auto
  moreover have "c \<noteq> CHR ''-''" "c \<noteq> CHR ''+''"
    using assms(2) s by (auto simp: is_digit_range)
  moreover have "hd t \<notin> set ''xX''" "hd t \<notin> set ''oO''" "hd t \<notin> set ''bB''" if "t \<noteq> []"
  proof -
    have "is_digit (hd t)" using assms(2) s that by (cases t) auto
    then show "hd t \<notin> set ''xX''" "hd t \<notin> set ''oO''" "hd t \<notin> set ''bB''" by (auto simp: is_digit_range)
  qed
  ultimately show ?thesis
    using decimal_fraction_digits [OF assms(1,2)] double_integer_exact [OF assms(3)]
    by (auto simp: js_integer_def unsigned_integer_def)
qed

end
