(* ===== verification/Environment.thy ===== *)
theory Environment
  imports JsNumber ValueObjects
begin

text \<open>
  src/src/environment.validation.ts: the configuration read from the environment's variables, or
  the error that stops the process. The first missing or malformed variable, in the order of the
  source's object literal, is the one reported. URL parsing is a parameter.
\<close>

section \<open>Configuration\<close>

type_synonym env = "string \<Rightarrow> string option"

record postgres_config =
  pc_db :: string
  pc_user :: string
  pc_password :: string
  pc_host :: string
  pc_port :: int

record endpoint =
  ep_host :: string
  ep_port :: int

record queue_config =
  qc_attempts :: int
  qc_backoff_ms :: int

record app_environment =
  env_node_env :: string
  env_port :: int
  env_cors_allowed_origins :: "string list"
  env_trust_proxy :: bool
  env_auth_hmac_secret :: string
  env_auth_token_hash_secret :: string
  env_jwt_access_secret :: string
  env_postgres :: postgres_config
  env_redis :: endpoint
  env_mailpit :: endpoint
  env_mail_from :: string
  env_email_queue :: queue_config
  env_link_stats_pseudonym_secret :: string
  env_link_stats_queue :: queue_config
  env_geoip_country_db_path :: "string option"
  env_frontend_reset_url :: string
  env_public_short_url_base :: string
  env_link_code_generation_max_attempts :: int
  env_link_resolution_cache_ttl_seconds :: int

section \<open>Parsers\<close>

definition and_then :: "'e + 'a \<Rightarrow> ('a \<Rightarrow> 'e + 'b) \<Rightarrow> 'e + 'b" where
  "and_then r f = (case r of Inl e \<Rightarrow> Inl e | Inr x \<Rightarrow> f x)"

definition required :: "env \<Rightarrow> string \<Rightarrow> exn + string" where
  "required e key =
     (case map_option js_trim (e key) of
        None \<Rightarrow> Inl (PlainErr (''Missing required environment variable: '' @ key))
      | Some v \<Rightarrow>
          if v = [] then Inl (PlainErr (''Missing required environment variable: '' @ key)) else Inr v)"

definition parse_port :: "string \<Rightarrow> string \<Rightarrow> exn + int" where
  "parse_port v key =
     (case js_integer v of
        None \<Rightarrow> Inl (PlainErr (''Invalid port for '' @ key @ '': '' @ v))
      | Some port \<Rightarrow>
          if port \<le> 0 \<or> 65535 < port then Inl (PlainErr (''Invalid port for '' @ key @ '': '' @ v))
          else Inr port)"

definition blank :: "string option \<Rightarrow> bool" where
  "blank v \<longleftrightarrow> (case v of None \<Rightarrow> True | Some s \<Rightarrow> js_trim s = [])"

definition parse_boolean :: "string option \<Rightarrow> bool \<Rightarrow> exn + bool" where
  "parse_boolean v fallback =
     (case v of
        None \<Rightarrow> Inr fallback
      | Some s \<Rightarrow>
          if js_trim s = [] then Inr fallback
          else let normalized = to_lower_case (js_trim s)
               in if normalized \<in> {''1'', ''true'', ''yes'', ''on''} then Inr True
                  else if normalized \<in> {''0'', ''false'', ''no'', ''off''} then Inr False
                  else Inl (PlainErr (''Invalid boolean value: '' @ s)))"

definition parse_cors_origins :: "string \<Rightarrow> exn + string list" where
  "parse_cors_origins raw =
     (let origins = filter (\<lambda>origin. origin \<noteq> []) (map js_trim (split_on (CHR '','') raw))
      in if origins = [] then Inl (PlainErr ''CORS_ALLOWED_ORIGINS must contain at least one origin'')
         else if ''*'' \<in> set origins
         then Inl (PlainErr ''CORS_ALLOWED_ORIGINS cannot include wildcard (*) when credentials are enabled'')
         else Inr origins)"

definition parse_positive_int :: "string \<Rightarrow> string \<Rightarrow> exn + int" where
  "parse_positive_int v key =
     (case js_integer v of
        None \<Rightarrow> Inl (PlainErr (''Invalid positive integer for '' @ key @ '': '' @ v))
      | Some n \<Rightarrow>
          if n \<le> 0 then Inl (PlainErr (''Invalid positive integer for '' @ key @ '': '' @ v)) else Inr n)"

definition parse_positive_int_or_default :: "string option \<Rightarrow> string \<Rightarrow> int \<Rightarrow> exn + int" where
  "parse_positive_int_or_default v key fallback =
     (case v of
        None \<Rightarrow> Inr fallback
      | Some s \<Rightarrow> if js_trim s = [] then Inr fallback else parse_positive_int s key)"

definition parse_public_short_url_base :: "url_parser \<Rightarrow> string \<Rightarrow> exn + string" where
  "parse_public_short_url_base parse raw =
     (case parse raw of
        None \<Rightarrow> Inl (PlainErr ''Invalid PUBLIC_SHORT_URL_BASE: must be an absolute HTTPS origin'')
      | Some url \<Rightarrow>
          if url_protocol url \<noteq> ''https:''
          then Inl (PlainErr ''Invalid PUBLIC_SHORT_URL_BASE: must use the HTTPS protocol'')
          else if url_username url \<noteq> [] \<or> url_password url \<noteq> []
          then Inl (PlainErr ''Invalid PUBLIC_SHORT_URL_BASE: must not include credentials'')
          else if url_search url \<noteq> [] \<or> url_hash url \<noteq> []
          then Inl (PlainErr ''Invalid PUBLIC_SHORT_URL_BASE: must not include query string or fragment'')
          else if url_pathname url \<noteq> ''/'' \<and> url_pathname url \<noteq> []
          then Inl (PlainErr ''Invalid PUBLIC_SHORT_URL_BASE: must not include a path beyond /'')
          else Inr (url_origin url))"

definition parse_optional_path :: "string option \<Rightarrow> string option" where
  "parse_optional_path v =
     (case v of None \<Rightarrow> None | Some s \<Rightarrow> if js_trim s = [] then None else Some (js_trim s))"

definition port_raw :: "env \<Rightarrow> exn + string" where
  "port_raw e =
     (case (map_option js_trim (e ''PORT''), map_option js_trim (e ''API_CONTAINER_PORT'')) of
        (Some (c # p), _) \<Rightarrow> Inr (c # p)
      | (_, Some (c # p)) \<Rightarrow> Inr (c # p)
      | _ \<Rightarrow> Inl (PlainErr ''Missing required environment variable: PORT''))"

section \<open>The groups of the configuration\<close>

definition required_port :: "env \<Rightarrow> string \<Rightarrow> exn + int" where
  "required_port e key = and_then (required e key) (\<lambda>v. parse_port v key)"

definition required_positive_int :: "env \<Rightarrow> string \<Rightarrow> exn + int" where
  "required_positive_int e key = and_then (required e key) (\<lambda>v. parse_positive_int v key)"

definition postgres_environment :: "env \<Rightarrow> exn + postgres_config" where
  "postgres_environment e =
     and_then (required e ''POSTGRES_DB'') (\<lambda>database.
     and_then (required e ''POSTGRES_USER'') (\<lambda>user.
     and_then (required e ''POSTGRES_PASSWORD'') (\<lambda>password.
     and_then (required e ''POSTGRES_HOST'') (\<lambda>host.
     and_then (required_port e ''POSTGRES_PORT'') (\<lambda>port.
       Inr \<lparr>pc_db = database, pc_user = user, pc_password = password, pc_host = host, pc_port = port\<rparr>)))))"

definition endpoint_environment :: "env \<Rightarrow> string \<Rightarrow> string \<Rightarrow> exn + endpoint" where
  "endpoint_environment e host_key port_key =
     and_then (required e host_key) (\<lambda>host.
     and_then (required_port e port_key) (\<lambda>port. Inr \<lparr>ep_host = host, ep_port = port\<rparr>))"

definition queue_environment :: "env \<Rightarrow> string \<Rightarrow> string \<Rightarrow> exn + queue_config" where
  "queue_environment e attempts_key backoff_key =
     and_then (required_positive_int e attempts_key) (\<lambda>attempts.
     and_then (required_positive_int e backoff_key) (\<lambda>backoff.
       Inr \<lparr>qc_attempts = attempts, qc_backoff_ms = backoff\<rparr>))"

definition validate_environment :: "url_parser \<Rightarrow> env \<Rightarrow> exn + app_environment" where
  "validate_environment parse e =
     and_then (port_raw e) (\<lambda>raw_port.
     and_then (required e ''NODE_ENV'') (\<lambda>node_env.
     and_then (parse_port raw_port ''PORT'') (\<lambda>port.
     and_then (and_then (required e ''CORS_ALLOWED_ORIGINS'') parse_cors_origins) (\<lambda>cors.
     and_then (parse_boolean (e ''TRUST_PROXY'') False) (\<lambda>trust_proxy.
     and_then (required e ''AUTH_HMAC_SECRET'') (\<lambda>hmac_secret.
     and_then (required e ''AUTH_TOKEN_HASH_SECRET'') (\<lambda>token_hash_secret.
     and_then (required e ''JWT_ACCESS_SECRET'') (\<lambda>jwt_secret.
     and_then (postgres_environment e) (\<lambda>postgres.
     and_then (endpoint_environment e ''REDIS_HOST'' ''REDIS_PORT'') (\<lambda>redis.
     and_then (endpoint_environment e ''MAILPIT_HOST'' ''MAILPIT_SMTP_PORT'') (\<lambda>mailpit.
     and_then (required e ''MAIL_FROM'') (\<lambda>mail_from.
     and_then (queue_environment e ''EMAIL_QUEUE_ATTEMPTS'' ''EMAIL_QUEUE_BACKOFF_MS'') (\<lambda>email_queue.
     and_then (required e ''LINK_STATS_PSEUDONYM_SECRET'') (\<lambda>pseudonym_secret.
     and_then (queue_environment e ''LINK_STATS_QUEUE_ATTEMPTS'' ''LINK_STATS_QUEUE_BACKOFF_MS'')
       (\<lambda>link_stats_queue.
     and_then (required e ''FRONTEND_RESET_URL'') (\<lambda>reset_url.
     and_then (and_then (required e ''PUBLIC_SHORT_URL_BASE'') (parse_public_short_url_base parse)) (\<lambda>base.
     and_then (parse_positive_int_or_default (e ''LINK_CODE_GENERATION_MAX_ATTEMPTS'')
         ''LINK_CODE_GENERATION_MAX_ATTEMPTS'' 5) (\<lambda>max_attempts.
     and_then (parse_positive_int_or_default (e ''LINK_RESOLUTION_CACHE_TTL_SECONDS'')
         ''LINK_RESOLUTION_CACHE_TTL_SECONDS'' 300) (\<lambda>cache_ttl.
       Inr \<lparr>env_node_env = node_env, env_port = port, env_cors_allowed_origins = cors,
            env_trust_proxy = trust_proxy, env_auth_hmac_secret = hmac_secret,
            env_auth_token_hash_secret = token_hash_secret, env_jwt_access_secret = jwt_secret,
            env_postgres = postgres, env_redis = redis, env_mailpit = mailpit, env_mail_from = mail_from,
            env_email_queue = email_queue, env_link_stats_pseudonym_secret = pseudonym_secret,
            env_link_stats_queue = link_stats_queue,
            env_geoip_country_db_path = parse_optional_path (e ''GEOIP_COUNTRY_DB_PATH''),
            env_frontend_reset_url = reset_url, env_public_short_url_base = base,
            env_link_code_generation_max_attempts = max_attempts,
            env_link_resolution_cache_ttl_seconds = cache_ttl\<rparr>)))))))))))))))))))"

section \<open>What an accepted environment is\<close>

named_theorems accepted_iff "when a step of the validation answers"

lemma and_then_Inr [accepted_iff]: "and_then r f = Inr y \<longleftrightarrow> (\<exists>x. r = Inr x \<and> f x = Inr y)"
  by (auto simp: and_then_def split: sum.splits)

lemma required_Inr [accepted_iff]: "required e k = Inr v \<longleftrightarrow> \<not> blank (e k) \<and> v = js_trim (the (e k))"
  by (auto simp: required_def blank_def split: option.splits)

lemma parse_port_Inr [accepted_iff]: "parse_port v k = Inr n \<longleftrightarrow> js_integer v = Some n \<and> 0 < n \<and> n \<le> 65535"
  by (auto simp: parse_port_def split: option.splits)

lemma parse_positive_int_Inr [accepted_iff]: "parse_positive_int v k = Inr n \<longleftrightarrow> js_integer v = Some n \<and> 0 < n"
  by (auto simp: parse_positive_int_def split: option.splits)

lemma parse_positive_int_or_default_Inr [accepted_iff]:
  "parse_positive_int_or_default v k d = Inr n \<longleftrightarrow>
     (if blank v then n = d else js_integer (the v) = Some n \<and> 0 < n)"
  by (auto simp: parse_positive_int_or_default_def blank_def accepted_iff split: option.splits)

lemma js_trim_trim: "js_trim (js_trim s) = js_trim s"
proof -
  let ?t = "dropWhile js_space s"
  have "dropWhile js_space (js_trim s) = js_trim s"
  proof (cases "js_trim s")
    case (Cons c u)
    have "\<exists>v. ?t = js_trim s @ v"
      unfolding js_trim_def by (metis append_Nil rev_append rev_rev_ident takeWhile_dropWhile_id)
    with Cons have "\<not> js_space c" by (metis append_Cons hd_dropWhile list.distinct(1) list.sel(1))
    with Cons show ?thesis by simp
  qed simp
  moreover have "dropWhile js_space (rev (js_trim s)) = rev (js_trim s)"
    by (simp add: js_trim_def)
  ultimately show ?thesis unfolding js_trim_def [of "js_trim s"] by simp
qed

definition origins_ok :: "string list \<Rightarrow> bool" where
  "origins_ok origins \<longleftrightarrow> origins \<noteq> [] \<and> ''*'' \<notin> set origins \<and> (\<forall>x \<in> set origins. x \<noteq> [] \<and> js_trim x = x)"

lemma parse_cors_origins_ok: "parse_cors_origins raw = Inr origins \<Longrightarrow> origins_ok origins"
  by (auto simp: parse_cors_origins_def origins_ok_def Let_def js_trim_trim split: if_splits)

text \<open>A port, a text that is set, and the configuration whose fields are all of their kind.\<close>

definition port_ok :: "int \<Rightarrow> bool" where
  "port_ok n \<longleftrightarrow> 0 < n \<and> n \<le> 65535"

definition text_ok :: "string \<Rightarrow> bool" where
  "text_ok s \<longleftrightarrow> s \<noteq> [] \<and> js_trim s = s"

definition config_ok :: "app_environment \<Rightarrow> bool" where
  "config_ok c \<longleftrightarrow>
     list_all text_ok [env_node_env c, env_auth_hmac_secret c, env_auth_token_hash_secret c,
       env_jwt_access_secret c, pc_db (env_postgres c), pc_user (env_postgres c),
       pc_password (env_postgres c), pc_host (env_postgres c), ep_host (env_redis c),
       ep_host (env_mailpit c), env_mail_from c, env_link_stats_pseudonym_secret c,
       env_frontend_reset_url c]
     \<and> list_all port_ok [env_port c, pc_port (env_postgres c), ep_port (env_redis c), ep_port (env_mailpit c)]
     \<and> list_all (\<lambda>n. 0 < n) [qc_attempts (env_email_queue c), qc_backoff_ms (env_email_queue c),
       qc_attempts (env_link_stats_queue c), qc_backoff_ms (env_link_stats_queue c),
       env_link_code_generation_max_attempts c, env_link_resolution_cache_ttl_seconds c]
     \<and> origins_ok (env_cors_allowed_origins c)
     \<and> (case env_geoip_country_db_path c of None \<Rightarrow> True | Some p \<Rightarrow> text_ok p)"

lemma required_ok: "required e k = Inr v \<Longrightarrow> text_ok v \<and> \<not> blank (e k)"
  by (auto simp: required_Inr blank_def text_ok_def js_trim_trim split: option.splits)

lemma required_port_ok: "required_port e k = Inr n \<Longrightarrow> port_ok n \<and> \<not> blank (e k)"
  by (auto simp: required_port_def accepted_iff port_ok_def)

lemma required_positive_int_ok: "required_positive_int e k = Inr n \<Longrightarrow> 0 < n \<and> \<not> blank (e k)"
  by (auto simp: required_positive_int_def accepted_iff)

lemmas required_oks = required_ok required_port_ok required_positive_int_ok

lemma postgres_environment_ok:
  "postgres_environment e = Inr c \<Longrightarrow>
     list_all text_ok [pc_db c, pc_user c, pc_password c, pc_host c] \<and> port_ok (pc_port c)
     \<and> list_all (\<lambda>k. \<not> blank (e k))
         [''POSTGRES_DB'', ''POSTGRES_USER'', ''POSTGRES_PASSWORD'', ''POSTGRES_HOST'', ''POSTGRES_PORT'']"
  unfolding postgres_environment_def and_then_Inr by (auto dest!: required_oks)

lemma endpoint_environment_ok:
  "endpoint_environment e h p = Inr c \<Longrightarrow>
     text_ok (ep_host c) \<and> port_ok (ep_port c) \<and> \<not> blank (e h) \<and> \<not> blank (e p)"
  unfolding endpoint_environment_def and_then_Inr by (auto dest!: required_oks)

lemma queue_environment_ok:
  "queue_environment e a b = Inr c \<Longrightarrow>
     0 < qc_attempts c \<and> 0 < qc_backoff_ms c \<and> \<not> blank (e a) \<and> \<not> blank (e b)"
  unfolding queue_environment_def and_then_Inr by (auto dest!: required_oks)

lemma parse_port_ok: "parse_port v k = Inr n \<Longrightarrow> port_ok n"
  by (simp add: parse_port_Inr port_ok_def)

lemma positive_or_default_ok:
  "parse_positive_int_or_default v k d = Inr n \<Longrightarrow> 0 < d \<Longrightarrow> 0 < n"
  by (auto simp: parse_positive_int_or_default_Inr split: if_splits)

lemma optional_path_text: "parse_optional_path v = Some p \<Longrightarrow> text_ok p"
  by (auto simp: parse_optional_path_def text_ok_def js_trim_trim split: option.splits if_splits)

lemma public_base_origin:
  "parse_public_short_url_base parse raw = Inr base \<Longrightarrow>
     \<exists>u. parse raw = Some u \<and> base = url_origin u \<and> url_protocol u = ''https:''
       \<and> url_username u = [] \<and> url_password u = []"
  by (auto simp: parse_public_short_url_base_def split: option.splits if_splits)

lemma validate_environment_steps:
  assumes "validate_environment parse e = Inr cfg"
  shows "\<exists>raw cors base. parse_port raw ''PORT'' = Inr (env_port cfg)
     \<and> required e ''NODE_ENV'' = Inr (env_node_env cfg)
     \<and> required e ''CORS_ALLOWED_ORIGINS'' = Inr cors
     \<and> parse_cors_origins cors = Inr (env_cors_allowed_origins cfg)
     \<and> required e ''AUTH_HMAC_SECRET'' = Inr (env_auth_hmac_secret cfg)
     \<and> required e ''AUTH_TOKEN_HASH_SECRET'' = Inr (env_auth_token_hash_secret cfg)
     \<and> required e ''JWT_ACCESS_SECRET'' = Inr (env_jwt_access_secret cfg)
     \<and> postgres_environment e = Inr (env_postgres cfg)
     \<and> endpoint_environment e ''REDIS_HOST'' ''REDIS_PORT'' = Inr (env_redis cfg)
     \<and> endpoint_environment e ''MAILPIT_HOST'' ''MAILPIT_SMTP_PORT'' = Inr (env_mailpit cfg)
     \<and> required e ''MAIL_FROM'' = Inr (env_mail_from cfg)
     \<and> queue_environment e ''EMAIL_QUEUE_ATTEMPTS'' ''EMAIL_QUEUE_BACKOFF_MS'' = Inr (env_email_queue cfg)
     \<and> required e ''LINK_STATS_PSEUDONYM_SECRET'' = Inr (env_link_stats_pseudonym_secret cfg)
     \<and> queue_environment e ''LINK_STATS_QUEUE_ATTEMPTS'' ''LINK_STATS_QUEUE_BACKOFF_MS''
       = Inr (env_link_stats_queue cfg)
     \<and> required e ''FRONTEND_RESET_URL'' = Inr (env_frontend_reset_url cfg)
     \<and> required e ''PUBLIC_SHORT_URL_BASE'' = Inr base
     \<and> parse_public_short_url_base parse base = Inr (env_public_short_url_base cfg)
     \<and> parse_positive_int_or_default (e ''LINK_CODE_GENERATION_MAX_ATTEMPTS'')
       ''LINK_CODE_GENERATION_MAX_ATTEMPTS'' 5 = Inr (env_link_code_generation_max_attempts cfg)
     \<and> parse_positive_int_or_default (e ''LINK_RESOLUTION_CACHE_TTL_SECONDS'')
       ''LINK_RESOLUTION_CACHE_TTL_SECONDS'' 300 = Inr (env_link_resolution_cache_ttl_seconds cfg)
     \<and> env_geoip_country_db_path cfg = parse_optional_path (e ''GEOIP_COUNTRY_DB_PATH'')"
  using assms unfolding validate_environment_def and_then_Inr sum.inject
  by (elim exE conjE, hypsubst, unfold app_environment.select_convs)
    ((intro exI conjI; assumption?), rule refl)

definition REQUIRED_KEYS :: "string list" where
  "REQUIRED_KEYS =
     [''NODE_ENV'', ''CORS_ALLOWED_ORIGINS'', ''AUTH_HMAC_SECRET'', ''AUTH_TOKEN_HASH_SECRET'',
      ''JWT_ACCESS_SECRET'', ''POSTGRES_DB'', ''POSTGRES_USER'', ''POSTGRES_PASSWORD'', ''POSTGRES_HOST'',
      ''POSTGRES_PORT'', ''REDIS_HOST'', ''REDIS_PORT'', ''MAILPIT_HOST'', ''MAILPIT_SMTP_PORT'',
      ''MAIL_FROM'', ''EMAIL_QUEUE_ATTEMPTS'', ''EMAIL_QUEUE_BACKOFF_MS'', ''LINK_STATS_PSEUDONYM_SECRET'',
      ''LINK_STATS_QUEUE_ATTEMPTS'', ''LINK_STATS_QUEUE_BACKOFF_MS'', ''FRONTEND_RESET_URL'',
      ''PUBLIC_SHORT_URL_BASE'']"

text \<open>
  Property C40. The process starts only on a complete and well-typed configuration: every required
  variable is set, every secret, host and address is a trimmed text, every port is between 1 and
  65535, the counts are positive, the allowed origins are listed without a wildcard, and public
  short URLs are built on the origin of an HTTPS URL without credentials.
\<close>

theorem environment_well_typed:
  assumes "validate_environment parse e = Inr cfg"
  shows "config_ok cfg \<and> (\<forall>k \<in> set REQUIRED_KEYS. \<not> blank (e k))
    \<and> (\<exists>u. parse (js_trim (the (e ''PUBLIC_SHORT_URL_BASE''))) = Some u
         \<and> env_public_short_url_base cfg = url_origin u \<and> url_protocol u = ''https:''
         \<and> url_username u = [] \<and> url_password u = [])"
proof -
  obtain raw cors base where steps:
    "parse_port raw ''PORT'' = Inr (env_port cfg)"
    "required e ''NODE_ENV'' = Inr (env_node_env cfg)"
    "required e ''CORS_ALLOWED_ORIGINS'' = Inr cors" "parse_cors_origins cors = Inr (env_cors_allowed_origins cfg)"
    "required e ''AUTH_HMAC_SECRET'' = Inr (env_auth_hmac_secret cfg)"
    "required e ''AUTH_TOKEN_HASH_SECRET'' = Inr (env_auth_token_hash_secret cfg)"
    "required e ''JWT_ACCESS_SECRET'' = Inr (env_jwt_access_secret cfg)"
    "postgres_environment e = Inr (env_postgres cfg)"
    "endpoint_environment e ''REDIS_HOST'' ''REDIS_PORT'' = Inr (env_redis cfg)"
    "endpoint_environment e ''MAILPIT_HOST'' ''MAILPIT_SMTP_PORT'' = Inr (env_mailpit cfg)"
    "required e ''MAIL_FROM'' = Inr (env_mail_from cfg)"
    "queue_environment e ''EMAIL_QUEUE_ATTEMPTS'' ''EMAIL_QUEUE_BACKOFF_MS'' = Inr (env_email_queue cfg)"
    "required e ''LINK_STATS_PSEUDONYM_SECRET'' = Inr (env_link_stats_pseudonym_secret cfg)"
    "queue_environment e ''LINK_STATS_QUEUE_ATTEMPTS'' ''LINK_STATS_QUEUE_BACKOFF_MS''
       = Inr (env_link_stats_queue cfg)"
    "required e ''FRONTEND_RESET_URL'' = Inr (env_frontend_reset_url cfg)"
    "required e ''PUBLIC_SHORT_URL_BASE'' = Inr base"
    "parse_public_short_url_base parse base = Inr (env_public_short_url_base cfg)"
    "parse_positive_int_or_default (e ''LINK_CODE_GENERATION_MAX_ATTEMPTS'')
       ''LINK_CODE_GENERATION_MAX_ATTEMPTS'' 5 = Inr (env_link_code_generation_max_attempts cfg)"
    "parse_positive_int_or_default (e ''LINK_RESOLUTION_CACHE_TTL_SECONDS'')
       ''LINK_RESOLUTION_CACHE_TTL_SECONDS'' 300 = Inr (env_link_resolution_cache_ttl_seconds cfg)"
    and path: "env_geoip_country_db_path cfg = parse_optional_path (e ''GEOIP_COUNTRY_DB_PATH'')"
    using validate_environment_steps [OF assms] by blast
  note ok = steps(1) [THEN parse_port_ok] steps(2,3,5,6,7,11,13,15,16) [THEN required_ok]
    steps(4) [THEN parse_cors_origins_ok] steps(8) [THEN postgres_environment_ok]
    steps(9,10) [THEN endpoint_environment_ok] steps(12,14) [THEN queue_environment_ok]
    steps(18,19) [THEN positive_or_default_ok, simplified]
  have "case env_geoip_country_db_path cfg of None \<Rightarrow> True | Some p \<Rightarrow> text_ok p"
    by (auto simp: path dest: optional_path_text split: option.split)
  with ok have "config_ok cfg" by (simp add: config_ok_def)
  moreover from ok have "\<forall>k \<in> set REQUIRED_KEYS. \<not> blank (e k)" by (simp add: REQUIRED_KEYS_def)
  moreover from steps(16) public_base_origin [OF steps(17)] have
    "\<exists>u. parse (js_trim (the (e ''PUBLIC_SHORT_URL_BASE''))) = Some u
         \<and> env_public_short_url_base cfg = url_origin u \<and> url_protocol u = ''https:''
         \<and> url_username u = [] \<and> url_password u = []" by (simp add: required_Inr)
  ultimately show ?thesis by blast
qed

end
