(* ===== verification/AuthController.thy ===== *)
theory AuthController
  imports AuthGuards AuthService Environment
begin

text \<open>
  src/src/modules/auth/auth.controller.ts behind the validation pipe of src/src/main.ts with the
  request bodies of auth.dto.ts. A route answers a status, a body and the cookies it sets; what it
  throws is left to the exception filter. The e-mail and UUID checks and the messages of the
  validation library are parameters.
\<close>

section \<open>The validation pipe\<close>

text \<open>
  A validation error: the property, the messages of its failed constraints (absent when only
  nested properties failed) and the errors of nested properties.
\<close>

datatype validation_error =
  ValidationError string "(string \<times> string) list option" "validation_error list"

text \<open>Writing a property of an object, whose keys are ordered by insertion.\<close>

fun object_put :: "string \<Rightarrow> 'a \<Rightarrow> (string \<times> 'a) list \<Rightarrow> (string \<times> 'a) list" where
  "object_put k v [] = [(k, v)]"
| "object_put k v ((j, x) # kvs) = (if j = k then (k, v) # kvs else (j, x) # object_put k v kvs)"

definition object_assign :: "(string \<times> 'a) list \<Rightarrow> (string \<times> 'a) list \<Rightarrow> (string \<times> 'a) list" where
  "object_assign target source = foldl (\<lambda>acc (k, v). object_put k v acc) target source"

definition error_path :: "string \<Rightarrow> string \<Rightarrow> string" where
  "error_path parent_path property =
     (if parent_path = [] then property else parent_path @ ''.'' @ property)"

fun format_error ::
  "string \<Rightarrow> validation_error \<Rightarrow> (string \<times> string list) list \<Rightarrow> (string \<times> string list) list"
and format_errors ::
  "string \<Rightarrow> validation_error list \<Rightarrow> (string \<times> string list) list \<Rightarrow> (string \<times> string list) list" where
  "format_error parent_path (ValidationError property constraints children) formatted =
     (let path = error_path parent_path property;
          own = (case constraints of
                   None \<Rightarrow> formatted
                 | Some cs \<Rightarrow> object_put path (map snd cs) formatted)
      in if children = [] then own else object_assign own (format_errors path children []))"
| "format_errors parent_path [] formatted = formatted"
| "format_errors parent_path (e # es) formatted =
     format_errors parent_path es (format_error parent_path e formatted)"

definition format_validation_errors :: "validation_error list \<Rightarrow> (string \<times> string list) list" where
  "format_validation_errors errors = format_errors [] errors []"

text \<open>
  The checks of the library: whether a text is an e-mail address or a UUID, and the errors it
  reports for a body that its class refuses.
\<close>

record validator =
  vd_is_email :: "string \<Rightarrow> bool"
  vd_is_uuid :: "string \<Rightarrow> bool"
  vd_errors :: "json \<Rightarrow> validation_error list"

definition validation_pipe :: "validator \<Rightarrow> (json \<Rightarrow> bool) \<Rightarrow> json \<Rightarrow> unit io" where
  "validation_pipe vd accepts body =
     (if accepts body then returnM ()
      else throwM (validation_exception (format_validation_errors (vd_errors vd body))))"

section \<open>Request bodies\<close>

definition string_field :: "json \<Rightarrow> string \<Rightarrow> (string \<Rightarrow> bool) \<Rightarrow> bool" where
  "string_field body k check = (case json_get body k of Some (JStr s) \<Rightarrow> check s | _ \<Rightarrow> False)"

text \<open>Properties the class does not declare are refused.\<close>

definition only_fields :: "json \<Rightarrow> string list \<Rightarrow> bool" where
  "only_fields body ks = (case body of JObj kvs \<Rightarrow> list_all (\<lambda>(k, _). k \<in> set ks) kvs | _ \<Rightarrow> False)"

definition match_related_property :: "json \<Rightarrow> string \<Rightarrow> string \<Rightarrow> bool" where
  "match_related_property body k related \<longleftrightarrow> json_get body k = json_get body related"

definition register_dto :: "validator \<Rightarrow> json \<Rightarrow> bool" where
  "register_dto vd body \<longleftrightarrow>
     only_fields body [''email'', ''password'', ''passwordConfirmation'']
     \<and> string_field body ''email'' (vd_is_email vd)
     \<and> string_field body ''password'' PASSWORD_POLICY
     \<and> string_field body ''passwordConfirmation'' (\<lambda>_. True)
     \<and> match_related_property body ''passwordConfirmation'' ''password''"

definition verify_email_dto :: "validator \<Rightarrow> json \<Rightarrow> bool" where
  "verify_email_dto vd body \<longleftrightarrow>
     only_fields body [''email'', ''code'']
     \<and> string_field body ''email'' (vd_is_email vd) \<and> string_field body ''code'' code_dto_valid"

definition email_dto :: "validator \<Rightarrow> json \<Rightarrow> bool" where
  "email_dto vd body \<longleftrightarrow> only_fields body [''email''] \<and> string_field body ''email'' (vd_is_email vd)"

definition login_dto :: "validator \<Rightarrow> json \<Rightarrow> bool" where
  "login_dto vd body \<longleftrightarrow>
     only_fields body [''email'', ''password'']
     \<and> string_field body ''email'' (vd_is_email vd) \<and> string_field body ''password'' (\<lambda>s. s \<noteq> [])"

definition verify_login_dto :: "validator \<Rightarrow> json \<Rightarrow> bool" where
  "verify_login_dto vd body \<longleftrightarrow>
     only_fields body [''challengeId'', ''code'']
     \<and> string_field body ''challengeId'' (vd_is_uuid vd) \<and> string_field body ''code'' code_dto_valid"

definition reset_password_dto :: "json \<Rightarrow> bool" where
  "reset_password_dto body \<longleftrightarrow>
     only_fields body [''token'', ''password'', ''passwordConfirmation'']
     \<and> string_field body ''token'' (\<lambda>s. s \<noteq> [])
     \<and> string_field body ''password'' PASSWORD_POLICY
     \<and> string_field body ''passwordConfirmation'' (\<lambda>_. True)
     \<and> match_related_property body ''passwordConfirmation'' ''password''"

section \<open>Responses and cookies\<close>

record cookie_options =
  co_http_only :: bool
  co_secure :: bool
  co_same_site :: string
  co_path :: string
  co_max_age :: "int option"

datatype cookie_change =
    SetCookie string string cookie_options
  | ClearCookie string cookie_options

record route_response =
  rr_status :: nat
  rr_body :: json
  rr_cookies :: "cookie_change list"

definition GENERIC_ACCEPTED :: json where
  "GENERIC_ACCEPTED = JObj [(''message'', JStr ''Accepted.'')]"

definition accepted_response :: route_response where
  "accepted_response = \<lparr>rr_status = 202, rr_body = GENERIC_ACCEPTED, rr_cookies = []\<rparr>"

definition no_content :: "cookie_change list \<Rightarrow> route_response" where
  "no_content cookies = \<lparr>rr_status = 204, rr_body = JNull, rr_cookies = cookies\<rparr>"

definition refresh_cookie_name :: "env \<Rightarrow> string" where
  "refresh_cookie_name e =
     (case map_option js_trim (e ''REFRESH_COOKIE_NAME'') of
        Some (c # name) \<Rightarrow> c # name
      | _ \<Rightarrow> ''shortlink_refresh'')"

definition read_refresh_cookie :: "guard_config \<Rightarrow> guarded_request \<Rightarrow> string" where
  "read_refresh_cookie gc request =
     (case gr_cookies request (gc_refresh_cookie_name gc) of None \<Rightarrow> [] | Some v \<Rightarrow> v)"

definition set_refresh_cookie :: "guard_config \<Rightarrow> string \<Rightarrow> cookie_change" where
  "set_refresh_cookie gc refresh_token =
     SetCookie (gc_refresh_cookie_name gc) refresh_token
       \<lparr>co_http_only = True, co_secure = True, co_same_site = ''lax'', co_path = ''/api/v1/auth'',
        co_max_age = Some (7 * 24 * 60 * 60 * 1000)\<rparr>"

definition clear_refresh_cookie :: "guard_config \<Rightarrow> cookie_change" where
  "clear_refresh_cookie gc =
     ClearCookie (gc_refresh_cookie_name gc)
       \<lparr>co_http_only = True, co_secure = True, co_same_site = ''lax'', co_path = ''/api/v1/auth'',
        co_max_age = None\<rparr>"

section \<open>Routes\<close>

definition client_ip_of :: "string option \<Rightarrow> string" where
  "client_ip_of ip = (case ip of None \<Rightarrow> [] | Some a \<Rightarrow> a)"

definition route_register ::
  "auth_config \<Rightarrow> validator \<Rightarrow> json \<Rightarrow> string option \<Rightarrow> route_response io" where
  "route_register cfg vd body ip =
     thenM (validation_pipe vd (register_dto vd) body)
       (thenM (register_user cfg (json_text body ''email'') (json_text body ''password'')
           (json_text body ''passwordConfirmation'') (client_ip_of ip))
         (returnM accepted_response))"

definition route_verify_email :: "auth_config \<Rightarrow> validator \<Rightarrow> json \<Rightarrow> route_response io" where
  "route_verify_email cfg vd body =
     thenM (validation_pipe vd (verify_email_dto vd) body)
       (thenM (verify_email cfg (json_text body ''email'') (json_text body ''code''))
         (returnM (no_content [])))"

definition route_resend_email_verification ::
  "auth_config \<Rightarrow> validator \<Rightarrow> json \<Rightarrow> string option \<Rightarrow> route_response io" where
  "route_resend_email_verification cfg vd body ip =
     thenM (validation_pipe vd (email_dto vd) body)
       (thenM (resend_email_verification cfg (json_text body ''email'') (client_ip_of ip))
         (returnM accepted_response))"

definition route_login ::
  "auth_config \<Rightarrow> validator \<Rightarrow> json \<Rightarrow> string option \<Rightarrow> route_response io" where
  "route_login cfg vd body ip =
     thenM (validation_pipe vd (login_dto vd) body)
       (bindM (start_login cfg (json_text body ''email'') (json_text body ''password'') (client_ip_of ip))
         (\<lambda>(challenge_id, expires_at). returnM
           \<lparr>rr_status = 202,
            rr_body = JObj [(''challengeId'', JStr challenge_id), (''expiresAt'', JStr expires_at)],
            rr_cookies = []\<rparr>))"

definition route_verify_login ::
  "auth_config \<Rightarrow> guard_config \<Rightarrow> validator \<Rightarrow> json \<Rightarrow> route_response io" where
  "route_verify_login cfg gc vd body =
     thenM (validation_pipe vd (verify_login_dto vd) body)
       (bindM (complete_login cfg (json_text body ''challengeId'') (json_text body ''code'')) (\<lambda>tokens.
         returnM
           \<lparr>rr_status = 200,
            rr_body = JObj [(''accessToken'', JStr (is_access_token tokens)),
                            (''expiresIn'', JNum (int (is_expires_in tokens))),
                            (''csrfToken'', JStr (is_csrf_token tokens))],
            rr_cookies = [set_refresh_cookie gc (is_refresh_token tokens)]\<rparr>))"

definition route_refresh :: "auth_config \<Rightarrow> guard_config \<Rightarrow> guarded_request \<Rightarrow> route_response io" where
  "route_refresh cfg gc request =
     thenM (csrf_origin_guard cfg gc request)
       (bindM (refresh_session cfg (read_refresh_cookie gc request)) (\<lambda>tokens.
         returnM
           \<lparr>rr_status = 200,
            rr_body = JObj [(''accessToken'', JStr (is_access_token tokens)),
                            (''expiresIn'', JNum (int (is_expires_in tokens)))],
            rr_cookies = [set_refresh_cookie gc (is_refresh_token tokens)]\<rparr>))"

definition route_logout :: "auth_config \<Rightarrow> guard_config \<Rightarrow> guarded_request \<Rightarrow> route_response io" where
  "route_logout cfg gc request =
     thenM (csrf_origin_guard cfg gc request)
       (thenM (logout_session cfg (read_refresh_cookie gc request))
         (returnM (no_content [clear_refresh_cookie gc])))"

definition route_forgot_password ::
  "auth_config \<Rightarrow> validator \<Rightarrow> json \<Rightarrow> string option \<Rightarrow> route_response io" where
  "route_forgot_password cfg vd body ip =
     thenM (validation_pipe vd (email_dto vd) body)
       (thenM (request_password_reset cfg (json_text body ''email'') (client_ip_of ip))
         (returnM accepted_response))"

definition route_reset_password :: "auth_config \<Rightarrow> validator \<Rightarrow> json \<Rightarrow> route_response io" where
  "route_reset_password cfg vd body =
     thenM (validation_pipe vd reset_password_dto body)
       (thenM (reset_password cfg (json_text body ''token'') (json_text body ''password'')
           (json_text body ''passwordConfirmation''))
         (returnM (no_content [])))"

section \<open>What the pipe lets through\<close>

lemma string_field_text: "string_field body k check \<Longrightarrow> check (json_text body k)"
  by (auto simp: string_field_def json_text_def split: option.splits json.splits)

lemma object_put_keys: "fst ` set (object_put k v kvs) = insert k (fst ` set kvs)"
  by (induction k v kvs rule: object_put.induct) auto

lemma refused_body_is_422:
  "\<not> accepts body \<Longrightarrow> validation_pipe vd accepts body w =
     (Inl (validation_exception (format_validation_errors (vd_errors vd body))), w)"
  by (simp add: validation_pipe_def run_simps)

lemma accepted_register_body:
  assumes "register_dto vd body"
  shows "meets_policy (json_text body ''password'')
    \<and> json_text body ''passwordConfirmation'' = json_text body ''password''"
  using assms
  by (auto simp: register_dto_def match_related_property_def json_text_def string_field_def
      password_policy_iff split: option.splits json.splits)

end
