(* ===== verification/AuthRoutes.thy ===== *)
theory AuthRoutes
  imports AuthController LoginLimits SessionRace
begin

text \<open>
  What the routes of src/src/modules/auth/auth.controller.ts answer: the outcome of a logout behind
  the CSRF guard, and the routes whose answer must not depend on whether an account exists.
\<close>

section \<open>Logout\<close>

lemma cookie_of_guard:
  "gr_cookies request (gc_refresh_cookie_name gc) = Some token \<Longrightarrow> token \<noteq> [] \<Longrightarrow>
     guard_refresh_cookie gc request = Inr (Some token) \<and> read_refresh_cookie gc request = token"
  by (cases token) (simp_all add: guard_refresh_cookie_def read_refresh_cookie_def)

text \<open>The guard looks at the database only for the CSRF hash of the cookie's session.\<close>

lemma csrf_guard_run:
  assumes "gr_cookies request (gc_refresh_cookie_name gc) = Some token" and "token \<noteq> []"
  shows "csrf_origin_guard cfg gc request w =
    (fst (csrf_origin_guard cfg gc request w), w)"
    and "map_option ses_csrf_token_hash (csrf_session cfg token (w_db v)) =
      map_option ses_csrf_token_hash (csrf_session cfg token (w_db w)) \<Longrightarrow>
      fst (csrf_origin_guard cfg gc request v) = fst (csrf_origin_guard cfg gc request w)"
    and "fst (csrf_origin_guard cfg gc request w) = Inr () \<Longrightarrow> csrf_session cfg token (w_db w) \<noteq> None"
  using cookie_of_guard [OF assms]
  by (auto simp: csrf_origin_guard_def run_simps resolve_csrf_session_run
      split: option.splits if_splits)

lemma logout_current:
  assumes "auth_wf (w_db w)" and "s \<in> set (sessions (w_db w))"
    and "ses_refresh_token_hash s = hash_token cfg token"
  shows "logout_session cfg token w =
    (if ses_revoked_at s \<noteq> None then (Inr (), w)
     else with_security_storage (delete_session_cache (ses_id s))
       (w\<lparr>w_db := (w_db w)\<lparr>sessions :=
          update_where (\<lambda>x. ses_id x = ses_id s \<and> ses_revoked_at x = None)
            (mark_revoked (w_clock w) LOGOUT) (sessions (w_db w))\<rparr>\<rparr>))"
  using session_of_token_hash [OF assms(1,2)] assms(3)
  by (simp add: logout_session_def with_security_storage_def logout_def app_sessions_def run_simps
      db_op_def find_session_by_refresh_token_hash_def revoke_session_io_def now_io_def
      revoke_session_run [OF assms(1)])

lemma logout_former:
  assumes "\<forall>s \<in> set (sessions (w_db w)). ses_refresh_token_hash s \<noteq> hash_token cfg token"
  shows "logout_session cfg token w = (Inr (), w)"
proof -
  have "find (\<lambda>s. ses_refresh_token_hash s = hash_token cfg token) (sessions (w_db w)) = None"
    using assms by (auto simp: find_None_iff)
  then show ?thesis
    by (simp add: logout_session_def with_security_storage_def logout_def app_sessions_def run_simps
        db_op_def find_session_by_refresh_token_hash_def)
qed

lemma revoked_rows:
  assumes "x \<in> set (update_where (\<lambda>x. ses_id x = i \<and> ses_revoked_at x = None) (mark_revoked now reason) xs)"
    and "ses_id x = i"
  shows "ses_revoked_at x \<noteq> None"
  using assms(1) unfolding in_update_where
proof
  assume "\<exists>y \<in> set xs. (ses_id y = i \<and> ses_revoked_at y = None) \<and> x = mark_revoked now reason y"
  then show ?thesis by (auto simp: mark_revoked_def)
qed (use assms(2) in simp)

lemma csrf_session_cases:
  assumes "csrf_session cfg token d = Some s"
  shows "s \<in> set (sessions d) \<and> (ses_refresh_token_hash s = hash_token cfg token
    \<or> (\<forall>x \<in> set (sessions d). ses_refresh_token_hash x \<noteq> hash_token cfg token))"
  using assms
  by (auto simp: csrf_session_def find_None_iff dest: find_SomeD split: option.splits)

text \<open>
  Property C24. A logout the guard lets through answers 204 and clears the cookie. With the
  session's current refresh token the session is revoked and out of the cache, so it validates no
  more; with a former token of an active session, which the guard accepts, nothing happens: the
  session stays as it was, in PostgreSQL and in the cache. A refused logout changes nothing.
\<close>

theorem logout_route_verdict:
  assumes "auth_leads empty_db (w_db w)" and "w_net w = []"
    and "gr_cookies request (gc_refresh_cookie_name gc) = Some token" and "token \<noteq> []"
  shows "case csrf_origin_guard cfg gc request w of
      (Inl e, _) \<Rightarrow> route_logout cfg gc request w = (Inl e, w)
    | (Inr _, _) \<Rightarrow> \<exists>s w'. csrf_session cfg token (w_db w) = Some s
        \<and> route_logout cfg gc request w = (Inr (no_content [clear_refresh_cookie gc]), w')
        \<and> (if ses_refresh_token_hash s = hash_token cfg token \<and> ses_revoked_at s = None
           then \<forall>v. w_db v = w_db w' \<and> w_redis v = w_redis w' \<and> w_net v = [] \<longrightarrow>
             fst (validate_session (app_sessions cfg) (ses_id s) v) = Inr None
           else w' = w)"
proof (cases "fst (csrf_origin_guard cfg gc request w)")
  case (Inl e)
  with csrf_guard_run(1) [OF assms(3,4), of cfg w] show ?thesis
    by (simp add: route_logout_def thenM_def bindM_def)
next
  case (Inr u)
  then have guard: "csrf_origin_guard cfg gc request w = (Inr (), w)"
    using csrf_guard_run(1) [OF assms(3,4), of cfg w] by simp
  then obtain s where s: "csrf_session cfg token (w_db w) = Some s"
    using csrf_guard_run(3) [OF assms(3,4), of cfg w] by auto
  have wf: "auth_wf (w_db w)" using auth_leads_safe [OF assms(1) empty_db_auth_wf] by blast
  define w1 where "w1 = w\<lparr>w_db := (w_db w)\<lparr>sessions :=
      update_where (\<lambda>x. ses_id x = ses_id s \<and> ses_revoked_at x = None)
        (mark_revoked (w_clock w) LOGOUT) (sessions (w_db w))\<rparr>,
      w_redis := redis_del (session_key (ses_id s)) (w_redis w)\<rparr>"
  define w' where "w' = (if ses_refresh_token_hash s = hash_token cfg token \<and> ses_revoked_at s = None
    then w1 else w)"
  have "logout_session cfg token w = (Inr (), w')"
  proof (cases "ses_refresh_token_hash s = hash_token cfg token")
    case True
    with logout_current [OF wf _ True] csrf_session_cases [OF s] assms(2) show ?thesis
      by (simp add: w'_def w1_def with_security_storage_def delete_session_cache_def
          redis_service_del_def safe_redis_up run_simps)
  next
    case False
    with csrf_session_cases [OF s] logout_former show ?thesis by (simp add: w'_def)
  qed
  then have "route_logout cfg gc request w = (Inr (no_content [clear_refresh_cookie gc]), w')"
    using guard cookie_of_guard [OF assms(3,4)]
    by (simp add: route_logout_def thenM_def bindM_def returnM_def)
  moreover have "fst (validate_session (app_sessions cfg) (ses_id s) v) = Inr None"
    if "w_db v = w_db w1" "w_redis v = w_redis w1" "w_net v = []" for v
    by (rule validate_revoked [OF that(3)])
      (use that revoked_rows in \<open>auto simp: w1_def\<close>)
  ultimately show ?thesis using guard s by (auto simp: w'_def)
qed

text \<open>
  Property C25. A logout that Redis interrupts cannot be completed. When the deletion of the cached
  entry fails, the session is revoked in PostgreSQL and the answer is 503; the same request sent
  again, with Redis working, answers 204 and clears the cookie without deleting the entry, and the
  access token stays valid until the entry expires.
\<close>

theorem failed_logout_not_retried:
  assumes "auth_leads empty_db (w_db w)" and "w_net w = [Lost]"
    and "gr_cookies request (gc_refresh_cookie_name gc) = Some token" and "token \<noteq> []"
    and "fst (csrf_origin_guard cfg gc request w) = Inr ()"
    and "s \<in> set (sessions (w_db w))" and "ses_revoked_at s = None"
    and "ses_refresh_token_hash s = hash_token cfg token"
    and "w_redis w (session_key (ses_id s)) =
      Some \<lparr>re_value = RJson (session_payload e t), re_expires_at = Some x\<rparr>"
    and "sc_active e" and "sc_expires_at e = Some t" and "four_digit_day (day_of_instant t)"
  shows "\<exists>w'. route_logout cfg gc request w = (Inl storage_unavailable_exception, w')
    \<and> (\<forall>r \<in> set (sessions (w_db w')). ses_id r = ses_id s \<longrightarrow> ses_revoked_at r \<noteq> None)
    \<and> w_net w' = []
    \<and> route_logout cfg gc request w' = (Inr (no_content [clear_refresh_cookie gc]), w')
    \<and> (\<forall>v. w_db v = w_db w' \<and> w_redis v = w_redis w' \<and> w_net v = [] \<and> w_clock v < x \<and> w_clock v < t \<longrightarrow>
         fst (validate_session (app_sessions cfg) (ses_id s) v) =
           Inr (Some \<lparr>pr_user_id = sc_user_id e, pr_role = sc_role e, pr_session_id = sc_session_id e\<rparr>))"
proof -
  define w' where "w' = w\<lparr>w_db := (w_db w)\<lparr>sessions :=
      update_where (\<lambda>x. ses_id x = ses_id s \<and> ses_revoked_at x = None)
        (mark_revoked (w_clock w) LOGOUT) (sessions (w_db w))\<rparr>, w_net := []\<rparr>"
  have wf: "auth_wf (w_db w)" using auth_leads_safe [OF assms(1) empty_db_auth_wf] by blast
  have found: "find (\<lambda>x. ses_refresh_token_hash x = hash_token cfg token) (sessions (w_db w)) = Some s"
    using session_of_token_hash [OF wf assms(6)] assms(8) by simp
  then have again: "find (\<lambda>x. ses_refresh_token_hash x = hash_token cfg token) (sessions (w_db w')) =
      Some (mark_revoked (w_clock w) LOGOUT s)"
    using assms(7) by (simp add: w'_def find_update_where mark_revoked_def)
  have first: "logout_session cfg token w = (Inl storage_unavailable_exception, w')"
    using logout_current [OF wf assms(6,8)] assms(2,7)
    by (simp add: with_security_storage_def delete_session_cache_def redis_service_del_def
        safe_run redis_call_def run_simps w'_def)
  have second: "logout_session cfg token w' = (Inr (), w')"
    using again
    by (simp add: logout_session_def with_security_storage_def logout_def app_sessions_def run_simps
        db_op_def find_session_by_refresh_token_hash_def mark_revoked_def)
  have "fst (csrf_origin_guard cfg gc request w') = Inr ()"
    using csrf_guard_run(2) [OF assms(3,4), of cfg w' w] assms(5) found again
    by (simp add: csrf_session_def mark_revoked_def)
  then have guards: "csrf_origin_guard cfg gc request w = (Inr (), w)"
    "csrf_origin_guard cfg gc request w' = (Inr (), w')"
    using csrf_guard_run(1) [OF assms(3,4), of cfg w] csrf_guard_run(1) [OF assms(3,4), of cfg w'] assms(5)
    by metis+
  have "route_logout cfg gc request w = (Inl storage_unavailable_exception, w')"
    "route_logout cfg gc request w' = (Inr (no_content [clear_refresh_cookie gc]), w')"
    using first second guards cookie_of_guard [OF assms(3,4)]
    by (simp_all add: route_logout_def thenM_def bindM_def returnM_def)
  moreover have "fst (validate_session (app_sessions cfg) (ses_id s) v) =
      Inr (Some \<lparr>pr_user_id = sc_user_id e, pr_role = sc_role e, pr_session_id = sc_session_id e\<rparr>)"
    if "w_redis v = w_redis w'" "w_net v = []" "w_clock v < x" "w_clock v < t" for v
    using validate_cached [where e = e and t = t and x = x and v = v and i = "ses_id s",
        OF that(2) assms(10,11,12) _ that(3)] that assms(9)
    by (simp add: w'_def)
  moreover have "ses_revoked_at r \<noteq> None" if "r \<in> set (sessions (w_db w'))" "ses_id r = ses_id s" for r
    using revoked_rows [of r "ses_id s" "w_clock w" LOGOUT "sessions (w_db w)"] that by (simp add: w'_def)
  moreover have "w_net w' = []" by (simp add: w'_def)
  ultimately show ?thesis by blast
qed

section \<open>Answers that do not tell whether an account exists\<close>

text \<open>
  Redis and the mail queue answer, the identifiers drawn next are new, and the password hasher
  gives hashes of its format.
\<close>

definition mail_ready :: "auth_config \<Rightarrow> world \<Rightarrow> bool" where
  "mail_ready cfg w \<longleftrightarrow>
     w_net w = [] \<and> (\<forall>a \<in> set (accounts (w_db w)). acc_id a \<noteq> [])
     \<and> (\<forall>n. w_strings w n \<noteq> [] \<and> w_strings w n \<notin> acc_id ` set (accounts (w_db w))
          \<and> w_strings w n \<notin> ae_id ` set (audit_events (w_db w)))
     \<and> (\<forall>p salt. rx_test BCRYPT_HASH_PATTERN (ac_bcrypt_hash cfg p BCRYPT_COST salt))"

lemma rate_limit_run:
  assumes "w_net w = []"
  shows "\<exists>r s. \<forall>d. increment_rate_limit op dim h ttl (w\<lparr>w_db := d\<rparr>) = (r, w\<lparr>w_db := d, w_redis := s\<rparr>)"
proof (cases "increment_rate_limit_lua (rate_key op dim h) ttl (w_clock w) (w_redis w)")
  case None
  with assms have "increment_rate_limit op dim h ttl (w\<lparr>w_db := d\<rparr>) =
      (Inl StorageUnavailableExn, w\<lparr>w_db := d, w_redis := w_redis w\<rparr>)" for d
    by (simp add: increment_rate_limit_def safe_run redis_call_def)
  then show ?thesis by blast
next
  case (Some p)
  with assms have "increment_rate_limit op dim h ttl (w\<lparr>w_db := d\<rparr>) =
      (Inr (fst p), w\<lparr>w_db := d, w_redis := snd p\<rparr>)" for d
    by (cases p) (simp add: increment_rate_limit_def safe_redis_up)
  then show ?thesis by blast
qed

lemma limits_run:
  assumes "w_net w = []"
  shows "\<exists>r s. \<forall>d. assert_within_rate_limits cfg op email ip (w\<lparr>w_db := d\<rparr>) =
    (r, w\<lparr>w_db := d, w_redis := s\<rparr>)"
proof -
  obtain r1 s1 where one: "\<And>d. increment_rate_limit op ByEmail (ac_sha256 cfg email) RATE_LIMIT_TTL_SECONDS
      (w\<lparr>w_db := d\<rparr>) = (r1, w\<lparr>w_db := d, w_redis := s1\<rparr>)"
    using rate_limit_run [OF assms] by metis
  obtain r2 s2 where two: "\<And>d. increment_rate_limit op ByIp (ac_sha256 cfg (client_or_unknown ip))
      RATE_LIMIT_TTL_SECONDS (w\<lparr>w_redis := s1, w_db := d\<rparr>) = (r2, w\<lparr>w_db := d, w_redis := s2\<rparr>)"
    using rate_limit_run [of "w\<lparr>w_redis := s1\<rparr>"] assms by fastforce
  have swap: "w\<lparr>w_db := d, w_redis := s\<rparr> = w\<lparr>w_redis := s, w_db := d\<rparr>" for d s by simp
  show ?thesis
    using one two
    by (cases r1; cases r2)
      (auto simp: assert_within_rate_limits_def with_security_storage_def run_simps swap
        simp del: world.update_convs split: if_splits)
qed

lemma enqueue_activation_run:
  assumes "w_net w = []" and "u \<noteq> []"
  shows "fst (enqueue_activation u w) = Inr ()"
  using assms
  by (simp add: enqueue_activation_def safe_redis_up run_simps generate_challenge_id_def
      draw_string_def set_issuance_def set_resend_cooldown_def redis_service_set_def
      enqueue_verification_code_def add_email_job_def enqueue_def)

lemma trim_length: "length (js_trim s) \<le> length s"
  unfolding js_trim_def by (metis (no_types) length_dropWhile_le length_rev order_trans)

lemma enqueue_activation_up:
  assumes "w_net w = []" and "u \<noteq> []"
  shows "fst (enqueue_activation_if_allowed u w) = Inr ()"
  using assms
  by (simp add: enqueue_activation_if_allowed_def enqueue_activation_def is_resend_cooldown_active_def
      redis_service_exists_def safe_redis_up run_simps generate_challenge_id_def draw_string_def
      set_issuance_def set_resend_cooldown_def redis_service_set_def enqueue_verification_code_def
      add_email_job_def enqueue_def)

lemma mail_ready_redis: "mail_ready cfg w \<Longrightarrow> mail_ready cfg (w\<lparr>w_redis := s\<rparr>)"
  by (simp add: mail_ready_def)

lemma mail_ready_account:
  "mail_ready cfg w \<Longrightarrow> find p (accounts (w_db w)) = Some a \<Longrightarrow> acc_id a \<noteq> []"
  by (auto simp: mail_ready_def dest: find_SomeD)

lemma storage_keeps_success: "fst (m w) = Inr x \<Longrightarrow> fst (with_security_storage m w) = Inr x"
  by (auto simp: with_security_storage_def catchM_def split: sum.splits prod.splits)

lemma bind_throw: "bindM (throwM e) f = throwM e" and then_throw: "thenM (throwM e) k = throwM e"
  and then_return: "thenM (returnM x) k = k"
  by (simp_all add: run_simps)

lemma fst_throw: "fst (throwM e w) = Inl e"
  by (simp add: run_simps)

lemma piped_answer:
  "fst (thenM (validation_pipe vd accepts body) (thenM m (returnM x)) w) =
     (if accepts body then (case fst (m w) of Inl e \<Rightarrow> Inl e | Inr _ \<Rightarrow> Inr x)
      else Inl (validation_exception (format_validation_errors (vd_errors vd body))))"
  by (simp add: validation_pipe_def run_simps split: sum.splits prod.splits)

text \<open>Once the rate limits have passed, every branch of the three operations succeeds.\<close>

lemma resend_branch_up:
  assumes "mail_ready cfg v"
  shows "fst (bindM (db_op (find_account_by_email email)) (\<lambda>existing. case existing of
      None \<Rightarrow> returnM ()
    | Some account \<Rightarrow> if acc_status account \<noteq> PENDING then returnM ()
        else enqueue_activation_if_allowed (acc_id account)) v) = Inr ()"
  using assms enqueue_activation_up [of v] mail_ready_account [OF assms]
  by (auto simp: run_simps db_op_def find_account_by_email_def mail_ready_def split: option.split)

lemma forgot_branch_up:
  assumes "mail_ready cfg v"
  shows "fst (bindM (db_op (find_account_by_email email)) (\<lambda>found. case found of
      None \<Rightarrow> returnM ()
    | Some account \<Rightarrow> if acc_status account \<noteq> ACTIVE_ACCOUNT then returnM ()
        else bindM generate_challenge_id (\<lambda>issuance_id.
          thenM (set_issuance ISSUE_RESET (acc_id account) issuance_id)
            (thenM (enqueue_password_reset (acc_id account) issuance_id)
              (thenM (record_audit (audit PASSWORD_RESET_REQUESTED (acc_id account))) (returnM ()))))) v) = Inr ()"
  using assms
  by (auto simp: run_simps db_op_def find_account_by_email_def mail_ready_def generate_challenge_id_def
      draw_string_def set_issuance_def redis_service_set_def safe_redis_up enqueue_password_reset_def
      add_email_job_def enqueue_def record_audit_def now_io_def insert_audit_event_def audit_def
      split: option.split dest: find_SomeD)

lemma register_branch_up:
  assumes "mail_ready cfg v" and "length email \<le> 320"
  shows "fst (bindM (db_op (find_account_by_email email)) (\<lambda>existing. case existing of
      None \<Rightarrow> bindM (hash_password cfg password) (\<lambda>password_hash.
        bindM (create_pending_account_io email password_hash) (\<lambda>account. enqueue_activation (acc_id account)))
    | Some account \<Rightarrow> if acc_status account = ACTIVE_ACCOUNT then returnM ()
        else enqueue_activation_if_allowed (acc_id account)) v) = Inr ()"
proof (cases "find (\<lambda>a. acc_email a = email) (accounts (w_db v))")
  case None
  obtain h v1 where hash: "hash_password cfg password v = (Inr h, v1)" "length h = 60"
    "w_db v1 = w_db v" "w_net v1 = []" "w_strings v1 = w_strings v"
    using assms(1) bcrypt_hash_length
    by (auto simp: hash_password_def draw_string_def run_simps password_hash_create_def mail_ready_def)
  define n where "n = w_strings v (w_drawn v1)"
  have n: "n \<noteq> []" "n \<notin> acc_id ` set (accounts (w_db v))" using assms(1) by (auto simp: mail_ready_def n_def)
  have "email \<notin> acc_email ` set (accounts (w_db v))" using None by (auto simp: find_None_iff)
  then obtain a v2 where made: "create_pending_account_io email h v1 = (Inr a, v2)" "acc_id a = n" "w_net v2 = []"
    using n hash assms(2)
    by (simp add: create_pending_account_io_def draw_string_def now_io_def run_simps db_op_def
        create_pending_account_def insert_account_def n_def)
  have "fst (enqueue_activation (acc_id a) v2) = Inr ()"
    using made n(1) enqueue_activation_run by simp
  with None hash made show ?thesis
    by (simp add: run_simps db_op_def find_account_by_email_def)
next
  case (Some a)
  with assms enqueue_activation_up [of v] mail_ready_account [OF assms(1)] show ?thesis
    by (auto simp: run_simps db_op_def find_account_by_email_def mail_ready_def)
qed

text \<open>
  Property C27. Registration, the resending of a verification mail and the request of a password
  reset do not tell whether an account exists: with the stores working, two databases give the
  same answer, whatever accounts they hold.
\<close>

theorem mail_routes_disclose_nothing:
  assumes "mail_ready cfg w" and "mail_ready cfg (w\<lparr>w_db := d\<rparr>)"
    and "length (json_text body ''email'') \<le> 320"
  shows "fst (route_register cfg vd body ip w) = fst (route_register cfg vd body ip (w\<lparr>w_db := d\<rparr>))
    \<and> fst (route_resend_email_verification cfg vd body ip w) =
        fst (route_resend_email_verification cfg vd body ip (w\<lparr>w_db := d\<rparr>))
    \<and> fst (route_forgot_password cfg vd body ip w) =
        fst (route_forgot_password cfg vd body ip (w\<lparr>w_db := d\<rparr>))"
proof -
  have answer: "fst (thenM (assert_within_rate_limits cfg op email client) (with_security_storage m) w) =
      fst (thenM (assert_within_rate_limits cfg op email client) (with_security_storage m) (w\<lparr>w_db := d\<rparr>))"
    if "\<And>v. mail_ready cfg v \<Longrightarrow> fst (m v) = Inr ()" for op email client and m :: "unit io"
  proof -
    obtain r s where limits: "\<And>d. assert_within_rate_limits cfg op email client (w\<lparr>w_db := d\<rparr>) =
        (r, w\<lparr>w_db := d, w_redis := s\<rparr>)"
      using limits_run [of w cfg op email client] assms(1) by (auto simp: mail_ready_def)
    have "fst (with_security_storage m (w\<lparr>w_db := w_db w, w_redis := s\<rparr>)) = Inr ()"
      "fst (with_security_storage m (w\<lparr>w_db := d, w_redis := s\<rparr>)) = Inr ()"
      using that [OF mail_ready_redis [OF assms(1)]] that [OF mail_ready_redis [OF assms(2)]]
      by (intro storage_keeps_success; simp)+
    with limits [of "w_db w"] limits [of d] show ?thesis
      by (cases r) (simp_all add: thenM_def bindM_def)
  qed
  have email: "length e \<le> 320" if "email_create (json_text body ''email'') = Inr e" for e
    using that assms(3) trim_length [of "json_text body ''email''"]
    by (auto simp: email_create_def to_lower_case_def Let_def split: if_splits)
  let ?email = "json_text body ''email''" and ?pw = "json_text body ''password''"
  let ?again = "json_text body ''passwordConfirmation''" and ?ip = "client_ip_of ip"
  have register: "fst (register_user cfg ?email ?pw ?again ?ip w) =
      fst (register_user cfg ?email ?pw ?again ?ip (w\<lparr>w_db := d\<rparr>))"
  proof (cases "email_create ?email")
    case (Inr e)
    note same = answer [OF register_branch_up [OF _ email [OF Inr]]]
    show ?thesis
      unfolding register_user_def parse_email_def parse_password_def assert_password_confirmation_def
      by (cases "password_create ?pw"; cases "?pw = ?again")
        (simp_all add: Inr bind_return then_return bind_throw then_throw fst_throw same)
  qed (simp add: register_user_def parse_email_def run_simps)
  have resend: "fst (resend_email_verification cfg ?email ?ip w) =
      fst (resend_email_verification cfg ?email ?ip (w\<lparr>w_db := d\<rparr>))"
    unfolding resend_email_verification_def parse_email_def
    by (cases "email_create ?email") (simp_all add: bind_return bind_throw fst_throw answer [OF resend_branch_up])
  have forgot: "fst (request_password_reset cfg ?email ?ip w) =
      fst (request_password_reset cfg ?email ?ip (w\<lparr>w_db := d\<rparr>))"
    unfolding request_password_reset_def parse_email_def
    by (cases "email_create ?email") (simp_all add: bind_return bind_throw fst_throw answer [OF forgot_branch_up])
  show ?thesis
    by (simp add: route_register_def route_resend_email_verification_def route_forgot_password_def
        piped_answer register resend forgot)
qed

end
