(* ===== verification/LinkRoutes.thy ===== *)
theory LinkRoutes
  imports LinksApi AuthController
begin

text \<open>
  The routes of links.controller.ts and link-statistics.controller.ts in full: the session guard,
  the validation of parameters, query and body with links.dto.ts and link-statistics.dto.ts, and the
  handler with the user of the session. What every request leaves alone: the links of other users.
\<close>

section \<open>Requests\<close>

datatype links_request =
    CreateLink json
  | ListLinks json
  | DeactivateLink uuid
  | ReactivateLink uuid
  | LinkStatistics uuid json

datatype links_answer =
    LinkAnswer nat link_response
  | PageAnswer list_response
  | ReportAnswer report

definition create_link_dto :: "json \<Rightarrow> bool" where
  "create_link_dto body \<longleftrightarrow>
     only_fields body [''destinationUrl''] \<and> string_field body ''destinationUrl'' (\<lambda>s. s \<noteq> [])"

text \<open>An optional value may be absent or \<open>null\<close>.\<close>

definition optional_field :: "json \<Rightarrow> string \<Rightarrow> (string \<Rightarrow> bool) \<Rightarrow> bool" where
  "optional_field body k check =
     (case json_get body k of
        None \<Rightarrow> True | Some JNull \<Rightarrow> True | Some (JStr s) \<Rightarrow> check s | _ \<Rightarrow> False)"

definition optional_text :: "json \<Rightarrow> string \<Rightarrow> string option" where
  "optional_text body k = (case json_get body k of Some (JStr s) \<Rightarrow> Some s | _ \<Rightarrow> None)"

definition number_within :: "int \<Rightarrow> int option \<Rightarrow> string \<Rightarrow> bool" where
  "number_within low high s =
     (case js_integer s of
        None \<Rightarrow> False
      | Some n \<Rightarrow> low \<le> n \<and> (case high of None \<Rightarrow> True | Some h \<Rightarrow> n \<le> h))"

definition list_query_dto :: "json \<Rightarrow> bool" where
  "list_query_dto query \<longleftrightarrow>
     only_fields query [''page'', ''limit'', ''status'']
     \<and> optional_field query ''page'' (number_within 1 None)
     \<and> optional_field query ''limit'' (number_within 1 (Some 100))
     \<and> optional_field query ''status'' (\<lambda>s. s \<in> {''active'', ''deactivated'', ''all''})"

definition status_filter_of :: "string \<Rightarrow> status_filter" where
  "status_filter_of s =
     (if s = ''active'' then FilterActive
      else if s = ''deactivated'' then FilterDeactivated else FilterAll)"

text \<open>The transformed query: numbers from their text.\<close>

definition list_query_params :: "json \<Rightarrow> list_params" where
  "list_query_params query =
     \<lparr>lp_page = Option.bind (optional_text query ''page'') js_integer,
      lp_limit = Option.bind (optional_text query ''limit'') js_integer,
      lp_status = map_option status_filter_of (optional_text query ''status'')\<rparr>"

definition link_id_dto :: "validator \<Rightarrow> json \<Rightarrow> bool" where
  "link_id_dto vd params \<longleftrightarrow>
     only_fields params [''linkId''] \<and> string_field params ''linkId'' (vd_is_uuid vd)"

definition period_query_dto :: "json \<Rightarrow> bool" where
  "period_query_dto query \<longleftrightarrow>
     only_fields query [''from'', ''to'']
     \<and> optional_field query ''from'' (rx_test UTC_DATE) \<and> optional_field query ''to'' (rx_test UTC_DATE)"

section \<open>Routes\<close>

definition route_create_link :: "world links_deps \<Rightarrow> validator \<Rightarrow> uuid \<Rightarrow> json \<Rightarrow> links_answer io" where
  "route_create_link links_service vd user_id body =
     thenM (validation_pipe vd create_link_dto body)
       (bindM (controller_create links_service user_id (json_text body ''destinationUrl''))
         (\<lambda>(status, link). returnM (LinkAnswer status link)))"

definition route_list_links :: "world links_deps \<Rightarrow> validator \<Rightarrow> uuid \<Rightarrow> json \<Rightarrow> links_answer io" where
  "route_list_links links_service vd user_id query =
     thenM (validation_pipe vd list_query_dto query)
       (bindM (controller_list links_service user_id (list_query_params query)) (\<lambda>page.
         returnM (PageAnswer page)))"

definition with_link_id :: "validator \<Rightarrow> uuid \<Rightarrow> 'a io \<Rightarrow> 'a io" where
  "with_link_id vd link_id handler =
     thenM (validation_pipe vd (link_id_dto vd) (JObj [(''linkId'', JStr link_id)])) handler"

definition route_deactivate_link :: "world links_deps \<Rightarrow> validator \<Rightarrow> uuid \<Rightarrow> uuid \<Rightarrow> links_answer io" where
  "route_deactivate_link links_service vd user_id link_id =
     with_link_id vd link_id
       (bindM (controller_deactivate links_service user_id link_id) (\<lambda>link. returnM (LinkAnswer 200 link)))"

definition route_reactivate_link :: "world links_deps \<Rightarrow> validator \<Rightarrow> uuid \<Rightarrow> uuid \<Rightarrow> links_answer io" where
  "route_reactivate_link links_service vd user_id link_id =
     with_link_id vd link_id
       (bindM (controller_reactivate links_service user_id link_id) (\<lambda>link. returnM (LinkAnswer 200 link)))"

definition route_link_statistics :: "validator \<Rightarrow> uuid \<Rightarrow> uuid \<Rightarrow> json \<Rightarrow> links_answer io" where
  "route_link_statistics vd user_id link_id query =
     with_link_id vd link_id
       (thenM (validation_pipe vd period_query_dto query)
         (bindM (service_get_report user_id link_id (optional_text query ''from'') (optional_text query ''to''))
           (\<lambda>report. returnM (ReportAnswer report))))"

fun links_handler ::
  "world links_deps \<Rightarrow> validator \<Rightarrow> uuid \<Rightarrow> links_request \<Rightarrow> links_answer io" where
  "links_handler links_service vd u (CreateLink body) = route_create_link links_service vd u body"
| "links_handler links_service vd u (ListLinks query) = route_list_links links_service vd u query"
| "links_handler links_service vd u (DeactivateLink i) = route_deactivate_link links_service vd u i"
| "links_handler links_service vd u (ReactivateLink i) = route_reactivate_link links_service vd u i"
| "links_handler links_service vd u (LinkStatistics i query) = route_link_statistics vd u i query"

definition links_api ::
  "auth_config \<Rightarrow> world links_deps \<Rightarrow> validator \<Rightarrow> guarded_request \<Rightarrow> links_request \<Rightarrow> links_answer io" where
  "links_api cfg links_service vd headers request =
     bindM (session_guard cfg headers) (\<lambda>user.
       links_handler links_service vd (pr_user_id user) request)"

section \<open>The links of other users\<close>

definition links_of_others :: "uuid \<Rightarrow> db \<Rightarrow> link list" where
  "links_of_others u d = filter (\<lambda>l. lk_user_id l \<noteq> u) (links d)"

definition owned_response :: "string \<Rightarrow> uuid \<Rightarrow> db \<Rightarrow> link_response \<Rightarrow> bool" where
  "owned_response base u d resp \<longleftrightarrow> (\<exists>l \<in> set (links d). lk_user_id l = u \<and> resp = to_response base l)"

lemma filter_update_where_other:
  "(\<And>r. r \<in> set xs \<Longrightarrow> q r \<Longrightarrow> \<not> p r \<and> \<not> p (f r)) \<Longrightarrow> filter p (update_where q f xs) = filter p xs"
  by (induction xs) auto

lemma others_activate:
  assumes "links_wf d" and "l \<in> set (links d)" and "lk_user_id l = u"
  shows "links_of_others u (activate_row now st (lk_id l) d) = links_of_others u d"
proof -
  have "lk_user_id r = u" if "r \<in> set (links d)" "lk_id r = lk_id l" for r
    using distinct_key_eq [of lk_id "links d" r l] that assms by (auto simp: links_wf_def)
  then show ?thesis
    unfolding links_of_others_def activate_row_def by (simp add: filter_update_where_other)
qed

lemma activated_row:
  "l \<in> set (links d) \<Longrightarrow> l\<lparr>lk_status := st, lk_updated_at := now\<rparr> \<in> set (links (activate_row now st (lk_id l) d))"
  by (force simp: activate_row_def set_update_where)

lemma create_isolated:
  assumes "links_wf d"
  shows "wp (create_or_restore i now u t c) (\<lambda>r d'. links_of_others u d' = links_of_others u d
    \<and> (\<forall>k l. r = Inr k \<longrightarrow> result_link k = Some l \<longrightarrow> l \<in> set (links d') \<and> lk_user_id l = u)) d"
  unfolding create_or_restore_def create_or_restore_tx_def
  using others_activate [OF assms] activated_row
  by (auto simp: wp_simps new_link_def links_of_others_def split: option.splits
      dest!: find_by_destination_SomeD intro!: wp_insert_link dest: insert_link_run)

lemma change_isolated:
  assumes "links_wf d"
  shows "wp (change_status now u i st) (\<lambda>r d'. links_of_others u d' = links_of_others u d
    \<and> (\<forall>l. r = Inr (Changed l) \<or> r = Inr (Unchanged l) \<longrightarrow> l \<in> set (links d') \<and> lk_user_id l = u)) d"
  unfolding wp_change_status change_status_from_def
  using others_activate [OF assms] activated_row
  by (auto simp: wp_simps split: option.splits dest!: link_by_id_SomeD)

text \<open>What a request of the user \<open>u\<close> may do, as a relation between the states around it.\<close>

definition isolated :: "uuid \<Rightarrow> world \<Rightarrow> world \<Rightarrow> bool" where
  "isolated u w w' \<longleftrightarrow> links_wf (w_db w')
     \<and> links_of_others u (w_db w') = links_of_others u (w_db w)"

lemma isolated_same: "links_wf (w_db w) \<Longrightarrow> links (w_db w') = links (w_db w) \<Longrightarrow> isolated u w w'"
  by (simp add: isolated_def links_wf_def count_active_links_def links_of_others_def)

lemma isolated_trans: "isolated u w w' \<Longrightarrow> isolated u w' w'' \<Longrightarrow> isolated u w w''"
  by (simp add: isolated_def)

lemma create_attempts_isolated:
  "links_wf (w_db w) \<Longrightarrow> create_attempts (app_links ttl base m parse) u t n w = (r, w') \<Longrightarrow>
     isolated u w w' \<and> (\<forall>resp made. r = Inr (resp, made) \<longrightarrow> owned_response base u (w_db w') resp)"
proof (induction n arbitrary: w)
  case 0
  then show ?case by (auto simp: run_simps isolated_same)
next
  case (Suc n)
  let ?D = "app_links ttl base m parse" and ?w1 = "w\<lparr>w_drawn := w_drawn w + CODE_LENGTH\<rparr>"
  let ?c = "generate_link_code CODE_LENGTH (w_ints w) (w_drawn w)"
  obtain q w2 where q: "create_or_restore_io u t ?c ?w1 = (q, w2)" by force
  note db = conjunct1 [OF create_io_run [OF q]]
  have wf: "links_wf (w_db w2)" using keepsD [OF keeps_create_or_restore _ db] Suc.prems(1) by simp
  have iso: "isolated u w w2" and own: "\<And>k l. q = Inr k \<Longrightarrow> result_link k = Some l \<Longrightarrow>
      owned_response base u (w_db w2) (to_response base l)"
    using wp_run [OF create_isolated db] Suc.prems(1) wf
    by (auto simp: isolated_def owned_response_def)
  have "create_attempts ?D u t (Suc n) w =
      (case q of Inl e \<Rightarrow> (Inl e, w2)
       | Inr (Created l) \<Rightarrow> (Inr (to_response base l, True), w2)
       | Inr (Existing l) \<Rightarrow> (Inr (to_response base l, False), w2)
       | Inr (Reactivated l) \<Rightarrow> (Inr (to_response base l, False), w2)
       | Inr CreateLimitReached \<Rightarrow> (Inl link_limit_reached_exception, w2)
       | Inr ShortCodeCollision \<Rightarrow> create_attempts ?D u t n w2)"
    using q by (simp add: run_simps app_links_def generate_code_io_def
        split: sum.splits create_result.splits)
  with Suc.prems(2) iso own Suc.IH [OF wf] isolated_trans [OF iso] show ?case
    by (auto split: sum.splits create_result.splits)
qed

lemma service_change_isolated:
  assumes "links_wf (w_db w)"
    and "service_change_status (app_links ttl base n parse) u i st w = (r, w')"
  shows "isolated u w w' \<and> (\<forall>resp. r = Inr resp \<longrightarrow> owned_response base u (w_db w') resp)"
proof (cases "find (\<lambda>l. lk_id l = i) (links (w_db w))")
  case None
  with assms show ?thesis
    by (auto simp: service_change_status_def app_links_def run_simps db_op_def find_link_by_id_def
        link_by_id_def isolated_same)
next
  case (Some l)
  obtain v w1 where inv: "cache_invalidate (lk_short_code l) w = (v, w1)" by force
  have db1: "w_db w1 = w_db w" using cache_invalidate_run [OF inv] by simp
  obtain q w2 where chg: "change_status_io u i st w1 = (q, w2)" by force
  note db2 = conjunct1 [OF change_io_run [OF chg]]
  have "links_wf (w_db w2)" using keepsD [OF keeps_change_status _ db2] assms(1) db1 by simp
  then have iso: "isolated u w w2" and own: "\<And>l. q = Inr (Changed l) \<or> q = Inr (Unchanged l) \<Longrightarrow>
      owned_response base u (w_db w2) (to_response base l)"
    using wp_run [OF change_isolated db2] assms(1) db1
    by (auto simp: isolated_def owned_response_def)
  have run: "service_change_status (app_links ttl base n parse) u i st w =
      (if lk_user_id l \<noteq> u then (Inl forbidden_exception, w)
       else case v of Inl e \<Rightarrow> (Inl link_cache_unavailable_exception, w1)
       | Inr _ \<Rightarrow> (case q of Inl e \<Rightarrow> (Inl e, w2)
         | Inr (Changed l) \<Rightarrow> (Inr (to_response base l), w2)
         | Inr (Unchanged l) \<Rightarrow> (Inr (to_response base l), w2)
         | Inr ChangeNotFound \<Rightarrow> (Inl link_not_found_exception, w2)
         | Inr ChangeForbidden \<Rightarrow> (Inl forbidden_exception, w2)
         | Inr ChangeLimitReached \<Rightarrow> (Inl link_limit_reached_exception, w2)))"
    using Some inv chg
    by (simp add: service_change_status_def app_links_def run_simps db_op_def find_link_by_id_def
        link_by_id_def split: sum.splits change_result.splits)
  show ?thesis
    using assms(2) [unfolded run] iso own isolated_same [OF assms(1), of w1 u] isolated_same [OF assms(1), of w u] db1
    by (auto split: if_splits sum.splits change_result.splits)
qed

lemma service_list_isolated:
  assumes "links_wf (w_db w)" and "service_list (app_links ttl base n parse) u query w = (r, w')"
  shows "isolated u w w' \<and> (\<forall>page. r = Inr page \<longrightarrow> list_all (owned_response base u (w_db w')) (ls_items page))"
proof -
  have "list_all (owned_response base u (w_db w)) (map (to_response base) (take k (drop j (matching_links u f (w_db w)))))" for k j f
    using set_take_subset set_drop_subset
    by (fastforce simp: list_all_iff owned_response_def matching_links_def set_sort_listed)
  with assms show ?thesis
    by (auto simp: service_list_def app_links_def run_simps db_op_def list_by_user_def Let_def isolated_same)
qed

fun answer_of :: "string \<Rightarrow> uuid \<Rightarrow> db \<Rightarrow> links_request \<Rightarrow> links_answer \<Rightarrow> bool" where
  "answer_of base u d request (LinkAnswer status resp) = owned_response base u d resp"
| "answer_of base u d request (PageAnswer page) = list_all (owned_response base u d) (ls_items page)"
| "answer_of base u d request (ReportAnswer rep) =
     (case request of
        LinkStatistics i _ \<Rightarrow> (\<exists>l \<in> set (links d). lk_id l = i \<and> lk_user_id l = u)
      | _ \<Rightarrow> False)"

lemma pipe_then:
  "thenM (validation_pipe vd accepts body) k w =
     (if accepts body then k w
      else (Inl (validation_exception (format_validation_errors (vd_errors vd body))), w))"
  by (simp add: validation_pipe_def run_simps)

lemma report_isolated:
  "snd (service_get_report u i qf qt w) = w
   \<and> (\<forall>rep. fst (service_get_report u i qf qt w) = Inr rep \<longrightarrow>
        (\<exists>l \<in> set (links (w_db w)). lk_id l = i \<and> lk_user_id l = u))"
  unfolding report_is_private
  by (auto split: sum.splits option.splits if_splits dest!: find_SomeD)

lemma handler_isolated:
  assumes "links_wf (w_db w)"
    and "links_handler (app_links ttl base n parse) vd u request w = (r, w')"
  shows "isolated u w w' \<and> (\<forall>answer. r = Inr answer \<longrightarrow> answer_of base u (w_db w') request answer)"
proof (cases request)
  case (CreateLink body)
  show ?thesis
  proof (cases "create_link_dto body")
    case True
    obtain q v where q: "service_create (app_links ttl base n parse) u (json_text body ''destinationUrl'') w = (q, v)"
      by force
    have "isolated u w v \<and> (\<forall>resp made. q = Inr (resp, made) \<longrightarrow> owned_response base u (w_db v) resp)"
    proof (cases "destination_url_create parse (json_text body ''destinationUrl'')")
      case (Inl e)
      with q assms(1) show ?thesis
        by (auto simp: service_create_def parse_destination_url_def run_simps app_links_def isolated_same)
    next
      case (Inr t)
      with q create_attempts_isolated [OF assms(1)] show ?thesis
        by (simp add: service_create_def parse_destination_url_def run_simps app_links_def)
    qed
    with assms(2) CreateLink True q show ?thesis
      by (auto simp: route_create_link_def controller_create_def pipe_then bindM_def returnM_def
          split: sum.splits)
  qed (use assms CreateLink in \<open>auto simp: route_create_link_def pipe_then isolated_same\<close>)
next
  case (ListLinks query)
  with assms service_list_isolated [OF assms(1)] show ?thesis
    by (auto simp: route_list_links_def pipe_then controller_list_def bindM_def returnM_def isolated_same
        split: prod.splits sum.splits if_splits)
next
  case (DeactivateLink i)
  with assms service_change_isolated [OF assms(1)] show ?thesis
    by (auto simp: route_deactivate_link_def with_link_id_def pipe_then controller_deactivate_def
        service_deactivate_def bindM_def returnM_def isolated_same split: prod.splits sum.splits if_splits)
next
  case (ReactivateLink i)
  with assms service_change_isolated [OF assms(1)] show ?thesis
    by (auto simp: route_reactivate_link_def with_link_id_def pipe_then controller_reactivate_def
        service_reactivate_def bindM_def returnM_def isolated_same split: prod.splits sum.splits if_splits)
next
  case (LinkStatistics i query)
  with assms report_isolated [of u i "optional_text query ''from''" "optional_text query ''to''" w] show ?thesis
    by (auto simp: route_link_statistics_def with_link_id_def pipe_then bindM_def returnM_def isolated_same
        split: prod.splits sum.splits if_splits)
qed

lemma keeps_sum: "(\<And>e. keeps P (f e)) \<Longrightarrow> (\<And>x. keeps P (g x)) \<Longrightarrow>
    keeps P (case v of Inl e \<Rightarrow> f e | Inr x \<Rightarrow> g x)"
  by (cases v) auto

lemma keeps_redis_value: "(\<And>t. keeps P (f t)) \<Longrightarrow> (\<And>n. keeps P (g n)) \<Longrightarrow> (\<And>j. keeps P (h j)) \<Longrightarrow>
    keeps P (case v of RText t \<Rightarrow> f t | RInt n \<Rightarrow> g n | RJson j \<Rightarrow> h j)"
  by (cases v) auto

lemma session_guard_reads: "keeps (\<lambda>w. w_db w = d) (session_guard cfg request)"
proof -
  have read: "keeps (\<lambda>w. w_db w = d) (db_op (getsM f))" for f :: "db \<Rightarrow> 'x"
    by (simp add: keeps_def db_op_def getsM_def)
  have redis: "keeps (\<lambda>w. w_db w = d) (safe (redis_call cmd))" for cmd :: "instant \<Rightarrow> redis \<Rightarrow> ('x \<times> redis) option"
    unfolding safe_def by (intro keeps_catchM keeps_throwM keeps_redis_call) simp_all
  have now: "keeps (\<lambda>w. w_db w = d) now_io" by (simp add: now_io_def keeps_getsM)
  show ?thesis
    unfolding session_guard_def validate_session_def read_session_cache_def load_session_def
      remember_session_def app_sessions_def session_deps.select_convs get_session_cache_def
      set_session_cache_def redis_service_get_def redis_service_set_def find_active_session_by_id_def
      find_account_by_id_def
    by (intro keeps_rules keeps_sum keeps_redis_value read redis now)
qed

text \<open>
  Property C7. Users are isolated from each other. A request to the link routes is answered only
  for the user of its session: whatever it asks, the links of every other user stay as they are,
  the links in the answer are the user's own, and a report is one of the user's own link. Without
  a session nothing is done.
\<close>

theorem users_are_isolated:
  assumes "links_wf (w_db w)"
    and "links_api cfg (app_links ttl base n parse) vd headers request w = (r, w')"
  shows "case session_guard cfg headers w of
      (Inl e, v) \<Rightarrow> r = Inl e \<and> w' = v \<and> w_db w' = w_db w
    | (Inr user, _) \<Rightarrow> links_wf (w_db w')
        \<and> links_of_others (pr_user_id user) (w_db w') = links_of_others (pr_user_id user) (w_db w)
        \<and> (\<forall>answer. r = Inr answer \<longrightarrow> answer_of base (pr_user_id user) (w_db w') request answer)"
proof -
  obtain g v where g: "session_guard cfg headers w = (g, v)" by force
  have db: "w_db v = w_db w" using keepsD [OF session_guard_reads _ g, of "w_db w"] by simp
  show ?thesis
  proof (cases g)
    case (Inr user)
    with g assms(2) have "links_handler (app_links ttl base n parse) vd (pr_user_id user) request v = (r, w')"
      by (simp add: links_api_def run_simps)
    from handler_isolated [OF _ this] assms(1) db g Inr show ?thesis by (simp add: isolated_def)
  qed (use g assms(2) db in \<open>simp add: links_api_def run_simps\<close>)
qed

end
