(* ===== verification/AuthSpec.thy ===== *)
theory AuthSpec
  imports SessionApp
begin

text \<open>
  What the repository of src/src/modules/auth/typeorm-auth.repository.ts promises about sessions,
  independently of rows, histories and timestamps: a map from user to the one live session, with
  the hashes of its refresh and CSRF tokens. The transactions refine the operations on the map.
\<close>

section \<open>The abstract store\<close>

type_synonym live_sessions = "uuid \<rightharpoonup> uuid \<times> string \<times> string"

definition live :: "db \<Rightarrow> live_sessions" where
  "live d u = map_option (\<lambda>s. (ses_id s, ses_refresh_token_hash s, ses_csrf_token_hash s))
     (find (is_active_session_of u) (sessions d))"

definition spec_login :: "uuid \<Rightarrow> uuid \<Rightarrow> string \<Rightarrow> string \<Rightarrow> live_sessions \<Rightarrow> live_sessions" where
  "spec_login u i token csrf m = m(u \<mapsto> (i, token, csrf))"

text \<open>A rotation needs the live session with that token, and changes the token only.\<close>

definition spec_rotate :: "uuid \<Rightarrow> string \<Rightarrow> string \<Rightarrow> live_sessions \<Rightarrow> live_sessions" where
  "spec_rotate i current new m = (\<lambda>u. case m u of
     None \<Rightarrow> None
   | Some (j, token, csrf) \<Rightarrow> if j = i \<and> token = current then Some (j, new, csrf) else Some (j, token, csrf))"

definition spec_revoke :: "uuid \<Rightarrow> live_sessions \<Rightarrow> live_sessions" where
  "spec_revoke i m = (\<lambda>u. case m u of None \<Rightarrow> None | Some (j, h) \<Rightarrow> if j = i then None else Some (j, h))"

definition spec_revoke_all :: "uuid \<Rightarrow> live_sessions \<Rightarrow> live_sessions" where
  "spec_revoke_all u m = m(u := None)"

section \<open>Refinement\<close>

lemma map_eqI: "(\<And>u x. f u = Some x \<longleftrightarrow> g u = Some x) \<Longrightarrow> f = g"
  by (intro ext) (metis not_Some_eq)

lemma live_iff:
  assumes "auth_wf d"
  shows "live d u = Some (i, h, c) \<longleftrightarrow>
    (\<exists>s \<in> set (sessions d). ses_user_id s = u \<and> ses_revoked_at s = None
       \<and> ses_id s = i \<and> ses_refresh_token_hash s = h \<and> ses_csrf_token_hash s = c)"
proof
  assume "live d u = Some (i, h, c)"
  then show "\<exists>s \<in> set (sessions d). ses_user_id s = u \<and> ses_revoked_at s = None
       \<and> ses_id s = i \<and> ses_refresh_token_hash s = h \<and> ses_csrf_token_hash s = c"
    by (auto simp: live_def is_active_session_of_def dest!: find_SomeD)
next
  assume "\<exists>s \<in> set (sessions d). ses_user_id s = u \<and> ses_revoked_at s = None
       \<and> ses_id s = i \<and> ses_refresh_token_hash s = h \<and> ses_csrf_token_hash s = c"
  then obtain s where s: "s \<in> set (sessions d)" "is_active_session_of u s"
    "ses_id s = i" "ses_refresh_token_hash s = h" "ses_csrf_token_hash s = c"
    by (auto simp: is_active_session_of_def)
  then obtain x where x: "find (is_active_session_of u) (sessions d) = Some x"
    by (cases "find (is_active_session_of u) (sessions d)") (auto dest: find_NoneD)
  with find_SomeD [OF x] s(1,2) active_unique [OF auth_wf_parts(7) [OF assms]] have "x = s" by blast
  with x s show "live d u = Some (i, h, c)" by (simp add: live_def)
qed

lemma sessions_revoked_db: "sessions (revoked_db now u reason d) =
    update_where (is_active_session_of u) (mark_revoked now reason) (sessions d)"
  by (simp add: revoked_db_def)

lemma live_sessions_eq: "sessions d' = sessions d \<Longrightarrow> live d' = live d"
  by (simp add: live_def fun_eq_iff)

lemma live_revoke_where:
  assumes "auth_wf d" and "auth_wf d'" and "sessions d' = update_where q (mark_revoked now reason) (sessions d)"
  shows "live d' u = Some (i, h, c) \<longleftrightarrow>
    (\<exists>s \<in> set (sessions d). ses_user_id s = u \<and> ses_revoked_at s = None \<and> \<not> q s
       \<and> ses_id s = i \<and> ses_refresh_token_hash s = h \<and> ses_csrf_token_hash s = c)"
  unfolding live_iff [OF assms(2)] assms(3) Bex_def in_update_where
  by (auto simp: mark_revoked_def)

lemma login_refines:
  assumes wf: "auth_wf d" and run: "create_exclusive_session i j now u inp d = (r, d')"
  shows "live d' = (case r of Inl e \<Rightarrow> live d
    | Inr res \<Rightarrow> spec_login u i (si_refresh_token_hash inp) (si_csrf_token_hash inp) (live d))"
proof (cases r)
  case (Inl e)
  with wp_run [OF create_exclusive_session_wp [OF wf] run] show ?thesis by simp
next
  case (Inr res)
  from wp_run [OF create_exclusive_session_wp [OF wf] run] Inr have wf': "auth_wf d'"
    and rows: "sessions d' = sessions (revoked_db now u NEW_LOGIN d) @ [sr_session res]"
    and new: "sr_session res = \<lparr>ses_id = i, ses_user_id = u,
              ses_refresh_token_hash = si_refresh_token_hash inp,
              ses_csrf_token_hash = si_csrf_token_hash inp, ses_expires_at = si_expires_at inp,
              ses_revoked_at = None, ses_revocation_reason = None,
              ses_created_at = now, ses_last_rotated_at = now\<rparr>" by auto
  have old: "live (revoked_db now u NEW_LOGIN d) v = Some (k, h, c) \<longleftrightarrow> v \<noteq> u \<and> live d v = Some (k, h, c)" for v k h c
    unfolding live_revoke_where [OF wf revoked_db_wf(1) [OF wf] sessions_revoked_db] live_iff [OF wf]
    by (auto simp: is_active_session_of_def)
  have "live d' v = Some (k, h, c) \<longleftrightarrow> live (revoked_db now u NEW_LOGIN d) v = Some (k, h, c)
      \<or> (v = u \<and> k = i \<and> h = si_refresh_token_hash inp \<and> c = si_csrf_token_hash inp)" for v k h c
    unfolding live_iff [OF wf'] live_iff [OF revoked_db_wf(1) [OF wf]] rows by (auto simp: new)
  then have "live d' v = Some x \<longleftrightarrow>
      spec_login u i (si_refresh_token_hash inp) (si_csrf_token_hash inp) (live d) v = Some x" for v x
    by (cases x) (auto simp: old spec_login_def)
  with Inr show ?thesis by (simp add: map_eqI)
qed

lemma rotate_refines:
  assumes wf: "auth_wf d" and run: "rotate_refresh_token j now i rot d = (r, d')"
  shows "(case r of Inl e \<Rightarrow> live d' = live d
    | Inr res \<Rightarrow> (\<exists>u c. live d u = Some (i, ri_current_token_hash rot, c))
        \<and> live d' = spec_rotate i (ri_current_token_hash rot) (ri_new_token_hash rot) (live d))"
proof (cases r)
  case (Inl e)
  with rotate_refresh_token_cases [OF wf run] show ?thesis by auto
next
  case (Inr res)
  with rotate_refresh_token_cases [OF wf run] obtain s t where st: "session_by_id i d = Some s"
    "ses_revoked_at s = None" "ses_refresh_token_hash s = ri_current_token_hash rot"
    "d' = rotated_db j now rot s t d" by auto
  have s: "s \<in> set (sessions d)" "ses_id s = i" using session_by_id_SomeD [OF st(1)] by auto
  have wf': "auth_wf d'" using auth_safeD [OF rotate_refresh_token_safe wf run] by simp
  have own: "x = s" if "x \<in> set (sessions d)" "ses_id x = i" for x
    using distinct_key_eq [OF auth_wf_parts(1) [OF wf] that(1) s(1)] that(2) s(2) by simp
  have rows: "x \<in> set (sessions d') \<longleftrightarrow> (x \<in> set (sessions d) \<and> ses_id x \<noteq> i) \<or> x = rotated_session now rot s" for x
    using s unfolding st(4) rotated_db_def by (auto simp: in_update_where)
  have live': "live d' v = Some (k, h, c) \<longleftrightarrow> (k \<noteq> i \<and> live d v = Some (k, h, c))
      \<or> (v = ses_user_id s \<and> k = i \<and> h = ri_new_token_hash rot \<and> c = ses_csrf_token_hash s)" for v k h c
    unfolding live_iff [OF wf'] live_iff [OF wf] Bex_def rows using s(2) st(2)
    by (auto simp: rotated_session_def)
  have there: "live d v = Some (i, h, c) \<longleftrightarrow>
      v = ses_user_id s \<and> h = ri_current_token_hash rot \<and> c = ses_csrf_token_hash s" for v h c
    unfolding live_iff [OF wf] using s st(2,3) own by blast
  have "live d' v = Some x \<longleftrightarrow>
      spec_rotate i (ri_current_token_hash rot) (ri_new_token_hash rot) (live d) v = Some x" for v x
  proof (cases "v = ses_user_id s")
    case True
    then have "live d v = Some (i, ri_current_token_hash rot, ses_csrf_token_hash s)" by (simp add: there)
    with True show ?thesis by (cases x) (auto simp: live' spec_rotate_def)
  next
    case False
    then have "live d v = Some (k, h, c) \<Longrightarrow> k \<noteq> i" for k h c using there by blast
    with False show ?thesis by (cases x) (auto simp: live' spec_rotate_def split: option.splits)
  qed
  then show ?thesis using Inr there by (auto intro!: map_eqI)
qed

lemma revoke_refines:
  assumes wf: "auth_wf d"
  shows "case revoke_session now i reason d of (r, d') \<Rightarrow> r = Inr () \<and> live d' = spec_revoke i (live d)"
proof -
  let ?d = "d\<lparr>sessions := update_where (\<lambda>s. ses_id s = i \<and> ses_revoked_at s = None) (mark_revoked now reason) (sessions d)\<rparr>"
  note run = revoke_session_run [OF wf, of now i reason]
  have wf': "auth_wf ?d" using auth_safeD [OF revoke_session_safe wf run] by simp
  have rows: "sessions ?d = update_where (\<lambda>s. ses_id s = i \<and> ses_revoked_at s = None) (mark_revoked now reason) (sessions d)"
    by simp
  have "live ?d v = Some (k, h, c) \<longleftrightarrow> k \<noteq> i \<and> live d v = Some (k, h, c)" for v k h c
    unfolding live_revoke_where [OF wf wf' rows] live_iff [OF wf] by auto
  then have "live ?d v = Some x \<longleftrightarrow> spec_revoke i (live d) v = Some x" for v x
    by (cases x) (auto simp: spec_revoke_def split: option.splits)
  then show ?thesis unfolding run by (simp add: map_eqI)
qed

lemma revoke_all_refines:
  assumes wf: "auth_wf d" and run: "revoke_all_sessions now u reason d = (r, d')"
  shows "case r of Inl e \<Rightarrow> live d' = live d
    | Inr ids \<Rightarrow> live d' = spec_revoke_all u (live d) \<and> ids = (case live d u of None \<Rightarrow> [] | Some (i, h) \<Rightarrow> [i])"
proof (cases r)
  case (Inl e)
  with revoke_all_sessions_cases [OF run] show ?thesis by auto
next
  case (Inr ids)
  with revoke_all_sessions_cases [OF run] have d': "d' = revoked_db now u reason d"
    and ids: "ids = map ses_id (filter (is_active_session_of u) (sessions d))" by auto
  have "live d' v = Some (k, h, c) \<longleftrightarrow> v \<noteq> u \<and> live d v = Some (k, h, c)" for v k h c
    unfolding d' live_revoke_where [OF wf revoked_db_wf(1) [OF wf] sessions_revoked_db] live_iff [OF wf]
    by (auto simp: is_active_session_of_def)
  then have "live d' v = Some x \<longleftrightarrow> spec_revoke_all u (live d) v = Some x" for v x
    by (cases x) (auto simp: spec_revoke_all_def)
  then have "live d' = spec_revoke_all u (live d)" by (rule map_eqI)
  moreover have "ids = (case live d u of None \<Rightarrow> [] | Some (i, h) \<Rightarrow> [i])"
  proof (cases "find (is_active_session_of u) (sessions d)")
    case None
    then have "filter (is_active_session_of u) (sessions d) = []"
      by (auto simp: filter_empty_conv find_None_iff)
    with None ids show ?thesis by (simp add: live_def)
  next
    case (Some s)
    have "filter (is_active_session_of u) (sessions d) = [s]"
      using find_SomeD [OF Some] active_unique [OF auth_wf_parts(7) [OF wf]] auth_wf_parts(1) [OF wf]
      by (intro filter_unique) (auto simp: distinct_map)
    with Some ids show ?thesis by (simp add: live_def)
  qed
  ultimately show ?thesis using Inr by simp
qed

text \<open>
  Property C16. The transactions on sessions refine four operations on a map from user to live
  session: a login replaces the user's session, a rotation changes the token of the live session
  that holds the current one and fails otherwise, a revocation removes one session, and revoking
  all removes the user's and answers its identifier. A transaction that fails changes nothing.
\<close>

theorem session_store_refines:
  assumes "auth_leads empty_db d"
  shows "(case create_exclusive_session i j now u inp d of
        (Inl e, d') \<Rightarrow> live d' = live d
      | (Inr res, d') \<Rightarrow>
          live d' = spec_login u i (si_refresh_token_hash inp) (si_csrf_token_hash inp) (live d))
    \<and> (case rotate_refresh_token j now i rot d of
        (Inl e, d') \<Rightarrow> live d' = live d
      | (Inr res, d') \<Rightarrow> (\<exists>v c. live d v = Some (i, ri_current_token_hash rot, c))
          \<and> live d' = spec_rotate i (ri_current_token_hash rot) (ri_new_token_hash rot) (live d))
    \<and> (case revoke_session now i reason d of
        (r, d') \<Rightarrow> r = Inr () \<and> live d' = spec_revoke i (live d))
    \<and> (case revoke_all_sessions now u reason d of
        (Inl e, d') \<Rightarrow> live d' = live d
      | (Inr ids, d') \<Rightarrow> live d' = spec_revoke_all u (live d)
          \<and> ids = (case live d u of None \<Rightarrow> [] | Some (k, h) \<Rightarrow> [k]))"
proof -
  have wf: "auth_wf d" using auth_leads_safe [OF assms empty_db_auth_wf] by blast
  show ?thesis
    using login_refines [OF wf] rotate_refines [OF wf] revoke_refines [OF wf, of i now reason]
      revoke_all_refines [OF wf]
    by (intro conjI; fastforce split: prod.splits sum.splits)
qed

end
