(* ===== verification/RouteExamples.thy ===== *)
theory RouteExamples
  imports FlowExamples AuthRoutes LinkRoutes AuthSpec
begin

text \<open>
  A concrete configuration, and concrete requests to the authentication routes, at which the
  theorems about them are applied.
\<close>

section \<open>Configuration\<close>

definition sample_env :: env where
  "sample_env = map_of
     [(''NODE_ENV'', ''production''), (''PORT'', '' 3000 ''), (''CORS_ALLOWED_ORIGINS'', ''https://app.example, https://b.example''),
      (''AUTH_HMAC_SECRET'', ''H''), (''AUTH_TOKEN_HASH_SECRET'', ''T''), (''JWT_ACCESS_SECRET'', ''J''),
      (''POSTGRES_DB'', ''db''), (''POSTGRES_USER'', ''u''), (''POSTGRES_PASSWORD'', ''p''),
      (''POSTGRES_HOST'', ''pg''), (''POSTGRES_PORT'', ''5432''), (''REDIS_HOST'', ''redis''),
      (''REDIS_PORT'', ''6379''), (''MAILPIT_HOST'', ''mail''), (''MAILPIT_SMTP_PORT'', ''1025''),
      (''MAIL_FROM'', ''no-reply''), (''EMAIL_QUEUE_ATTEMPTS'', ''3''), (''EMAIL_QUEUE_BACKOFF_MS'', ''1000''),
      (''LINK_STATS_PSEUDONYM_SECRET'', ''S''), (''LINK_STATS_QUEUE_ATTEMPTS'', ''3''),
      (''LINK_STATS_QUEUE_BACKOFF_MS'', ''1000''), (''FRONTEND_RESET_URL'', ''reset''),
      (''PUBLIC_SHORT_URL_BASE'', ''https://s.io/'')]"

definition sample_base_parse :: url_parser where
  "sample_base_parse s = (if s = ''https://s.io/'' then Some \<lparr>url_protocol = ''https:'',
     url_username = [], url_password = [], url_href = s, url_origin = ''https://s.io'',
     url_pathname = ''/'', url_search = [], url_hash = []\<rparr> else None)"

lemma number_text:
  "s \<noteq> [] \<and> list_all is_digit s \<and> int (digits_value s) = n \<and> n < 2 ^ 53 \<Longrightarrow> js_integer s = Some n"
  using js_integer_digits [of s] by (auto simp flip: of_nat_less_iff [where 'a = int])

lemma sample_numbers:
  "js_integer ''3000'' = Some 3000" "js_integer ''5432'' = Some 5432" "js_integer ''6379'' = Some 6379"
  "js_integer ''1025'' = Some 1025" "js_integer ''3'' = Some 3" "js_integer ''1000'' = Some 1000"
  by (rule number_text, code_simp)+

lemma sample_required:
  "list_all (\<lambda>k. required sample_env k = Inr (js_trim (the (sample_env k)))) REQUIRED_KEYS"
  by code_simp

lemma sample_lookup:
  "map (\<lambda>k. js_trim (the (sample_env k))) [''POSTGRES_PORT'', ''REDIS_PORT'', ''MAILPIT_SMTP_PORT'',
     ''EMAIL_QUEUE_ATTEMPTS'', ''EMAIL_QUEUE_BACKOFF_MS'', ''LINK_STATS_QUEUE_ATTEMPTS'',
     ''LINK_STATS_QUEUE_BACKOFF_MS'', ''PUBLIC_SHORT_URL_BASE''] =
   [''5432'', ''6379'', ''1025'', ''3'', ''1000'', ''3'', ''1000'', ''https://s.io/'']"
  by code_simp

lemma sample_env_rest:
  "port_raw sample_env = Inr ''3000''"
  "\<not> isl (parse_cors_origins (js_trim (the (sample_env ''CORS_ALLOWED_ORIGINS''))))"
  "parse_boolean (sample_env ''TRUST_PROXY'') False = Inr False"
  "parse_positive_int_or_default (sample_env ''LINK_CODE_GENERATION_MAX_ATTEMPTS'')
     ''LINK_CODE_GENERATION_MAX_ATTEMPTS'' 5 = Inr 5"
  "parse_positive_int_or_default (sample_env ''LINK_RESOLUTION_CACHE_TTL_SECONDS'')
     ''LINK_RESOLUTION_CACHE_TTL_SECONDS'' 300 = Inr 300"
  "parse_public_short_url_base sample_base_parse ''https://s.io/'' = Inr ''https://s.io''"
  by code_simp+

lemma sample_env_accepted: "\<exists>cfg. validate_environment sample_base_parse sample_env = Inr cfg"
proof -
  obtain origins where "parse_cors_origins (js_trim (the (sample_env ''CORS_ALLOWED_ORIGINS''))) = Inr origins"
    using sample_env_rest(2) by (cases "parse_cors_origins (js_trim (the (sample_env ''CORS_ALLOWED_ORIGINS'')))") auto
  then show ?thesis
    using sample_required sample_lookup
    by (simp add: REQUIRED_KEYS_def validate_environment_def postgres_environment_def
        endpoint_environment_def queue_environment_def required_port_def required_positive_int_def
        and_then_def parse_port_def parse_positive_int_def sample_numbers sample_env_rest)
qed

theorem environment_well_typed_witness:
  "\<exists>cfg. validate_environment sample_base_parse sample_env = Inr cfg \<and> config_ok cfg"
proof -
  from sample_env_accepted obtain cfg where cfg: "validate_environment sample_base_parse sample_env = Inr cfg"
..
  with environment_well_typed [OF cfg] show ?thesis by blast
qed

section \<open>Logout\<close>

definition next_token :: rotate_input where
  "next_token = \<lparr>ri_current_token_hash = ''T/r1'', ri_new_token_hash = ''T/r2'', ri_new_expires_at = 604800500\<rparr>"

definition db_rotated :: db where
  "db_rotated = snd (rotate_refresh_token ''t2'' 500 ''s1'' next_token db_logged_in)"

lemma db_rotated_eq: "db_rotated = db_logged_in\<lparr>
    sessions := [session_s1\<lparr>ses_refresh_token_hash := ''T/r2'', ses_last_rotated_at := 500,
      ses_expires_at := 604800500\<rparr>],
    refresh_tokens := [token_t1\<lparr>rt_used_at := Some 500\<rparr>,
      \<lparr>rt_id = ''t2'', rt_session_id = ''s1'', rt_token_hash = ''T/r2'', rt_issued_at = 500,
       rt_used_at = None, rt_expires_at = 604800500\<rparr>]\<rparr>"
  by (simp add: db_rotated_def next_token_def db_logged_in_eq empty_db_def run_simps
      token_t1_def session_s1_def account_u1_def account_by_id_def rotate_refresh_token_def rotate_locked_def
      transaction_def session_by_id_def lock_account_def usable_token_def save_refresh_token_def
      save_session_def insert_refresh_token_def)

lemma db_rotated_reached: "auth_leads empty_db db_rotated"
proof -
  have "auth_step db_logged_in db_rotated"
    unfolding db_rotated_def by (rule auth_step.rotate) (rule prod.collapse [symmetric])
  with db_logged_in_reached show ?thesis by (rule auth_leads.step)
qed

lemma sample_cookie:
  "gr_cookies sample_guarded (gc_refresh_cookie_name sample_guards) = Some ''r1''"
  by (simp add: sample_guarded_def sample_guards_def)

lemma sample_guard_passes:
  "csrf_session sample_cfg ''r1'' (w_db w) = Some s \<Longrightarrow> ses_csrf_token_hash s = ''T/c1'' \<Longrightarrow>
     csrf_origin_guard sample_cfg sample_guards sample_guarded w = (Inr (), w)"
  by (simp add: csrf_origin_guard_def run_simps resolve_csrf_session_run csrf_header_def
      sample_guarded_def js_trim_def js_space_def resolve_origin_def sample_guards_def
      guard_refresh_cookie_def hash_token_def sample_cfg_def)

text \<open>A logout with the token the session has rotated away.\<close>

theorem logout_route_verdict_witness:
  "route_logout sample_cfg sample_guards sample_guarded (auth_world db_rotated) =
     (Inr (no_content [clear_refresh_cookie sample_guards]), auth_world db_rotated)"
proof -
  let ?s = "session_s1\<lparr>ses_refresh_token_hash := ''T/r2'', ses_last_rotated_at := 500,
      ses_expires_at := 604800500\<rparr>" and ?w = "auth_world db_rotated"
  have s: "csrf_session sample_cfg ''r1'' (w_db ?w) = Some ?s"
    by (simp add: csrf_session_def auth_world_def db_rotated_eq hash_token_def sample_cfg_def
        session_s1_def token_t1_def)
  have guard: "csrf_origin_guard sample_cfg sample_guards sample_guarded ?w = (Inr (), ?w)"
    by (rule sample_guard_passes [OF s]) (simp add: session_s1_def)
  have "auth_leads empty_db (w_db ?w)" "w_net ?w = []" "''r1'' \<noteq> []"
    by (simp_all add: auth_world_def db_rotated_reached)
  from logout_route_verdict [OF this(1,2) sample_cookie this(3), where cfg = sample_cfg] s guard
  show ?thesis by (auto simp: hash_token_def sample_cfg_def)
qed

definition cut_off_world :: world where
  "cut_off_world = (auth_world db_logged_in)\<lparr>w_net := [Lost],
     w_redis := [session_key ''s1'' \<mapsto> \<lparr>re_value = RJson (session_payload
       \<lparr>sc_session_id = ''s1'', sc_user_id = ''u1'', sc_role = ''USER'', sc_expires_at = Some 604800000,
        sc_active = True\<rparr> 604800000), re_expires_at = Some 604800000\<rparr>]\<rparr>"

theorem failed_logout_not_retried_witness:
  "\<exists>w'. route_logout sample_cfg sample_guards sample_guarded cut_off_world =
      (Inl storage_unavailable_exception, w')
    \<and> route_logout sample_cfg sample_guards sample_guarded w' =
      (Inr (no_content [clear_refresh_cookie sample_guards]), w')"
proof -
  let ?w = cut_off_world
  have s: "csrf_session sample_cfg ''r1'' (w_db ?w) = Some session_s1"
    by (simp add: csrf_session_def cut_off_world_def auth_world_def db_logged_in_eq hash_token_def
        sample_cfg_def session_s1_def)
  have guard: "fst (csrf_origin_guard sample_cfg sample_guards sample_guarded ?w) = Inr ()"
    by (simp add: sample_guard_passes [OF s] session_s1_def)
  have facts: "auth_leads empty_db (w_db ?w)" "w_net ?w = [Lost]" "''r1'' \<noteq> []"
    "session_s1 \<in> set (sessions (w_db ?w))" "ses_revoked_at session_s1 = None"
    "ses_refresh_token_hash session_s1 = hash_token sample_cfg ''r1''"
    by (simp_all add: cut_off_world_def auth_world_def db_logged_in_reached)
      (simp_all add: db_logged_in_eq session_s1_def hash_token_def sample_cfg_def)
  have "four_digit_day (day_of_instant 604800000)" by code_simp
  from failed_logout_not_retried [OF facts(1,2) sample_cookie facts(3) guard facts(4-6) _ _ _ this]
  show ?thesis by (fastforce simp: cut_off_world_def session_s1_def)
qed

section \<open>Live sessions\<close>

theorem session_store_refines_witness:
  "live db_logged_in = [''u1'' \<mapsto> (''s1'', ''T/r1'', ''T/c1'')]
   \<and> live (snd (revoke_session 2000 ''s1'' LOGOUT db_logged_in)) = Map.empty"
proof -
  have live: "live db_logged_in = [''u1'' \<mapsto> (''s1'', ''T/r1'', ''T/c1'')]"
    by (auto simp: live_def db_logged_in_eq session_s1_def is_active_session_of_def fun_eq_iff)
  from session_store_refines [OF db_logged_in_reached, where now = 2000 and i = "''s1''" and reason = LOGOUT,
      THEN conjunct2, THEN conjunct2, THEN conjunct1]
  have "live (snd (revoke_session 2000 ''s1'' LOGOUT db_logged_in)) = spec_revoke ''s1'' (live db_logged_in)"
    by (auto split: prod.splits)
  with live show ?thesis by (simp add: spec_revoke_def fun_eq_iff)
qed

section \<open>Answers\<close>

definition sample_vd :: validator where
  "sample_vd = \<lparr>vd_is_email = (\<lambda>_. True), vd_is_uuid = (\<lambda>_. True), vd_errors = (\<lambda>_. [])\<rparr>"

theorem mail_routes_disclose_nothing_witness:
  "fst (route_forgot_password sample_cfg sample_vd (JObj [(''email'', JStr ''a@b.c'')]) None (auth_world empty_db)) =
   fst (route_forgot_password sample_cfg sample_vd (JObj [(''email'', JStr ''a@b.c'')]) None (auth_world db_active))"
proof -
  have "rx_test BCRYPT_HASH_PATTERN sample_hash"
    using sample_hash_valid by (auto simp: password_hash_create_def split: if_splits)
  then have ready: "mail_ready sample_cfg (auth_world empty_db)"
    "mail_ready sample_cfg ((auth_world empty_db)\<lparr>w_db := db_active\<rparr>)"
    by (simp_all add: mail_ready_def auth_world_def db_active_eq empty_db_def account_u1_def sample_cfg_def)
  have "auth_world db_active = (auth_world empty_db)\<lparr>w_db := db_active\<rparr>" by (simp add: auth_world_def)
  with mail_routes_disclose_nothing [OF ready, where body = "JObj [(''email'', JStr ''a@b.c'')]"
      and vd = sample_vd and ip = None]
  show ?thesis by (simp add: json_text_def)
qed

section \<open>Links of two users\<close>

text \<open>The user \<open>u1\<close> is logged in, the only link is of \<open>u2\<close>.\<close>

definition foreign_link :: link where
  "foreign_link = new_link ''l2'' ''u2'' ''BBBBBB'' ''https://b.example/'' 0"

definition shared_world :: world where
  "shared_world = (auth_world db_logged_in)\<lparr>w_db := db_logged_in\<lparr>links := [foreign_link]\<rparr>\<rparr>"

lemma guard_shared_world: "\<exists>p v. session_guard sample_cfg sample_guarded shared_world = (Inr p, v)
    \<and> pr_user_id p = ''u1''"
  by (simp add: shared_world_def auth_world_def db_logged_in_eq empty_db_def session_guard_def bearer_token_def
      sample_guarded_def js_trim_def js_space_def Let_def now_io_def run_simps verify_access_token_def
      sample_cfg_def validate_session_def read_session_cache_def app_sessions_def get_session_cache_def
      safe_def redis_service_get_def redis_call_def redis_get_def load_session_def db_op_def
      find_active_session_by_id_def session_s1_def account_u1_def find_account_by_id_def
      account_by_id_def remember_session_def set_session_cache_def redis_service_set_def)

theorem users_are_isolated_witness:
  "links_of_others ''u1'' (w_db (snd (links_api sample_cfg (app_links 60 ''https://s.io'' 3 sample_base_parse)
     sample_vd sample_guarded (DeactivateLink ''l2'') shared_world))) = [foreign_link]"
proof -
  from guard_shared_world obtain p v where g: "session_guard sample_cfg sample_guarded shared_world = (Inr p, v)"
    "pr_user_id p = ''u1''" by blast
  have "links_wf (w_db shared_world)" "links_of_others ''u1'' (w_db shared_world) = [foreign_link]"
    by (simp_all add: links_wf_def shared_world_def count_active_links_def MAX_ACTIVE_LINKS_PER_USER_def
        links_of_others_def foreign_link_def new_link_def)
  with users_are_isolated [OF _ prod.collapse [symmetric], of shared_world sample_cfg 60 "''https://s.io''"
      3 sample_base_parse sample_vd sample_guarded "DeactivateLink ''l2''"] g
  show ?thesis by simp
qed

end
