(* ===== verification/SessionFlows.thy ===== *)
theory SessionFlows
  imports AuthRoutes AuthFlows
begin

text \<open>
  The life of a session across the controller, the guards, the session service and the stores of
  src/src/modules/auth: the tokens a login answers are the ones the guards accept, for as long as
  the access token lives, until the logout that uses them.
\<close>

section \<open>Validating and guarding an open session\<close>

lemma validate_open:
  assumes wf: "auth_wf (w_db v)" and net: "w_net v = []"
    and s: "s \<in> set (sessions (w_db v))" "ses_revoked_at s = None" "w_clock v < ses_expires_at s"
    and day: "four_digit_day (day_of_instant (ses_expires_at s))"
    and a: "account_by_id (ses_user_id s) (w_db v) = Some a" "role_text (acc_role a) = role"
    and cache: "entry_cached s role (w_redis v) \<or> w_redis v (session_key (ses_id s)) = None"
  shows "fst (validate_session (app_sessions cfg) (ses_id s) v) =
    Inr (Some \<lparr>pr_user_id = ses_user_id s, pr_role = role, pr_session_id = ses_id s\<rparr>)"
  using cache
proof
  assume "entry_cached s role (w_redis v)"
  then obtain x where x: "ses_expires_at s \<le> x" "w_redis v (session_key (ses_id s)) =
      Some \<lparr>re_value = RJson (session_payload (session_entry s role) (ses_expires_at s)), re_expires_at = Some x\<rparr>"
    unfolding entry_cached_def by blast
  have "w_clock v < x" using x(1) s(3) by simp
  from validate_cached [where e = "session_entry s role", OF net _ _ day x(2) this] s(3)
  show ?thesis by (simp add: session_entry_def)
next
  assume none: "w_redis v (session_key (ses_id s)) = None"
  have "acc_id a = ses_user_id s" using account_by_id_SomeD [OF a(1)] by simp
  with none net active_session_found [OF wf s(1,2)] s(3) a show ?thesis
    by (simp add: validate_session_def read_session_cache_def app_sessions_def get_session_cache_def
        redis_service_get_def safe_redis_up redis_get_def run_simps now_io_def load_session_def db_op_def
        find_active_session_by_id_def find_account_by_id_def remember_session_def set_session_cache_def
        redis_service_set_def)
qed

lemma session_guard_answer:
  assumes "bearer_token request = Some token"
    and "verify_access_token cfg (w_clock v) token = Inr payload"
    and "fst (validate_session (app_sessions cfg) (cl_session_id (ap_claims payload)) v) = Inr q"
  shows "fst (session_guard cfg request v) =
    (case q of None \<Rightarrow> Inl unauthorized_exception
     | Some p \<Rightarrow> if pr_user_id p = cl_sub (ap_claims payload) \<and> pr_role p = cl_role (ap_claims payload)
         then Inr p else Inl unauthorized_exception)"
  using assms
  by (cases "validate_session (app_sessions cfg) (cl_session_id (ap_claims payload)) v")
    (auto simp: session_guard_def now_io_def run_simps split: option.splits)

lemma session_guard_expired:
  assumes "bearer_token request = Some token" and "verify_access_token cfg (w_clock v) token = Inl e"
  shows "session_guard cfg request v = (Inl unauthorized_exception, v)"
  using assms by (simp add: session_guard_def now_io_def run_simps)

text \<open>The request that presents tokens: the bearer token, the CSRF token and the refresh cookie.\<close>

definition presents :: "guard_config \<Rightarrow> string \<Rightarrow> string \<Rightarrow> guarded_request \<Rightarrow> bool" where
  "presents gc csrf refresh_token request \<longleftrightarrow>
     csrf_header request = Some csrf \<and> js_trim csrf \<noteq> []
     \<and> gr_cookies request (gc_refresh_cookie_name gc) = Some refresh_token \<and> refresh_token \<noteq> []
     \<and> (\<exists>origin \<in> set (gc_allowed_origins gc). origin \<noteq> []
          \<and> resolve_origin (gc_url_origin gc) (gr_origin request) (gr_referer request) = Some origin)"

lemma csrf_guard_passes:
  assumes "presents gc csrf token request" and "auth_wf (w_db v)" and "s \<in> set (sessions (w_db v))"
    and "ses_refresh_token_hash s = hash_token cfg token" and "ses_csrf_token_hash s = hash_token cfg csrf"
  shows "csrf_origin_guard cfg gc request v = (Inr (), v)"
proof -
  have "csrf_session cfg token (w_db v) = Some s"
    using session_of_token_hash [OF assms(2,3)] assms(4) by (simp add: csrf_session_def)
  moreover have "guard_refresh_cookie gc request = Inr (Some token)"
    using assms(1) cookie_of_guard by (auto simp: presents_def)
  ultimately show ?thesis
    using assms(1,5)
    by (auto simp: presents_def csrf_origin_guard_def run_simps resolve_csrf_session_run)
qed

lemma route_logout_ends:
  assumes "presents gc csrf token request" and wf: "auth_wf (w_db v)" and "w_net v = []"
    and "s \<in> set (sessions (w_db v))" and "ses_revoked_at s = None"
    and "ses_refresh_token_hash s = hash_token cfg token" and "ses_csrf_token_hash s = hash_token cfg csrf"
  shows "\<exists>v'. route_logout cfg gc request v = (Inr (no_content [clear_refresh_cookie gc]), v')
    \<and> (\<forall>u. w_db u = w_db v' \<and> w_redis u = w_redis v' \<and> w_net u = [] \<longrightarrow>
         fst (validate_session (app_sessions cfg) (ses_id s) u) = Inr None)"
proof -
  define v' where "v' = v\<lparr>w_db := (w_db v)\<lparr>sessions :=
      update_where (\<lambda>x. ses_id x = ses_id s \<and> ses_revoked_at x = None)
        (mark_revoked (w_clock v) LOGOUT) (sessions (w_db v))\<rparr>,
      w_redis := redis_del (session_key (ses_id s)) (w_redis v)\<rparr>"
  have "logout_session cfg token v = (Inr (), v')"
    using logout_current [OF wf assms(4,6)] assms(3,5)
    by (simp add: v'_def with_security_storage_def delete_session_cache_def
        redis_service_del_def safe_redis_up run_simps)
  moreover have "read_refresh_cookie gc request = token"
    using assms(1) by (simp add: presents_def read_refresh_cookie_def)
  ultimately have "route_logout cfg gc request v = (Inr (no_content [clear_refresh_cookie gc]), v')"
    using csrf_guard_passes [OF assms(1) wf assms(4,6,7)]
    by (simp add: route_logout_def thenM_def bindM_def returnM_def)
  moreover have "fst (validate_session (app_sessions cfg) (ses_id s) u) = Inr None"
    if "w_db u = w_db v'" "w_redis u = w_redis v'" "w_net u = []" for u
    by (rule validate_revoked [OF that(3)])
      (use that revoked_rows in \<open>auto simp: v'_def\<close>)
  ultimately show ?thesis by blast
qed

lemma verify_login_answered:
  assumes "route_verify_login cfg gc vd body w = (Inr reply, w')"
  shows "\<exists>x. complete_login cfg (json_text body ''challengeId'') (json_text body ''code'') w = (Inr x, w')
    \<and> reply = \<lparr>rr_status = 200,
        rr_body = JObj [(''accessToken'', JStr (is_access_token x)),
                        (''expiresIn'', JNum (int (is_expires_in x))),
                        (''csrfToken'', JStr (is_csrf_token x))],
        rr_cookies = [set_refresh_cookie gc (is_refresh_token x)]\<rparr>"
  using assms
  by (auto simp: route_verify_login_def validation_pipe_def run_simps split: if_splits prod.splits sum.splits)

section \<open>What a refresh leaves behind\<close>

lemma refresh_steps:
  assumes "refresh (app_sessions cfg) token w = (Inr x, w')"
  shows "\<exists>s a res w2. s \<in> set (sessions (w_db w)) \<and> ses_revoked_at s = None
    \<and> ses_refresh_token_hash s = hash_token cfg token
    \<and> account_by_id (ses_user_id s) (w_db w) = Some a
    \<and> rotate_refresh_token_io (ses_id s)
        \<lparr>ri_current_token_hash = hash_token cfg token, ri_new_token_hash = hash_token cfg (is_refresh_token x),
         ri_new_expires_at = w_clock w + SESSION_TTL_MS\<rparr> (w\<lparr>w_drawn := Suc (w_drawn w)\<rparr>) = (Inr res, w2)
    \<and> set_session_cache \<lparr>sc_session_id = ses_id (sr_session res), sc_user_id = acc_id a,
        sc_role = role_text (acc_role a), sc_expires_at = Some (ses_expires_at (sr_session res)),
        sc_active = True\<rparr> w2 = (Inr (), w')
    \<and> is_access_token x = sign_access_token cfg (w_clock w')
        \<lparr>cl_sub = acc_id a, cl_role = role_text (acc_role a), cl_session_id = ses_id (sr_session res)\<rparr>
    \<and> is_expires_in x = ACCESS_TOKEN_TTL_SECONDS"
  using assms
  by (auto simp: refresh_def app_sessions_def Let_def run_simps db_op_def find_refresh_token_history_by_hash_def
      find_active_session_by_id_def find_account_by_id_def now_io_def generate_refresh_token_def
      generate_opaque_token_def draw_string_def issue_tokens_def
      split: option.splits if_splits prod.splits sum.splits dest!: find_SomeD)

lemma refresh_leaves:
  assumes wf: "auth_wf (w_db w)" and run: "refresh (app_sessions cfg) token w = (Inr x, w')"
  shows "\<exists>s0 s a. s0 \<in> set (sessions (w_db w)) \<and> ses_revoked_at s0 = None
    \<and> ses_refresh_token_hash s0 = hash_token cfg token
    \<and> s \<in> set (sessions (w_db w')) \<and> ses_id s = ses_id s0 \<and> ses_user_id s = ses_user_id s0
    \<and> ses_csrf_token_hash s = ses_csrf_token_hash s0 \<and> ses_revoked_at s = None
    \<and> ses_refresh_token_hash s = hash_token cfg (is_refresh_token x)
    \<and> ses_expires_at s = w_clock w + SESSION_TTL_MS
    \<and> account_by_id (ses_user_id s) (w_db w') = Some a
    \<and> entry_cached s (role_text (acc_role a)) (w_redis w')
    \<and> is_access_token x = sign_access_token cfg (w_clock w)
        \<lparr>cl_sub = ses_user_id s, cl_role = role_text (acc_role a), cl_session_id = ses_id s\<rparr>
    \<and> is_expires_in x = ACCESS_TOKEN_TTL_SECONDS \<and> auth_wf (w_db w')"
proof -
  from refresh_steps [OF run] obtain s a res w2 where
    s: "s \<in> set (sessions (w_db w))" "ses_revoked_at s = None" "ses_refresh_token_hash s = hash_token cfg token"
    and a: "account_by_id (ses_user_id s) (w_db w) = Some a"
    and rot: "rotate_refresh_token_io (ses_id s)
        \<lparr>ri_current_token_hash = hash_token cfg token, ri_new_token_hash = hash_token cfg (is_refresh_token x),
         ri_new_expires_at = w_clock w + SESSION_TTL_MS\<rparr> (w\<lparr>w_drawn := Suc (w_drawn w)\<rparr>) = (Inr res, w2)"
    and set: "set_session_cache \<lparr>sc_session_id = ses_id (sr_session res), sc_user_id = acc_id a,
        sc_role = role_text (acc_role a), sc_expires_at = Some (ses_expires_at (sr_session res)),
        sc_active = True\<rparr> w2 = (Inr (), w')"
    and x: "is_access_token x = sign_access_token cfg (w_clock w')
        \<lparr>cl_sub = acc_id a, cl_role = role_text (acc_role a), cl_session_id = ses_id (sr_session res)\<rparr>"
      "is_expires_in x = ACCESS_TOKEN_TTL_SECONDS" by blast
  define inp where "inp = \<lparr>ri_current_token_hash = hash_token cfg token,
    ri_new_token_hash = hash_token cfg (is_refresh_token x), ri_new_expires_at = w_clock w + SESSION_TTL_MS\<rparr>"
  let ?w1 = "w\<lparr>w_drawn := Suc (w_drawn w)\<rparr>" and ?s = "rotated_session (w_clock w) inp s"
  from rot obtain j where j: "rotate_refresh_token j (w_clock w) (ses_id s) inp (w_db w) = (Inr res, w_db w2)"
    by (auto simp: rotate_refresh_token_io_def draw_string_def now_io_def db_op_def run_simps inp_def
        split: prod.splits)
  have "session_by_id (ses_id s) (w_db w) = Some s"
    unfolding session_by_id_def by (rule find_unique_key [OF auth_wf_parts(1) [OF wf] s(1)])
  with rotate_refresh_token_cases [OF wf j] obtain t where
    res: "sr_session res = ?s" and d: "w_db w2 = rotated_db j (w_clock w) inp s t (w_db w)" by auto
  have frame: "auth_wf (w_db w2)" "accounts (w_db w2) = accounts (w_db w)" "w_clock w2 = w_clock w"
    using rotate_refresh_token_io_cases [OF _ rot] wf by auto
  have u: "acc_id a = ses_user_id s" using account_by_id_SomeD [OF a] by simp
  have "untouched w2 w' \<and> entry_cached ?s (role_text (acc_role a)) (w_redis w')"
    using set res u by (intro set_session_cache_stores) (simp add: session_entry_def rotated_session_def)
  moreover have "?s \<in> set (sessions (w_db w2))"
    using s(1) unfolding d rotated_db_def by (simp add: in_update_where) blast
  ultimately show ?thesis
    using s a u x res frame
    by (intro exI [of _ s] exI [of _ ?s] exI [of _ a])
      (simp add: untouched_def rotated_session_def inp_def account_by_id_def)
qed

section \<open>Issued tokens\<close>

text \<open>
  What the tokens are good for, issued at \<open>t0\<close> in a world \<open>w\<close>: for fifteen minutes the access token
  passes the session guard as the principal \<open>p\<close>, whether Redis still has the cached entry or not,
  and is refused afterwards; the refresh cookie with the CSRF token passes the CSRF guard; and the
  logout they make ends the session, so that the access token is refused at once.
\<close>

definition tokens_accepted ::
  "auth_config \<Rightarrow> guard_config \<Rightarrow> world \<Rightarrow> instant \<Rightarrow> auth_principal \<Rightarrow> string \<Rightarrow> string \<Rightarrow> string \<Rightarrow> bool" where
  "tokens_accepted cfg gc w t0 p access csrf refresh_token \<longleftrightarrow>
     (\<forall>v request. w_db v = w_db w \<and> w_net v = []
        \<and> w_redis v (session_key (pr_session_id p)) \<in> {w_redis w (session_key (pr_session_id p)), None}
        \<and> bearer_token request = Some access \<longrightarrow>
        fst (session_guard cfg request v) =
          (if w_clock v div 1000 < t0 div 1000 + 900 then Inr p else Inl unauthorized_exception))
     \<and> (\<forall>v request. w_db v = w_db w \<and> w_net v = [] \<and> presents gc csrf refresh_token request \<longrightarrow>
          csrf_origin_guard cfg gc request v = (Inr (), v)
          \<and> (\<exists>v'. route_logout cfg gc request v = (Inr (no_content [clear_refresh_cookie gc]), v')
               \<and> (\<forall>u later. w_db u = w_db v' \<and> w_redis u = w_redis v' \<and> w_net u = []
                    \<and> bearer_token later = Some access \<longrightarrow>
                    fst (session_guard cfg later u) = Inl unauthorized_exception)))"

lemma issued_accepted:
  assumes jwt: "jwt_faithful cfg" and wf: "auth_wf (w_db w)"
    and s: "s \<in> set (sessions (w_db w))" "ses_revoked_at s = None" "ses_expires_at s = t0 + SESSION_TTL_MS"
      "ses_refresh_token_hash s = hash_token cfg token" "ses_csrf_token_hash s = hash_token cfg csrf"
    and day: "four_digit_day (day_of_instant (t0 + SESSION_TTL_MS))"
    and a: "account_by_id (ses_user_id s) (w_db w) = Some a" "role_text (acc_role a) = role"
    and cache: "entry_cached s role (w_redis w)"
    and access: "access = sign_access_token cfg t0
      \<lparr>cl_sub = ses_user_id s, cl_role = role, cl_session_id = ses_id s\<rparr>"
  shows "tokens_accepted cfg gc w t0
    \<lparr>pr_user_id = ses_user_id s, pr_role = role, pr_session_id = ses_id s\<rparr> access csrf token"
  unfolding tokens_accepted_def auth_principal.simps
proof (intro conjI allI impI, goal_cases)
  case (1 v request)
  show ?case
  proof (cases "w_clock v div 1000 < t0 div 1000 + 900")
    case True
    then have "w_clock v < ses_expires_at s" unfolding s(3) SESSION_TTL_MS_def by linarith
    from validate_open [OF _ _ _ s(2) this, where role = role and a = a and cfg = cfg] 1 wf s(1,3) day a cache
    have "fst (validate_session (app_sessions cfg) (ses_id s) v) =
        Inr (Some \<lparr>pr_user_id = ses_user_id s, pr_role = role, pr_session_id = ses_id s\<rparr>)"
      by (auto simp: entry_cached_def)
    with session_guard_answer [where token = access and v = v and cfg = cfg and request = request]
      1 True verify_signed_token [OF jwt, of "w_clock v" t0] access
    show ?thesis by simp
  next
    case False
    with 1 verify_signed_token [OF jwt, of "w_clock v" t0] access show ?thesis
      by (simp add: session_guard_expired)
  qed
next
  case (2 v request)
  with csrf_guard_passes [of gc csrf token request v s cfg] wf s show ?case by simp
next
  case (3 v request)
  with route_logout_ends [of gc csrf token request v s cfg] wf s obtain v' where
    v': "route_logout cfg gc request v = (Inr (no_content [clear_refresh_cookie gc]), v')"
      "\<And>u. w_db u = w_db v' \<Longrightarrow> w_redis u = w_redis v' \<Longrightarrow> w_net u = [] \<Longrightarrow>
         fst (validate_session (app_sessions cfg) (ses_id s) u) = Inr None" by auto
  have "fst (session_guard cfg later u) = Inl unauthorized_exception"
    if u: "w_db u = w_db v'" "w_redis u = w_redis v'" "w_net u = []" "bearer_token later = Some access" for u later
  proof (cases "w_clock u div 1000 < t0 div 1000 + 900")
    case True
    with session_guard_answer [OF u(4), where v = u and cfg = cfg and q = None] v'(2) [OF u(1-3)]
      verify_signed_token [OF jwt, of "w_clock u" t0] access
    show ?thesis by simp
  next
    case False
    with u(4) verify_signed_token [OF jwt, of "w_clock u" t0] access show ?thesis
      by (simp add: session_guard_expired)
  qed
  with v'(1) show ?case by blast
qed

text \<open>
  Property C5. The tokens of a login work. After the login route has answered, for fifteen minutes
  its access token passes the session guard as the account whose challenge was solved, and the
  cookie it set passes the CSRF guard with its CSRF token; the logout made with them answers 204 and
  ends the session, so the access token is refused from then on.
\<close>

theorem login_tokens_accepted:
  assumes "auth_leads empty_db (w_db w)" and "jwt_faithful cfg"
    and "route_verify_login cfg gc vd body w = (Inr reply, w')"
    and "four_digit_day (day_of_instant (w_clock w + SESSION_TTL_MS))"
  shows "\<exists>access csrf refresh_token a session_id. reply = \<lparr>rr_status = 200,
        rr_body = JObj [(''accessToken'', JStr access), (''expiresIn'', JNum 900), (''csrfToken'', JStr csrf)],
        rr_cookies = [set_refresh_cookie gc refresh_token]\<rparr>
    \<and> a \<in> set (accounts (w_db w)) \<and> acc_status a = ACTIVE_ACCOUNT
    \<and> tokens_accepted cfg gc w' (w_clock w)
        \<lparr>pr_user_id = acc_id a, pr_role = role_text (acc_role a), pr_session_id = session_id\<rparr>
        access csrf refresh_token"
proof -
  have wf: "auth_wf (w_db w)" using auth_leads_safe [OF assms(1) empty_db_auth_wf] by blast
  from verify_login_answered [OF assms(3)] obtain x where
    x: "complete_login cfg (json_text body ''challengeId'') (json_text body ''code'') w = (Inr x, w')"
    and reply: "reply = \<lparr>rr_status = 200,
        rr_body = JObj [(''accessToken'', JStr (is_access_token x)),
                        (''expiresIn'', JNum (int (is_expires_in x))),
                        (''csrfToken'', JStr (is_csrf_token x))],
        rr_cookies = [set_refresh_cookie gc (is_refresh_token x)]\<rparr>" by blast
  from complete_login_steps [OF x] obtain u a w1 w2 w3 e where
    used: "consume_login_challenge cfg (json_text body ''challengeId'') (json_text body ''code'') w1
      = (Inr (ChallengeConsumed u), w2)"
    and w1: "w_db w1 = w_db w" "w_clock w1 = w_clock w"
    and a: "account_by_id u (w_db w) = Some a" "acc_status a = ACTIVE_ACCOUNT"
    and opened: "create_session_after_login (app_sessions cfg) u (role_text (acc_role a))
        (w2\<lparr>w_net := tl (w_net w2)\<rparr>) = (Inr x, w3)"
    and event: "record_audit \<lparr>au_user_id = Some u, au_type = SESSION_CREATED,
        au_session_id = Some (is_session_id x), au_ip_hash = None, au_metadata = None\<rparr> w3 = (Inr e, w')"
    by blast
  have w2: "w_db w2 = w_db w" "w_clock w2 = w_clock w" using consumed_challenge [OF used] w1 by auto
  from session_after_login_success [OF _ opened] wf w2 obtain s where
    s: "s \<in> set (sessions (w_db w3))" "ses_user_id s = u"
      "ses_revoked_at s = None" "ses_expires_at s = w_clock w + SESSION_TTL_MS"
      "ses_refresh_token_hash s = hash_token cfg (is_refresh_token x)"
      "ses_csrf_token_hash s = hash_token cfg (is_csrf_token x)" "auth_wf (w_db w3)"
      "accounts (w_db w3) = accounts (w_db w)" "entry_cached s (role_text (acc_role a)) (w_redis w3)"
      "is_access_token x = sign_access_token cfg (w_clock w)
        \<lparr>cl_sub = u, cl_role = role_text (acc_role a), cl_session_id = ses_id s\<rparr>"
      "is_expires_in x = ACCESS_TOKEN_TTL_SECONDS" by auto
  note ev = recorded_event [OF event]
  have u: "a \<in> set (accounts (w_db w))" "acc_id a = u" using account_by_id_SomeD [OF a(1)] by auto
  have "auth_wf (w_db w')" using s(7) ev by (simp add: auth_wf_def auth_keys_def)
  then have "tokens_accepted cfg gc w' (w_clock w)
      \<lparr>pr_user_id = ses_user_id s, pr_role = role_text (acc_role a), pr_session_id = ses_id s\<rparr>
      (is_access_token x) (is_csrf_token x) (is_refresh_token x)"
    using s ev a by (intro issued_accepted [OF assms(2) _ _ s(3,4,5,6) assms(4), where a = a])
      (simp_all add: account_by_id_def)
  with reply u a(2) s(2,11) show ?thesis
    by (intro exI [of _ "is_access_token x"] exI [of _ "is_csrf_token x"] exI [of _ "is_refresh_token x"]
        exI [of _ a] exI [of _ "ses_id s"]) (simp add: ACCESS_TOKEN_TTL_SECONDS_def)
qed


lemma refresh_answered:
  assumes "route_refresh cfg gc request w = (Inr reply, w')"
    and "gr_cookies request (gc_refresh_cookie_name gc) = Some token" and "token \<noteq> []"
  shows "\<exists>x. refresh (app_sessions cfg) token w = (Inr x, w')
    \<and> csrf_origin_guard cfg gc request w = (Inr (), w)
    \<and> reply = \<lparr>rr_status = 200,
        rr_body = JObj [(''accessToken'', JStr (is_access_token x)),
                        (''expiresIn'', JNum (int (is_expires_in x)))],
        rr_cookies = [set_refresh_cookie gc (is_refresh_token x)]\<rparr>"
proof -
  have cookie: "read_refresh_cookie gc request = token" using cookie_of_guard [OF assms(2,3)] by simp
  obtain g where g: "csrf_origin_guard cfg gc request w = (g, w)"
    using csrf_guard_run(1) [OF assms(2,3)] by metis
  with assms(1) cookie show ?thesis
    by (cases g) (auto simp: route_refresh_def refresh_session_def with_security_storage_def run_simps
        split: if_splits prod.splits sum.splits)
qed

text \<open>
  Property C12. The tokens of a refresh work. After the refresh route has answered, its access token
  and its cookie, with the CSRF token of the login, are accepted in place of the former ones, for
  the same session of the same account.
\<close>

theorem refreshed_tokens_accepted:
  assumes "auth_leads empty_db (w_db w)" and "jwt_faithful cfg"
    and "route_refresh cfg gc request w = (Inr reply, w')" and "presents gc csrf token request"
    and "four_digit_day (day_of_instant (w_clock w + SESSION_TTL_MS))"
  shows "\<exists>access refresh_token a s. reply = \<lparr>rr_status = 200,
        rr_body = JObj [(''accessToken'', JStr access), (''expiresIn'', JNum 900)],
        rr_cookies = [set_refresh_cookie gc refresh_token]\<rparr>
    \<and> s \<in> set (sessions (w_db w)) \<and> ses_refresh_token_hash s = hash_token cfg token
    \<and> a \<in> set (accounts (w_db w')) \<and> acc_id a = ses_user_id s
    \<and> tokens_accepted cfg gc w' (w_clock w)
        \<lparr>pr_user_id = ses_user_id s, pr_role = role_text (acc_role a), pr_session_id = ses_id s\<rparr>
        access csrf refresh_token"
proof -
  have wf: "auth_wf (w_db w)" using auth_leads_safe [OF assms(1) empty_db_auth_wf] by blast
  have cookie: "gr_cookies request (gc_refresh_cookie_name gc) = Some token" "token \<noteq> []"
    using assms(4) by (auto simp: presents_def)
  from refresh_answered [OF assms(3) cookie] obtain x where
    x: "refresh (app_sessions cfg) token w = (Inr x, w')"
    and guard: "csrf_origin_guard cfg gc request w = (Inr (), w)"
    and reply: "reply = \<lparr>rr_status = 200,
        rr_body = JObj [(''accessToken'', JStr (is_access_token x)), (''expiresIn'', JNum (int (is_expires_in x)))],
        rr_cookies = [set_refresh_cookie gc (is_refresh_token x)]\<rparr>" by blast
  from refresh_leaves [OF wf x] obtain s0 s' a where
    s0: "s0 \<in> set (sessions (w_db w))" "ses_refresh_token_hash s0 = hash_token cfg token"
    and s': "s' \<in> set (sessions (w_db w'))" "ses_id s' = ses_id s0" "ses_user_id s' = ses_user_id s0"
      "ses_csrf_token_hash s' = ses_csrf_token_hash s0" "ses_revoked_at s' = None"
      "ses_refresh_token_hash s' = hash_token cfg (is_refresh_token x)"
      "ses_expires_at s' = w_clock w + SESSION_TTL_MS"
      "account_by_id (ses_user_id s') (w_db w') = Some a"
      "entry_cached s' (role_text (acc_role a)) (w_redis w')"
      "is_access_token x = sign_access_token cfg (w_clock w)
        \<lparr>cl_sub = ses_user_id s', cl_role = role_text (acc_role a), cl_session_id = ses_id s'\<rparr>"
      "is_expires_in x = ACCESS_TOKEN_TTL_SECONDS" "auth_wf (w_db w')" by blast
  have "csrf_session cfg token (w_db w) = Some s0"
    using session_of_token_hash [OF wf s0(1)] s0(2) by (simp add: csrf_session_def)
  with guard assms(4) cookie_of_guard [OF cookie] have csrf: "hash_token cfg csrf = ses_csrf_token_hash s0"
    by (auto simp: presents_def csrf_origin_guard_def run_simps resolve_csrf_session_run split: if_splits)
  have "tokens_accepted cfg gc w' (w_clock w)
      \<lparr>pr_user_id = ses_user_id s', pr_role = role_text (acc_role a), pr_session_id = ses_id s'\<rparr>
      (is_access_token x) csrf (is_refresh_token x)"
    using s' csrf by (intro issued_accepted [OF assms(2) s'(12,1,5,7,6) _ assms(5) s'(8) refl s'(9,10)]) simp
  with reply account_by_id_SomeD [OF s'(8)] s'(2,3,11) s0 show ?thesis
    by (intro exI [of _ "is_access_token x"] exI [of _ "is_refresh_token x"] exI [of _ a] exI [of _ s0])
      (simp add: ACCESS_TOKEN_TTL_SECONDS_def)
qed

end
