(* ===== verification/LoginFlow.thy ===== *)
theory LoginFlow
  imports AuthFlows
begin

text \<open>
  A login end to end, across auth.service.ts, email.processor.ts and the Redis state: the challenge
  and the job of a started login, the code the worker mails, and the completion with it; and what
  becomes of it when a second login overtakes the worker.
\<close>

section \<open>The challenge of a login\<close>

definition challenge_stored :: "auth_config \<Rightarrow> uuid \<Rightarrow> uuid \<Rightarrow> string \<Rightarrow> instant \<Rightarrow> redis \<Rightarrow> bool" where
  "challenge_stored cfg u c code x s \<longleftrightarrow> s (login_challenge_key c) =
     Some \<lparr>re_value = RJson (challenge_payload cfg u code x), re_expires_at = Some x\<rparr>"

text \<open>The account's entry names its newest challenge.\<close>

definition challenge_current :: "uuid \<Rightarrow> uuid \<Rightarrow> instant \<Rightarrow> redis \<Rightarrow> bool" where
  "challenge_current u c x s \<longleftrightarrow> s (login_challenge_account_key u) =
     Some \<lparr>re_value = RText c, re_expires_at = Some x\<rparr>"

lemma create_login_challenge_up:
  assumes "w_net w = []" and "login_challenge_key c \<noteq> login_challenge_account_key u"
  shows "\<exists>s. create_login_challenge cfg u c code (w_clock w + 3600000) w = (Inr (), w\<lparr>w_redis := s\<rparr>)
    \<and> challenge_stored cfg u c code (w_clock w + 3600000) s \<and> challenge_current u c (w_clock w + 3600000) s
    \<and> (\<forall>old x. challenge_current u old x (w_redis w) \<and> w_clock w < x \<and> old \<noteq> c
         \<and> login_challenge_key old \<noteq> login_challenge_account_key u \<longrightarrow> s (login_challenge_key old) = None)
    \<and> (\<forall>k. (\<forall>d. k \<noteq> KEY_PREFIX @ ''login-challenge:'' @ d) \<longrightarrow> s k = w_redis w k)"
proof -
  let ?cmd = "create_login_challenge_lua (login_challenge_account_key u) (login_challenge_key c)
    (challenge_payload cfg u code (w_clock w + 3600000)) TTL_ONE_HOUR_SECONDS c (KEY_PREFIX @ ''login-challenge:'')"
  define s0 where "s0 = (case redis_get (w_clock w) (login_challenge_account_key u) (w_redis w) of
      Some (RText previous) \<Rightarrow> redis_del (KEY_PREFIX @ ''login-challenge:'' @ previous) (w_redis w)
    | _ \<Rightarrow> w_redis w)"
  define s where "s = redis_set (w_clock w) (login_challenge_account_key u) (RText c) (Some TTL_ONE_HOUR_SECONDS)
    (redis_set (w_clock w) (login_challenge_key c)
      (RJson (challenge_payload cfg u code (w_clock w + 3600000))) (Some TTL_ONE_HOUR_SECONDS) s0)"
  have "?cmd (w_clock w) (w_redis w) = Some ((), s)"
    by (simp add: create_login_challenge_lua_def s_def s0_def Let_def cong: option.case_cong redis_value.case_cong)
  with safe_redis_up [OF assms(1)] have "create_login_challenge cfg u c code (w_clock w + 3600000) w =
      (Inr (), w\<lparr>w_redis := s\<rparr>)" by (simp add: create_login_challenge_def)
  moreover have "challenge_stored cfg u c code (w_clock w + 3600000) s"
    using assms(2) by (simp add: s_def challenge_stored_def redis_set_def TTL_ONE_HOUR_SECONDS_def)
  moreover have "challenge_current u c (w_clock w + 3600000) s"
    by (simp add: s_def challenge_current_def redis_set_def TTL_ONE_HOUR_SECONDS_def)
  moreover have "s (login_challenge_key old) = None"
    if "challenge_current u old x (w_redis w)" "w_clock w < x" "old \<noteq> c"
      "login_challenge_key old \<noteq> login_challenge_account_key u" for old x
    using that by (simp add: s_def s0_def challenge_current_def redis_get_def redis_live_def redis_set_def
        redis_del_def login_challenge_key_def)
  moreover have "s k = w_redis w k" if "\<forall>d. k \<noteq> KEY_PREFIX @ ''login-challenge:'' @ d" for k
    using that [THEN spec, of c] that [THEN spec, of "''account:'' @ u"] that
    by (auto simp: s_def s0_def redis_set_def redis_del_def login_challenge_account_key_def
        login_challenge_key_def split: option.splits redis_value.splits)
  ultimately show ?thesis by blast
qed

lemma challenge_stored_found:
  assumes "w_net w = []" and "challenge_stored cfg u c code x (w_redis w)" and "w_clock w < x" and "u \<noteq> []"
  shows "find_login_challenge_user_id c w = (Inr (Some u), w)"
  using assms
  by (simp add: find_login_challenge_user_id_def redis_service_get_def safe_redis_up run_simps now_io_def
      challenge_stored_def redis_get_def redis_live_def challenge_user_def challenge_payload_def)

lemma challenge_stored_consumed:
  assumes "w_net w = []" and "challenge_stored cfg u c code x (w_redis w)" and "w_clock w < x" and "u \<noteq> []"
  shows "consume_login_challenge cfg c code' w =
    (if hmac_code cfg code' = hmac_code cfg code
     then (Inr (ChallengeConsumed u), w\<lparr>w_redis := redis_del (login_challenge_key c) (w_redis w)\<rparr>)
     else (Inr ChallengeInvalid, w))"
proof -
  have "consume_login_challenge_lua (login_challenge_key c) (hmac_code cfg code') (w_clock w) (w_clock w) (w_redis w)
    = Some (if hmac_code cfg code' = hmac_code cfg code
        then (ChallengeConsumed u, redis_del (login_challenge_key c) (w_redis w)) else (ChallengeInvalid, w_redis w))"
    using assms(2-4) by (auto simp: consume_login_challenge_lua_def challenge_stored_def redis_get_def
        redis_live_def challenge_payload_def lua_truthy_def)
  then show ?thesis
    by (cases "hmac_code cfg code' = hmac_code cfg code")
      (simp_all add: consume_login_challenge_def run_simps now_io_def safe_redis_up [OF assms(1)])
qed

section \<open>The mailed code\<close>

lemma issuance_key_not_challenge: "issuance_key p i \<noteq> KEY_PREFIX @ ''login-challenge:'' @ d"
  by (cases p) (simp_all add: KEY_PREFIX_def)

text \<open>\<open>processLogin\<close> in two: up to its reads, and from the code it draws.\<close>

definition login_recipient :: "uuid \<Rightarrow> uuid \<Rightarrow> (uuid \<times> account) option io" where
  "login_recipient c issuance_id =
     bindM (is_current_issuance ISSUE_LOGIN c issuance_id) (\<lambda>current.
       if \<not> current then returnM None
       else bindM (find_login_challenge_user_id c) (\<lambda>user.
         case user of
           None \<Rightarrow> returnM None
         | Some u \<Rightarrow>
             bindM (db_op (find_account_by_id u)) (\<lambda>found.
               returnM (map_option (\<lambda>account. (u, account)) found))))"

definition send_login_code :: "auth_config \<Rightarrow> uuid \<Rightarrow> uuid \<Rightarrow> uuid \<Rightarrow> account \<Rightarrow> unit io" where
  "send_login_code cfg c issuance_id u account =
     bindM generate_verification_code_io (\<lambda>code.
       bindM now_io (\<lambda>now.
         thenM (create_login_challenge cfg u c code (now + ONE_HOUR_MS))
           (bindM (is_current_issuance ISSUE_LOGIN c issuance_id) (\<lambda>still_current.
             if \<not> still_current then returnM ()
             else send_mail (login_mail (acc_email account) code)))))"

lemma process_login_halves:
  "process_login cfg (Some c) i =
     (if c = [] then returnM ()
      else bindM (login_recipient c i) (\<lambda>recipient. case recipient of
          None \<Rightarrow> returnM ()
        | Some (u, account) \<Rightarrow> send_login_code cfg c i u account))"
proof
  fix w
  show "process_login cfg (Some c) i w =
     (if c = [] then returnM ()
      else bindM (login_recipient c i) (\<lambda>recipient. case recipient of
          None \<Rightarrow> returnM ()
        | Some (u, account) \<Rightarrow> send_login_code cfg c i u account)) w"
    by (simp add: process_login_def login_recipient_def send_login_code_def run_simps
        split: prod.split sum.split option.split if_splits)
qed

lemma login_recipient_run:
  assumes "w_net w = []" and "account_by_id u (w_db w) = Some a"
    and "find_login_challenge_user_id c w = (Inr (Some u), w)"
    and "redis_get (w_clock w) (issuance_key ISSUE_LOGIN c) (w_redis w) = Some (RText i)"
  shows "login_recipient c i w = (Inr (Some (u, a)), w)"
  using assms is_current_issuance_up [OF assms(1), of ISSUE_LOGIN c i]
  by (simp add: login_recipient_def run_simps db_op_def find_account_by_id_def)

lemma send_login_code_run:
  assumes "w_net w = []" and "login_challenge_key c \<noteq> login_challenge_account_key u"
    and "redis_get (w_clock w) (issuance_key ISSUE_LOGIN c) (w_redis w) = Some (RText i)"
  shows "\<exists>code w1. send_login_code cfg c i u a w = (Inr (), w1) \<and> code_dto_valid code
    \<and> w_mails w1 = w_mails w @ [login_mail (acc_email a) code] \<and> w_db w1 = w_db w
    \<and> challenge_stored cfg u c code (w_clock w + 3600000) (w_redis w1)
    \<and> (\<forall>old x. challenge_current u old x (w_redis w) \<and> w_clock w < x \<and> old \<noteq> c
         \<and> login_challenge_key old \<noteq> login_challenge_account_key u \<longrightarrow>
         w_redis w1 (login_challenge_key old) = None)
    \<and> (\<forall>k. (\<forall>d. k \<noteq> KEY_PREFIX @ ''login-challenge:'' @ d) \<longrightarrow> w_redis w1 k = w_redis w k)"
proof -
  obtain code where code: "generate_verification_code_io w = (Inr code, w\<lparr>w_drawn := Suc (w_drawn w)\<rparr>)"
    "code_dto_valid code" using generate_code_run by blast
  let ?v = "w\<lparr>w_drawn := Suc (w_drawn w)\<rparr>"
  from create_login_challenge_up [of ?v c u cfg code] assms(1,2) obtain s where
    s: "create_login_challenge cfg u c code (w_clock w + 3600000) ?v = (Inr (), ?v\<lparr>w_redis := s\<rparr>)"
      "challenge_stored cfg u c code (w_clock w + 3600000) s"
      "\<forall>old x. challenge_current u old x (w_redis w) \<and> w_clock w < x \<and> old \<noteq> c
         \<and> login_challenge_key old \<noteq> login_challenge_account_key u \<longrightarrow> s (login_challenge_key old) = None"
      "\<forall>k. (\<forall>d. k \<noteq> KEY_PREFIX @ ''login-challenge:'' @ d) \<longrightarrow> s k = w_redis w k" by auto
  define v where "v = ?v\<lparr>w_redis := s\<rparr>"
  define w1 where "w1 = v\<lparr>w_mails := w_mails w @ [login_mail (acc_email a) code]\<rparr>"
  have "s (issuance_key ISSUE_LOGIN c) = w_redis w (issuance_key ISSUE_LOGIN c)"
    using s(4) issuance_key_not_challenge by blast
  then have still: "is_current_issuance ISSUE_LOGIN c i v = (Inr True, v)"
    using is_current_issuance_up [of v] assms(1,3) by (simp add: v_def redis_get_def redis_live_def)
  have "send_mail (login_mail (acc_email a) code) v = (Inr (), w1)"
    using assms(1) by (simp add: send_mail_def enqueue_def run_simps v_def w1_def)
  then have "send_login_code cfg c i u a w = (Inr (), w1)"
    using code(1) s(1) [folded v_def] still
    by (simp add: send_login_code_def run_simps now_io_def ONE_HOUR_MS_def)
  moreover have "w_mails w1 = w_mails w @ [login_mail (acc_email a) code]" "w_db w1 = w_db w" "w_redis w1 = s"
    by (simp_all add: w1_def v_def)
  ultimately show ?thesis using code(2) s(2-4) by (intro exI [of _ code] exI [of _ w1]) simp
qed

lemma process_login_run:
  assumes "w_net w = []" and "c \<noteq> []" and "account_by_id u (w_db w) = Some a"
    and "find_login_challenge_user_id c w = (Inr (Some u), w)"
    and "redis_get (w_clock w) (issuance_key ISSUE_LOGIN c) (w_redis w) = Some (RText i)"
    and "login_challenge_key c \<noteq> login_challenge_account_key u"
  shows "\<exists>code w1. process_login cfg (Some c) i w = (Inr (), w1) \<and> code_dto_valid code
    \<and> w_mails w1 = w_mails w @ [login_mail (acc_email a) code] \<and> w_db w1 = w_db w
    \<and> challenge_stored cfg u c code (w_clock w + 3600000) (w_redis w1)
    \<and> (\<forall>k. (\<forall>d. k \<noteq> KEY_PREFIX @ ''login-challenge:'' @ d) \<longrightarrow> w_redis w1 k = w_redis w k)"
proof -
  have "process_login cfg (Some c) i w = send_login_code cfg c i u a w"
    using login_recipient_run [OF assms(1,3,4,5)] assms(2)
    by (simp add: process_login_halves bindM_def)
  with send_login_code_run [OF assms(1,6,5), of cfg a] show ?thesis by auto
qed

section \<open>Completing the login\<close>

text \<open>
  The identifiers and tokens drawn next are new to the tables, and the digest of a token fits its
  column: what UUIDs, random bytes and HMAC-SHA-256 give.
\<close>

definition draws_fresh :: "auth_config \<Rightarrow> world \<Rightarrow> bool" where
  "draws_fresh cfg w \<longleftrightarrow> (\<forall>n. w_strings w n \<noteq> []
     \<and> w_strings w n \<notin> ses_id ` set (sessions (w_db w)) \<and> w_strings w n \<notin> rt_id ` set (refresh_tokens (w_db w))
     \<and> w_strings w n \<notin> ae_id ` set (audit_events (w_db w))
     \<and> hash_token cfg (w_strings w n) \<notin> rt_token_hash ` set (refresh_tokens (w_db w))
     \<and> length (hash_token cfg (w_strings w n)) \<le> 128
     \<and> (\<forall>u. w_strings w n \<noteq> ''account:'' @ u))"

lemma create_exclusive_session_up:
  assumes "account_by_id u d = Some a" and "i \<notin> ses_id ` set (sessions d)" and "j \<notin> rt_id ` set (refresh_tokens d)"
    and "si_refresh_token_hash inp \<notin> rt_token_hash ` set (refresh_tokens d)"
    and "length (si_refresh_token_hash inp) \<le> 128" and "length (si_csrf_token_hash inp) \<le> 128"
  shows "\<exists>res d'. create_exclusive_session i j now u inp d = (Inr res, d')
    \<and> accounts d' = accounts d \<and> audit_events d' = audit_events d"
proof -
  have ids: "ses_id ` set (sessions (revoked_db now u NEW_LOGIN d)) = ses_id ` set (sessions d)"
  proof -
    have "map ses_id (sessions (revoked_db now u NEW_LOGIN d)) = map ses_id (sessions d)"
      unfolding revoked_db_def by (simp add: map_update_where mark_revoked_def)
    then show ?thesis by (metis set_map)
  qed
  moreover have "u \<in> acc_id ` set (accounts d)" using account_by_id_SomeD [OF assms(1)] by blast
  ultimately show ?thesis
    using assms
    by (auto simp: create_exclusive_session_def transaction_def thenM_def lock_account_def
        run_simps revoke_active_sessions_run insert_session_def insert_refresh_token_def)
      (auto simp: revoked_db_def)
qed


lemma delete_all_run:
  "w_net w = [] \<Longrightarrow> \<exists>s. forM ids (delete_session_cache_best_effort (app_sessions cfg)) w = (Inr (), w\<lparr>w_redis := s\<rparr>)"
proof (induction ids arbitrary: w)
  case Nil
  then show ?case by (intro exI [of _ "w_redis w"]) (simp add: run_simps)
next
  case (Cons i ids)
  have "delete_session_cache_best_effort (app_sessions cfg) i w =
      (Inr (), w\<lparr>w_redis := redis_del (session_key i) (w_redis w)\<rparr>)"
    using Cons.prems by (simp add: delete_session_cache_best_effort_def app_sessions_def delete_session_cache_def
        redis_service_del_def safe_redis_up run_simps)
  with Cons.IH [of "w\<lparr>w_redis := redis_del (session_key i) (w_redis w)\<rparr>"] Cons.prems
  show ?case by (auto simp: run_simps)
qed

lemma create_session_up:
  assumes "w_net w = []" and "account_by_id u (w_db w) = Some a" and "draws_fresh cfg w"
  shows "\<exists>x w'. create_session_after_login (app_sessions cfg) u role w = (Inr x, w')
    \<and> accounts (w_db w') = accounts (w_db w) \<and> audit_events (w_db w') = audit_events (w_db w)
    \<and> w_strings w' = w_strings w"
proof -
  define t where "t = w_strings w (w_drawn w)"
  define k where "k = w_strings w (Suc (w_drawn w))"
  define i where "i = w_strings w (Suc (Suc (w_drawn w)))"
  define j where "j = w_strings w (Suc (Suc (Suc (w_drawn w))))"
  define inp where "inp = \<lparr>si_refresh_token_hash = hash_token cfg t, si_csrf_token_hash = hash_token cfg k,
    si_expires_at = w_clock w + SESSION_TTL_MS\<rparr>"
  have "\<exists>res d. create_exclusive_session i j (w_clock w) u inp (w_db w) = (Inr res, d)
      \<and> accounts d = accounts (w_db w) \<and> audit_events d = audit_events (w_db w)"
    by (rule create_exclusive_session_up [OF assms(2)])
      (use assms(3) in \<open>auto simp: draws_fresh_def inp_def t_def k_def i_def j_def\<close>)
  then obtain res d where made: "create_exclusive_session i j (w_clock w) u inp (w_db w) = (Inr res, d)"
    "accounts d = accounts (w_db w)" "audit_events d = audit_events (w_db w)" by blast
  let ?w = "w\<lparr>w_drawn := Suc (Suc (Suc (Suc (w_drawn w)))), w_db := d\<rparr>"
  obtain s where s: "forM (sr_revoked_session_ids res) (delete_session_cache_best_effort (app_sessions cfg)) ?w
      = (Inr (), ?w\<lparr>w_redis := s\<rparr>)" using delete_all_run [of ?w] assms(1) by auto
  show ?thesis
    using made s assms(1)
    by (simp add: create_session_after_login_def app_sessions_def run_simps generate_refresh_token_def
        generate_csrf_token_def generate_opaque_token_def draw_string_def now_io_def
        create_exclusive_session_io_def db_op_def t_def k_def i_def j_def inp_def set_session_cache_def
        redis_service_set_def safe_redis_up issue_tokens_def)
qed

lemma open_session_up:
  assumes "w_net w = []" and "account_by_id u (w_db w) = Some a" and "acc_status a = ACTIVE_ACCOUNT"
    and "draws_fresh cfg w"
  shows "\<exists>x w'. open_session cfg u w = (Inr x, w')"
proof -
  have u: "acc_id a = u" "u \<in> acc_id ` set (accounts (w_db w))" using account_by_id_SomeD [OF assms(2)] by auto
  from create_session_up [OF assms(1,2,4), of "role_text (acc_role a)"] obtain x w1 where
    x: "create_session_after_login (app_sessions cfg) u (role_text (acc_role a)) w = (Inr x, w1)"
      "accounts (w_db w1) = accounts (w_db w)" "audit_events (w_db w1) = audit_events (w_db w)"
      "w_strings w1 = w_strings w" by blast
  have "\<exists>e w2. record_audit \<lparr>au_user_id = Some u, au_type = SESSION_CREATED,
      au_session_id = Some (is_session_id x), au_ip_hash = None, au_metadata = None\<rparr> w1 = (Inr e, w2)"
    using assms(4) x(2-4) u(2)
    by (auto simp: record_audit_def draw_string_def now_io_def db_op_def insert_audit_event_def run_simps
        draws_fresh_def)
  with assms(2,3) x(1) u(1) show ?thesis
    by (auto simp: open_session_def run_simps db_op_def find_account_by_id_def)
qed

lemma complete_login_up:
  assumes "w_net v = []" and "account_by_id u (w_db v) = Some a" and "acc_status a = ACTIVE_ACCOUNT"
    and "draws_fresh cfg v" and "challenge_stored cfg u c code x (w_redis v)" and "w_clock v < x" and "u \<noteq> []"
    and "redis_live (w_clock v) (w_redis v) (login_lock_key u) = None"
  shows "\<exists>tokens v'. complete_login cfg c code v = (Inr tokens, v')"
proof -
  define v1 where "v1 = v\<lparr>w_redis := redis_del (login_challenge_key c) (w_redis v)\<rparr>"
  have "login_lock_key u \<noteq> login_challenge_key c"
    by (simp add: login_lock_key_def login_challenge_key_def KEY_PREFIX_def)
  with assms(8) have "redis_live (w_clock v1) (w_redis v1) (login_lock_key u) = None"
    by (simp add: v1_def redis_live_def redis_del_def)
  then have free: "refuse_if_locked u v = (Inr (), v)" "refuse_if_locked u v1 = (Inr (), v1)"
    using is_login_locked_up [of v u] is_login_locked_up [of v1 u] assms(1,8)
    by (simp_all add: refuse_if_locked_def run_simps v1_def)
  from open_session_up [of v1 u a cfg] assms(1-4) obtain tokens v' where "open_session cfg u v1 = (Inr tokens, v')"
    by (auto simp: v1_def draws_fresh_def)
  with free challenge_stored_found [OF assms(1,5,6,7)] challenge_stored_consumed [OF assms(1,5,6,7), of code]
  show ?thesis by (simp add: complete_login_def with_security_storage_def run_simps v1_def)
qed

section \<open>Starting the login\<close>

lemma issue_login_challenge_run:
  assumes up: "w_net w = []" and ids: "w_strings w (w_drawn w) \<noteq> []" "\<And>u. w_strings w (w_drawn w) \<noteq> ''account:'' @ u"
  shows "\<exists>c i code w'. issue_login_challenge cfg u w = (Inr (c, to_iso_string (w_clock w + 3600000)), w')
    \<and> w_db w' = w_db w \<and> w_net w' = [] \<and> w_clock w' = w_clock w
    \<and> w_email_jobs w' = w_email_jobs w @ [SendVerificationCode ISSUE_LOGIN None (Some c) i]
    \<and> c \<noteq> [] \<and> login_challenge_key c \<noteq> login_challenge_account_key u
    \<and> challenge_stored cfg u c code (w_clock w + 3600000) (w_redis w')
    \<and> challenge_current u c (w_clock w + 3600000) (w_redis w')
    \<and> (\<forall>old x. challenge_current u old x (w_redis w) \<and> w_clock w < x \<and> old \<noteq> c
         \<and> login_challenge_key old \<noteq> login_challenge_account_key u \<longrightarrow>
         w_redis w' (login_challenge_key old) = None
         \<and> w_redis w' (issuance_key ISSUE_LOGIN old) = w_redis w (issuance_key ISSUE_LOGIN old))
    \<and> w_redis w' (issuance_key ISSUE_LOGIN c) =
        Some \<lparr>re_value = RText i, re_expires_at = Some (w_clock w + 3600000)\<rparr>
    \<and> w_redis w' (login_lock_key u) = w_redis w (login_lock_key u)"
proof -
  define c where "c = w_strings w (w_drawn w)"
  define i where "i = w_strings w (Suc (w_drawn w))"
  let ?w1 = "w\<lparr>w_drawn := Suc (Suc (w_drawn w))\<rparr>"
  let ?w2 = "?w1\<lparr>w_drawn := Suc (w_drawn ?w1)\<rparr>"
  obtain code where code: "generate_verification_code_io ?w1 = (Inr code, ?w2)"
    using generate_code_run [of ?w1] by blast
  have apart: "login_challenge_key c \<noteq> login_challenge_account_key u"
    using ids(2) [of u] by (simp add: login_challenge_key_def login_challenge_account_key_def c_def)
  from create_login_challenge_up [of ?w2 c u cfg code] up apart obtain s where
    s: "create_login_challenge cfg u c code (w_clock w + 3600000) ?w2 = (Inr (), ?w2\<lparr>w_redis := s\<rparr>)"
      "challenge_stored cfg u c code (w_clock w + 3600000) s" "challenge_current u c (w_clock w + 3600000) s"
      "\<And>old x. challenge_current u old x (w_redis w) \<Longrightarrow> w_clock w < x \<Longrightarrow> old \<noteq> c \<Longrightarrow>
         login_challenge_key old \<noteq> login_challenge_account_key u \<Longrightarrow> s (login_challenge_key old) = None"
      "\<And>k. (\<forall>d. k \<noteq> KEY_PREFIX @ ''login-challenge:'' @ d) \<Longrightarrow> s k = w_redis w k" by auto
  let ?s = "redis_set (w_clock w) (issuance_key ISSUE_LOGIN c) (RText i) (Some TTL_ONE_HOUR_SECONDS) s"
  have keys: "issuance_key ISSUE_LOGIN c \<noteq> login_challenge_key c" "issuance_key ISSUE_LOGIN c \<noteq> login_lock_key u"
    "\<forall>d. login_lock_key u \<noteq> KEY_PREFIX @ ''login-challenge:'' @ d"
    by (simp_all add: login_challenge_key_def login_lock_key_def KEY_PREFIX_def)
  have "challenge_stored cfg u c code (w_clock w + 3600000) ?s" "?s (login_lock_key u) = w_redis w (login_lock_key u)"
    using s(2,5) keys by (simp_all add: challenge_stored_def redis_set_def)
  moreover have "challenge_current u c (w_clock w + 3600000) ?s"
    using s(3) by (simp add: challenge_current_def redis_set_def login_challenge_account_key_def KEY_PREFIX_def)
  moreover have "\<forall>old x. challenge_current u old x (w_redis w) \<and> w_clock w < x \<and> old \<noteq> c
      \<and> login_challenge_key old \<noteq> login_challenge_account_key u \<longrightarrow> ?s (login_challenge_key old) = None \<and>
      ?s (issuance_key ISSUE_LOGIN old) = w_redis w (issuance_key ISSUE_LOGIN old)"
  proof (intro allI impI)
    fix old x
    assume that: "challenge_current u old x (w_redis w) \<and> w_clock w < x \<and> old \<noteq> c
      \<and> login_challenge_key old \<noteq> login_challenge_account_key u"
    have "s (issuance_key ISSUE_LOGIN old) = w_redis w (issuance_key ISSUE_LOGIN old)"
      using s(5) issuance_key_not_challenge by blast
    moreover have "issuance_key ISSUE_LOGIN c \<noteq> issuance_key ISSUE_LOGIN old" using that by auto
    moreover have "issuance_key ISSUE_LOGIN c \<noteq> login_challenge_key old"
      using issuance_key_not_challenge by (simp add: login_challenge_key_def)
    moreover have "s (login_challenge_key old) = None" using s(4) that by blast
    ultimately show "?s (login_challenge_key old) = None \<and>
        ?s (issuance_key ISSUE_LOGIN old) = w_redis w (issuance_key ISSUE_LOGIN old)"
      by (simp add: redis_set_def del: issuance_key.simps)
  qed
  moreover define w' where "w' = ?w2\<lparr>w_redis := ?s,
      w_email_jobs := w_email_jobs w @ [SendVerificationCode ISSUE_LOGIN None (Some c) i]\<rparr>"
  moreover have "issue_login_challenge cfg u w = (Inr (c, to_iso_string (w_clock w + 3600000)), w')"
    using code s(1) up ids(1)
    by (simp add: issue_login_challenge_def generate_challenge_id_def draw_string_def run_simps now_io_def
        set_issuance_def redis_service_set_def safe_redis_up enqueue_verification_code_def add_email_job_def
        enqueue_def c_def i_def LOGIN_CHALLENGE_TTL_MS_def w'_def del: issuance_key.simps)
  moreover have "?s (issuance_key ISSUE_LOGIN c) =
      Some \<lparr>re_value = RText i, re_expires_at = Some (w_clock w + 3600000)\<rparr>"
    by (simp add: redis_set_def TTL_ONE_HOUR_SECONDS_def del: issuance_key.simps)
  moreover have "c \<noteq> []" using ids(1) by (simp add: c_def)
  moreover have "w_db w' = w_db w" "w_net w' = []" "w_clock w' = w_clock w" "w_redis w' = ?s"
    "w_email_jobs w' = w_email_jobs w @ [SendVerificationCode ISSUE_LOGIN None (Some c) i]"
    by (simp_all add: w'_def up)
  ultimately show ?thesis
    using apart
    by (intro exI [of _ c] exI [of _ i] exI [of _ code] exI [of _ w']) (simp del: issuance_key.simps)
qed

lemma start_login_steps:
  assumes "w_net w = []" and "start_login cfg raw pw ip w = (Inr r, w')"
  shows "\<exists>a w1. email_create raw = Inr (acc_email a) \<and> a \<in> set (accounts (w_db w))
    \<and> find_account_by_email (acc_email a) (w_db w) = (Inr (Some a), w_db w)
    \<and> password_matches_account cfg pw (Some (acc_password_hash a)) \<and> acc_status a = ACTIVE_ACCOUNT
    \<and> assert_login_rate_limit cfg (acc_email a) ip w = (Inr (), w1)
    \<and> redis_live (w_clock w) (w_redis w) (login_lock_key (acc_id a)) = None
    \<and> issue_login_challenge cfg (acc_id a) w1 = (Inr r, w')"
proof -
  from assms(2) obtain email where email: "email_create raw = Inr email"
    by (auto simp: start_login_def parse_email_def run_simps split: sum.splits)
  obtain q w1 where q: "assert_login_rate_limit cfg email ip w = (q, w1)" by force
  with assms(2) email have q': "q = Inr ()"
    by (cases q) (auto simp: start_login_def parse_email_def run_simps)
  note frame = assert_login_rate_limit_frame [OF assms(1) q [unfolded q']] login_rate_key_apart [of _ cfg email ip]
  from assms(2) email q q' obtain a where a: "find (\<lambda>a. acc_email a = email) (accounts (w_db w1)) = Some a"
    by (cases "find (\<lambda>a. acc_email a = email) (accounts (w_db w1))")
      (auto simp: start_login_def parse_email_def run_simps with_security_storage_def db_op_def
        find_account_by_email_def split: if_splits)
  have locked: "is_login_locked (acc_id a) w1 =
      (Inr (redis_live (w_clock w1) (w_redis w1) (login_lock_key (acc_id a)) \<noteq> None), w1)"
    using is_login_locked_up frame by simp
  have "password_matches_account cfg pw (Some (acc_password_hash a)) \<and> acc_status a = ACTIVE_ACCOUNT
    \<and> redis_live (w_clock w1) (w_redis w1) (login_lock_key (acc_id a)) = None
    \<and> issue_login_challenge cfg (acc_id a) w1 = (Inr r, w')"
    using assms(2) email q q' a locked
    by (cases "acc_status a")
      (auto simp: start_login_def parse_email_def run_simps with_security_storage_def db_op_def
        find_account_by_email_def split: if_splits prod.splits sum.splits)
  then show ?thesis
    using email q q' a frame find_SomeD [OF a]
    by (intro exI [of _ a] exI [of _ w1]) (auto simp: redis_live_def find_account_by_email_def getsM_def)
qed


lemma increment_rate_limit_keeps:
  "increment_rate_limit_lua (rate_key op d h) ttl now r = Some (n, s) \<Longrightarrow> \<forall>op d h. k \<noteq> rate_key op d h \<Longrightarrow> s k = r k"
  by (auto simp: increment_rate_limit_lua_def redis_incr_def redis_expire_def
      split: option.splits redis_value.splits if_splits)

lemma assert_login_rate_limit_only_counts:
  assumes "w_net w = []" and "assert_login_rate_limit cfg email ip w = (Inr q, w1)"
  shows "\<exists>s. w1 = w\<lparr>w_redis := s\<rparr> \<and> (\<forall>k. (\<forall>op d h. k \<noteq> rate_key op d h) \<longrightarrow> s k = w_redis w k)"
proof -
  obtain c v where c: "increment_rate_limit ''login'' ByEmail
      (ac_sha256 cfg (client_or_unknown ip @ ''|'' @ email)) LOGIN_RATE_LIMIT_TTL_SECONDS w = (c, v)" by force
  with assms(2) obtain n where n: "c = Inr n" "w1 = v"
    by (cases c) (auto simp: assert_login_rate_limit_def with_security_storage_def run_simps split: if_splits)
  from safe_redis_Inr [OF c [unfolded n(1) increment_rate_limit_def]] obtain s where
    s: "increment_rate_limit_lua (login_rate_key cfg email ip) LOGIN_RATE_LIMIT_TTL_SECONDS
      (w_clock w) (w_redis w) = Some (n, s)" "v = w\<lparr>w_net := tl (w_net w), w_redis := s\<rparr>"
    unfolding login_rate_key_def by blast
  with increment_rate_limit_keeps [OF s(1) [unfolded login_rate_key_def]] assms(1) n(2)
  show ?thesis by (intro exI [of _ s]) simp
qed

text \<open>What a login that answers has stored and queued.\<close>

lemma started:
  assumes "w_net w = []" and "draws_fresh cfg w" and "start_login cfg raw pw ip w = (Inr (c, expires), w')"
  shows "\<exists>a i code. email_create raw = Inr (acc_email a) \<and> a \<in> set (accounts (w_db w))
    \<and> password_matches_account cfg pw (Some (acc_password_hash a)) \<and> acc_status a = ACTIVE_ACCOUNT
    \<and> redis_live (w_clock w) (w_redis w) (login_lock_key (acc_id a)) = None
    \<and> w_db w' = w_db w \<and> w_net w' = [] \<and> w_clock w' = w_clock w
    \<and> w_email_jobs w' = w_email_jobs w @ [SendVerificationCode ISSUE_LOGIN None (Some c) i]
    \<and> c \<noteq> [] \<and> login_challenge_key c \<noteq> login_challenge_account_key (acc_id a)
    \<and> challenge_stored cfg (acc_id a) c code (w_clock w + 3600000) (w_redis w')
    \<and> challenge_current (acc_id a) c (w_clock w + 3600000) (w_redis w')
    \<and> (\<forall>old x. challenge_current (acc_id a) old x (w_redis w) \<and> w_clock w < x \<and> old \<noteq> c
         \<and> login_challenge_key old \<noteq> login_challenge_account_key (acc_id a) \<longrightarrow>
         w_redis w' (login_challenge_key old) = None
         \<and> w_redis w' (issuance_key ISSUE_LOGIN old) = w_redis w (issuance_key ISSUE_LOGIN old))
    \<and> w_redis w' (issuance_key ISSUE_LOGIN c) =
        Some \<lparr>re_value = RText i, re_expires_at = Some (w_clock w + 3600000)\<rparr>
    \<and> w_redis w' (login_lock_key (acc_id a)) = w_redis w (login_lock_key (acc_id a))"
proof -
  from start_login_steps [OF assms(1,3)] obtain a w1 where
    a: "email_create raw = Inr (acc_email a)" "a \<in> set (accounts (w_db w))"
      "password_matches_account cfg pw (Some (acc_password_hash a))" "acc_status a = ACTIVE_ACCOUNT"
      "redis_live (w_clock w) (w_redis w) (login_lock_key (acc_id a)) = None"
    and limit: "assert_login_rate_limit cfg (acc_email a) ip w = (Inr (), w1)"
    and issued: "issue_login_challenge cfg (acc_id a) w1 = (Inr (c, expires), w')" by blast
  from assert_login_rate_limit_only_counts [OF assms(1) limit] obtain s1 where w1: "w1 = w\<lparr>w_redis := s1\<rparr>"
    and kept: "\<And>k. (\<forall>op d h. k \<noteq> rate_key op d h) \<Longrightarrow> s1 k = w_redis w k" by blast
  have same: "s1 (login_lock_key (acc_id a)) = w_redis w (login_lock_key (acc_id a))"
    "s1 (login_challenge_account_key (acc_id a)) = w_redis w (login_challenge_account_key (acc_id a))"
    "s1 (issuance_key ISSUE_LOGIN old) = w_redis w (issuance_key ISSUE_LOGIN old)" for old
    using kept rate_key_apart(2) rate_key_apart(4)
    by (metis, simp add: login_challenge_account_key_def rate_key_def KEY_PREFIX_def, metis)
  have "w_net w1 = []" "w_strings w1 (w_drawn w1) \<noteq> []" "\<And>u. w_strings w1 (w_drawn w1) \<noteq> ''account:'' @ u"
    using assms(1,2) by (auto simp: w1 draws_fresh_def)
  from issue_login_challenge_run [OF this, of cfg "acc_id a"] issued a show ?thesis
    unfolding challenge_current_def w1
    by (simp add: same del: issuance_key.simps) (elim exE conjE, intro exI conjI; (assumption | simp))
qed

lemma still_unlocked:
  "redis_live now s k = None \<Longrightarrow> s' k = s k \<Longrightarrow> now \<le> later \<Longrightarrow> redis_live later s' k = None"
  by (auto simp: redis_live_def split: option.splits if_splits)

lemma account_row:
  assumes "auth_leads empty_db d" and "a \<in> set (accounts d)"
  shows "account_by_id (acc_id a) d = Some a"
  using auth_wf_parts(5) auth_leads_safe [OF assms(1) empty_db_auth_wf] find_unique_key assms(2)
  by (fastforce simp: account_by_id_def)

text \<open>The job of a login that is still the current one.\<close>

lemma login_job_recipient:
  assumes "w_net v = []" and "acc_id a \<noteq> []" and "account_by_id (acc_id a) (w_db v) = Some a"
    and "challenge_stored cfg (acc_id a) c code t (w_redis v)" and "w_clock v < t"
    and "w_redis v (issuance_key ISSUE_LOGIN c) = Some \<lparr>re_value = RText i, re_expires_at = Some t\<rparr>"
  shows "find_login_challenge_user_id c v = (Inr (Some (acc_id a)), v)"
    and "redis_get (w_clock v) (issuance_key ISSUE_LOGIN c) (w_redis v) = Some (RText i)"
    and "login_recipient c i v = (Inr (Some (acc_id a, a)), v)"
proof -
  show user: "find_login_challenge_user_id c v = (Inr (Some (acc_id a)), v)"
    using challenge_stored_found [OF assms(1,4,5,2)] .
  show current: "redis_get (w_clock v) (issuance_key ISSUE_LOGIN c) (w_redis v) = Some (RText i)"
    using assms(5,6) by (simp add: redis_get_def redis_live_def del: issuance_key.simps)
  show "login_recipient c i v = (Inr (Some (acc_id a, a)), v)"
    by (rule login_recipient_run [OF assms(1,3) user current])
qed

text \<open>A stored code completes its login, and no other does.\<close>

lemma stored_code_completes:
  assumes "w_net u = []" and "draws_fresh cfg u" and "acc_id a \<noteq> []" and "acc_status a = ACTIVE_ACCOUNT"
    and "account_by_id (acc_id a) (w_db u) = Some a"
    and "challenge_stored cfg (acc_id a) c code t (w_redis u)" and "w_clock u < t"
    and "redis_live (w_clock u) (w_redis u) (login_lock_key (acc_id a)) = None"
  shows "hmac_code cfg code' = hmac_code cfg code \<longleftrightarrow>
    (\<exists>tokens u'. complete_login cfg c code' u = (Inr tokens, u'))"
proof
  assume eq: "hmac_code cfg code' = hmac_code cfg code"
  have "challenge_stored cfg (acc_id a) c code' t (w_redis u)"
    using assms(6) eq by (simp add: challenge_stored_def challenge_payload_def)
  then show "\<exists>tokens u'. complete_login cfg c code' u = (Inr tokens, u')"
    by (rule complete_login_up [OF assms(1,5,4,2) _ assms(7,3,8)])
next
  assume "\<exists>tokens u'. complete_login cfg c code' u = (Inr tokens, u')"
  then obtain tokens u' where "complete_login cfg c code' u = (Inr tokens, u')" by blast
  from complete_login_steps [OF this] obtain u1 u2 p where
    "consume_login_challenge cfg c code' u1 = (Inr (ChallengeConsumed p), u2)"
    "w_redis u1 = w_redis u" "w_clock u1 = w_clock u" by blast
  from consumed_challenge [OF this(1)] this(2,3) assms(6,7)
  show "hmac_code cfg code' = hmac_code cfg code"
    by (auto simp: challenge_stored_def challenge_payload_def redis_get_def redis_live_def)
qed

text \<open>
  Property C13. A login started with the right password can be completed. When the login answers a
  challenge, a job for it is queued; processing the job within the hour mails the account a code;
  and for an hour from then that code, with the challenge, answers tokens, while any other code is
  refused.
\<close>

theorem login_completes:
  assumes "w_net w = []" and "draws_fresh cfg w" and "\<forall>a \<in> set (accounts (w_db w)). acc_id a \<noteq> []"
    and "auth_leads empty_db (w_db w)" and "start_login cfg raw pw ip w = (Inr (c, expires), w')"
  shows "\<exists>a i. email_create raw = Inr (acc_email a) \<and> a \<in> set (accounts (w_db w))
    \<and> password_matches_account cfg pw (Some (acc_password_hash a)) \<and> acc_status a = ACTIVE_ACCOUNT
    \<and> w_db w' = w_db w
    \<and> w_email_jobs w' = w_email_jobs w @ [SendVerificationCode ISSUE_LOGIN None (Some c) i]
    \<and> (\<forall>v. w_db v = w_db w' \<and> w_redis v = w_redis w' \<and> w_net v = [] \<and> w_clock v < w_clock w + 3600000 \<longrightarrow>
        (\<exists>code v'. process_email_job cfg (SendVerificationCode ISSUE_LOGIN None (Some c) i) v = (Inr (), v')
           \<and> w_mails v' = w_mails v @ [login_mail (acc_email a) code] \<and> code_dto_valid code
           \<and> (\<forall>u code'. w_db u = w_db v' \<and> w_redis u = w_redis v' \<and> w_net u = [] \<and> draws_fresh cfg u
                \<and> w_clock w \<le> w_clock u \<and> w_clock u < w_clock v + 3600000 \<longrightarrow>
                (hmac_code cfg code' = hmac_code cfg code \<longleftrightarrow>
                   (\<exists>tokens u'. complete_login cfg c code' u = (Inr tokens, u'))))))"
proof -
  from started [OF assms(1,2,5)] obtain a i code0 where
    a: "email_create raw = Inr (acc_email a)" "a \<in> set (accounts (w_db w))"
      "password_matches_account cfg pw (Some (acc_password_hash a))" "acc_status a = ACTIVE_ACCOUNT"
    and free: "redis_live (w_clock w) (w_redis w) (login_lock_key (acc_id a)) = None"
    and w': "w_db w' = w_db w" "w_net w' = []" "w_clock w' = w_clock w"
      "w_email_jobs w' = w_email_jobs w @ [SendVerificationCode ISSUE_LOGIN None (Some c) i]"
    and c: "c \<noteq> []" "login_challenge_key c \<noteq> login_challenge_account_key (acc_id a)"
    and stored: "challenge_stored cfg (acc_id a) c code0 (w_clock w + 3600000) (w_redis w')"
    and current: "w_redis w' (issuance_key ISSUE_LOGIN c) =
        Some \<lparr>re_value = RText i, re_expires_at = Some (w_clock w + 3600000)\<rparr>"
    and lock: "w_redis w' (login_lock_key (acc_id a)) = w_redis w (login_lock_key (acc_id a))" by blast
  have id: "acc_id a \<noteq> []" "account_by_id (acc_id a) (w_db w) = Some a"
    using assms(3) a(2) account_row [OF assms(4)] by auto
  have "\<exists>code v'. process_email_job cfg (SendVerificationCode ISSUE_LOGIN None (Some c) i) v = (Inr (), v')
      \<and> w_mails v' = w_mails v @ [login_mail (acc_email a) code] \<and> code_dto_valid code
      \<and> (\<forall>u code'. w_db u = w_db v' \<and> w_redis u = w_redis v' \<and> w_net u = [] \<and> draws_fresh cfg u
           \<and> w_clock w \<le> w_clock u \<and> w_clock u < w_clock v + 3600000 \<longrightarrow>
           (hmac_code cfg code' = hmac_code cfg code \<longleftrightarrow>
              (\<exists>tokens u'. complete_login cfg c code' u = (Inr tokens, u'))))"
    if v: "w_db v = w_db w'" "w_redis v = w_redis w'" "w_net v = []" "w_clock v < w_clock w + 3600000" for v
  proof -
    have row: "account_by_id (acc_id a) (w_db v) = Some a" using id(2) v(1) w'(1) by simp
    note job = login_job_recipient [OF v(3) id(1) row stored [folded v(2)] v(4) current [folded v(2)]]
    obtain code v' where
      run: "process_login cfg (Some c) i v = (Inr (), v')" "code_dto_valid code"
        "w_mails v' = w_mails v @ [login_mail (acc_email a) code]" "w_db v' = w_db v"
        "challenge_stored cfg (acc_id a) c code (w_clock v + 3600000) (w_redis v')"
        "\<And>k. (\<forall>d. k \<noteq> KEY_PREFIX @ ''login-challenge:'' @ d) \<Longrightarrow> w_redis v' k = w_redis v k"
      using process_login_run [OF v(3) c(1) row job(1,2) c(2), of cfg] by blast
    have kept: "w_redis v' (login_lock_key (acc_id a)) = w_redis w (login_lock_key (acc_id a))"
      using run(6) [of "login_lock_key (acc_id a)"] lock v(2) by (simp add: login_lock_key_def KEY_PREFIX_def)
    have "hmac_code cfg code' = hmac_code cfg code \<longleftrightarrow>
        (\<exists>tokens u'. complete_login cfg c code' u = (Inr tokens, u'))"
      if u: "w_db u = w_db v'" "w_redis u = w_redis v'" "w_net u = []" "draws_fresh cfg u"
        "w_clock w \<le> w_clock u" "w_clock u < w_clock v + 3600000" for u code'
      by (rule stored_code_completes [OF u(3,4) id(1) a(4) _ _ u(6)])
        (use row run(4,5) u(1,2) kept still_unlocked [OF free _ u(5), of "w_redis u"] in simp_all)
    with run show ?thesis by (intro exI [of _ code] exI [of _ v']) (simp add: process_email_job_def)
  qed
  with a w' show ?thesis by blast
qed

section \<open>Two logins and a slow worker\<close>

lemma superseded_job_discarded:
  assumes "w_net w = []" and "c \<noteq> []" and "w_redis w (login_challenge_key c) = None"
    and "redis_get (w_clock w) (issuance_key ISSUE_LOGIN c) (w_redis w) = Some (RText i)"
  shows "process_email_job cfg (SendVerificationCode ISSUE_LOGIN None (Some c) i) w = (Inr (), w)"
proof -
  have "find_login_challenge_user_id c w = (Inr None, w)"
    using assms(1,3)
    by (simp add: find_login_challenge_user_id_def redis_service_get_def safe_redis_up run_simps redis_get_def)
  then show ?thesis
    using is_current_issuance_up [OF assms(1)] assms(2,4)
    by (simp add: process_email_job_def process_login_def run_simps del: issuance_key.simps)
qed

text \<open>
  Property C19. A login can be undone by an older one. When the worker has read the challenge of a
  login and a second login of the account starts before it writes, the second login supersedes the
  first, whose job taken up afresh sends nothing; but the interrupted worker goes on to delete the
  second login's challenge, which no code completes any more, and to revive the first, mailing a
  code that does complete it.
\<close>

theorem superseded_login_revived:
  assumes "auth_leads empty_db (w_db w)" and "\<forall>a \<in> set (accounts (w_db w)). acc_id a \<noteq> []"
    and "w_net w = []" and "draws_fresh cfg w" and "start_login cfg raw pw ip w = (Inr (c1, e1), w1)"
    and "w_db v = w_db w1" and "w_redis v = w_redis w1" and "w_net v = []" and "draws_fresh cfg v"
    and "w_clock w \<le> w_clock v" and "w_clock v < w_clock w + 3600000"
    and "start_login cfg raw pw' ip' v = (Inr (c2, e2), w2)" and "c1 \<noteq> c2"
  shows "\<exists>a i code w3. w_email_jobs w1 = w_email_jobs w @ [SendVerificationCode ISSUE_LOGIN None (Some c1) i]
    \<and> login_recipient c1 i v = (Inr (Some (acc_id a, a)), v)
    \<and> process_email_job cfg (SendVerificationCode ISSUE_LOGIN None (Some c1) i) w2 = (Inr (), w2)
    \<and> send_login_code cfg c1 i (acc_id a) a w2 = (Inr (), w3)
    \<and> w_mails w3 = w_mails w2 @ [login_mail (acc_email a) code]
    \<and> (\<forall>u code' r u'. w_redis u = w_redis w3 \<and> complete_login cfg c2 code' u = (r, u') \<longrightarrow>
         r \<in> {Inl invalid_credentials_exception, Inl storage_unavailable_exception})
    \<and> (\<forall>u. w_db u = w_db w3 \<and> w_redis u = w_redis w3 \<and> w_net u = [] \<and> draws_fresh cfg u
         \<and> w_clock v \<le> w_clock u \<and> w_clock u < w_clock v + 3600000 \<longrightarrow>
         (\<exists>tokens u'. complete_login cfg c1 code u = (Inr tokens, u')))"
proof -
  have wf: "auth_wf (w_db w)" using auth_leads_safe [OF assms(1) empty_db_auth_wf] by blast
  from started [OF assms(3,4,5)] obtain a i1 code1 where
    a: "email_create raw = Inr (acc_email a)" "a \<in> set (accounts (w_db w))" "acc_status a = ACTIVE_ACCOUNT"
    and one: "w_db w1 = w_db w" "w_net w1 = []" "w_clock w1 = w_clock w"
      "w_email_jobs w1 = w_email_jobs w @ [SendVerificationCode ISSUE_LOGIN None (Some c1) i1]"
      "c1 \<noteq> []" "login_challenge_key c1 \<noteq> login_challenge_account_key (acc_id a)"
      "challenge_stored cfg (acc_id a) c1 code1 (w_clock w + 3600000) (w_redis w1)"
      "challenge_current (acc_id a) c1 (w_clock w + 3600000) (w_redis w1)"
      "w_redis w1 (issuance_key ISSUE_LOGIN c1) =
        Some \<lparr>re_value = RText i1, re_expires_at = Some (w_clock w + 3600000)\<rparr>" by blast
  from started [OF assms(8,9,12)] obtain b i2 code2 where
    b: "email_create raw = Inr (acc_email b)" "b \<in> set (accounts (w_db v))"
      "redis_live (w_clock v) (w_redis v) (login_lock_key (acc_id b)) = None"
    and two: "w_db w2 = w_db v" "w_net w2 = []" "w_clock w2 = w_clock v"
      "challenge_current (acc_id b) c2 (w_clock v + 3600000) (w_redis w2)"
      "login_challenge_key c2 \<noteq> login_challenge_account_key (acc_id b)"
      "w_redis w2 (login_lock_key (acc_id b)) = w_redis v (login_lock_key (acc_id b))"
    and over: "\<And>old x. challenge_current (acc_id b) old x (w_redis v) \<Longrightarrow> w_clock v < x \<Longrightarrow> old \<noteq> c2 \<Longrightarrow>
         login_challenge_key old \<noteq> login_challenge_account_key (acc_id b) \<Longrightarrow>
         w_redis w2 (login_challenge_key old) = None
         \<and> w_redis w2 (issuance_key ISSUE_LOGIN old) = w_redis v (issuance_key ISSUE_LOGIN old)" by blast
  have "b = a"
    using distinct_key_eq [OF auth_wf_parts(6) [OF wf], of b a] a(1,2) b(1,2) assms(6) one(1) by simp
  note two = two [unfolded this] and over = over [unfolded this] and free = b(3) [unfolded this]
  have id: "acc_id a \<noteq> []" "account_by_id (acc_id a) (w_db v) = Some a"
    using assms(2,6) one(1) a(2) account_row [OF assms(1)] by auto
  note first = login_job_recipient(3) [OF assms(8) id one(7) [folded assms(7)] assms(11) one(9) [folded assms(7)]]
  have gone: "w_redis w2 (login_challenge_key c1) = None"
    "w_redis w2 (issuance_key ISSUE_LOGIN c1) = w_redis v (issuance_key ISSUE_LOGIN c1)"
    using over [of c1 "w_clock w + 3600000"] one(6,8) assms(7,11,13) by auto
  then have current: "redis_get (w_clock w2) (issuance_key ISSUE_LOGIN c1) (w_redis w2) = Some (RText i1)"
    using one(9) assms(7,11) two(3) by (simp add: redis_get_def redis_live_def del: issuance_key.simps)
  note discarded = superseded_job_discarded [OF two(2) one(5) gone(1) current]
  from send_login_code_run [OF two(2) one(6) current, of cfg a] obtain code w3 where
    run: "send_login_code cfg c1 i1 (acc_id a) a w2 = (Inr (), w3)"
      "w_mails w3 = w_mails w2 @ [login_mail (acc_email a) code]" "w_db w3 = w_db w2"
      "challenge_stored cfg (acc_id a) c1 code (w_clock w2 + 3600000) (w_redis w3)"
      "\<And>old x. challenge_current (acc_id a) old x (w_redis w2) \<Longrightarrow> w_clock w2 < x \<Longrightarrow> old \<noteq> c1 \<Longrightarrow>
         login_challenge_key old \<noteq> login_challenge_account_key (acc_id a) \<Longrightarrow>
         w_redis w3 (login_challenge_key old) = None"
      "\<And>k. (\<forall>d. k \<noteq> KEY_PREFIX @ ''login-challenge:'' @ d) \<Longrightarrow> w_redis w3 k = w_redis w2 k"
    by blast
  have "w_redis w3 (login_challenge_key c2) = None"
    using run(5) [OF two(4) _ _ two(5)] two(3) assms(13) by simp
  have lock: "w_redis w3 (login_lock_key (acc_id a)) = w_redis v (login_lock_key (acc_id a))"
    using run(6) [of "login_lock_key (acc_id a)"] two(6) by (simp add: login_lock_key_def KEY_PREFIX_def)
  have refused: "r \<in> {Inl invalid_credentials_exception, Inl storage_unavailable_exception}"
    if "w_redis u = w_redis w3" "complete_login cfg c2 code' u = (r, u')" for u code' r u'
    using absent_challenge_refused [OF _ that(2)] \<open>w_redis w3 (login_challenge_key c2) = None\<close> that(1) by simp
  have revived: "\<exists>tokens u'. complete_login cfg c1 code u = (Inr tokens, u')"
    if u: "w_db u = w_db w3" "w_redis u = w_redis w3" "w_net u = []" "draws_fresh cfg u"
      "w_clock v \<le> w_clock u" "w_clock u < w_clock v + 3600000" for u
    by (rule complete_login_up [OF u(3) _ a(3) u(4) _ u(6) id(1)])
      (use id(2) u(1,2) run(3,4) two(1,3) lock still_unlocked [OF free _ u(5), of "w_redis u"] in simp_all)
  from one(4) first discarded run(1,2) refused revived show ?thesis by blast
qed

end
