(* ===== verification/SessionExamples.thy ===== *)
theory SessionExamples
  imports SessionFlows LoginFlow RouteExamples
begin

text \<open>
  A concrete signing scheme for access tokens, and the flows of logins and sessions run on it.
\<close>

section \<open>A signing scheme\<close>

text \<open>A text is written with a mark before each character and a stop at the end, a number in unary.\<close>

fun write_text :: "string \<Rightarrow> string" where
  "write_text [] = ''.''"
| "write_text (c # s) = CHR ''x'' # c # write_text s"

fun read_text :: "string \<Rightarrow> string \<times> string" where
  "read_text (c # d # s) = (if c = CHR ''x'' then (case read_text s of (t, r) \<Rightarrow> (d # t, r)) else ([], d # s))"
| "read_text s = ([], [])"

definition write_int :: "int \<Rightarrow> string" where
  "write_int n = write_text ((if n < 0 then CHR ''-'' else CHR ''+'') # replicate (nat \<bar>n\<bar>) (CHR ''1''))"

definition read_int :: "string \<Rightarrow> int" where
  "read_int s = (if hd s = CHR ''-'' then - int (length (tl s)) else int (length (tl s)))"

lemma read_write_text: "read_text (write_text s @ r) = (s, r)"
  by (induction s) (cases r; simp)+

lemma read_write_int: "read_int (fst (read_text (write_int n @ r))) = n"
  by (simp add: write_int_def read_write_text read_int_def)

definition signed :: "string \<Rightarrow> instant \<Rightarrow> (string \<times> json) list \<Rightarrow> nat \<Rightarrow> string" where
  "signed secret now claims ttl =
     concat (map (\<lambda>k. write_text (json_text (JObj claims) k)) [''sub'', ''role'', ''sessionId''])
       @ write_int (now div 1000) @ write_int (int ttl) @ write_text secret"

definition checked :: "string \<Rightarrow> instant \<Rightarrow> string \<Rightarrow> string + json" where
  "checked secret now token =
     (let (user, r) = read_text token; (role, r) = read_text r; (session, r) = read_text r;
          (issued, r) = read_text r; (ttl, r) = read_text r; expiry = read_int issued + read_int ttl
      in if fst (read_text r) \<noteq> secret then Inl ''invalid signature''
         else if now div 1000 < expiry
         then Inr (JObj [(''sub'', JStr user), (''role'', JStr role), (''sessionId'', JStr session),
                         (''iat'', JNum (read_int issued)), (''exp'', JNum expiry)])
         else Inl ''jwt expired'')"

definition signing_cfg :: auth_config where
  "signing_cfg = sample_cfg\<lparr>ac_jwt_sign := signed, ac_jwt_verify := checked\<rparr>"

lemma read_written:
  "read_text (write_text s @ r) = (s, r)" "read_text (write_text s) = (s, [])"
  "read_text (write_int n @ r) = ((if n < 0 then CHR ''-'' else CHR ''+'') # replicate (nat \<bar>n\<bar>) (CHR ''1''), r)"
  using read_write_text [of s r] read_write_text [of s "[]"] by (simp_all add: write_int_def read_write_text)

lemma signing_faithful: "jwt_faithful signing_cfg"
  by (simp add: jwt_faithful_def signing_cfg_def signed_def checked_def json_text_def read_written read_int_def Let_def)

section \<open>A login and its tokens\<close>

lemma signing_hash: "hash_token signing_cfg t = ''T/'' @ t"
  by (simp add: hash_token_def signing_cfg_def sample_cfg_def)

lemma signing_hash_same: "hash_token signing_cfg = hash_token sample_cfg"
  by (simp add: hash_token_def signing_cfg_def fun_eq_iff)

definition login_body :: json where
  "login_body = JObj [(''challengeId'', JStr ''c1''), (''code'', JStr ''123456'')]"

lemma login_signed: "\<exists>reply. route_verify_login signing_cfg sample_guards sample_vd login_body challenged_world
    = (Inr reply, snd (route_verify_login signing_cfg sample_guards sample_vd login_body challenged_world))"
proof -
  have "consume_login_challenge signing_cfg ''c1'' ''123456'' challenged_world =
      consume_login_challenge sample_cfg ''c1'' ''123456'' challenged_world"
    by (simp add: consume_login_challenge_def hmac_code_def signing_cfg_def)
  note steps = challenge_steps(1,3,4) this [unfolded challenge_steps(2)]
  from open_used_of [OF signing_hash] obtain x w' where "open_session signing_cfg ''u1'' used_world = (Inr x, w')" by blast
  moreover have "code_dto_valid ''123456''" by code_simp
  ultimately show ?thesis
    by (simp add: route_verify_login_def validation_pipe_def login_body_def verify_login_dto_def only_fields_def
        string_field_def json_text_def sample_vd_def complete_login_def with_security_storage_def run_simps steps)
qed

lemma fresh_day: "four_digit_day (day_of_instant (1000 + SESSION_TTL_MS))"
  unfolding SESSION_TTL_MS_def by code_simp

theorem login_tokens_accepted_witness:
  "\<exists>access csrf refresh_token session_id. tokens_accepted signing_cfg sample_guards
     (snd (route_verify_login signing_cfg sample_guards sample_vd login_body challenged_world)) 1000
     \<lparr>pr_user_id = ''u1'', pr_role = ''USER'', pr_session_id = session_id\<rparr> access csrf refresh_token"
proof -
  from login_signed obtain reply where r: "route_verify_login signing_cfg sample_guards sample_vd login_body
      challenged_world = (Inr reply, snd (route_verify_login signing_cfg sample_guards sample_vd login_body
      challenged_world))" by blast
  have "auth_leads empty_db (w_db challenged_world)" "w_clock challenged_world = 1000"
    "accounts (w_db challenged_world) = [account_u1 ACTIVE_ACCOUNT]"
    using db_active_reached by (simp_all add: challenged_world_def auth_world_def db_active_eq)
  with login_tokens_accepted [OF this(1) signing_faithful r] fresh_day
  show ?thesis by (auto simp: account_u1_def)
qed

text \<open>The session of \<open>sample_guarded\<close>, refreshed.\<close>

theorem refreshed_tokens_accepted_witness:
  "\<exists>access refresh_token. tokens_accepted signing_cfg sample_guards
     (snd (route_refresh signing_cfg sample_guards sample_guarded world1)) 1000
     \<lparr>pr_user_id = ''u1'', pr_role = ''USER'', pr_session_id = ''s1''\<rparr> access ''c1'' refresh_token"
proof -
  obtain x w' where x: "refresh (app_sessions signing_cfg) ''r1'' world1 = (Inr x, w')"
    using refresh_world1_of [OF signing_hash] by blast
  have s: "csrf_session sample_cfg ''r1'' (w_db world1) = Some session_s1"
    by (simp add: csrf_session_def world1_def auth_world_def db_logged_in_eq hash_token_def
        sample_cfg_def session_s1_def)
  have "csrf_origin_guard signing_cfg sample_guards sample_guarded world1 =
      csrf_origin_guard sample_cfg sample_guards sample_guarded world1"
    unfolding csrf_origin_guard_def resolve_csrf_session_def signing_hash_same ..
  then have guard: "csrf_origin_guard signing_cfg sample_guards sample_guarded world1 = (Inr (), world1)"
    using sample_guard_passes [OF s] by (simp add: session_s1_def)
  have r: "\<exists>reply. route_refresh signing_cfg sample_guards sample_guarded world1 =
      (Inr reply, snd (route_refresh signing_cfg sample_guards sample_guarded world1))"
    using x guard by (simp add: route_refresh_def refresh_session_def with_security_storage_def run_simps
        read_refresh_cookie_def sample_cookie)
  then obtain reply where reply: "route_refresh signing_cfg sample_guards sample_guarded world1 =
      (Inr reply, snd (route_refresh signing_cfg sample_guards sample_guarded world1))" by blast
  have pres: "presents sample_guards ''c1'' ''r1'' sample_guarded"
    by (simp add: presents_def csrf_header_def sample_guarded_def sample_guards_def js_trim_def js_space_def
        resolve_origin_def)
  have w: "auth_leads empty_db (w_db world1)" "w_clock world1 = 1000"
    "sessions (w_db world1) = [session_s1]"
    by (simp_all add: world1_def auth_world_def db_logged_in_reached) (simp add: db_logged_in_eq)
  have "four_digit_day (day_of_instant (w_clock world1 + SESSION_TTL_MS))" using fresh_day w(2) by simp
  from refreshed_tokens_accepted [OF w(1) signing_faithful reply pres this]
  obtain access token s and a :: account where s': "s \<in> set (sessions (w_db world1))"
    and t: "tokens_accepted signing_cfg sample_guards
      (snd (route_refresh signing_cfg sample_guards sample_guarded world1)) (w_clock world1)
      \<lparr>pr_user_id = ses_user_id s, pr_role = role_text (acc_role a), pr_session_id = ses_id s\<rparr> access ''c1'' token"
    by (elim exE conjE) (rule that)
  have "s = session_s1" using s' w(3) by simp
  moreover have "role_text (acc_role a) = ''USER''" by (cases "acc_role a") simp
  ultimately show ?thesis using t w(2) by (intro exI) (simp add: session_s1_def)
qed

section \<open>Logins\<close>

lemma start_login_up:
  assumes "w_net w = []" and "draws_fresh cfg w" and "email_create raw = Inr (acc_email a)"
    and "find (\<lambda>b. acc_email b = acc_email a) (accounts (w_db w)) = Some a"
    and "password_matches_account cfg pw (Some (acc_password_hash a))" and "acc_status a = ACTIVE_ACCOUNT"
    and "redis_live (w_clock w) (w_redis w) (login_lock_key (acc_id a)) = None"
    and "increment_rate_limit_lua (login_rate_key cfg (acc_email a) ip) LOGIN_RATE_LIMIT_TTL_SECONDS
      (w_clock w) (w_redis w) = Some (n, s)" and "n \<le> 10"
  shows "\<exists>c expires w'. start_login cfg raw pw ip w = (Inr (c, expires), w') \<and> c = w_strings w (w_drawn w)"
proof -
  let ?w1 = "w\<lparr>w_redis := s\<rparr>"
  have limit: "assert_login_rate_limit cfg (acc_email a) ip w = (Inr (), ?w1)"
    using assert_login_rate_limit_up [OF assms(1,8)] assms(9) by simp
  have "s (login_lock_key (acc_id a)) = w_redis w (login_lock_key (acc_id a))"
    using increment_rate_limit_keeps [OF assms(8) [unfolded login_rate_key_def]] rate_key_apart(2) by metis
  then have free: "is_login_locked (acc_id a) ?w1 = (Inr False, ?w1)"
    using is_login_locked_up [of ?w1] assms(1,7) by (simp add: redis_live_def)
  have "\<exists>w'. issue_login_challenge cfg (acc_id a) ?w1 =
      (Inr (w_strings w (w_drawn w), to_iso_string (w_clock w + 3600000)), w')"
  proof -
    from assms(1,2) have "w_net ?w1 = []" "w_strings ?w1 (w_drawn ?w1) \<noteq> []"
      "\<And>u. w_strings ?w1 (w_drawn ?w1) \<noteq> ''account:'' @ u" by (auto simp: draws_fresh_def)
    from issue_login_challenge_run [OF this, of cfg "acc_id a"] obtain c w' where
      "issue_login_challenge cfg (acc_id a) ?w1 = (Inr (c, to_iso_string (w_clock w + 3600000)), w')" by auto
    then show ?thesis
      by (auto simp: issue_login_challenge_def generate_challenge_id_def draw_string_def now_io_def run_simps
          split: prod.splits sum.splits)
  qed
  with limit free assms(3-6) show ?thesis
    by (auto simp: start_login_def parse_email_def run_simps with_security_storage_def db_op_def
        find_account_by_email_def)
qed

definition login_world :: world where
  "login_world = (auth_world db_active)\<lparr>w_strings := (\<lambda>n. if n < 3 then ''x'' else ''y'')\<rparr>"

lemma sample_credentials:
  "email_create ''a@b.c'' = Inr ''a@b.c''"
  "password_matches_account sample_cfg ''Secret-123'' (Some sample_hash)"
  by code_simp+


text \<open>The first login of the account, and a second one before the job of the first is done.\<close>

lemma login_world_facts:
  "w_net login_world = []" "auth_leads empty_db (w_db login_world)"
  "\<forall>a \<in> set (accounts (w_db login_world)). acc_id a \<noteq> []" "draws_fresh sample_cfg login_world"
  "w_redis login_world = (\<lambda>k. None)" "w_clock login_world = 1000" "w_db login_world = db_active"
  using db_active_reached
  by (simp_all add: login_world_def auth_world_def)
    (auto simp: db_active_eq empty_db_def account_u1_def draws_fresh_def hash_token_def sample_cfg_def)

lemma first_login:
  "\<exists>c expires w'. start_login sample_cfg ''a@b.c'' ''Secret-123'' ''ip'' login_world = (Inr (c, expires), w') \<and> c = ''x''"
proof -
  let ?a = "account_u1 ACTIVE_ACCOUNT" and ?w = login_world
  have "\<exists>s. increment_rate_limit_lua (login_rate_key sample_cfg (acc_email ?a) ''ip'') LOGIN_RATE_LIMIT_TTL_SECONDS
      (w_clock ?w) (w_redis ?w) = Some (1, s)"
    by (simp add: increment_rate_limit_lua_def redis_incr_def login_world_facts)
  then obtain s where s: "increment_rate_limit_lua (login_rate_key sample_cfg (acc_email ?a) ''ip'')
      LOGIN_RATE_LIMIT_TTL_SECONDS (w_clock ?w) (w_redis ?w) = Some (1, s)" ..
  have "w_strings ?w (w_drawn ?w) = ''x''" by (simp add: login_world_def auth_world_def)
  with start_login_up [OF login_world_facts(1,4) _ _ _ _ _ s] sample_credentials show ?thesis
    by (auto simp: account_u1_def login_world_facts db_active_eq)
qed

theorem login_completes_witness:
  "\<exists>c i expires w'. start_login sample_cfg ''a@b.c'' ''Secret-123'' ''ip'' login_world = (Inr (c, expires), w')
    \<and> w_email_jobs w' = [SendVerificationCode ISSUE_LOGIN None (Some c) i]"
proof -
  from first_login obtain c expires w' where
    start: "start_login sample_cfg ''a@b.c'' ''Secret-123'' ''ip'' login_world = (Inr (c, expires), w')" by blast
  from login_completes [OF login_world_facts(1,4,3,2) start] obtain i where
    "w_email_jobs w' = w_email_jobs login_world @ [SendVerificationCode ISSUE_LOGIN None (Some c) i]"
    by (elim exE conjE) (rule that)
  with start show ?thesis by (auto simp: login_world_def auth_world_def)
qed

theorem superseded_login_revived_witness:
  "\<exists>c1 e1 w1 c2 e2 w2 i code w3 a.
     start_login sample_cfg ''a@b.c'' ''Secret-123'' ''ip'' login_world = (Inr (c1, e1), w1)
     \<and> start_login sample_cfg ''a@b.c'' ''Secret-123'' ''ip'' (w1\<lparr>w_strings := (\<lambda>_. ''y'')\<rparr>) = (Inr (c2, e2), w2)
     \<and> send_login_code sample_cfg c1 i (acc_id a) a w2 = (Inr (), w3)
     \<and> w_mails w3 = w_mails w2 @ [login_mail (acc_email a) code]"
proof -
  let ?a = "account_u1 ACTIVE_ACCOUNT" and ?key = "login_rate_key sample_cfg ''a@b.c'' ''ip''"
  from first_login obtain e1 w1 where
    one: "start_login sample_cfg ''a@b.c'' ''Secret-123'' ''ip'' login_world = (Inr (''x'', e1), w1)" by blast
  from started [OF login_world_facts(1,4) one] have w1: "w_db w1 = db_active" "w_net w1 = []" "w_clock w1 = 1000"
    and lock: "w_redis w1 (login_lock_key ''u1'') = None"
    using login_world_facts sample_credentials(1) by (auto simp: db_active_eq account_u1_def)
  from start_login_counts [OF sample_credentials(1) login_world_facts(1) one, of 0 0 1 901000]
  have counted: "counts 1 901000 ?key (w_redis w1)" by (simp add: login_world_facts)
  let ?v = "w1\<lparr>w_strings := (\<lambda>_. ''y'')\<rparr>"
  have v: "w_net ?v = []" "w_clock ?v = 1000" "w_db ?v = db_active" "draws_fresh sample_cfg ?v"
    using w1 by (auto simp: draws_fresh_def db_active_eq empty_db_def hash_token_def sample_cfg_def)
  obtain s where s: "increment_rate_limit_lua ?key LOGIN_RATE_LIMIT_TTL_SECONDS
      (w_clock ?v) (w_redis ?v) = Some (2, s)"
    using counter_step [where now = 1000 and s = "w_redis ?v" and k = ?key and n = 1 and x = 901000
        and v = 2 and y = 901000 and ttl = LOGIN_RATE_LIMIT_TTL_SECONDS] counted v(2) counts_live [OF counted, of 1000]
    by auto
  have "\<exists>c e2 w2. start_login sample_cfg ''a@b.c'' ''Secret-123'' ''ip'' ?v = (Inr (c, e2), w2)
      \<and> c = w_strings ?v (w_drawn ?v)"
    by (rule start_login_up [OF v(1,4), where a = ?a and n = 2 and s = s])
      (use s lock sample_credentials v in \<open>auto simp: account_u1_def db_active_eq\<close>)
  then obtain e2 w2 where two: "start_login sample_cfg ''a@b.c'' ''Secret-123'' ''ip'' ?v = (Inr (''y'', e2), w2)"
    by auto
  from superseded_login_revived [OF login_world_facts(2,3,1,4) one _ _ v(1,4) _ _ two]
  obtain a i code w3 where "send_login_code sample_cfg ''x'' i (acc_id a) a w2 = (Inr (), w3)"
    "w_mails w3 = w_mails w2 @ [login_mail (acc_email a) code]"
    using w1 login_world_facts by auto
  with one two show ?thesis by blast
qed

end
