(* ===== verification/Bootstrap.thy ===== *)
theory Bootstrap
  imports LinkRoutes PublicResolve EmailWorker
begin

text \<open>
  What the processes are put together from: the options of the database, Redis, queue and mail
  clients (data-source.ts, redis.service.ts, redis.module.ts, smtp-mail.service.ts, database.module.ts),
  the providers the modules construct (auth.module.ts, links.module.ts, link-statistics.module.ts),
  the opening of the country database (local-country-resolver.service.ts), and the settings of the
  HTTP application (main.ts). Every part reads the validated environment.
\<close>

section \<open>Clients\<close>

record data_source_options =
  ds_type :: string
  ds_host :: string
  ds_port :: int
  ds_username :: string
  ds_password :: string
  ds_database :: string
  ds_synchronize :: bool
  ds_entities :: "string list"
  ds_migrations :: "string list"

definition build_data_source_options :: "url_parser \<Rightarrow> string \<Rightarrow> env \<Rightarrow> exn + data_source_options" where
  "build_data_source_options parse dirname e =
     and_then (validate_environment parse e) (\<lambda>config. Inr
       \<lparr>ds_type = ''postgres'',
        ds_host = pc_host (env_postgres config),
        ds_port = pc_port (env_postgres config),
        ds_username = pc_user (env_postgres config),
        ds_password = pc_password (env_postgres config),
        ds_database = pc_db (env_postgres config),
        ds_synchronize = False,
        ds_entities = [dirname @ ''/**/*.entity{.ts,.js}''],
        ds_migrations = [dirname @ ''/migrations/*{.ts,.js}'']\<rparr>)"

record redis_options =
  ro_host :: string
  ro_port :: int
  ro_lazy_connect :: bool

definition redis_client_options :: "url_parser \<Rightarrow> env \<Rightarrow> exn + redis_options" where
  "redis_client_options parse e =
     and_then (validate_environment parse e) (\<lambda>config. Inr
       \<lparr>ro_host = ep_host (env_redis config), ro_port = ep_port (env_redis config), ro_lazy_connect = False\<rparr>)"

record job_options =
  jo_attempts :: int
  jo_backoff_type :: string
  jo_backoff_delay :: int
  jo_remove_on_complete :: bool
  jo_remove_on_fail :: bool

definition default_job_options :: "queue_config \<Rightarrow> job_options" where
  "default_job_options queue =
     \<lparr>jo_attempts = qc_attempts queue, jo_backoff_type = ''exponential'',
      jo_backoff_delay = qc_backoff_ms queue, jo_remove_on_complete = True, jo_remove_on_fail = False\<rparr>"

definition AUTH_EMAIL_QUEUE :: string where
  "AUTH_EMAIL_QUEUE = ''auth-email''"

definition LINK_STATS_QUEUE :: string where
  "LINK_STATS_QUEUE = ''link-statistics''"

text \<open>The root options hold for every queue that does not register its own.\<close>

definition bull_root_options :: "url_parser \<Rightarrow> env \<Rightarrow> exn + (endpoint \<times> job_options)" where
  "bull_root_options parse e =
     and_then (validate_environment parse e) (\<lambda>config.
       Inr (env_redis config, default_job_options (env_email_queue config)))"

definition link_stats_queue_options :: "url_parser \<Rightarrow> env \<Rightarrow> exn + job_options" where
  "link_stats_queue_options parse e =
     and_then (validate_environment parse e) (\<lambda>config.
       Inr (default_job_options (env_link_stats_queue config)))"

definition job_options_of :: "url_parser \<Rightarrow> env \<Rightarrow> string \<Rightarrow> exn + job_options" where
  "job_options_of parse e queue =
     (if queue = LINK_STATS_QUEUE then link_stats_queue_options parse e
      else and_then (bull_root_options parse e) (\<lambda>(_, options). Inr options))"

text \<open>What \<open>QueueLinkAccessCollector\<close> passes with each job: an identifier that makes a repeated job one job.\<close>

record added_job_options =
  ao_job_id :: string
  ao_attempts :: int
  ao_backoff_type :: string
  ao_backoff_delay :: int

definition access_job_options :: "queue_config \<Rightarrow> access_job \<Rightarrow> added_job_options" where
  "access_job_options queue job =
     \<lparr>ao_job_id = ''access-'' @ aj_event_id job, ao_attempts = qc_attempts queue,
      ao_backoff_type = ''exponential'', ao_backoff_delay = qc_backoff_ms queue\<rparr>"

record smtp_service =
  sm_from :: string
  sm_host :: string
  sm_port :: int
  sm_secure :: bool

definition smtp_mail_service :: "url_parser \<Rightarrow> env \<Rightarrow> exn + smtp_service" where
  "smtp_mail_service parse e =
     and_then (validate_environment parse e) (\<lambda>config. Inr
       \<lparr>sm_from = env_mail_from config, sm_host = ep_host (env_mailpit config),
        sm_port = ep_port (env_mailpit config), sm_secure = False\<rparr>)"

section \<open>The country database\<close>

text \<open>
  The resolver: \<open>reader\<close> is \<open>undefined\<close> until the database was opened, \<open>null\<close> when there is none;
  a promise of the opening exists from the first \<open>whenReady\<close> on. The count of openings is ghost state.
\<close>

datatype reader_state = Unopened | NoReader | Opened country_reader

record local_country_resolver =
  lc_reader :: reader_state
  lc_db_path :: "string option"
  lc_open_started :: bool
  lc_opened_times :: nat

text \<open>The constructor: with no argument the path of the environment, else the one given.\<close>

definition new_country_resolver ::
  "url_parser \<Rightarrow> env \<Rightarrow> string option option \<Rightarrow> exn + local_country_resolver" where
  "new_country_resolver parse e argument =
     and_then (case argument of
         None \<Rightarrow> and_then (validate_environment parse e) (\<lambda>config. Inr (env_geoip_country_db_path config))
       | Some path \<Rightarrow> Inr path)
       (\<lambda>path. Inr \<lparr>lc_reader = Unopened, lc_db_path = path, lc_open_started = False, lc_opened_times = 0\<rparr>)"

text \<open>Opening with the library's \<open>open_reader\<close>, which fails on a missing or damaged file.\<close>

definition open_database ::
  "(string \<Rightarrow> country_reader option) \<Rightarrow> local_country_resolver \<Rightarrow> local_country_resolver" where
  "open_database open_reader r =
     (let n = Suc (lc_opened_times r)
      in if (case lc_db_path r of None \<Rightarrow> True | Some path \<Rightarrow> path = [])
         then r\<lparr>lc_reader := NoReader, lc_opened_times := n\<rparr>
         else (case open_reader (the (lc_db_path r)) of
                 None \<Rightarrow> r\<lparr>lc_reader := NoReader, lc_opened_times := n\<rparr>
               | Some reader \<Rightarrow> r\<lparr>lc_reader := Opened reader, lc_opened_times := n\<rparr>))"

definition when_ready ::
  "(string \<Rightarrow> country_reader option) \<Rightarrow> local_country_resolver \<Rightarrow> local_country_resolver" where
  "when_ready open_reader r =
     (if lc_open_started r then r else (open_database open_reader r)\<lparr>lc_open_started := True\<rparr>)"

fun usable_reader :: "reader_state \<Rightarrow> country_reader option" where
  "usable_reader (Opened reader) = Some reader"
| "usable_reader _ = None"

definition resolver_country :: "local_country_resolver \<Rightarrow> string \<Rightarrow> string" where
  "resolver_country r ip = resolve_country (usable_reader (lc_reader r)) ip"

section \<open>Providers\<close>

text \<open>
  The functions of Node, bcrypt and the JSON web token library, without secrets; the router of
  Express, which matches a pattern against a path and answers the parameters, and the exception the
  framework throws for a request without a route.
\<close>

datatype segment = Fixed string | LinkIdParam

type_synonym router = "segment list \<Rightarrow> string \<Rightarrow> string list option"

record primitives =
  pm_hmac_sha256 :: hmac
  pm_sha256 :: "string \<Rightarrow> string"
  pm_jwt_sign :: "string \<Rightarrow> instant \<Rightarrow> (string \<times> json) list \<Rightarrow> nat \<Rightarrow> string"
  pm_jwt_verify :: "string \<Rightarrow> instant \<Rightarrow> string \<Rightarrow> string + json"
  pm_bcrypt_hash :: "string \<Rightarrow> nat \<Rightarrow> string \<Rightarrow> string"
  pm_bcrypt_compare :: "string \<Rightarrow> string \<Rightarrow> bool"
  pm_url :: url_parser
  pm_origin_of :: "string \<Rightarrow> string option"
  pm_decode_uri_component :: "string \<Rightarrow> string option"
  pm_validator :: validator
  pm_router :: router
  pm_no_route :: "http_request \<Rightarrow> exn"

definition auth_crypto_of :: "primitives \<Rightarrow> app_environment \<Rightarrow> auth_config" where
  "auth_crypto_of p config =
     \<lparr>ac_hmac_sha256 = pm_hmac_sha256 p, ac_sha256 = pm_sha256 p, ac_jwt_sign = pm_jwt_sign p,
      ac_jwt_verify = pm_jwt_verify p, ac_bcrypt_hash = pm_bcrypt_hash p,
      ac_bcrypt_compare = pm_bcrypt_compare p,
      ac_hmac_secret = env_auth_hmac_secret config,
      ac_token_hash_secret = env_auth_token_hash_secret config,
      ac_jwt_access_secret = env_jwt_access_secret config,
      ac_frontend_reset_url = env_frontend_reset_url config\<rparr>"

definition guards_of :: "primitives \<Rightarrow> env \<Rightarrow> app_environment \<Rightarrow> guard_config" where
  "guards_of p e config =
     \<lparr>gc_allowed_origins = env_cors_allowed_origins config, gc_refresh_cookie_name = refresh_cookie_name e,
      gc_url_origin = pm_origin_of p, gc_decode_uri_component = pm_decode_uri_component p\<rparr>"

definition links_service_of :: "primitives \<Rightarrow> app_environment \<Rightarrow> world links_deps" where
  "links_service_of p config =
     app_links (nat (env_link_resolution_cache_ttl_seconds config)) (env_public_short_url_base config)
       (nat (env_link_code_generation_max_attempts config)) (pm_url p)"

text \<open>The test routes exist under \<open>NODE_ENV=test\<close> and in a Jest worker.\<close>

definition test_controllers :: "env \<Rightarrow> bool" where
  "test_controllers e \<longleftrightarrow> e ''NODE_ENV'' = Some ''test'' \<or> e ''JEST_WORKER_ID'' \<noteq> None"

text \<open>The middleware's dependencies: all four providers or none.\<close>

definition resolve_access_collection_deps ::
  "bool \<Rightarrow> bool \<Rightarrow> (hmac \<times> string) option \<Rightarrow> country_reader option option \<Rightarrow> collection_deps option" where
  "resolve_access_collection_deps collector detector pseudonymizer resolver =
     (case (pseudonymizer, resolver) of
        (Some (hmac, secret), Some reader) \<Rightarrow>
          if collector \<and> detector
          then Some \<lparr>cd_reader = reader, cd_hmac = hmac, cd_secret = secret\<rparr> else None
      | _ \<Rightarrow> None)"

section \<open>The HTTP application\<close>

definition JSON_PAYLOAD_LIMIT :: string where
  "JSON_PAYLOAD_LIMIT = ''100kb''"

record app_settings =
  as_public_resolve_first :: bool
  as_global_prefix :: string
  as_json_limit :: string
  as_cors_origins :: "string list"
  as_cors_credentials :: bool
  as_trust_proxy :: "nat option"

definition configure_app :: "app_environment \<Rightarrow> app_settings" where
  "configure_app config =
     \<lparr>as_public_resolve_first = True,
      as_global_prefix = ''api/v1'',
      as_json_limit = JSON_PAYLOAD_LIMIT,
      as_cors_origins = env_cors_allowed_origins config,
      as_cors_credentials = True,
      as_trust_proxy = (if env_trust_proxy config then Some 1 else None)\<rparr>"

section \<open>What the configuration guarantees\<close>

lemma validated_country_path:
  "validate_environment parse e = Inr config \<Longrightarrow>
     env_geoip_country_db_path config = parse_optional_path (e ''GEOIP_COUNTRY_DB_PATH'')"
  using validate_environment_steps [of parse e config] by blast

text \<open>
  The country database is opened at most once, however often the resolver is made
  ready, and never before; until then, without a path, and when it cannot be opened, every address
  resolves to the unknown country, and afterwards to what its reader finds.
\<close>

theorem country_database_opened_once:
  assumes "new_country_resolver parse e argument = Inr r"
  shows "let ready = (when_ready open_reader ^^ n) r;
             path = (case argument of None \<Rightarrow> parse_optional_path (e ''GEOIP_COUNTRY_DB_PATH'') | Some p \<Rightarrow> p)
         in lc_opened_times ready = (if n = 0 then 0 else 1)
          \<and> resolver_country ready ip =
              (case if n = 0 then None else Option.bind path (\<lambda>p. if p = [] then None else open_reader p) of
                 None \<Rightarrow> UNKNOWN_COUNTRY
               | Some reader \<Rightarrow> resolve_country (Some reader) ip)"
proof -
  define path where "path = (case argument of None \<Rightarrow> parse_optional_path (e ''GEOIP_COUNTRY_DB_PATH'') | Some p \<Rightarrow> p)"
  from assms have r: "r = \<lparr>lc_reader = Unopened, lc_db_path = path, lc_open_started = False, lc_opened_times = 0\<rparr>"
    by (auto simp: new_country_resolver_def and_then_Inr path_def validated_country_path split: option.splits)
  have ready: "(when_ready open_reader ^^ Suc k) r = when_ready open_reader r" for k
    by (induction k) (simp_all add: when_ready_def)
  have "resolve_country None ip = UNKNOWN_COUNTRY" by (simp add: resolve_country_def)
  then show ?thesis
    unfolding path_def [symmetric] Let_def
    by (cases n)
      (simp_all add: r resolver_country_def ready [unfolded r] when_ready_def open_database_def
        split: option.splits del: funpow.simps(2))
qed

text \<open>A booted process has a positive lifetime for cached links and attempts for codes.\<close>

lemma links_service_positive:
  assumes "validate_environment parse e = Inr config"
  shows "0 < nat (env_link_resolution_cache_ttl_seconds config)"
    and "0 < nat (env_link_code_generation_max_attempts config)"
  using validate_environment_steps [OF assms] positive_or_default_ok by fastforce+

end
