(* ===== verification/Server.thy ===== *)
theory Server
  imports Bootstrap
begin

text \<open>
  The whole API: src/src/main.ts puts the public redirect in front, then the routes of the
  controllers under the prefix api/v1, whose exceptions the filter answers. The route table is the
  one of the controllers' decorators (auth.controller.ts, links.controller.ts,
  link-statistics.controller.ts, app.controller.ts, auth-test.controller.ts). The router of Express
  is a parameter; \<open>express_router\<close> states what its documentation promises. The body and the query
  are the values the framework has parsed.
\<close>

section \<open>Routes\<close>

datatype api_handler =
    GetHello
  | Register | VerifyEmail | ResendEmailVerification | Login | VerifyLogin | RefreshTokens | Logout
  | ForgotPassword | ResetPassword
  | ProtectedRoute
  | LinksCreate | LinksList | LinksDeactivate | LinksReactivate | LinkReport

type_synonym route = "string \<times> segment list \<times> api_handler"

definition auth_routes :: "route list" where
  "auth_routes = map (\<lambda>(name, handler). (''POST'', [Fixed ''auth'', Fixed name], handler))
     [(''register'', Register), (''verify-email'', VerifyEmail),
      (''resend-email-verification'', ResendEmailVerification), (''login'', Login),
      (''verify-login'', VerifyLogin), (''refresh'', RefreshTokens), (''logout'', Logout),
      (''forgot-password'', ForgotPassword), (''reset-password'', ResetPassword)]"

definition test_routes :: "route list" where
  "test_routes = [(''GET'', [Fixed ''auth'', Fixed ''test'', Fixed ''protected''], ProtectedRoute)]"

definition links_routes :: "route list" where
  "links_routes =
     [(''POST'', [Fixed ''links''], LinksCreate), (''GET'', [Fixed ''links''], LinksList),
      (''PATCH'', [Fixed ''links'', LinkIdParam, Fixed ''deactivate''], LinksDeactivate),
      (''PATCH'', [Fixed ''links'', LinkIdParam, Fixed ''reactivate''], LinksReactivate)]"

definition statistics_routes :: "route list" where
  "statistics_routes = [(''GET'', [Fixed ''links'', LinkIdParam, Fixed ''statistics''], LinkReport)]"

definition app_routes :: "route list" where
  "app_routes = [(''GET'', [], GetHello)]"

definition api_routes :: "bool \<Rightarrow> route list" where
  "api_routes testing = auth_routes @ (if testing then test_routes else [])
     @ links_routes @ statistics_routes @ app_routes"

definition API_PREFIX :: "segment list" where
  "API_PREFIX = [Fixed ''api'', Fixed ''v1'']"

text \<open>A route serves its verb, one for GET serves HEAD too.\<close>

definition match_route ::
  "router \<Rightarrow> string \<Rightarrow> string \<Rightarrow> route \<Rightarrow> (api_handler \<times> string list) option" where
  "match_route router http_method path r =
     (case r of (verb, segs, handler) \<Rightarrow>
        if http_method = verb \<or> (verb = ''GET'' \<and> http_method = ''HEAD'')
        then map_option (\<lambda>params. (handler, params)) (router (API_PREFIX @ segs) path)
        else None)"

fun dispatch :: "router \<Rightarrow> route list \<Rightarrow> string \<Rightarrow> string \<Rightarrow> (api_handler \<times> string list) option" where
  "dispatch router [] http_method path = None"
| "dispatch router (r # routes) http_method path =
     (case match_route router http_method path r of
        Some m \<Rightarrow> Some m
      | None \<Rightarrow> dispatch router routes http_method path)"

text \<open>
  What Express documents: a pattern matches only paths with one segment for each of its own, the
  fixed ones equal up to case, a parameter not empty; a slash at the end does not count.
\<close>

definition path_segments :: "string \<Rightarrow> string list" where
  "path_segments path =
     (let parts = tl (split_on (CHR ''/'') path)
      in if parts \<noteq> [] \<and> last parts = [] then butlast parts else parts)"

fun path_fits :: "segment list \<Rightarrow> string list \<Rightarrow> bool" where
  "path_fits [] [] = True"
| "path_fits (Fixed name # segs) (part # parts) = (to_lower_case part = name \<and> path_fits segs parts)"
| "path_fits (LinkIdParam # segs) (part # parts) = (part \<noteq> [] \<and> path_fits segs parts)"
| "path_fits _ _ = False"

definition express_router :: "router \<Rightarrow> bool" where
  "express_router router \<longleftrightarrow>
     (\<forall>pattern path params. router pattern path = Some params \<longrightarrow> path_fits pattern (path_segments path))"

section \<open>Requests and replies\<close>

record api_request =
  rq_http :: http_request
  rq_headers :: guarded_request
  rq_body :: json
  rq_query :: json

datatype api_reply =
    RouteReply route_response
  | LinksReply links_answer
  | TextReply string
  | ObjectReply json
  | ErrorReply "(string \<times> string) list" nat error_body
  | RedirectReply string
  | LinkNotFoundReply
  | UnhandledError exn

record server =
  sv_auth :: auth_config
  sv_guards :: guard_config
  sv_links :: "world links_deps"
  sv_collection :: "collection_deps option"
  sv_validator :: validator
  sv_testing :: bool
  sv_router :: router
  sv_no_route :: "http_request \<Rightarrow> exn"

text \<open>app.controller.ts with app.service.ts, and the test route of auth-test.controller.ts.\<close>

definition get_hello :: string where
  "get_hello = ''Hello World!''"

definition protected_route :: "auth_config \<Rightarrow> guarded_request \<Rightarrow> json io" where
  "protected_route cfg headers =
     bindM (session_guard cfg headers) (\<lambda>_. returnM (JObj [(''ok'', JBool True)]))"

definition as_route :: "route_response io \<Rightarrow> api_reply io" where
  "as_route m = bindM m (\<lambda>r. returnM (RouteReply r))"

definition as_links :: "server \<Rightarrow> api_request \<Rightarrow> links_request \<Rightarrow> api_reply io" where
  "as_links sv rq request =
     bindM (links_api (sv_auth sv) (sv_links sv) (sv_validator sv) (rq_headers rq) request) (\<lambda>a.
       returnM (LinksReply a))"

fun run_handler :: "server \<Rightarrow> api_request \<Rightarrow> string list \<Rightarrow> api_handler \<Rightarrow> api_reply io" where
  "run_handler sv rq params GetHello = returnM (TextReply get_hello)"
| "run_handler sv rq params Register =
     as_route (route_register (sv_auth sv) (sv_validator sv) (rq_body rq) (hr_ip (rq_http rq)))"
| "run_handler sv rq params VerifyEmail =
     as_route (route_verify_email (sv_auth sv) (sv_validator sv) (rq_body rq))"
| "run_handler sv rq params ResendEmailVerification =
     as_route (route_resend_email_verification (sv_auth sv) (sv_validator sv) (rq_body rq) (hr_ip (rq_http rq)))"
| "run_handler sv rq params Login =
     as_route (route_login (sv_auth sv) (sv_validator sv) (rq_body rq) (hr_ip (rq_http rq)))"
| "run_handler sv rq params VerifyLogin =
     as_route (route_verify_login (sv_auth sv) (sv_guards sv) (sv_validator sv) (rq_body rq))"
| "run_handler sv rq params RefreshTokens =
     as_route (route_refresh (sv_auth sv) (sv_guards sv) (rq_headers rq))"
| "run_handler sv rq params Logout =
     as_route (route_logout (sv_auth sv) (sv_guards sv) (rq_headers rq))"
| "run_handler sv rq params ForgotPassword =
     as_route (route_forgot_password (sv_auth sv) (sv_validator sv) (rq_body rq) (hr_ip (rq_http rq)))"
| "run_handler sv rq params ResetPassword =
     as_route (route_reset_password (sv_auth sv) (sv_validator sv) (rq_body rq))"
| "run_handler sv rq params ProtectedRoute =
     bindM (protected_route (sv_auth sv) (rq_headers rq)) (\<lambda>j. returnM (ObjectReply j))"
| "run_handler sv rq params LinksCreate = as_links sv rq (CreateLink (rq_body rq))"
| "run_handler sv rq params LinksList = as_links sv rq (ListLinks (rq_query rq))"
| "run_handler sv rq params LinksDeactivate = as_links sv rq (DeactivateLink (hd params))"
| "run_handler sv rq params LinksReactivate = as_links sv rq (ReactivateLink (hd params))"
| "run_handler sv rq params LinkReport = as_links sv rq (LinkStatistics (hd params) (rq_query rq))"

text \<open>The global filter answers every exception of the routes.\<close>

definition error_reply :: "exn \<Rightarrow> api_reply" where
  "error_reply e = (case filter_catch e of (headers, status, body) \<Rightarrow> ErrorReply headers status body)"

definition filtered :: "api_reply io \<Rightarrow> api_reply io" where
  "filtered m = catchM m (\<lambda>e. returnM (error_reply e))"

definition route_of :: "server \<Rightarrow> http_request \<Rightarrow> (api_handler \<times> string list) option" where
  "route_of sv request =
     dispatch (sv_router sv) (api_routes (sv_testing sv)) (hr_method request) (request_path request)"

definition serve :: "server \<Rightarrow> api_request \<Rightarrow> api_reply io" where
  "serve sv rq =
     bindM (handle_public_link_resolve (sv_links sv) (sv_collection sv) (rq_http rq)) (\<lambda>public.
       case public of
         ReplyRedirect location \<Rightarrow> returnM (RedirectReply location)
       | ReplyNotFound \<Rightarrow> returnM LinkNotFoundReply
       | PassError e \<Rightarrow> returnM (UnhandledError e)
       | PassOn \<Rightarrow> filtered
           (case route_of sv (rq_http rq) of
              None \<Rightarrow> throwM (sv_no_route sv (rq_http rq))
            | Some (handler, params) \<Rightarrow> run_handler sv rq params handler))"

text \<open>The process: the environment is validated before anything is served, then the port is opened.\<close>

record process =
  po_port :: int
  po_settings :: app_settings
  po_server :: server

definition boot :: "primitives \<Rightarrow> env \<Rightarrow> country_reader option \<Rightarrow> exn + process" where
  "boot p e reader =
     and_then (validate_environment (pm_url p) e) (\<lambda>config. Inr
       \<lparr>po_port = env_port config,
        po_settings = configure_app config,
        po_server =
          \<lparr>sv_auth = auth_crypto_of p config, sv_guards = guards_of p e config,
           sv_links = links_service_of p config,
           sv_collection = resolve_access_collection_deps True True
             (Some (pm_hmac_sha256 p, env_link_stats_pseudonym_secret config)) (Some reader),
           sv_validator = pm_validator p, sv_testing = test_controllers e,
           sv_router = pm_router p, sv_no_route = pm_no_route p\<rparr>\<rparr>)"

lemma booted:
  assumes "boot p e reader = Inr proc"
  shows "\<exists>ttl base n. sv_links (po_server proc) = app_links ttl base n (pm_url p) \<and> 0 < ttl \<and> 0 < n"
    and "sv_collection (po_server proc) \<noteq> None"
proof -
  from assms obtain config where config: "validate_environment (pm_url p) e = Inr config"
    by (auto simp: boot_def and_then_def split: sum.splits)
  with assms have "sv_links (po_server proc) = links_service_of p config"
    and collection: "sv_collection (po_server proc) \<noteq> None"
    by (auto simp: boot_def and_then_def resolve_access_collection_deps_def)
  with links_service_positive [OF config]
  show "\<exists>ttl base n. sv_links (po_server proc) = app_links ttl base n (pm_url p) \<and> 0 < ttl \<and> 0 < n"
    unfolding links_service_of_def by blast
  show "sv_collection (po_server proc) \<noteq> None" by (rule collection)
qed

section \<open>Who answers a request\<close>

lemma root_segment_iff:
  "rx_test ROOT_SEGMENT_PATTERN path \<longleftrightarrow>
     (\<exists>v. path = CHR ''/'' # v \<and> v \<noteq> [] \<and> (\<forall>c \<in> set v. is_upper c \<or> is_lower c \<or> is_digit c))"
  unfolding rx_test_iff ROOT_SEGMENT_PATTERN_def lit_seq_iff plus_class_iff by auto

lemma split_on_absent: "d \<notin> set s \<Longrightarrow> split_on d s = [s]"
  by (induction s) auto

lemma root_segment_segments:
  assumes "rx_test ROOT_SEGMENT_PATTERN path"
  shows "\<exists>v. path_segments path = [v]"
proof -
  from assms obtain v where v: "path = CHR ''/'' # v" "v \<noteq> []"
    "\<forall>c \<in> set v. is_upper c \<or> is_lower c \<or> is_digit c" unfolding root_segment_iff by blast
  have "CHR ''/'' \<notin> set v" using v(3) by (auto simp: char_classes)
  then show ?thesis using v(1,2) by (simp add: path_segments_def split_on_absent)
qed

lemma path_fits_length: "path_fits segs parts \<Longrightarrow> length parts = length segs"
  by (induction segs parts rule: path_fits.induct) auto

lemma dispatch_SomeD:
  "dispatch router routes m path = Some x \<Longrightarrow> \<exists>r \<in> set routes. match_route router m path r = Some x"
  by (induction routes) (auto split: option.splits)

lemma dispatch_total:
  "r \<in> set routes \<Longrightarrow> match_route router m path r = Some x \<Longrightarrow> dispatch router routes m path \<noteq> None"
  by (induction routes) (auto split: option.splits)

lemma match_route_SomeD:
  assumes "express_router router" and "match_route router m path (verb, segs, handler) = Some x"
  shows "m = verb \<or> (verb = ''GET'' \<and> m = ''HEAD'')"
    and "path_fits (API_PREFIX @ segs) (path_segments path)"
  using assms by (auto simp: match_route_def express_router_def split: if_splits)

lemma routed_passed_on:
  assumes "express_router (sv_router sv)" and "route_of sv request = Some x"
  shows "handle_public_link_resolve links_service access_collection request w = (Inr PassOn, w)"
proof -
  from dispatch_SomeD [OF assms(2) [unfolded route_of_def]] obtain verb segs handler where
    "match_route (sv_router sv) (hr_method request) (request_path request) (verb, segs, handler) = Some x"
    by (metis prod_cases3)
  from path_fits_length [OF match_route_SomeD(2) [OF assms(1) this]]
  have "2 \<le> length (path_segments (request_path request))" by (simp add: API_PREFIX_def)
  then have "\<not> rx_test ROOT_SEGMENT_PATTERN (request_path request)"
    using root_segment_segments [of "request_path request"] by auto
  then show ?thesis by (simp add: handle_public_link_resolve_def Let_def run_simps)
qed

text \<open>
  Property C18. The public redirect in front never takes a request of the API: a request with a
  route is passed on unchanged, GET /api/v1/links included, and a request the redirect answers has
  no route.
\<close>

theorem api_never_intercepted:
  assumes "express_router (sv_router sv)" and "route_of sv request = Some x"
  shows "handle_public_link_resolve links_service access_collection request w = (Inr PassOn, w)"
  by (rule routed_passed_on [OF assms])

text \<open>Two routes that no request can both match.\<close>

fun segments_meet :: "segment list \<Rightarrow> segment list \<Rightarrow> bool" where
  "segments_meet [] [] = True"
| "segments_meet (Fixed a # s) (Fixed b # t) = (a = b \<and> segments_meet s t)"
| "segments_meet (_ # s) (_ # t) = segments_meet s t"
| "segments_meet _ _ = False"

definition routes_meet :: "route \<Rightarrow> route \<Rightarrow> bool" where
  "routes_meet r r' = (case (r, r') of ((verb, segs, _), (verb', segs', _)) \<Rightarrow>
     (verb = verb' \<or> (verb = ''GET'' \<and> verb' = ''HEAD'') \<or> (verb = ''HEAD'' \<and> verb' = ''GET''))
     \<and> segments_meet segs segs')"

lemma fitting_segments_meet: "path_fits s parts \<Longrightarrow> path_fits t parts \<Longrightarrow> segments_meet s t"
proof (induction s parts arbitrary: t rule: path_fits.induct)
  case (2 name segs part parts)
  then show ?case by (cases t rule: list.exhaust; cases "hd t") auto
next
  case (3 segs part parts)
  then show ?case by (cases t rule: list.exhaust; cases "hd t") auto
qed (case_tac t; simp)+

lemma matching_routes_meet:
  assumes "express_router router"
    and "match_route router m path r = Some x" and "match_route router m path r' = Some y"
  shows "routes_meet r r'"
proof -
  obtain v s h where r: "r = (v, s, h)" by (cases r)
  obtain v' s' h' where r': "r' = (v', s', h')" by (cases r')
  note fits = match_route_SomeD [OF assms(1) assms(2) [unfolded r]]
    match_route_SomeD [OF assms(1) assms(3) [unfolded r']]
  from fitting_segments_meet [OF fits(2,4)] have "segments_meet s s'" by (simp add: API_PREFIX_def)
  with fits(1,3) show ?thesis by (auto simp: r r' routes_meet_def)
qed

lemma testing_routes_apart:
  "list_all (\<lambda>r. list_all (\<lambda>r'. routes_meet r r' \<longrightarrow> r = r') (api_routes True)) (api_routes True)"
  by code_simp

lemma api_routes_apart:
  assumes "r \<in> set (api_routes t)" and "r' \<in> set (api_routes t)" and "routes_meet r r'"
  shows "r = r'"
proof -
  have "set (api_routes t) \<subseteq> set (api_routes True)" by (auto simp: api_routes_def)
  with assms testing_routes_apart show ?thesis by (auto simp: list_all_iff)
qed

text \<open>
  Property C20. At most one route matches a request, so the order in which the modules register
  their controllers does not matter: any arrangement of the table dispatches every request to the
  same handler with the same parameters.
\<close>

theorem dispatch_any_order:
  assumes "express_router router" and "set routes = set (api_routes testing)"
  shows "dispatch router routes m path = dispatch router (api_routes testing) m path"
proof -
  have one: "dispatch router rs m path = Some x \<longleftrightarrow> (\<exists>r \<in> set rs. match_route router m path r = Some x)"
    if "set rs = set (api_routes testing)" for rs x
  proof
    assume "\<exists>r \<in> set rs. match_route router m path r = Some x"
    then obtain r where r: "r \<in> set rs" "match_route router m path r = Some x" by blast
    then obtain y where y: "dispatch router rs m path = Some y"
      using dispatch_total by blast
    from dispatch_SomeD [OF this] obtain r' where r': "r' \<in> set rs" "match_route router m path r' = Some y" by blast
    have "r' = r"
      using api_routes_apart matching_routes_meet [OF assms(1) r'(2) r(2)] r(1) r'(1) that by blast
    with y r(2) r'(2) show "dispatch router rs m path = Some x" by simp
  qed (rule dispatch_SomeD)
  show ?thesis
    using one [OF assms(2)] one [OF refl] assms(2)
    by (cases "dispatch router (api_routes testing) m path") (metis not_Some_eq, metis)
qed

section \<open>What a request is answered\<close>

lemma filtered_run:
  "filtered m w = (case m w of
      (Inl e, w') \<Rightarrow> (Inr (error_reply e), w')
    | (Inr reply, w') \<Rightarrow> (Inr reply, w'))"
  by (simp add: filtered_def run_simps split: prod.splits sum.splits)

lemma error_reply_eq:
  "error_reply e = ErrorReply
     (if eb_code (to_error_body e) = ''ACCOUNT_TEMPORARILY_LOCKED'' then [(''Retry-After'', ''3600'')] else [])
     (eb_status (to_error_body e)) (to_error_body e)"
  by (simp add: error_reply_def filter_catch_def Let_def)

lemma passed_on_unchanged:
  "handle_public_link_resolve links_service ac request w = (Inr PassOn, v) \<Longrightarrow> v = w"
  by (auto simp: handle_public_link_resolve_def Let_def run_simps split: if_splits prod.splits sum.splits)

text \<open>The request a links route hands to the links module.\<close>

fun links_request_of :: "api_request \<Rightarrow> string list \<Rightarrow> api_handler \<Rightarrow> links_request option" where
  "links_request_of rq params LinksCreate = Some (CreateLink (rq_body rq))"
| "links_request_of rq params LinksList = Some (ListLinks (rq_query rq))"
| "links_request_of rq params LinksDeactivate = Some (DeactivateLink (hd params))"
| "links_request_of rq params LinksReactivate = Some (ReactivateLink (hd params))"
| "links_request_of rq params LinkReport = Some (LinkStatistics (hd params) (rq_query rq))"
| "links_request_of rq params _ = None"

lemma links_reply_request:
  assumes "run_handler sv rq params handler w = (Inr (LinksReply answer), w')"
  shows "\<exists>request. links_request_of rq params handler = Some request
    \<and> links_api (sv_auth sv) (sv_links sv) (sv_validator sv) (rq_headers rq) request w = (Inr answer, w')"
  using assms
  by (cases handler) (auto simp: run_simps as_route_def as_links_def split: prod.splits sum.splits)

lemma served_links:
  assumes "serve sv rq w = (Inr (LinksReply answer), w')"
  shows "\<exists>handler params request. route_of sv (rq_http rq) = Some (handler, params)
    \<and> links_request_of rq params handler = Some request
    \<and> links_api (sv_auth sv) (sv_links sv) (sv_validator sv) (rq_headers rq) request w = (Inr answer, w')"
proof (cases "route_of sv (rq_http rq)")
  case None
  with assms show ?thesis
    by (auto simp: serve_def run_simps filtered_run error_reply_eq split: prod.splits sum.splits public_reply.splits)
next
  case (Some x)
  obtain handler params where x: "x = (handler, params)" by force
  obtain public v where public:
    "handle_public_link_resolve (sv_links sv) (sv_collection sv) (rq_http rq) w = (public, v)" by force
  have "v = w" if "public = Inr PassOn" using passed_on_unchanged public that by blast
  with assms Some x public have "run_handler sv rq params handler w = (Inr (LinksReply answer), w')"
    by (auto simp: serve_def run_simps filtered_run error_reply_eq
        split: prod.splits sum.splits public_reply.splits)
  from links_reply_request [OF this] Some x show ?thesis by blast
qed

end
