(* ===== verification/SystemInvariant.thy ===== *)
theory SystemInvariant
  imports Server
begin

text \<open>
  The invariants of all tables under the whole system: every request to the API, every job of both
  workers, the finalizer, and whatever happens to Redis, the queues and the clock in between.
\<close>

section \<open>What every handler keeps\<close>

text \<open>
  The tables are reachable: those of authentication by committed transactions from \<open>d0\<close> on, the
  links grown from those of \<open>d0\<close>, the counters by recordings and finalisations. Queued accesses
  carry dates.
\<close>

definition sound_tables :: "db \<Rightarrow> db \<Rightarrow> bool" where
  "sound_tables d0 d \<longleftrightarrow> auth_leads d0 d \<and> links_grow d0 d \<and> links_wf d \<and> stats_history d"

text \<open>
  Every session entry in Redis, expired or not, is of a session in the database and names its user;
  the session may be revoked.
\<close>

definition opened_by :: "uuid \<Rightarrow> uuid \<Rightarrow> session list \<Rightarrow> bool" where
  "opened_by i u ss \<longleftrightarrow> (\<exists>s \<in> set ss. ses_id s = i \<and> ses_user_id s = u)"

definition cache_backed :: "session list \<Rightarrow> redis \<Rightarrow> bool" where
  "cache_backed ss k \<longleftrightarrow> (\<forall>i entry payload. k (session_key i) = Some entry \<longrightarrow> re_value entry = RJson payload \<longrightarrow>
     sc_session_id (parse_session_cache payload) = i
     \<and> opened_by i (sc_user_id (parse_session_cache payload)) ss)"

text \<open>With \<open>cached\<close>, that too: it needs that nobody else writes session entries.\<close>

definition sound :: "db \<Rightarrow> bool \<Rightarrow> world \<Rightarrow> bool" where
  "sound d0 cached w \<longleftrightarrow> sound_tables d0 (w_db w)
     \<and> (\<forall>job \<in> set (w_access_jobs w). is_day_text (aj_occurred_on job))
     \<and> four_digit_day (day_of_instant (w_clock w))
     \<and> (cached \<longrightarrow> auth_wf (w_db w) \<and> cache_backed (sessions (w_db w)) (w_redis w))"

named_theorems sound_rules "handlers that keep the system sound"

lemmas sound_rules_base [sound_rules] = keeps_rules

text \<open>The tables in three groups; a transaction of one group leaves the others alone.\<close>

definition auth_tables :: "db \<Rightarrow> account list \<times> session list \<times> refresh_token list \<times> reset_token list" where
  "auth_tables d = (accounts d, sessions d, refresh_tokens d, reset_tokens d)"

definition stats_tables :: "db \<Rightarrow> access_event list \<times> daily_visitor list \<times> daily_aggregate list
    \<times> monthly_aggregate list \<times> statistics_day list" where
  "stats_tables d = (access_events d, daily_visitors d, daily_aggregates d, monthly_aggregates d, statistics_days d)"

lemma auth_tables_same: "auth_tables d' = auth_tables d \<Longrightarrow> auth_step d d'"
  by (rule auth_step.elsewhere) (simp_all add: auth_tables_def)

lemma stats_tables_same: "stats_tables d' = stats_tables d \<Longrightarrow> stats_history d \<Longrightarrow> stats_history d'"
  by (erule stats_history.other) (simp_all add: stats_tables_def)

lemma rows_opened: "rows_le session_le ss ss' \<Longrightarrow> opened_by i u ss \<Longrightarrow> opened_by i u ss'"
  unfolding rows_le_def opened_by_def session_le_def by metis

lemma cache_backed_rows: "cache_backed ss k \<Longrightarrow> rows_le session_le ss ss' \<Longrightarrow> cache_backed ss' k"
  unfolding cache_backed_def using rows_opened by blast

lemma auth_leads_sessions:
  assumes "auth_leads d d'" and "auth_wf d"
  shows "auth_wf d' \<and> rows_le session_le (sessions d) (sessions d')"
  using auth_leads_safe [OF assms] by (simp add: auth_le_def)

lemma sound_db_op:
  assumes "\<And>d1 d r d'. sound_tables d1 d \<Longrightarrow> m d = (r, d') \<Longrightarrow> sound_tables d1 d'"
  shows "keeps (sound d0 cached) (db_op m)"
proof (rule keepsI)
  fix w r w' assume w: "sound d0 cached w" and run: "db_op m w = (r, w')"
  obtain q d' where m: "m (w_db w) = (q, d')" by force
  with run have w': "w' = w\<lparr>w_db := d'\<rparr>" by (simp add: db_op_def)
  have "sound_tables (w_db w) (w_db w)"
    using w by (simp add: sound_def sound_tables_def auth_leads.stay links_grow_refl)
  from assms [OF this m] have "auth_leads (w_db w) d'" by (simp add: sound_tables_def)
  from auth_leads_sessions [OF this] assms [OF _ m] w show "sound d0 cached w'"
    by (auto simp: sound_def w' intro: cache_backed_rows)
qed

lemma sound_read [sound_rules]: "keeps (sound d0 cached) (db_op (getsM f))"
  by (simp add: keeps_def db_op_def getsM_def)

lemma sound_readonly:
  assumes "\<And>d1. keeps (\<lambda>d. d = d1) m"
  shows "keeps (sound d0 cached) (db_op m)"
proof (rule sound_db_op)
  fix d1 d r d' assume "sound_tables d1 d" and "m d = (r, d')"
  with keepsD [OF assms refl this(2)] show "sound_tables d1 d'" by simp
qed

lemma sound_auth_op:
  assumes step: "\<And>d r d'. m d = (r, d') \<Longrightarrow> auth_step d d'"
    and frame: "\<And>ls st. keeps (\<lambda>d. links d = ls \<and> stats_tables d = st) m"
  shows "keeps (sound d0 cached) (db_op m)"
proof (rule sound_db_op)
  fix d1 d r d' assume d: "sound_tables d1 d" and run: "m d = (r, d')"
  have same: "links d' = links d" "stats_tables d' = stats_tables d" using keepsD [OF frame _ run] by simp_all
  with d have "auth_leads d1 d'" "stats_history d'" "links_wf d'"
    using auth_leads.step [OF _ step [OF run]] stats_tables_same links_wf_same
    unfolding sound_tables_def by blast+
  moreover have "links_grow d1 d'" using d same by (simp add: sound_tables_def links_grow_def)
  ultimately show "sound_tables d1 d'" by (simp add: sound_tables_def)
qed

lemma sound_links_op:
  assumes wf: "keeps links_wf m" and grow: "\<And>d. wp m (\<lambda>_. links_grow d) d"
    and frame: "\<And>au st. keeps (\<lambda>d. auth_tables d = au \<and> stats_tables d = st) m"
  shows "keeps (sound d0 cached) (db_op m)"
proof (rule sound_db_op)
  fix d1 d r d' assume d: "sound_tables d1 d" and run: "m d = (r, d')"
  have same: "auth_tables d' = auth_tables d" "stats_tables d' = stats_tables d"
    using keepsD [OF frame _ run] by simp_all
  with d have "auth_leads d1 d'" "stats_history d'"
    using auth_leads.step [OF _ auth_tables_same] stats_tables_same unfolding sound_tables_def by blast+
  moreover have "links_grow d1 d'" "links_wf d'"
    using d wp_run [OF grow run] keepsD [OF wf _ run] links_grow_trans unfolding sound_tables_def by blast+
  ultimately show "sound_tables d1 d'" by (simp add: sound_tables_def)
qed

lemma sound_stats_op:
  assumes history: "\<And>d r d'. stats_history d \<Longrightarrow> m d = (r, d') \<Longrightarrow> stats_history d'"
    and frame: "\<And>au ls. keeps (\<lambda>d. auth_tables d = au \<and> links d = ls) m"
  shows "keeps (sound d0 cached) (db_op m)"
proof (rule sound_db_op)
  fix d1 d r d' assume d: "sound_tables d1 d" and run: "m d = (r, d')"
  have same: "auth_tables d' = auth_tables d" "links d' = links d" using keepsD [OF frame _ run] by simp_all
  with d have "auth_leads d1 d'" "stats_history d'" "links_wf d'"
    using auth_leads.step [OF _ auth_tables_same] history [OF _ run] links_wf_same
    unfolding sound_tables_def by blast+
  moreover have "links_grow d1 d'" using d same by (simp add: sound_tables_def links_grow_def)
  ultimately show "sound_tables d1 d'" by (simp add: sound_tables_def)
qed

section \<open>Transactions\<close>

lemma group_updates [simp]:
  "stats_tables (d\<lparr>accounts := as\<rparr>) = stats_tables d" "stats_tables (d\<lparr>sessions := ss\<rparr>) = stats_tables d"
  "stats_tables (d\<lparr>refresh_tokens := ts\<rparr>) = stats_tables d"
  "stats_tables (d\<lparr>reset_tokens := rs\<rparr>) = stats_tables d" "stats_tables (d\<lparr>links := ls\<rparr>) = stats_tables d"
  "auth_tables (d\<lparr>links := ls\<rparr>) = auth_tables d" "auth_tables (d\<lparr>access_events := es\<rparr>) = auth_tables d"
  "auth_tables (d\<lparr>daily_visitors := vs\<rparr>) = auth_tables d"
  "auth_tables (d\<lparr>daily_aggregates := da\<rparr>) = auth_tables d"
  "auth_tables (d\<lparr>monthly_aggregates := ma\<rparr>) = auth_tables d"
  "auth_tables (d\<lparr>statistics_days := sd\<rparr>) = auth_tables d"
  by (simp_all add: stats_tables_def auth_tables_def)

abbreviation only_auth :: "link list \<Rightarrow> _ \<Rightarrow> db \<Rightarrow> bool" where
  "only_auth ls st \<equiv> (\<lambda>d. links d = ls \<and> stats_tables d = st)"

lemma only_auth_inserts [keeps_rules]:
  "keeps (only_auth ls st) (insert_account a)"
  "keeps (only_auth ls st) (insert_session s)"
  "keeps (only_auth ls st) (insert_refresh_token t)"
  "keeps (only_auth ls st) (insert_reset_token p)"
  by (simp_all add: keeps_def insert_account_def insert_session_def insert_refresh_token_def insert_reset_token_def)

lemma only_auth_saves [keeps_rules]:
  "keeps (only_auth ls st) (save_account now a edited)"
  "keeps (only_auth ls st) (save_session s)"
  "keeps (only_auth ls st) (save_refresh_token t)"
  "keeps (only_auth ls st) (save_reset_token p)"
  "keeps (only_auth ls st) (mark_reset_tokens_used now u)"
  "keeps (only_auth ls st) (revoke_active_sessions now u reason)"
  unfolding save_account_def save_session_def save_refresh_token_def save_reset_token_def
    mark_reset_tokens_used_def revoke_active_sessions_def Let_def
  by (intro keeps_rules keeps_modifyM; simp)+

lemma sound_auth_ops [sound_rules]:
  "keeps (sound d0 cached) (db_op (create_pending_account i now e h))"
  "keeps (sound d0 cached) (db_op (activate_account now u))"
  "keeps (sound d0 cached) (db_op (update_password_hash now u h))"
  "keeps (sound d0 cached) (db_op (create_exclusive_session i j now u inp))"
  "keeps (sound d0 cached) (db_op (rotate_refresh_token j now i rot))"
  "keeps (sound d0 cached) (db_op (revoke_session now i reason))"
  "keeps (sound d0 cached) (db_op (revoke_all_sessions now u reason))"
  "keeps (sound d0 cached) (db_op (create_password_reset_token i now u h exp))"
  "keeps (sound d0 cached) (db_op (consume_password_reset_token now h))"
  subgoal by (rule sound_auth_op, erule auth_step.register)
    (unfold create_pending_account_def, intro keeps_rules)
  subgoal by (rule sound_auth_op, erule auth_step.activate)
    (unfold activate_account_def, intro keeps_rules)
  subgoal by (rule sound_auth_op, erule auth_step.password)
    (unfold update_password_hash_def, intro keeps_rules)
  subgoal by (rule sound_auth_op, erule auth_step.login)
    (unfold create_exclusive_session_def, intro keeps_rules)
  subgoal by (rule sound_auth_op, erule auth_step.rotate)
    (unfold rotate_refresh_token_def rotate_locked_def, intro keeps_rules)
  subgoal by (rule sound_auth_op, erule auth_step.revoke)
    (unfold revoke_session_def revoke_locked_def, intro keeps_rules)
  subgoal by (rule sound_auth_op, erule auth_step.revoke_all)
    (unfold revoke_all_sessions_def, intro keeps_rules)
  subgoal by (rule sound_auth_op, erule auth_step.reset_issued)
    (unfold create_password_reset_token_def, intro keeps_rules)
  subgoal by (rule sound_auth_op, erule auth_step.reset_consumed)
    (unfold consume_password_reset_token_def consume_locked_def, intro keeps_rules)
  done

lemma only_links_writes [keeps_rules]:
  "keeps (\<lambda>d. auth_tables d = au \<and> stats_tables d = st) (insert_link l)"
  "keeps (\<lambda>d. auth_tables d = au \<and> stats_tables d = st) (save_link_status now l s)"
  by (simp_all add: keeps_def insert_link_def save_link_status_run activate_row_def)

lemma sound_links_ops [sound_rules]:
  "keeps (sound d0 cached) (db_op (create_or_restore i now u t c))"
  "keeps (sound d0 cached) (db_op (change_status now u i st))"
proof -
  show "keeps (sound d0 cached) (db_op (create_or_restore i now u t c))"
    by (rule sound_links_op [OF keeps_create_or_restore create_or_restore_grow],
        unfold create_or_restore_def create_or_restore_tx_def, intro keeps_rules)
  have "keeps (\<lambda>d. auth_tables d = au \<and> stats_tables d = ss) (change_status_from d1 now u i st)" for au ss d1
    unfolding change_status_from_def by (intro keeps_rules)
  moreover have "wp (change_status now u i st) (\<lambda>_. links_grow d) d" for d
    using change_status_from_grow [of d now u i st d] by (simp add: change_status_def wp_def)
  ultimately show "keeps (sound d0 cached) (db_op (change_status now u i st))"
    by (intro sound_links_op keeps_change_status) (simp_all add: keeps_def change_status_def)
qed

lemma only_stats_writes [keeps_rules]:
  "keeps (\<lambda>d. auth_tables d = au \<and> links d = ls) (insert_event i)"
  "keeps (\<lambda>d. auth_tables d = au \<and> links d = ls) (insert_visitor i)"
  "keeps (\<lambda>d. auth_tables d = au \<and> links d = ls) (modifyM (count_daily_access l day c))"
  "keeps (\<lambda>d. auth_tables d = au \<and> links d = ls) (modifyM (count_monthly_access l m))"
  "keeps (\<lambda>d. auth_tables d = au \<and> links d = ls) (modifyM (count_daily_visitor l day c))"
  "keeps (\<lambda>d. auth_tables d = au \<and> links d = ls) (modifyM (count_monthly_visitor l m))"
  "keeps (\<lambda>d. auth_tables d = au \<and> links d = ls) (finalize_day now x)"
  by (auto simp: keeps_def insert_event_def insert_visitor_def modifyM_def count_daily_access_def
      count_monthly_access_def count_daily_visitor_def count_monthly_visitor_def finalize_day_run
      finalized_def delete_day_def auth_tables_def split: prod.split) (cases x, simp add: finalize_day_run
      finalized_def delete_day_def)+

lemma sound_record_access:
  assumes "is_day_text (ai_occurred_on i)"
  shows "keeps (sound d0 cached) (db_op (record_access i))"
  by (rule sound_stats_op, erule stats_history.recording [OF _ assms], assumption)
    (unfold record_access_def Let_def, intro keeps_rules)

lemma sound_finalize_days [sound_rules]: "keeps (sound d0 cached) (db_op (finalize_days now before))"
proof (rule sound_stats_op)
  have "keeps stats_history (finalize_day now x)" for x
    by (rule keepsI) (rule stats_history.finalizing)
  then have "keeps stats_history (finalize_days now before)"
    unfolding finalize_days_def by (intro keeps_rules)
  then show "stats_history d'" if "stats_history d" "finalize_days now before d = (r, d')" for d r d'
    using that by (rule keepsD)
qed (unfold finalize_days_def, intro keeps_rules)

lemma sound_audit_insert [sound_rules]: "keeps (sound d0 cached) (db_op (insert_audit_event e))"
  by (rule sound_auth_op)
    (auto simp: insert_audit_event_def keeps_def stats_tables_def auth_tables_def intro!: auth_step.elsewhere split: if_splits)

section \<open>Everything else a handler does\<close>

lemma sound_w_simps [simp]:
  "sound d0 cached (w\<lparr>w_net := n\<rparr>) = sound d0 cached w"
  "sound d0 cached (w\<lparr>w_drawn := k\<rparr>) = sound d0 cached w" "sound d0 cached (w\<lparr>w_mails := m\<rparr>) = sound d0 cached w"
  "sound d0 cached (w\<lparr>w_email_jobs := js\<rparr>) = sound d0 cached w"
  by (simp_all add: sound_def)

lemma sound_primitives [sound_rules]:
  "keeps (sound d0 cached) now_io"
  "keeps (sound d0 cached) draw_string"
  "keeps (sound d0 cached) (random_int n)"
  "keeps (sound d0 cached) generate_code_io"
  "keeps (sound d0 cached) (add_email_job job)"
  "keeps (sound d0 cached) (send_mail ml)"
  by (auto simp: keeps_def now_io_def getsM_def draw_string_def random_int_def generate_code_io_def
      add_email_job_def send_mail_def enqueue_def catchM_def throwM_def Let_def split: list.splits net_outcome.splits)

text \<open>Commands that write no session entry.\<close>

definition spares_sessions :: "(instant \<Rightarrow> redis \<Rightarrow> ('a \<times> redis) option) \<Rightarrow> bool" where
  "spares_sessions cmd \<longleftrightarrow> (\<forall>now k x k' i. cmd now k = Some (x, k') \<longrightarrow>
     k' (session_key i) = k (session_key i) \<or> k' (session_key i) = None)"

lemma cache_backed_spared:
  assumes "cache_backed ss k" and "\<And>i. k' (session_key i) = k (session_key i) \<or> k' (session_key i) = None"
  shows "cache_backed ss k'"
  unfolding cache_backed_def
proof (intro allI impI)
  fix i entry payload
  assume e: "k' (session_key i) = Some entry" "re_value entry = RJson payload"
  with assms(2) [of i] have "k (session_key i) = Some entry" by simp
  with assms(1) e(2) show "sc_session_id (parse_session_cache payload) = i
      \<and> opened_by i (sc_user_id (parse_session_cache payload)) ss"
    unfolding cache_backed_def by blast
qed

lemma sound_spared:
  assumes "sound d0 cached w" and "spares_sessions cmd" and "cmd (w_clock w) (w_redis w) = Some (x, k)"
  shows "sound d0 cached (w\<lparr>w_net := n, w_redis := k\<rparr>)"
  using assms cache_backed_spared [of "sessions (w_db w)" "w_redis w" k]
  by (simp add: sound_def spares_sessions_def)

lemma sound_redis_call [sound_rules]:
  "spares_sessions cmd \<Longrightarrow> keeps (sound d0 cached) (redis_call cmd)"
  by (rule keeps_redis_call) (simp_all add: sound_spared)

lemma key_apart [sound_rules]:
  "\<forall>i. activation_key u \<noteq> session_key i" "\<forall>i. issuance_key p u \<noteq> session_key i"
  "\<forall>i. login_challenge_key u \<noteq> session_key i" "\<forall>i. login_challenge_account_key u \<noteq> session_key i"
  "\<forall>i. resend_key op u \<noteq> session_key i" "\<forall>i. failed_login_key u \<noteq> session_key i"
  "\<forall>i. login_lock_key u \<noteq> session_key i" "\<forall>i. rate_key op dim h \<noteq> session_key i"
  "\<forall>i. resolution_key code \<noteq> session_key i"
  subgoal by (simp add: activation_key_def session_key_def KEY_PREFIX_def)
  subgoal by (cases p; simp add: session_key_def KEY_PREFIX_def)
  by (simp_all add: login_challenge_key_def login_challenge_account_key_def resend_key_def
      failed_login_key_def login_lock_key_def rate_key_def resolution_key_def LINK_KEY_PREFIX_def
      session_key_def KEY_PREFIX_def)

lemma spares_commands [sound_rules]:
  "\<forall>i. key \<noteq> session_key i \<Longrightarrow> spares_sessions (\<lambda>now k. Some ((), redis_set now key v ttl k))"
  "spares_sessions (\<lambda>now k. Some ((), redis_del key k))"
  "spares_sessions (\<lambda>now k. Some (f now k, k))"
  "\<forall>i. key \<noteq> session_key i \<Longrightarrow> spares_sessions (consume_activation_lua key code)"
  "spares_sessions (consume_login_challenge_lua key code t)"
  "\<forall>i. key \<noteq> session_key i \<Longrightarrow> spares_sessions (increment_rate_limit_lua key n)"
  "\<forall>i. key \<noteq> session_key i \<Longrightarrow> \<forall>i. lock \<noteq> session_key i \<Longrightarrow>
     spares_sessions (increment_failed_login_lua key lock n m)"
  by (auto simp: spares_sessions_def redis_set_def redis_del_def redis_set_keepttl_def redis_incr_def
      redis_expire_def consume_activation_lua_def consume_login_challenge_lua_def increment_rate_limit_lua_def
      increment_failed_login_lua_def create_login_challenge_lua_def Let_def
      split: option.splits redis_value.splits json.splits if_splits)

lemma spares_challenge [sound_rules]:
  assumes "\<forall>i. key \<noteq> session_key i" and "\<forall>i. account \<noteq> session_key i"
  shows "spares_sessions (create_login_challenge_lua account key p n ch prefix)"
  using assms [THEN spec, THEN not_sym]
  by (auto simp: spares_sessions_def create_login_challenge_lua_def redis_set_def redis_del_def Let_def
      split: option.splits redis_value.splits)

lemma keeps_pair: "(\<And>x y. keeps P (h x y)) \<Longrightarrow> keeps P (case p of (x, y) \<Rightarrow> h x y)"
  by (cases p) simp

lemmas sound_cases [sound_rules] = keeps_sum keeps_redis_value keeps_pair

section \<open>Handlers\<close>

lemma sound_state_ops [sound_rules]:
  "keeps (sound d0 cached) (set_activation_code cfg u c t)"
  "keeps (sound d0 cached) (consume_activation_code cfg u c)"
  "keeps (sound d0 cached) (set_issuance p s i)"
  "keeps (sound d0 cached) (is_current_issuance p s i)"
  "keeps (sound d0 cached) (create_login_challenge cfg u ch c t)"
  "keeps (sound d0 cached) (find_login_challenge_user_id ch)"
  "keeps (sound d0 cached) (consume_login_challenge cfg ch c)"
  "keeps (sound d0 cached) (set_resend_cooldown op u)"
  "keeps (sound d0 cached) (is_resend_cooldown_active op u)"
  "keeps (sound d0 cached) (increment_rate_limit op dim h ttl)"
  "keeps (sound d0 cached) (increment_failed_login u)"
  "keeps (sound d0 cached) (is_login_locked u)"
  "keeps (sound d0 cached) (get_session_cache i)"
  "keeps (sound d0 cached) (delete_session_cache i)"
  unfolding set_activation_code_def consume_activation_code_def set_issuance_def is_current_issuance_def
    create_login_challenge_def find_login_challenge_user_id_def consume_login_challenge_def
    set_resend_cooldown_def is_resend_cooldown_active_def increment_rate_limit_def
    increment_failed_login_def is_login_locked_def set_session_cache_def get_session_cache_def
    delete_session_cache_def redis_service_set_def redis_service_get_def redis_service_del_def
    redis_service_exists_def safe_def
  by (intro sound_rules)+

lemma sound_record_audit [sound_rules]: "keeps (sound d0 cached) (record_audit i)"
  unfolding record_audit_def by (intro sound_rules)

section \<open>The session service\<close>

text \<open>What a result makes true of the state holds while the rest of the effect runs.\<close>

lemma keeps_bind_after:
  assumes "\<And>w r w'. P w \<Longrightarrow> m w = (r, w') \<Longrightarrow> P w' \<and> (\<forall>x. r = Inr x \<longrightarrow> Q x w')"
    and "\<And>x. keeps (\<lambda>w. P w \<and> Q x w) (f x)"
  shows "keeps P (bindM m f)"
proof (rule keepsI)
  fix w r w' assume w: "P w" and run: "bindM m f w = (r, w')"
  obtain q v where q: "m w = (q, v)" by force
  note after = assms(1) [OF w q]
  show "P w'"
  proof (cases q)
    case (Inl e)
    with run q after show ?thesis by (simp add: bindM_def)
  next
    case (Inr x)
    with run q have "f x v = (r, w')" by (simp add: bindM_def)
    with keepsD [OF assms(2) _ this] after Inr show ?thesis by simp
  qed
qed

abbreviation sound_for :: "db \<Rightarrow> bool \<Rightarrow> uuid \<Rightarrow> uuid \<Rightarrow> world \<Rightarrow> bool" where
  "sound_for d0 cached i u \<equiv> (\<lambda>w. sound d0 cached w \<and> (cached \<longrightarrow> opened_by i u (sessions (w_db w))))"

lemma sound_for_redis [sound_rules]:
  "spares_sessions cmd \<Longrightarrow> keeps (sound_for d0 cached i u) (redis_call cmd)"
  by (rule keeps_redis_call) (simp_all add: sound_spared)

lemma sound_for_now [sound_rules]: "keeps (sound_for d0 cached i u) now_io"
  by (simp add: now_io_def keeps_getsM)

lemma backed_entry:
  assumes "cache_backed ss k" and "opened_by (sc_session_id e) (sc_user_id e) ss"
  shows "cache_backed ss (redis_set now (session_key (sc_session_id e)) (RJson (session_payload e t)) ttl k)"
  unfolding cache_backed_def
proof (intro allI impI)
  fix i entry payload
  assume "redis_set now (session_key (sc_session_id e)) (RJson (session_payload e t)) ttl k (session_key i) = Some entry"
    and "re_value entry = RJson payload"
  then show "sc_session_id (parse_session_cache payload) = i
      \<and> opened_by i (sc_user_id (parse_session_cache payload)) ss"
    using assms parse_session_payload [of e t]
    by (auto simp: redis_set_def cache_backed_def same_entry_def split: if_splits)
qed

lemma sound_stored:
  "sound_for d0 cached (sc_session_id e) (sc_user_id e) w \<Longrightarrow>
     sound_for d0 cached (sc_session_id e) (sc_user_id e) (w\<lparr>w_net := n, w_redis :=
       redis_set now (session_key (sc_session_id e)) (RJson (session_payload e t)) ttl (w_redis w)\<rparr>)"
  by (simp add: sound_def backed_entry)

lemma sound_for_store [sound_rules]:
  "keeps (sound_for d0 cached (sc_session_id e) (sc_user_id e))
     (redis_service_set (session_key (sc_session_id e)) (RJson (session_payload e t)) ttl)"
  unfolding redis_service_set_def
proof (rule keeps_redis_call)
  fix w x s
  assume "sound_for d0 cached (sc_session_id e) (sc_user_id e) w"
    and "Some ((), redis_set (w_clock w) (session_key (sc_session_id e)) (RJson (session_payload e t)) ttl (w_redis w))
      = Some (x, s)"
  with sound_stored show "sound_for d0 cached (sc_session_id e) (sc_user_id e) (w\<lparr>w_net := tl (w_net w), w_redis := s\<rparr>)"
    by blast
qed simp

lemma sound_for_set_cache [sound_rules]:
  assumes "sc_session_id e = i" and "sc_user_id e = u"
  shows "keeps (sound_for d0 cached i u) (set_session_cache e)"
  unfolding assms [symmetric] set_session_cache_def safe_def
  by (intro sound_rules)

lemma sound_session_transactions [sound_rules]:
  "keeps (sound d0 cached) (create_exclusive_session_io u inp)"
  "keeps (sound d0 cached) (rotate_refresh_token_io i rot)"
  "keeps (sound d0 cached) (revoke_session_io i reason)"
  "keeps (sound d0 cached) (revoke_all_sessions_io u reason)"
  "keeps (sound d0 cached) generate_refresh_token"
  "keeps (sound d0 cached) generate_csrf_token"
  unfolding create_exclusive_session_io_def rotate_refresh_token_io_def revoke_session_io_def
    revoke_all_sessions_io_def generate_refresh_token_def generate_csrf_token_def generate_opaque_token_def
  by (intro sound_rules)+

lemma sound_login [sound_rules]:
  "keeps (sound d0 cached) (create_session_after_login (app_sessions cfg) u role)"
proof -
  have opened: "sound d0 cached w' \<and> (\<forall>x. r = Inr x \<longrightarrow> cached \<longrightarrow>
      opened_by (ses_id (sr_session x)) u (sessions (w_db w')))"
    if "sound d0 cached w" "create_exclusive_session_io u inp w = (r, w')" for w r w' inp
    using keepsD [OF sound_session_transactions(1) that] create_exclusive_session_io_cases [OF _ that(2)] that(1)
    by (auto simp: sound_def opened_by_def)
  show ?thesis
    unfolding create_session_after_login_def issue_tokens_def delete_session_cache_best_effort_def
      app_sessions_def session_deps.select_convs delete_session_cache_def redis_service_del_def safe_def
    by (intro keeps_bindM keeps_bind_after [OF opened] sound_rules) simp_all
qed

lemma sound_refresh [sound_rules]: "keeps (sound d0 cached) (refresh (app_sessions cfg) token)"
proof (rule keepsI)
  fix w r w' assume w: "sound d0 cached w" and run: "refresh (app_sessions cfg) token w = (r, w')"
  note ops = sound_session_transactions [of d0 cached]
  note keep = keepsD [OF ops(2)] keepsD [OF ops(3)] keepsD [OF ops(5)]
  from run show "sound d0 cached w'"
  proof (cases rule: app_session.refresh_cases)
    case (reuse h q w1)
    then have "sound d0 cached w1" using keep(2) [OF w] by (simp add: app_sessions_def)
    moreover have "keeps (sound d0 cached) (delete_session_cache j)" for j
      unfolding delete_session_cache_def redis_service_del_def safe_def by (intro sound_rules)
    ultimately show ?thesis
      using reuse(3) keepsD by (fastforce simp: app_sessions_def)
  next
    case (no_token e)
    then show ?thesis using keep(3) [OF w] by (simp add: app_sessions_def)
  next
    case (failed s a now t w1 e)
    then have "generate_refresh_token w = (Inr t, w1)" "\<exists>i rot. rotate_refresh_token_io i rot w1 = (Inl e, w')"
      by (auto simp: app_session.rotation_path_def) (auto simp: app_sessions_def)
    then show ?thesis using keep(1) keep(3) [OF w] by blast
  next
    case (rotated s a now t w1 res w2 v)
    then have s: "find (\<lambda>x. ses_id x = ses_id s \<and> ses_revoked_at x = None) (sessions (w_db w)) = Some s"
      and a: "find (\<lambda>a. acc_id a = ses_user_id s) (accounts (w_db w)) = Some a"
      and t: "generate_refresh_token w = (Inr t, w1)"
      and rot: "rotate_refresh_token_io (ses_id s) \<lparr>ri_current_token_hash = hash_token cfg token,
          ri_new_token_hash = hash_token cfg t, ri_new_expires_at = now + SESSION_TTL_MS\<rparr> w1 = (Inr res, w2)"
      and set: "set_session_cache (app_session.refreshed_entry a res) w2 = (v, w')"
      by (simp_all add: app_session.rotation_path_def) (simp_all add: app_sessions_def)
    have w1: "sound d0 cached w1" by (rule keep(3) [OF w t])
    have same: "sessions (w_db w1) = sessions (w_db w)"
      using t by (auto simp: generate_refresh_token_def generate_opaque_token_def draw_string_def)
    have "opened_by (ses_id (sr_session res)) (acc_id a) (sessions (w_db w2))" if cached
    proof -
      from that w1 have "auth_wf (w_db w1)" by (simp add: sound_def)
      from rotate_refresh_token_io_cases [OF this rot] s same obtain f where
        "sessions (w_db w2) = update_where (\<lambda>r. ses_id r = ses_id s) f (sessions (w_db w))"
        "\<forall>x. ses_id (f x) = ses_id s \<and> ses_user_id (f x) = ses_user_id s"
        "ses_id (sr_session res) = ses_id s" by auto
      moreover have "f s \<in> set (update_where (\<lambda>r. ses_id r = ses_id s) f (sessions (w_db w)))"
        using find_SomeD [OF s] by (auto simp: in_update_where)
      ultimately show ?thesis
        using find_SomeD [OF a] unfolding opened_by_def by (intro bexI [of _ "f s"]) simp_all
    qed
    with keep(1) [OF w1 rot] keepsD [OF sound_for_set_cache _ set] show ?thesis
      by (simp add: app_session.refreshed_entry_def)
  qed (use w in simp)
qed

lemma sound_session_service [sound_rules]:
  "keeps (sound d0 cached) (logout (app_sessions cfg) token)"
  "keeps (sound d0 cached) (revoke_all (app_sessions cfg) u reason)"
  unfolding logout_def revoke_all_def delete_session_cache_best_effort_def app_sessions_def
    session_deps.select_convs find_session_by_refresh_token_hash_def
  by (intro sound_rules)+

lemma loaded_session:
  assumes "load_session (app_sessions cfg) i w = (r, w')"
  shows "w' = w \<and> (\<forall>entry. r = Inr (Some entry) \<longrightarrow> (\<exists>s \<in> set (sessions (w_db w)). ses_id s = i
    \<and> ses_revoked_at s = None \<and> w_clock w < ses_expires_at s
    \<and> sc_session_id entry = i \<and> sc_user_id entry = ses_user_id s))"
  using assms
  by (auto simp: load_session_def app_sessions_def run_simps db_op_def find_active_session_by_id_def
      now_io_def find_account_by_id_def account_by_id_def split: option.splits if_splits dest!: find_SomeD)

lemma sound_validate [sound_rules]: "keeps (sound d0 cached) (validate_session (app_sessions cfg) i)"
proof -
  have loaded: "sound d0 cached w' \<and> (\<forall>x. r = Inr x \<longrightarrow> (\<forall>e. x = Some e \<longrightarrow> cached \<longrightarrow>
      opened_by (sc_session_id e) (sc_user_id e) (sessions (w_db w'))))"
    if "sound d0 cached w" "load_session (app_sessions cfg) i w = (r, w')" for w r w'
    using loaded_session [OF that(2)] that(1) unfolding opened_by_def by fastforce
  have remembered: "keeps (sound_for d0 cached (sc_session_id e) (sc_user_id e)) (remember_session (app_sessions cfg) e)" for e
    unfolding remember_session_def app_sessions_def session_deps.select_convs by (intro sound_rules) simp_all
  have "keeps (\<lambda>w. sound d0 cached w \<and> (\<forall>e. entry = Some e \<longrightarrow> cached \<longrightarrow>
        opened_by (sc_session_id e) (sc_user_id e) (sessions (w_db w))))
      (case entry of None \<Rightarrow> returnM None | Some e \<Rightarrow> remember_session (app_sessions cfg) e)" for entry
    using remembered by (cases entry) (simp_all add: keeps_rules)
  note miss = keeps_bind_after [where P = "sound d0 cached" and m = "load_session (app_sessions cfg) i", OF _ this]
  have "keeps (sound d0 cached) (bindM (load_session (app_sessions cfg) i) (\<lambda>entry.
      case entry of None \<Rightarrow> returnM None | Some e \<Rightarrow> remember_session (app_sessions cfg) e))"
    by (rule miss) (rule loaded)
  moreover have "keeps (sound d0 cached) (read_session_cache (app_sessions cfg) i)"
    unfolding read_session_cache_def app_sessions_def session_deps.select_convs by (intro sound_rules)
  moreover have "keeps (sound d0 cached) (bindM (sd_now (app_sessions cfg)) (\<lambda>now.
      if p now then returnM x else returnM y))" for p x y
    unfolding app_sessions_def session_deps.select_convs by (intro sound_rules)
  ultimately show ?thesis
    unfolding validate_session_def by (intro keeps_bindM) (auto split: option.splits)
qed

section \<open>Handlers of the requests\<close>

lemma sound_guards [sound_rules]:
  "keeps (sound d0 cached) (session_guard cfg request)"
  "keeps (sound d0 cached) (csrf_origin_guard cfg gc request)"
  unfolding session_guard_def csrf_origin_guard_def resolve_csrf_session_def
    find_session_by_refresh_token_hash_def find_active_session_by_id_def
    find_refresh_token_history_by_hash_def Let_def
  by (intro sound_rules)+

lemmas auth_helper_defs =
  with_security_storage_def parse_email_def parse_password_def assert_password_confirmation_def
  assert_login_rate_limit_def assert_within_rate_limits_def record_failed_login_def
  enqueue_activation_def enqueue_activation_if_allowed_def create_pending_account_io_def
  issue_login_challenge_def refuse_if_locked_def reject_challenge_def open_session_def
  consume_password_reset_token_io_def update_password_hash_io_def enqueue_verification_code_def
  enqueue_password_reset_def hash_password_def generate_challenge_id_def generate_verification_code_io_def
  find_account_by_email_def find_account_by_id_def

lemma sound_auth_service [sound_rules]:
  "keeps (sound d0 cached) (register_user cfg e p c ip)"
  "keeps (sound d0 cached) (verify_email cfg e c)"
  "keeps (sound d0 cached) (resend_email_verification cfg e ip)"
  "keeps (sound d0 cached) (start_login cfg e p ip)"
  "keeps (sound d0 cached) (complete_login cfg ch c)"
  "keeps (sound d0 cached) (refresh_session cfg t)"
  "keeps (sound d0 cached) (logout_session cfg t)"
  "keeps (sound d0 cached) (request_password_reset cfg e ip)"
  "keeps (sound d0 cached) (reset_password cfg t p c)"
  subgoal unfolding register_user_def auth_helper_defs by (intro sound_rules)
  subgoal unfolding verify_email_def auth_helper_defs by (intro sound_rules)
  subgoal unfolding resend_email_verification_def auth_helper_defs by (intro sound_rules)
  subgoal unfolding start_login_def auth_helper_defs by (intro sound_rules)
  subgoal unfolding complete_login_def auth_helper_defs by (intro sound_rules) (auto intro!: sound_rules split: consume_login_result.splits)
  subgoal unfolding refresh_session_def auth_helper_defs by (intro sound_rules)
  subgoal unfolding logout_session_def auth_helper_defs by (intro sound_rules)
  subgoal unfolding request_password_reset_def auth_helper_defs by (intro sound_rules)
  subgoal unfolding reset_password_def auth_helper_defs by (intro sound_rules)
  done

lemma utc_date_text: "four_digit_day (day_of_instant t) \<Longrightarrow> is_day_text (utc_date t)"
  by (simp add: is_day_text_def utc_date_def parse_iso_date)

lemma sound_collect:
  assumes "is_day_text (aj_occurred_on job)"
  shows "keeps (sound d0 cached) (collect job)"
  using assms by (simp add: keeps_def collect_def enqueue_def Let_def sound_def split: list.split net_outcome.split)

lemma sound_now:
  assumes "\<And>t. four_digit_day (day_of_instant t) \<Longrightarrow> keeps (sound d0 cached) (f t)"
  shows "keeps (sound d0 cached) (bindM now_io f)"
proof (rule keepsI)
  fix w r w' assume w: "sound d0 cached w" and run: "bindM now_io f w = (r, w')"
  from w have "keeps (sound d0 cached) (f (w_clock w))" by (intro assms) (simp add: sound_def)
  moreover have "f (w_clock w) w = (r, w')" using run by (simp add: bindM_def now_io_def getsM_def)
  ultimately show "sound d0 cached w'" using keepsD [of "sound d0 cached" "f (w_clock w)" w r w'] w by simp
qed

lemma sound_schedule [sound_rules]: "keeps (sound d0 cached) (schedule_access_collection ac request r)"
proof -
  have "keeps (sound d0 cached) (collect_eligible_access deps request r)" for deps
    unfolding collect_eligible_access_def Let_def
    by (intro keeps_if keeps_returnM sound_now keeps_bindM sound_primitives sound_collect)
      (simp add: utc_date_text)
  then show ?thesis unfolding schedule_access_collection_def by (intro sound_rules)
qed

lemma keeps_results [sound_rules]:
  "(\<And>l. keeps P (a l)) \<Longrightarrow> (\<And>l. keeps P (b l)) \<Longrightarrow> (\<And>l. keeps P (c l)) \<Longrightarrow> keeps P m \<Longrightarrow> keeps P k \<Longrightarrow>
     keeps P (case created of Created l \<Rightarrow> a l | Existing l \<Rightarrow> b l | Reactivated l \<Rightarrow> c l
       | CreateLimitReached \<Rightarrow> m | ShortCodeCollision \<Rightarrow> k)"
  "(\<And>l. keeps P (d l)) \<Longrightarrow> (\<And>l. keeps P (e l)) \<Longrightarrow> keeps P f \<Longrightarrow> keeps P g \<Longrightarrow> keeps P h \<Longrightarrow>
     keeps P (case changed of Changed l \<Rightarrow> d l | Unchanged l \<Rightarrow> e l | ChangeNotFound \<Rightarrow> f
       | ChangeForbidden \<Rightarrow> g | ChangeLimitReached \<Rightarrow> h)"
  subgoal by (cases created) simp_all
  subgoal by (cases changed) simp_all
  done

lemma sound_create_attempts [sound_rules]:
  "keeps (sound d0 cached) (create_attempts (app_links ttl base n parse) u t k)"
proof (induction k)
  case (Suc k)
  have "keeps (sound d0 cached) (create_or_restore_io u t c)" for c
    unfolding create_or_restore_io_def by (intro sound_rules)
  moreover have "dep_generate (app_links ttl base n parse) = generate_code_io"
    "dep_create_or_restore (app_links ttl base n parse) = create_or_restore_io" by (simp_all add: app_links_def)
  ultimately show ?case
    using Suc unfolding create_attempts.simps by (intro sound_rules) (simp_all add: sound_primitives)
qed (simp add: keeps_rules)

lemma sound_links_service [sound_rules]:
  "keeps (sound d0 cached) (service_resolve (app_links ttl base n parse) c)"
  "keeps (sound d0 cached) (service_change_status (app_links ttl base n parse) u i st)"
  "keeps (sound d0 cached) (service_list (app_links ttl base n parse) u q)"
  "keeps (sound d0 cached) (service_create (app_links ttl base n parse) u t)"
  "keeps (sound d0 cached) (service_get_report u i from to)"
proof -
  show "keeps (sound d0 cached) (service_resolve (app_links ttl base n parse) c)"
    unfolding service_resolve_def app_links_def links_deps.select_convs cache_get_def cache_set_def
      redis_service_get_def redis_service_set_def find_active_by_short_code_def Let_def
    by (intro sound_rules)
  show "keeps (sound d0 cached) (service_change_status (app_links ttl base n parse) u i st)"
    unfolding service_change_status_def app_links_def links_deps.select_convs cache_invalidate_def
      redis_service_del_def change_status_io_def find_link_by_id_def
    by (intro sound_rules)
  show "keeps (sound d0 cached) (service_list (app_links ttl base n parse) u q)"
    unfolding service_list_def app_links_def links_deps.select_convs list_by_user_def Let_def
    by (intro sound_rules sound_readonly)
  show "keeps (sound d0 cached) (service_create (app_links ttl base n parse) u t)"
    unfolding service_create_def parse_destination_url_def by (intro sound_rules)
  show "keeps (sound d0 cached) (service_get_report u i from to)"
    unfolding service_get_report_def find_link_by_id_def get_report_def Let_def
    by (intro sound_rules sound_readonly)
qed

lemma sound_links_api [sound_rules]: "keeps (sound d0 cached) (links_api cfg (app_links ttl base n parse) vd headers request)"
proof -
  have "keeps (sound d0 cached) (links_handler (app_links ttl base n parse) vd u request)" for u
    by (cases request; simp only: links_handler.simps;
        unfold route_create_link_def route_list_links_def route_deactivate_link_def route_reactivate_link_def
          route_link_statistics_def with_link_id_def validation_pipe_def controller_create_def
          controller_list_def controller_deactivate_def controller_reactivate_def service_deactivate_def
          service_reactivate_def;
        intro sound_rules)
  then show ?thesis unfolding links_api_def by (intro sound_rules)
qed

lemma sound_routes [sound_rules]:
  "keeps (sound d0 cached) (route_register cfg vd body ip)"
  "keeps (sound d0 cached) (route_verify_email cfg vd body)"
  "keeps (sound d0 cached) (route_resend_email_verification cfg vd body ip)"
  "keeps (sound d0 cached) (route_login cfg vd body ip)"
  "keeps (sound d0 cached) (route_verify_login cfg gc vd body)"
  "keeps (sound d0 cached) (route_refresh cfg gc headers)"
  "keeps (sound d0 cached) (route_logout cfg gc headers)"
  "keeps (sound d0 cached) (route_forgot_password cfg vd body ip)"
  "keeps (sound d0 cached) (route_reset_password cfg vd body)"
  "keeps (sound d0 cached) (protected_route cfg headers)"
  unfolding route_register_def route_verify_email_def route_resend_email_verification_def
    route_login_def route_verify_login_def route_refresh_def route_logout_def route_forgot_password_def
    route_reset_password_def validation_pipe_def protected_route_def
  by (intro sound_rules)+

lemma sound_run_handler:
  assumes "sv_links sv = app_links ttl base n parse"
  shows "keeps (sound d0 cached) (run_handler sv rq params handler)"
  using assms by (cases handler) (simp_all add: as_route_def as_links_def keeps_bindM keeps_returnM sound_routes sound_links_api)

lemma sound_serve:
  assumes "sv_links sv = app_links ttl base n parse"
  shows "keeps (sound d0 cached) (serve sv rq)"
proof -
  have route: "keeps (sound d0 cached) (filtered (case route_of sv (rq_http rq) of
      None \<Rightarrow> throwM (sv_no_route sv (rq_http rq))
    | Some (handler, params) \<Rightarrow> run_handler sv rq params handler))"
    unfolding filtered_def by (intro sound_rules sound_run_handler [OF assms])
  have "keeps (sound d0 cached) (case public of
         ReplyRedirect location \<Rightarrow> returnM (RedirectReply location)
       | ReplyNotFound \<Rightarrow> returnM LinkNotFoundReply
       | PassError e \<Rightarrow> returnM (UnhandledError e)
       | PassOn \<Rightarrow> filtered (case route_of sv (rq_http rq) of
           None \<Rightarrow> throwM (sv_no_route sv (rq_http rq))
         | Some (handler, params) \<Rightarrow> run_handler sv rq params handler))" for public
    using route by (cases public) (simp_all add: keeps_rules)
  moreover have "keeps (sound d0 cached) (handle_public_link_resolve (sv_links sv) (sv_collection sv) (rq_http rq))"
    unfolding handle_public_link_resolve_def assms Let_def by (intro sound_rules)
  ultimately show ?thesis unfolding serve_def by (intro keeps_bindM)
qed

lemma sound_email_job: "keeps (sound d0 cached) (process_email_job cfg job)"
  by (cases job; simp only: process_email_job_def email_job.case;
      unfold process_activation_def process_login_def process_password_reset_def
        create_password_reset_token_io_def generate_opaque_token_def generate_verification_code_io_def
        find_account_by_id_def;
      intro sound_rules)

lemma sound_access_job:
  assumes "is_day_text (aj_occurred_on job)"
  shows "keeps (sound d0 cached) (process_access_job name job)"
  unfolding process_access_job_def
  by (intro sound_rules sound_record_access) (simp add: job_input_def assms)

lemma sound_finalizer: "keeps (sound d0 cached) finalize_previous_utc_days"
  unfolding finalize_previous_utc_days_def by (intro sound_rules)

section \<open>The system\<close>

text \<open>
  The system at work: requests are served, jobs of both queues are worked off (once or repeatedly,
  in any order), days are finalised.
\<close>

inductive system_step :: "server \<Rightarrow> world \<Rightarrow> world \<Rightarrow> bool" for sv where
  request: "serve sv rq w = (reply, w') \<Longrightarrow> system_step sv w w'"
| email_job: "process_email_job (sv_auth sv) job w = (r, w') \<Longrightarrow> system_step sv w w'"
| access_job: "access \<in> set (w_access_jobs w) \<Longrightarrow> process_access_job name access w = (r, w') \<Longrightarrow>
    system_step sv w w'"
| finalizer: "finalize_previous_utc_days w = (r, w') \<Longrightarrow> system_step sv w w'"

text \<open>
  The states of the system: the tables are empty at first; between the steps time passes, Redis
  keeps or forgets what it likes, calls to it fail, jobs vanish.
\<close>

inductive system_reached :: "server \<Rightarrow> world \<Rightarrow> bool" for sv where
  start: "w_db w = empty_db \<Longrightarrow> w_access_jobs w = [] \<Longrightarrow> four_digit_day (day_of_instant (w_clock w)) \<Longrightarrow>
    system_reached sv w"
| step: "system_reached sv w \<Longrightarrow> system_step sv w w' \<Longrightarrow> system_reached sv w'"
| outside: "system_reached sv w \<Longrightarrow> w_db w' = w_db w \<Longrightarrow>
    set (w_access_jobs w') \<subseteq> set (w_access_jobs w) \<Longrightarrow>
    four_digit_day (day_of_instant (w_clock w')) \<Longrightarrow> system_reached sv w'"

text \<open>
  The same from any tables the transactions can make, while nobody else writes the session entries
  of Redis: it may lose them at any time, and any call to it may fail.
\<close>

inductive cache_reached :: "server \<Rightarrow> world \<Rightarrow> bool" for sv where
  start: "sound_tables empty_db (w_db w) \<Longrightarrow> w_access_jobs w = [] \<Longrightarrow>
    four_digit_day (day_of_instant (w_clock w)) \<Longrightarrow> (\<And>i. w_redis w (session_key i) = None) \<Longrightarrow>
    cache_reached sv w"
| step: "cache_reached sv w \<Longrightarrow> system_step sv w w' \<Longrightarrow> cache_reached sv w'"
| outside: "cache_reached sv w \<Longrightarrow> w_db w' = w_db w \<Longrightarrow>
    set (w_access_jobs w') \<subseteq> set (w_access_jobs w) \<Longrightarrow>
    four_digit_day (day_of_instant (w_clock w')) \<Longrightarrow>
    (\<And>i. w_redis w' (session_key i) = w_redis w (session_key i) \<or> w_redis w' (session_key i) = None) \<Longrightarrow>
    cache_reached sv w'"

lemma sound_empty: "sound_tables empty_db empty_db"
  by (simp add: sound_tables_def auth_leads.stay links_grow_refl links_wf_def empty_db_def
      count_active_links_def MAX_ACTIVE_LINKS_PER_USER_def stats_history.start)

lemma sound_step:
  assumes "system_step sv w w'" and "sound d0 cached w" and links: "sv_links sv = app_links ttl base n parse"
  shows "sound d0 cached w'"
  using assms(1)
proof cases
  case (request rq reply)
  then show ?thesis using keepsD [OF sound_serve [OF links]] assms(2) by blast
next
  case (email_job job r)
  then show ?thesis using keepsD [OF sound_email_job] assms(2) by blast
next
  case (access_job access name r)
  then have "is_day_text (aj_occurred_on access)" using assms(2) by (simp add: sound_def)
  from keepsD [OF sound_access_job [OF this] assms(2) access_job(2)] show ?thesis .
next
  case (finalizer r)
  then show ?thesis using keepsD [OF sound_finalizer] assms(2) by blast
qed

lemma system_sound:
  assumes "system_reached sv w" and links: "sv_links sv = app_links ttl base n parse"
  shows "sound empty_db False w"
  using assms(1)
proof (induction rule: system_reached.induct)
  case (start w)
  then show ?case by (simp add: sound_def sound_empty)
next
  case (step w w')
  then show ?case using sound_step links by blast
next
  case (outside w w')
  then show ?case by (auto simp: sound_def)
qed

lemma cache_sound:
  assumes "cache_reached sv w" and links: "sv_links sv = app_links ttl base n parse"
  shows "sound empty_db True w"
  using assms(1)
proof (induction rule: cache_reached.induct)
  case (start w)
  then have "auth_wf (w_db w)"
    using auth_leads_safe [OF _ empty_db_auth_wf] by (simp add: sound_tables_def)
  with start show ?case by (simp add: sound_def cache_backed_def)
next
  case (step w w')
  then show ?case using sound_step links by blast
next
  case (outside w w')
  then have "cache_backed (sessions (w_db w)) (w_redis w')"
    using cache_backed_spared [of _ "w_redis w" "w_redis w'"] by (simp add: sound_def)
  with outside show ?case by (auto simp: sound_def)
qed

lemma stats_history_counters:
  assumes "stats_history d"
  shows "if day_finalized l day d
       then raw_accesses (l, day, c) d = 0 \<and> raw_visitors (l, day, c) d = 0
       else accesses_at ((=) (l, day, c)) d = int (raw_accesses (l, day, c) d)
          \<and> uniques_at ((=) (l, day, c)) d = int (raw_visitors (l, day, c) d)"
  using stats_history_inv [OF assms]
  by (auto simp: stats_inv_def raw_accesses_def raw_visitors_def filter_empty_conv)

text \<open>
  Property C1. Whatever requests are served and whatever jobs run, in any order and under any
  failures of Redis, the tables keep their invariants: no user has more than ten active links and
  no short code is taken twice; an account has at most one active session and one unused reset
  token, an active session one unused refresh token, the current one; the counters of a day not
  finalised are the numbers of its stored accesses and visitors, and a finalised day stores none.
\<close>

theorem system_invariant:
  assumes "system_reached sv w" and "sv_links sv = app_links ttl base n parse"
  shows "count_active_links u (w_db w) \<le> 10
    \<and> distinct (map lk_short_code (links (w_db w)))
    \<and> length (filter (is_active_session_of u) (sessions (w_db w))) \<le> 1
    \<and> length (filter (\<lambda>t. prt_user_id t = u \<and> prt_used_at t = None) (reset_tokens (w_db w))) \<le> 1
    \<and> (\<forall>s \<in> set (sessions (w_db w)). \<exists>t. filter (current_token s) (refresh_tokens (w_db w)) = [t]
          \<and> rt_token_hash t = ses_refresh_token_hash s)
    \<and> (if day_finalized l day (w_db w)
       then raw_accesses (l, day, c) (w_db w) = 0 \<and> raw_visitors (l, day, c) (w_db w) = 0
       else accesses_at ((=) (l, day, c)) (w_db w) = int (raw_accesses (l, day, c) (w_db w))
          \<and> uniques_at ((=) (l, day, c)) (w_db w) = int (raw_visitors (l, day, c) (w_db w)))"
proof -
  have d: "auth_leads empty_db (w_db w)" "links_wf (w_db w)" "stats_history (w_db w)"
    using system_sound [OF assms] by (simp_all add: sound_def sound_tables_def)
  have auth: "auth_wf (w_db w)" using auth_leads_safe [OF d(1) empty_db_auth_wf] by blast
  have links: "count_active_links u (w_db w) \<le> 10" "distinct (map lk_short_code (links (w_db w)))"
    using d(2) by (simp_all add: links_wf_def MAX_ACTIVE_LINKS_PER_USER_def)
  note tokens = auth_wf_one_token [OF auth]
  show ?thesis
    using links auth_wf_one_session [OF auth, of u] auth_wf_one_reset [OF auth, of u] tokens
      stats_history_counters [OF d(3), of l day c] by auto
qed

text \<open>
  Property C6. No request to the API undoes what was decided: a revoked session stays as it is, a
  used refresh token or reset token stays used, an activated account stays active; no account,
  session, token or link disappears or changes hands, and a link keeps its code and destination.
\<close>

theorem requests_undo_nothing:
  assumes "system_reached sv w" and "sv_links sv = app_links ttl base n parse"
    and "serve sv rq w = (reply, w')"
  shows "auth_le (w_db w) (w_db w') \<and> links_grow (w_db w) (w_db w')"
proof -
  note now = system_sound [OF assms(1,2)]
  then have "sound (w_db w) False w" by (simp add: sound_def sound_tables_def auth_leads.stay links_grow_refl)
  from keepsD [OF sound_serve [OF assms(2)] this assms(3)]
  have later: "auth_leads (w_db w) (w_db w')" "links_grow (w_db w) (w_db w')"
    by (simp_all add: sound_def sound_tables_def)
  have "auth_leads empty_db (w_db w)" using now by (simp add: sound_def sound_tables_def)
  from auth_leads_safe [OF this empty_db_auth_wf] have "auth_wf (w_db w)" by blast
  with auth_leads_safe [OF later(1)] later(2) show ?thesis by blast
qed

section \<open>Whom the session guard lets through\<close>

lemma cached_backed:
  assumes "cache_backed ss (w_redis w)" and "cached_sessions w i = Some e"
  shows "sc_session_id e = i \<and> opened_by i (sc_user_id e) ss"
proof -
  from assms(2) obtain entry payload where
    "w_redis w (session_key i) = Some entry" "re_value entry = RJson payload" "e = parse_session_cache payload"
    by (auto simp: cached_sessions_def redis_get_def redis_live_def
        split: option.splits redis_value.splits if_splits)
  with assms(1) show ?thesis unfolding cache_backed_def by blast
qed

text \<open>What lets a session pass: its row, neither revoked nor expired, or its entry in the cache.\<close>

definition row_passes :: "world \<Rightarrow> session \<Rightarrow> bool" where
  "row_passes w s \<longleftrightarrow> ses_revoked_at s = None \<and> w_clock w < ses_expires_at s"

definition entry_passes :: "world \<Rightarrow> session \<Rightarrow> bool" where
  "entry_passes w s \<longleftrightarrow> (\<exists>e. cached_sessions w (ses_id s) = Some e \<and> sc_active e
     \<and> sc_user_id e = ses_user_id s \<and> \<not> cache_entry_expired (w_clock w) e)"

lemma validated_session:
  assumes run: "validate_session (app_sessions cfg) i w = (Inr (Some p), w')"
    and backed: "cache_backed (sessions (w_db w)) (w_redis w)"
  shows "\<exists>s \<in> set (sessions (w_db w)). ses_id s = i \<and> ses_user_id s = pr_user_id p
    \<and> (row_passes w s \<or> entry_passes w s)"
proof -
  obtain g w1 where get: "get_session_cache i w = (g, w1)" by force
  note law = get_session_cache_law [OF get, unfolded untouched_def]
  have steps: "sd_get_cache (app_sessions cfg) = get_session_cache" "sd_now (app_sessions cfg) = now_io"
    by (simp_all add: app_sessions_def)
  show ?thesis
  proof (cases "\<exists>e. g = Inr (Some e)")
    case True
    then obtain e where e: "g = Inr (Some e)" ..
    with law have hit: "cached_sessions w i = Some e" by simp
    from run get e law steps have p: "pr_user_id p = sc_user_id e" "sc_active e" "\<not> cache_entry_expired (w_clock w) e"
      by (auto simp: validate_session_def read_session_cache_def run_simps now_io_def split: if_splits)
    from cached_backed [OF backed hit] obtain s where "s \<in> set (sessions (w_db w))" "ses_id s = i"
      "ses_user_id s = sc_user_id e" by (auto simp: opened_by_def)
    with hit p show ?thesis by (intro bexI [of _ s]) (auto simp: entry_passes_def)
  next
    case False
    obtain entry w2 where load: "load_session (app_sessions cfg) i w1 = (entry, w2)" by force
    have "\<exists>e. entry = Inr (Some e) \<and> pr_user_id p = sc_user_id e"
      using run get False load steps
      by (cases g; cases entry)
        (auto simp: validate_session_def read_session_cache_def remember_session_def run_simps
          split: option.splits if_splits sum.splits prod.splits)
    with loaded_session [OF load] law show ?thesis unfolding row_passes_def by metis
  qed
qed

text \<open>
  Property C4. Links are served to sessions of the user only, also when Redis fails at any time and
  the requests come in any order. When the API answers a request about links, the request carried
  an unexpired access token, and its session is a row of PostgreSQL that belongs to the token's
  user; the row is neither revoked nor expired, or Redis still holds an unexpired entry of that
  session. The latter is the only way past a revoked session (its revocation did not reach the
  cache, or a concurrent validation wrote the entry back), and it is excluded when Redis answered
  every login, refresh, logout and revocation and none of them overlapped. The answer is about that user's links, and
  every other user's links are as they were.
\<close>

theorem links_need_live_session:
  assumes "cache_reached sv w" and "sv_links sv = app_links ttl base n parse"
    and "serve sv rq w = (Inr (LinksReply answer), w')"
  shows "\<exists>handler params request token payload s.
    route_of sv (rq_http rq) = Some (handler, params)
    \<and> links_request_of rq params handler = Some request
    \<and> bearer_token (rq_headers rq) = Some token
    \<and> verify_access_token (sv_auth sv) (w_clock w) token = Inr payload
    \<and> s \<in> set (sessions (w_db w))
    \<and> ses_id s = cl_session_id (ap_claims payload) \<and> ses_user_id s = cl_sub (ap_claims payload)
    \<and> (row_passes w s \<or> entry_passes w s)
    \<and> (sessions_served (sv_auth sv) w \<longrightarrow> ses_revoked_at s = None)
    \<and> answer_of base (ses_user_id s) (w_db w') request answer
    \<and> links_of_others (ses_user_id s) (w_db w') = links_of_others (ses_user_id s) (w_db w)"
proof -
  have wf: "links_wf (w_db w)" "auth_wf (w_db w)" "cache_backed (sessions (w_db w)) (w_redis w)"
    using cache_sound [OF assms(1,2)] by (simp_all add: sound_def sound_tables_def)
  from served_links [OF assms(3)] obtain handler params request where
    d: "route_of sv (rq_http rq) = Some (handler, params)" "links_request_of rq params handler = Some request"
    and api: "links_api (sv_auth sv) (sv_links sv) (sv_validator sv) (rq_headers rq) request w = (Inr answer, w')"
    by blast
  obtain g v where g: "session_guard (sv_auth sv) (rq_headers rq) w = (g, v)" by force
  with api obtain p where p: "g = Inr p" by (cases g) (auto simp: links_api_def run_simps)
  have db: "w_db v = w_db w" using keepsD [OF session_guard_reads _ g, of "w_db w"] by simp
  from api g p assms(2) have "links_handler (app_links ttl base n parse) (sv_validator sv) (pr_user_id p) request v
      = (Inr answer, w')" by (simp add: links_api_def run_simps)
  from handler_isolated [OF _ this] wf(1) db
  have own: "links_of_others (pr_user_id p) (w_db w') = links_of_others (pr_user_id p) (w_db w)"
    "answer_of base (pr_user_id p) (w_db w') request answer" by (simp_all add: isolated_def)
  from session_guard_accepts [OF g [unfolded p]] obtain token payload where
    t: "bearer_token (rq_headers rq) = Some token" "verify_access_token (sv_auth sv) (w_clock w) token = Inr payload"
    and v: "validate_session (app_sessions (sv_auth sv)) (cl_session_id (ap_claims payload)) w = (Inr (Some p), v)"
    and u: "pr_user_id p = cl_sub (ap_claims payload)" by blast
  from validated_session [OF v wf(3)] u obtain s where
    s: "s \<in> set (sessions (w_db w))" "ses_id s = cl_session_id (ap_claims payload)"
      "ses_user_id s = cl_sub (ap_claims payload)" "row_passes w s \<or> entry_passes w s" by auto
  have "ses_revoked_at s = None" if "sessions_served (sv_auth sv) w"
  proof -
    from guarded_session [OF that g [unfolded p]] t s(2) obtain s' where
      "s' \<in> set (sessions (w_db w))" "ses_id s' = ses_id s" "ses_revoked_at s' = None" by auto
    with distinct_key_eq [OF auth_wf_parts(1) [OF wf(2)], of s' s] s(1) show ?thesis by simp
  qed
  with d t s own u show ?thesis
    by (intro exI [of _ handler] exI [of _ params] exI [of _ request] exI [of _ token] exI [of _ payload]
        exI [of _ s]) simp
qed

end
