(* ===== verification/ApiOutcomes.thy ===== *)
theory ApiOutcomes
  imports SystemInvariant
begin

text \<open>
  What the handlers of the API can do, composed from what the operations they call can do: which
  errors a client can get (the status and code the exception filter makes of an exception), and
  which tables and mail queues an operation touches.
\<close>

section \<open>Errors\<close>

definition error_key :: "exn \<Rightarrow> nat \<times> string" where
  "error_key e = (eb_status (to_error_body e), eb_code (to_error_body e))"

definition INTERNAL :: "nat \<times> string" where
  "INTERNAL = (500, ''INTERNAL_SERVER_ERROR'')"

text \<open>Every exception of the effect is answered with an error of \<open>E\<close> or as an internal one.\<close>

definition raises :: "(nat \<times> string) set \<Rightarrow> (exn, 's, 'a) eff \<Rightarrow> bool" where
  "raises E m \<longleftrightarrow> (\<forall>w e w'. m w = (Inl e, w') \<longrightarrow> error_key e \<in> insert INTERNAL E)"

named_theorems raises_rules "the errors of effects"
named_theorems error_keys "how exceptions are answered"

lemma raisesD: "raises E m \<Longrightarrow> m w = (Inl e, w') \<Longrightarrow> error_key e \<in> insert INTERNAL E"
  unfolding raises_def by blast

lemma raises_returnM [raises_rules]: "raises E (returnM x)"
  by (simp add: raises_def returnM_def)

lemma raises_throwM [raises_rules]: "error_key e \<in> insert INTERNAL E \<Longrightarrow> raises E (throwM e)"
  by (simp add: raises_def throwM_def)

lemma raises_getsM [raises_rules]: "raises E (getsM f)"
  by (simp add: raises_def getsM_def)

lemma raises_modifyM [raises_rules]: "raises E (modifyM f)"
  by (simp add: raises_def modifyM_def)

lemma raises_bindM [raises_rules]: "raises E m \<Longrightarrow> (\<And>x. raises E (f x)) \<Longrightarrow> raises E (bindM m f)"
  by (fastforce simp: raises_def bindM_def split: prod.splits sum.splits)

lemma raises_thenM [raises_rules]: "raises E m \<Longrightarrow> raises E k \<Longrightarrow> raises E (thenM m k)"
  by (simp add: thenM_def raises_bindM)

lemma raises_catchM [raises_rules]:
  "raises E m \<Longrightarrow> (\<And>e. error_key e \<in> insert INTERNAL E \<Longrightarrow> raises E (h e)) \<Longrightarrow> raises E (catchM m h)"
  by (fastforce simp: raises_def catchM_def split: prod.splits sum.splits)

lemma raises_forM [raises_rules]: "(\<And>x. raises E (f x)) \<Longrightarrow> raises E (forM xs f)"
  by (induction xs) (auto intro: raises_rules)

lemma raises_if [raises_rules]: "(b \<Longrightarrow> raises E m) \<Longrightarrow> (\<not> b \<Longrightarrow> raises E k) \<Longrightarrow> raises E (if b then m else k)"
  by simp

lemma raises_option [raises_rules]:
  "(v = None \<Longrightarrow> raises E m) \<Longrightarrow> (\<And>x. v = Some x \<Longrightarrow> raises E (f x)) \<Longrightarrow>
     raises E (case v of None \<Rightarrow> m | Some x \<Rightarrow> f x)"
  by (cases v) auto

lemma raises_sum [raises_rules]:
  "(\<And>e. v = Inl e \<Longrightarrow> raises E (f e)) \<Longrightarrow> (\<And>x. v = Inr x \<Longrightarrow> raises E (g x)) \<Longrightarrow>
     raises E (case v of Inl e \<Rightarrow> f e | Inr x \<Rightarrow> g x)"
  by (cases v) auto

lemma raises_pair [raises_rules]: "(\<And>x y. raises E (h x y)) \<Longrightarrow> raises E (case p of (x, y) \<Rightarrow> h x y)"
  by (cases p) simp

lemma raises_redis_value [raises_rules]:
  "(\<And>t. raises E (f t)) \<Longrightarrow> (\<And>n. raises E (g n)) \<Longrightarrow> (\<And>j. raises E (h j)) \<Longrightarrow>
     raises E (case v of RText t \<Rightarrow> f t | RInt n \<Rightarrow> g n | RJson j \<Rightarrow> h j)"
  by (cases v) auto

lemma raises_transaction [raises_rules]: "raises E m \<Longrightarrow> raises E (transaction m)"
  by (fastforce simp: raises_def transaction_def split: prod.splits sum.splits)

lemma raises_db_op [raises_rules]: "raises E m \<Longrightarrow> raises E (db_op m)"
  by (fastforce simp: raises_def db_op_def split: prod.splits)

lemma plain_keys [error_keys]:
  "error_key (PlainErr m) = INTERNAL" "error_key (QueryErr q) = INTERNAL" "error_key RedisErr = INTERNAL"
  "error_key StorageUnavailableExn = INTERNAL" "error_key RefreshReuseExn = INTERNAL"
  "error_key InvalidRefreshExn = INTERNAL" "error_key value_too_long = INTERNAL"
  "error_key (unique_violation c t) = INTERNAL" "error_key (missing_reference c) = INTERNAL"
  "error_key session_not_active = INTERNAL"
  by (simp_all add: error_key_def to_error_body_def INTERNAL_def value_too_long_def unique_violation_def
      missing_reference_def session_not_active_def)

lemma http_keys [error_keys]:
  "error_key (http_error s c m) = (s, c)" "error_key (validation_exception es) = (422, ''VALIDATION_ERROR'')"
  "error_key unauthorized_exception = (401, ''HTTP_ERROR'')"
  "error_key account_temporarily_locked_exception = (429, ''ACCOUNT_TEMPORARILY_LOCKED'')"
  by (simp_all add: error_key_def to_error_body_def unauthorized_exception_def
      account_temporarily_locked_exception_def payload_code_def code_from_status_def)
    (simp_all add: http_error_def validation_exception_def payload_code_def)

lemma exception_keys [error_keys]:
  "error_key rate_limited_exception = (429, ''RATE_LIMITED'')"
  "error_key invalid_credentials_exception = (401, ''INVALID_CREDENTIALS'')"
  "error_key email_not_verified_exception = (403, ''EMAIL_NOT_VERIFIED'')"
  "error_key invalid_verification_exception = (401, ''INVALID_VERIFICATION'')"
  "error_key session_invalid_exception = (401, ''SESSION_INVALID'')"
  "error_key storage_unavailable_exception = (503, ''AUTH_SECURITY_STORAGE_UNAVAILABLE'')"
  "error_key csrf_failed = (403, ''CSRF_VALIDATION_FAILED'')"
  "error_key link_limit_reached_exception = (409, ''LINK_LIMIT_REACHED'')"
  "error_key link_not_found_exception = (404, ''LINK_NOT_FOUND'')"
  "error_key forbidden_exception = (403, ''FORBIDDEN'')"
  "error_key link_cache_unavailable_exception = (503, ''LINK_CACHE_UNAVAILABLE'')"
  "error_key short_code_generation_unavailable_exception = (503, ''SHORT_CODE_GENERATION_UNAVAILABLE'')"
  unfolding rate_limited_exception_def invalid_credentials_exception_def email_not_verified_exception_def
    invalid_verification_exception_def session_invalid_exception_def storage_unavailable_exception_def
    csrf_failed_def link_limit_reached_exception_def link_not_found_exception_def forbidden_exception_def
    link_cache_unavailable_exception_def short_code_generation_unavailable_exception_def
  by (simp_all only: http_keys)

section \<open>Errors of the repositories and of Redis\<close>

lemma raises_rows [raises_rules]:
  "raises E (insert_account a)" "raises E (insert_session s)" "raises E (insert_refresh_token t)"
  "raises E (insert_reset_token p)" "raises E (insert_audit_event ev)" "raises E (insert_link l)"
  by (auto simp: raises_def insert_account_def insert_session_def insert_refresh_token_def
      insert_reset_token_def insert_audit_event_def insert_link_def error_keys split: if_splits)

lemma raises_updates [raises_rules]:
  "raises E (lock_account u)" "raises E (save_account now a edited)" "raises E (save_session s)"
  "raises E (save_refresh_token t)" "raises E (save_reset_token p)" "raises E (mark_reset_tokens_used now u)"
  "raises E (revoke_active_sessions now u reason)" "raises E (save_link_status now l st)"
  unfolding lock_account_def save_account_def save_session_def save_refresh_token_def save_reset_token_def
    mark_reset_tokens_used_def revoke_active_sessions_def save_link_status_def Let_def
  by (intro raises_rules; simp add: error_keys)+

lemma raises_auth_repository [raises_rules]:
  "raises E (find_account_by_email email)" "raises E (find_account_by_id u)"
  "raises E (create_pending_account i now email h)" "raises E (activate_account now u)"
  "raises E (update_password_hash now u h)" "raises E (create_exclusive_session i j now u inp)"
  "raises E (rotate_refresh_token j now i rot)" "raises E (revoke_session now i reason)"
  "raises E (revoke_all_sessions now u reason)" "raises E (find_session_by_refresh_token_hash h)"
  "raises E (find_active_session_by_id i)" "raises E (find_refresh_token_history_by_hash h)"
  "raises E (consume_password_reset_token now h)"
  unfolding find_account_by_email_def find_account_by_id_def create_pending_account_def activate_account_def
    update_password_hash_def create_exclusive_session_def rotate_refresh_token_def rotate_locked_def
    revoke_session_def revoke_locked_def revoke_all_sessions_def find_session_by_refresh_token_hash_def
    find_active_session_by_id_def find_refresh_token_history_by_hash_def
    consume_password_reset_token_def consume_locked_def
  by (intro raises_rules; simp add: error_keys)+

lemma raises_links_repository [raises_rules]:
  "raises E (create_or_restore i now u t c)" "raises E (change_status now u i st)"
  "raises E (list_by_user u q)" "raises E (find_link_by_id i)" "raises E (get_report i from to)"
proof -
  have "raises E (change_status_from d now u i st)" for d
    unfolding change_status_from_def by (intro raises_rules)
  then show "raises E (change_status now u i st)" by (simp add: raises_def change_status_def)
  show "raises E (create_or_restore i now u t c)"
    unfolding create_or_restore_def create_or_restore_tx_def by (intro raises_rules) simp_all
  show "raises E (list_by_user u q)" "raises E (find_link_by_id i)" "raises E (get_report i from to)"
    unfolding list_by_user_def find_link_by_id_def get_report_def Let_def by (intro raises_rules)+
qed

lemma raises_primitives [raises_rules]:
  "raises E now_io" "raises E draw_string" "raises E (random_int n)" "raises E generate_code_io"
  "raises E (redis_call cmd)" "raises E (add_email_job job)"
  by (auto simp: raises_def now_io_def getsM_def draw_string_def random_int_def generate_code_io_def
      add_email_job_def enqueue_def redis_call_def Let_def error_keys
      split: list.splits net_outcome.splits option.splits prod.splits)

lemma raises_safe [raises_rules]: "raises E (safe m)"
  by (auto simp: raises_def safe_def run_simps error_keys split: prod.splits sum.splits)

lemma raises_auth_state [raises_rules]:
  "raises E (consume_activation_code cfg u c)" "raises E (set_issuance p s i)"
  "raises E (create_login_challenge cfg u ch c t)" "raises E (find_login_challenge_user_id ch)"
  "raises E (consume_login_challenge cfg ch c)" "raises E (set_resend_cooldown op u)"
  "raises E (is_resend_cooldown_active op u)" "raises E (increment_rate_limit op dim h ttl)"
  "raises E (increment_failed_login u)" "raises E (is_login_locked u)"
  "raises E (set_session_cache sc)" "raises E (get_session_cache i)" "raises E (delete_session_cache i)"
  unfolding consume_activation_code_def set_issuance_def create_login_challenge_def
    find_login_challenge_user_id_def consume_login_challenge_def set_resend_cooldown_def
    is_resend_cooldown_active_def increment_rate_limit_def increment_failed_login_def is_login_locked_def
    set_session_cache_def get_session_cache_def delete_session_cache_def
  by (intro raises_rules; simp add: error_keys)+

lemma raises_record_audit [raises_rules]: "raises E (record_audit i)"
  unfolding record_audit_def by (intro raises_rules)

section \<open>Errors of the services\<close>

lemma raises_session_service [raises_rules]:
  "raises E (create_session_after_login (app_sessions cfg) u role)"
  "raises E (refresh (app_sessions cfg) t)"
  "raises E (logout (app_sessions cfg) t)"
  "raises E (revoke_all (app_sessions cfg) u reason)"
  "raises E (validate_session (app_sessions cfg) i)"
  unfolding create_session_after_login_def refresh_def logout_def revoke_all_def validate_session_def
    issue_tokens_def delete_session_cache_best_effort_def read_session_cache_def load_session_def
    remember_session_def app_sessions_def session_deps.select_convs create_exclusive_session_io_def
    rotate_refresh_token_io_def revoke_session_io_def revoke_all_sessions_io_def
    generate_refresh_token_def generate_csrf_token_def generate_opaque_token_def Let_def
  by (intro raises_rules; simp add: error_keys)+

lemma raises_session_guard [raises_rules]:
  "(401, ''HTTP_ERROR'') \<in> E \<Longrightarrow> raises E (session_guard cfg request)"
  unfolding session_guard_def by (intro raises_rules) (simp_all add: error_keys)

lemma scan_cookies_plain: "scan_cookies decode prefix parts = Inl e \<Longrightarrow> error_key e = INTERNAL"
  by (induction decode prefix parts rule: scan_cookies.induct)
    (auto simp: Let_def error_keys split: if_splits option.splits)

lemma refresh_cookie_plain: "guard_refresh_cookie gc request = Inl e \<Longrightarrow> error_key e = INTERNAL"
  by (auto simp: guard_refresh_cookie_def split: option.splits list.splits dest: scan_cookies_plain)

lemma raises_csrf_guard [raises_rules]:
  "(403, ''CSRF_VALIDATION_FAILED'') \<in> E \<Longrightarrow> raises E (csrf_origin_guard cfg gc request)"
  unfolding csrf_origin_guard_def resolve_csrf_session_def Let_def
  by (intro raises_rules) (simp_all add: error_keys refresh_cookie_plain)

lemma password_hash_plain: "password_hash_create h = Inl e \<Longrightarrow> error_key e = INTERNAL"
  by (auto simp: password_hash_create_def error_keys split: if_splits)

lemma raises_auth_service [raises_rules]:
  "{(422, ''VALIDATION_ERROR''), (429, ''RATE_LIMITED''), (503, ''AUTH_SECURITY_STORAGE_UNAVAILABLE'')} \<subseteq> E \<Longrightarrow>
     raises E (register_user cfg email pw c ip)"
  "{(422, ''VALIDATION_ERROR''), (401, ''INVALID_VERIFICATION''), (503, ''AUTH_SECURITY_STORAGE_UNAVAILABLE'')} \<subseteq> E \<Longrightarrow>
     raises E (verify_email cfg email c)"
  "{(422, ''VALIDATION_ERROR''), (429, ''RATE_LIMITED''), (503, ''AUTH_SECURITY_STORAGE_UNAVAILABLE'')} \<subseteq> E \<Longrightarrow>
     raises E (resend_email_verification cfg email ip)"
  "{(422, ''VALIDATION_ERROR''), (429, ''RATE_LIMITED''), (401, ''INVALID_CREDENTIALS''), (403, ''EMAIL_NOT_VERIFIED''),
     (429, ''ACCOUNT_TEMPORARILY_LOCKED''), (503, ''AUTH_SECURITY_STORAGE_UNAVAILABLE'')} \<subseteq> E \<Longrightarrow>
     raises E (start_login cfg email pw ip)"
  "{(401, ''INVALID_CREDENTIALS''), (429, ''ACCOUNT_TEMPORARILY_LOCKED''),
     (503, ''AUTH_SECURITY_STORAGE_UNAVAILABLE'')} \<subseteq> E \<Longrightarrow> raises E (complete_login cfg ch code)"
  "{(401, ''SESSION_INVALID''), (503, ''AUTH_SECURITY_STORAGE_UNAVAILABLE'')} \<subseteq> E \<Longrightarrow>
     raises E (refresh_session cfg t)"
  "(503, ''AUTH_SECURITY_STORAGE_UNAVAILABLE'') \<in> E \<Longrightarrow> raises E (logout_session cfg t)"
  "{(422, ''VALIDATION_ERROR''), (429, ''RATE_LIMITED''), (503, ''AUTH_SECURITY_STORAGE_UNAVAILABLE'')} \<subseteq> E \<Longrightarrow>
     raises E (request_password_reset cfg email ip)"
  "{(422, ''VALIDATION_ERROR''), (401, ''INVALID_VERIFICATION'')} \<subseteq> E \<Longrightarrow> raises E (reset_password cfg t pw c)"
  subgoal unfolding register_user_def auth_helper_defs by (intro raises_rules) (simp_all add: error_keys password_hash_plain)
  subgoal unfolding verify_email_def auth_helper_defs by (intro raises_rules) (simp_all add: error_keys)
  subgoal unfolding resend_email_verification_def auth_helper_defs by (intro raises_rules) (simp_all add: error_keys)
  subgoal unfolding start_login_def auth_helper_defs by (intro raises_rules) (simp_all add: error_keys)
  subgoal unfolding complete_login_def auth_helper_defs
    by (intro raises_rules) (auto simp: error_keys intro!: raises_rules split: consume_login_result.splits)
  subgoal unfolding refresh_session_def auth_helper_defs by (intro raises_rules) (simp_all add: error_keys)
  subgoal unfolding logout_session_def auth_helper_defs by (intro raises_rules) (simp_all add: error_keys)
  subgoal unfolding request_password_reset_def auth_helper_defs by (intro raises_rules) (simp_all add: error_keys)
  subgoal unfolding reset_password_def auth_helper_defs by (intro raises_rules) (simp_all add: error_keys password_hash_plain)
  done

lemma raises_results [raises_rules]:
  "(\<And>l. raises E (a l)) \<Longrightarrow> (\<And>l. raises E (b l)) \<Longrightarrow> (\<And>l. raises E (c l)) \<Longrightarrow> raises E m \<Longrightarrow> raises E k \<Longrightarrow>
     raises E (case created of Created l \<Rightarrow> a l | Existing l \<Rightarrow> b l | Reactivated l \<Rightarrow> c l
       | CreateLimitReached \<Rightarrow> m | ShortCodeCollision \<Rightarrow> k)"
  by (cases created) simp_all

lemma raises_create_attempts [raises_rules]:
  "{(409, ''LINK_LIMIT_REACHED''), (503, ''SHORT_CODE_GENERATION_UNAVAILABLE'')} \<subseteq> E \<Longrightarrow>
     raises E (create_attempts (app_links ttl base n parse) u t k)"
proof (induction k)
  case (Suc k)
  have "raises E (create_or_restore_io u t c)" for c
    unfolding create_or_restore_io_def by (intro raises_rules)
  moreover have "dep_generate (app_links ttl base n parse) = generate_code_io"
    "dep_create_or_restore (app_links ttl base n parse) = create_or_restore_io" by (simp_all add: app_links_def)
  ultimately show ?case
    using Suc unfolding create_attempts.simps
    by (intro raises_rules) (simp_all add: raises_primitives error_keys)
qed (simp add: raises_throwM error_keys)

text \<open>Only a reactivation can meet the limit of active links.\<close>

lemma deactivation_unlimited:
  "change_status now u i DEACTIVATED d \<noteq> (Inr ChangeLimitReached, d')"
  by (auto simp: change_status_def change_status_from_def transaction_def run_simps lock_account_def
      save_link_status_run split: option.splits if_splits)

lemma raises_bind_result:
  "raises E m \<Longrightarrow> (\<And>x w w'. m w = (Inr x, w') \<Longrightarrow> raises E (f x)) \<Longrightarrow> raises E (bindM m f)"
  by (fastforce simp: raises_def bindM_def split: prod.splits sum.splits)

lemma raises_change_status [raises_rules]:
  assumes "{(404, ''LINK_NOT_FOUND''), (403, ''FORBIDDEN''), (503, ''LINK_CACHE_UNAVAILABLE'')} \<subseteq> E"
    and "st = ACTIVE \<Longrightarrow> (409, ''LINK_LIMIT_REACHED'') \<in> E"
  shows "raises E (service_change_status (app_links ttl base n parse) u i st)"
proof -
  have possible: "st = ACTIVE" if "change_status_io u i st w = (Inr ChangeLimitReached, w')" for w w'
    using that deactivation_unlimited
    by (cases st) (auto simp: change_status_io_def now_io_def run_simps db_op_def split: prod.splits)
  have outcome: "raises E (case result of
      Changed l \<Rightarrow> returnM (to_response base l) | Unchanged l \<Rightarrow> returnM (to_response base l)
    | ChangeNotFound \<Rightarrow> throwM link_not_found_exception | ChangeForbidden \<Rightarrow> throwM forbidden_exception
    | ChangeLimitReached \<Rightarrow> throwM link_limit_reached_exception)"
    if "change_status_io u i st w = (Inr result, w')" for w w' result
    using that assms possible by (cases result) (auto intro!: raises_rules simp: error_keys)
  have "raises E (change_status_io u i st)" unfolding change_status_io_def by (intro raises_rules)
  then have changed: "raises E (bindM (change_status_io u i st) (\<lambda>result. case result of
      Changed l \<Rightarrow> returnM (to_response base l) | Unchanged l \<Rightarrow> returnM (to_response base l)
    | ChangeNotFound \<Rightarrow> throwM link_not_found_exception | ChangeForbidden \<Rightarrow> throwM forbidden_exception
    | ChangeLimitReached \<Rightarrow> throwM link_limit_reached_exception))"
    by (rule raises_bind_result) (rule outcome)
  show ?thesis
    unfolding service_change_status_def app_links_def links_deps.select_convs cache_invalidate_def
      redis_service_del_def
    by (rule changed raises_option raises_if raises_thenM raises_catchM raises_db_op raises_primitives
        raises_links_repository raises_bindM raises_throwM | use assms in \<open>simp add: error_keys\<close>)+
qed

lemma period_keys: "resolve_period now f t = Inl e \<Longrightarrow> error_key e \<in> {INTERNAL, (422, ''VALIDATION_ERROR'')}"
  by (auto simp: resolve_period_def period_error_def error_keys split: option.splits if_splits)

lemma raises_links_service [raises_rules]:
  "raises E (service_list (app_links ttl base n parse) u q)"
  "{(422, ''VALIDATION_ERROR''), (409, ''LINK_LIMIT_REACHED''), (503, ''SHORT_CODE_GENERATION_UNAVAILABLE'')} \<subseteq> E \<Longrightarrow>
     raises E (service_create (app_links ttl base n parse) u t)"
  "{(422, ''VALIDATION_ERROR''), (404, ''LINK_NOT_FOUND''), (403, ''FORBIDDEN'')} \<subseteq> E \<Longrightarrow>
     raises E (service_get_report u i from to)"
  subgoal unfolding service_list_def app_links_def links_deps.select_convs by (intro raises_rules)
  subgoal unfolding service_create_def parse_destination_url_def by (intro raises_rules) (simp_all add: error_keys)
  subgoal unfolding service_get_report_def by (intro raises_rules) (auto simp: error_keys dest: period_keys)
  done

lemma raises_validation_pipe [raises_rules]:
  "(422, ''VALIDATION_ERROR'') \<in> E \<Longrightarrow> raises E (validation_pipe vd ok body)"
  unfolding validation_pipe_def by (intro raises_rules) (simp_all add: error_keys)

section \<open>What an operation touches\<close>

datatype db_table = AccountsTable | SessionsTable | RefreshTokensTable | ResetTokensTable | AuditTable | LinksTable | StatisticsTable

datatype mail_kind = ActivationCode | LoginCode | ResetLink

fun job_kind :: "email_job \<Rightarrow> mail_kind" where
  "job_kind (SendVerificationCode purpose u c i) = (if purpose = ISSUE_ACTIVATION then ActivationCode else LoginCode)"
| "job_kind (SendPasswordReset u i) = ResetLink"

definition same_except :: "db_table set \<Rightarrow> db \<Rightarrow> db \<Rightarrow> bool" where
  "same_except T d d' \<longleftrightarrow>
     (AccountsTable \<in> T \<or> accounts d' = accounts d) \<and> (SessionsTable \<in> T \<or> sessions d' = sessions d)
     \<and> (RefreshTokensTable \<in> T \<or> refresh_tokens d' = refresh_tokens d)
     \<and> (ResetTokensTable \<in> T \<or> reset_tokens d' = reset_tokens d)
     \<and> (AuditTable \<in> T \<or> audit_events d' = audit_events d)
     \<and> (LinksTable \<in> T \<or> links d' = links d) \<and> (StatisticsTable \<in> T \<or> stats_tables d' = stats_tables d)"

text \<open>Only tables of \<open>T\<close> differ from \<open>w0\<close>, and only mail jobs of the kinds \<open>K\<close> were queued since.\<close>

definition touched :: "db_table set \<Rightarrow> mail_kind set \<Rightarrow> world \<Rightarrow> world \<Rightarrow> bool" where
  "touched T K w0 w \<longleftrightarrow> same_except T (w_db w0) (w_db w)
     \<and> (\<exists>jobs. w_email_jobs w = w_email_jobs w0 @ jobs \<and> (\<forall>job \<in> set jobs. job_kind job \<in> K))"

named_theorems touch_rules "what operations touch"

lemmas touch_rules_base [touch_rules] = keeps_rules keeps_sum keeps_redis_value keeps_pair keeps_results

lemma touched_start: "touched T K w w"
  by (simp add: touched_def same_except_def)

lemma touched_db_op [touch_rules]: "keeps (same_except T (w_db w0)) m \<Longrightarrow> keeps (touched T K w0) (db_op m)"
  by (fastforce simp: keeps_def touched_def db_op_def split: prod.splits)

lemma touched_primitives [touch_rules]:
  "keeps (touched T K w0) now_io" "keeps (touched T K w0) draw_string" "keeps (touched T K w0) (random_int n)"
  "keeps (touched T K w0) generate_code_io"
  by (simp_all add: keeps_def touched_def now_io_def getsM_def draw_string_def random_int_def generate_code_io_def)

lemma touched_redis_call [touch_rules]: "keeps (touched T K w0) (redis_call cmd)"
  by (rule keeps_redis_call) (simp_all add: touched_def)

lemma touched_add_email_job [touch_rules]:
  assumes "job_kind job \<in> K" shows "keeps (touched T K w0) (add_email_job job)"
proof -
  have "touched T K w0 (w\<lparr>w_net := ns, w_email_jobs := w_email_jobs w @ [job]\<rparr>)" if "touched T K w0 w" for w ns
    using that assms by (auto simp: touched_def)
  then show ?thesis
    by (auto simp: keeps_def add_email_job_def enqueue_def Let_def touched_def
        split: list.splits net_outcome.splits)
qed

lemma touched_rows [touch_rules]:
  "AccountsTable \<in> T \<Longrightarrow> keeps (same_except T d0) (insert_account a)"
  "SessionsTable \<in> T \<Longrightarrow> keeps (same_except T d0) (insert_session s)"
  "RefreshTokensTable \<in> T \<Longrightarrow> keeps (same_except T d0) (insert_refresh_token t)"
  "AuditTable \<in> T \<Longrightarrow> keeps (same_except T d0) (insert_audit_event ev)"
  "LinksTable \<in> T \<Longrightarrow> keeps (same_except T d0) (insert_link l)"
  by (simp_all add: keeps_def same_except_def insert_account_def insert_session_def insert_refresh_token_def
      insert_audit_event_def insert_link_def stats_tables_def)

lemma touched_updates [touch_rules]:
  "AccountsTable \<in> T \<Longrightarrow> keeps (same_except T d0) (save_account now a edited)"
  "SessionsTable \<in> T \<Longrightarrow> keeps (same_except T d0) (save_session s)"
  "RefreshTokensTable \<in> T \<Longrightarrow> keeps (same_except T d0) (save_refresh_token t)"
  "ResetTokensTable \<in> T \<Longrightarrow> keeps (same_except T d0) (save_reset_token p)"
  "SessionsTable \<in> T \<Longrightarrow> keeps (same_except T d0) (revoke_active_sessions now u reason)"
  "LinksTable \<in> T \<Longrightarrow> keeps (same_except T d0) (save_link_status now l st)"
  unfolding save_account_def save_session_def save_refresh_token_def save_reset_token_def
    revoke_active_sessions_def save_link_status_def Let_def
  by (intro keeps_rules keeps_modifyM; simp add: same_except_def stats_tables_def)+

lemma touched_reads [touch_rules]:
  "keeps (same_except T d0) (lock_account u)" "keeps (same_except T d0) (find_account_by_email email)"
  "keeps (same_except T d0) (find_account_by_id u)" "keeps (same_except T d0) (find_session_by_refresh_token_hash h)"
  "keeps (same_except T d0) (find_active_session_by_id i)" "keeps (same_except T d0) (find_refresh_token_history_by_hash h)"
  "keeps (same_except T d0) (list_by_user u q)" "keeps (same_except T d0) (find_link_by_id i)"
  "keeps (same_except T d0) (get_report i from to)"
  unfolding lock_account_def find_account_by_email_def find_account_by_id_def find_session_by_refresh_token_hash_def
    find_active_session_by_id_def find_refresh_token_history_by_hash_def list_by_user_def find_link_by_id_def
    get_report_def Let_def
  by (intro keeps_rules)+

lemma touched_repositories [touch_rules]:
  "AccountsTable \<in> T \<Longrightarrow> keeps (same_except T d0) (create_pending_account i now email h)"
  "AccountsTable \<in> T \<Longrightarrow> keeps (same_except T d0) (activate_account now u)"
  "AccountsTable \<in> T \<Longrightarrow> keeps (same_except T d0) (update_password_hash now u h)"
  "SessionsTable \<in> T \<Longrightarrow> RefreshTokensTable \<in> T \<Longrightarrow> keeps (same_except T d0) (create_exclusive_session i j now u inp)"
  "SessionsTable \<in> T \<Longrightarrow> RefreshTokensTable \<in> T \<Longrightarrow> keeps (same_except T d0) (rotate_refresh_token j now i rot)"
  "SessionsTable \<in> T \<Longrightarrow> keeps (same_except T d0) (revoke_session now i reason)"
  "SessionsTable \<in> T \<Longrightarrow> keeps (same_except T d0) (revoke_all_sessions now u reason)"
  "ResetTokensTable \<in> T \<Longrightarrow> keeps (same_except T d0) (consume_password_reset_token now h)"
  "LinksTable \<in> T \<Longrightarrow> keeps (same_except T d0) (create_or_restore i now u t c)"
  unfolding create_pending_account_def activate_account_def update_password_hash_def
    create_exclusive_session_def rotate_refresh_token_def rotate_locked_def revoke_session_def revoke_locked_def
    revoke_all_sessions_def consume_password_reset_token_def consume_locked_def create_or_restore_def
    create_or_restore_tx_def
  by (intro touch_rules; assumption)+

lemma touched_change_status [touch_rules]:
  "LinksTable \<in> T \<Longrightarrow> keeps (same_except T d0) (change_status now u i st)"
proof -
  assume "LinksTable \<in> T"
  then have "keeps (same_except T d0) (change_status_from d now u i st)" for d
    unfolding change_status_from_def by (intro touch_rules)
  then show ?thesis by (simp add: keeps_def change_status_def)
qed

lemma touched_auth_state [touch_rules]:
  "keeps (touched T K w0) (consume_activation_code cfg u c)" "keeps (touched T K w0) (set_issuance p s i)"
  "keeps (touched T K w0) (create_login_challenge cfg u ch c t)"
  "keeps (touched T K w0) (find_login_challenge_user_id ch)"
  "keeps (touched T K w0) (consume_login_challenge cfg ch c)" "keeps (touched T K w0) (set_resend_cooldown op u)"
  "keeps (touched T K w0) (is_resend_cooldown_active op u)"
  "keeps (touched T K w0) (increment_rate_limit op dim h ttl)"
  "keeps (touched T K w0) (increment_failed_login u)" "keeps (touched T K w0) (is_login_locked u)"
  "keeps (touched T K w0) (set_session_cache sc)" "keeps (touched T K w0) (get_session_cache i)"
  "keeps (touched T K w0) (delete_session_cache i)"
  unfolding consume_activation_code_def set_issuance_def create_login_challenge_def
    find_login_challenge_user_id_def consume_login_challenge_def set_resend_cooldown_def
    is_resend_cooldown_active_def increment_rate_limit_def increment_failed_login_def is_login_locked_def
    set_session_cache_def get_session_cache_def delete_session_cache_def redis_service_set_def
    redis_service_get_def redis_service_del_def redis_service_exists_def safe_def
  by (intro touch_rules)+

lemma touched_record_audit [touch_rules]: "AuditTable \<in> T \<Longrightarrow> keeps (touched T K w0) (record_audit i)"
  unfolding record_audit_def by (intro touch_rules)

lemmas session_helper_defs =
  issue_tokens_def delete_session_cache_best_effort_def read_session_cache_def load_session_def
  remember_session_def app_sessions_def session_deps.select_convs create_exclusive_session_io_def
  rotate_refresh_token_io_def revoke_session_io_def revoke_all_sessions_io_def
  generate_refresh_token_def generate_csrf_token_def generate_opaque_token_def Let_def

lemma touched_session_service [touch_rules]:
  "SessionsTable \<in> T \<Longrightarrow> RefreshTokensTable \<in> T \<Longrightarrow> keeps (touched T K w0) (create_session_after_login (app_sessions cfg) u role)"
  "SessionsTable \<in> T \<Longrightarrow> RefreshTokensTable \<in> T \<Longrightarrow> keeps (touched T K w0) (refresh (app_sessions cfg) t)"
  "SessionsTable \<in> T \<Longrightarrow> keeps (touched T K w0) (logout (app_sessions cfg) t)"
  "SessionsTable \<in> T \<Longrightarrow> keeps (touched T K w0) (revoke_all (app_sessions cfg) u reason)"
  "keeps (touched T K w0) (validate_session (app_sessions cfg) i)"
  unfolding create_session_after_login_def refresh_def logout_def revoke_all_def validate_session_def
    session_helper_defs
  by (intro touch_rules; assumption)+

lemma touched_guards [touch_rules]:
  "keeps (touched T K w0) (session_guard cfg request)"
  "keeps (touched T K w0) (csrf_origin_guard cfg gc request)"
  unfolding session_guard_def csrf_origin_guard_def resolve_csrf_session_def Let_def
  by (intro touch_rules)+

lemma purpose_ifs:
  "(if ISSUE_ACTIVATION = ISSUE_ACTIVATION then x else y) = x"
  "(if ISSUE_LOGIN = ISSUE_ACTIVATION then x else y) = y"
  by simp_all

lemma touched_auth_service [touch_rules]:
  "AccountsTable \<in> T \<Longrightarrow> ActivationCode \<in> K \<Longrightarrow> keeps (touched T K w0) (register_user cfg email pw c ip)"
  "AccountsTable \<in> T \<Longrightarrow> keeps (touched T K w0) (verify_email cfg email c)"
  "ActivationCode \<in> K \<Longrightarrow> keeps (touched T K w0) (resend_email_verification cfg email ip)"
  "AuditTable \<in> T \<Longrightarrow> LoginCode \<in> K \<Longrightarrow> keeps (touched T K w0) (start_login cfg email pw ip)"
  "{SessionsTable, RefreshTokensTable, AuditTable} \<subseteq> T \<Longrightarrow> keeps (touched T K w0) (complete_login cfg ch code)"
  "{SessionsTable, RefreshTokensTable} \<subseteq> T \<Longrightarrow> keeps (touched T K w0) (refresh_session cfg t)"
  "SessionsTable \<in> T \<Longrightarrow> keeps (touched T K w0) (logout_session cfg t)"
  "AuditTable \<in> T \<Longrightarrow> ResetLink \<in> K \<Longrightarrow> keeps (touched T K w0) (request_password_reset cfg email ip)"
  "{AccountsTable, SessionsTable, ResetTokensTable, AuditTable} \<subseteq> T \<Longrightarrow> keeps (touched T K w0) (reset_password cfg t pw c)"
  subgoal unfolding register_user_def auth_helper_defs purpose_ifs by (intro touch_rules) simp_all
  subgoal unfolding verify_email_def auth_helper_defs by (intro touch_rules)
  subgoal unfolding resend_email_verification_def auth_helper_defs purpose_ifs by (intro touch_rules) simp_all
  subgoal unfolding start_login_def auth_helper_defs purpose_ifs by (intro touch_rules) simp_all
  subgoal unfolding complete_login_def auth_helper_defs
    by (intro touch_rules) (auto intro!: touch_rules split: consume_login_result.splits)
  subgoal unfolding refresh_session_def auth_helper_defs by (intro touch_rules) simp_all
  subgoal unfolding logout_session_def auth_helper_defs by (intro touch_rules)
  subgoal unfolding request_password_reset_def auth_helper_defs by (intro touch_rules) simp_all
  subgoal unfolding reset_password_def auth_helper_defs by (intro touch_rules) simp_all
  done

lemma touched_create_attempts [touch_rules]:
  "LinksTable \<in> T \<Longrightarrow> keeps (touched T K w0) (create_attempts (app_links ttl base n parse) u t k)"
proof (induction k)
  case (Suc k)
  then have "keeps (touched T K w0) (create_or_restore_io u t c)" for c
    unfolding create_or_restore_io_def by (intro touch_rules)
  moreover have "dep_generate (app_links ttl base n parse) = generate_code_io"
    "dep_create_or_restore (app_links ttl base n parse) = create_or_restore_io" by (simp_all add: app_links_def)
  ultimately show ?case
    using Suc unfolding create_attempts.simps by (intro touch_rules) (simp_all add: touched_primitives)
qed (simp add: keeps_rules)

lemma touched_links_service [touch_rules]:
  "keeps (touched T K w0) (service_list (app_links ttl base n parse) u q)"
  "LinksTable \<in> T \<Longrightarrow> keeps (touched T K w0) (service_create (app_links ttl base n parse) u t)"
  "LinksTable \<in> T \<Longrightarrow> keeps (touched T K w0) (service_change_status (app_links ttl base n parse) u i st)"
  "keeps (touched T K w0) (service_get_report u i from to)"
  subgoal unfolding service_list_def app_links_def links_deps.select_convs by (intro touch_rules)
  subgoal unfolding service_create_def parse_destination_url_def by (intro touch_rules)
  subgoal unfolding service_change_status_def app_links_def links_deps.select_convs cache_invalidate_def
      redis_service_del_def change_status_io_def by (intro touch_rules)
  subgoal unfolding service_get_report_def by (intro touch_rules)
  done

lemma touched_validation_pipe [touch_rules]: "keeps (touched T K w0) (validation_pipe vd ok body)"
  unfolding validation_pipe_def by (intro touch_rules)

end
