(* ===== verification/ApiContract.thy ===== *)
theory ApiContract
  imports ApiOutcomes
begin

text \<open>
  The contract of the API, endpoint by endpoint, put together from the specifications under
  src/.specs/features, the request bodies of the DTOs and the answer of Nest to a missing session,
  and that the whole server keeps it: the route table, the guards, the validation of the bodies,
  the handlers and the exception filter together.
\<close>

section \<open>The contract\<close>

text \<open>
  An endpoint: its verb and path; the fields of the body it accepts, all required; its replies when
  it succeeds; the errors it may answer; the tables it may write; the mails it may send.
\<close>

record endpoint =
  ep_verb :: string
  ep_path :: string
  ep_fields :: "string list option"
  ep_success :: "api_reply \<Rightarrow> bool"
  ep_errors :: "(nat \<times> string) list"
  ep_writes :: "db_table list"
  ep_mails :: "mail_kind list"

abbreviation endpoint_of where
  "endpoint_of verb path body success errors writes mails \<equiv>
     \<lparr>ep_verb = verb, ep_path = path, ep_fields = body, ep_success = success, ep_errors = errors,
      ep_writes = writes, ep_mails = mails\<rparr>"

definition object_keys :: "json \<Rightarrow> string list" where
  "object_keys j = (case j of JObj kvs \<Rightarrow> map fst kvs | _ \<Rightarrow> [])"

definition accepted :: "api_reply \<Rightarrow> bool" where
  "accepted a \<longleftrightarrow> a = RouteReply \<lparr>rr_status = 202, rr_body = JObj [(''message'', JStr ''Accepted.'')], rr_cookies = []\<rparr>"

definition empty_reply :: "cookie_change list \<Rightarrow> api_reply \<Rightarrow> bool" where
  "empty_reply cookies a \<longleftrightarrow> a = RouteReply \<lparr>rr_status = 204, rr_body = JNull, rr_cookies = cookies\<rparr>"

definition object_reply :: "nat \<Rightarrow> string list \<Rightarrow> (cookie_change list \<Rightarrow> bool) \<Rightarrow> api_reply \<Rightarrow> bool" where
  "object_reply status keys cookies a \<longleftrightarrow> (case a of
       RouteReply r \<Rightarrow> rr_status r = status \<and> object_keys (rr_body r) = keys \<and> cookies (rr_cookies r)
     | _ \<Rightarrow> False)"

definition no_cookies :: "cookie_change list \<Rightarrow> bool" where
  "no_cookies cs \<longleftrightarrow> cs = []"

text \<open>HttpOnly; Secure; SameSite=Lax; Path=/api/v1/auth; seven days.\<close>

definition refresh_cookie :: "string \<Rightarrow> cookie_change list \<Rightarrow> bool" where
  "refresh_cookie name cs \<longleftrightarrow> (case cs of
       [SetCookie n token options] \<Rightarrow> n = name
         \<and> options = \<lparr>co_http_only = True, co_secure = True, co_same_site = ''lax'',
             co_path = ''/api/v1/auth'', co_max_age = Some 604800000\<rparr>
     | _ \<Rightarrow> False)"

definition cleared_cookie :: "string \<Rightarrow> cookie_change list" where
  "cleared_cookie name = [ClearCookie name
     \<lparr>co_http_only = True, co_secure = True, co_same_site = ''lax'', co_path = ''/api/v1/auth'',
      co_max_age = None\<rparr>]"

definition link_reply :: "nat set \<Rightarrow> link_status \<Rightarrow> api_reply \<Rightarrow> bool" where
  "link_reply statuses st a \<longleftrightarrow>
     (case a of LinksReply (LinkAnswer status link) \<Rightarrow> status \<in> statuses \<and> lr_status link = st | _ \<Rightarrow> False)"

definition page_reply :: "api_reply \<Rightarrow> bool" where
  "page_reply a \<longleftrightarrow> (case a of LinksReply (PageAnswer page) \<Rightarrow> True | _ \<Rightarrow> False)"

definition report_reply :: "api_reply \<Rightarrow> bool" where
  "report_reply a \<longleftrightarrow> (case a of LinksReply (ReportAnswer report) \<Rightarrow> True | _ \<Rightarrow> False)"

definition validation_failed :: "nat \<times> string" where
  "validation_failed = (422, ''VALIDATION_ERROR'')"

definition storage_down :: "nat \<times> string" where
  "storage_down = (503, ''AUTH_SECURITY_STORAGE_UNAVAILABLE'')"

definition auth_contract :: "string \<Rightarrow> endpoint list" where
  "auth_contract cookie =
     [endpoint_of ''POST'' ''/api/v1/auth/register'' (Some [''email'', ''password'', ''passwordConfirmation''])
        accepted [validation_failed, (429, ''RATE_LIMITED''), storage_down] [AccountsTable] [ActivationCode],
      endpoint_of ''POST'' ''/api/v1/auth/verify-email'' (Some [''email'', ''code''])
        (empty_reply []) [validation_failed, (401, ''INVALID_VERIFICATION''), storage_down] [AccountsTable] [],
      endpoint_of ''POST'' ''/api/v1/auth/resend-email-verification'' (Some [''email''])
        accepted [validation_failed, (429, ''RATE_LIMITED''), storage_down] [] [ActivationCode],
      endpoint_of ''POST'' ''/api/v1/auth/login'' (Some [''email'', ''password''])
        (object_reply 202 [''challengeId'', ''expiresAt''] no_cookies)
        [validation_failed, (401, ''INVALID_CREDENTIALS''), (403, ''EMAIL_NOT_VERIFIED''), (429, ''RATE_LIMITED''),
         (429, ''ACCOUNT_TEMPORARILY_LOCKED''), storage_down] [AuditTable] [LoginCode],
      endpoint_of ''POST'' ''/api/v1/auth/verify-login'' (Some [''challengeId'', ''code''])
        (object_reply 200 [''accessToken'', ''expiresIn'', ''csrfToken''] (refresh_cookie cookie))
        [validation_failed, (401, ''INVALID_CREDENTIALS''), (429, ''ACCOUNT_TEMPORARILY_LOCKED''), storage_down]
        [SessionsTable, RefreshTokensTable, AuditTable] [],
      endpoint_of ''POST'' ''/api/v1/auth/refresh'' None
        (object_reply 200 [''accessToken'', ''expiresIn''] (refresh_cookie cookie))
        [(403, ''CSRF_VALIDATION_FAILED''), (401, ''SESSION_INVALID''), storage_down] [SessionsTable, RefreshTokensTable] [],
      endpoint_of ''POST'' ''/api/v1/auth/logout'' None (empty_reply (cleared_cookie cookie))
        [(403, ''CSRF_VALIDATION_FAILED''), storage_down] [SessionsTable] [],
      endpoint_of ''POST'' ''/api/v1/auth/forgot-password'' (Some [''email''])
        accepted [validation_failed, (429, ''RATE_LIMITED''), storage_down] [AuditTable] [ResetLink],
      endpoint_of ''POST'' ''/api/v1/auth/reset-password'' (Some [''token'', ''password'', ''passwordConfirmation''])
        (empty_reply []) [validation_failed, (401, ''INVALID_VERIFICATION'')]
        [AccountsTable, SessionsTable, ResetTokensTable, AuditTable] []]"

definition links_contract :: "endpoint list" where
  "links_contract =
     [endpoint_of ''POST'' ''/api/v1/links'' (Some [''destinationUrl'']) (link_reply {200, 201} ACTIVE)
        [(401, ''HTTP_ERROR''), validation_failed, (409, ''LINK_LIMIT_REACHED''),
         (503, ''SHORT_CODE_GENERATION_UNAVAILABLE'')] [LinksTable] [],
      endpoint_of ''GET'' ''/api/v1/links'' None page_reply [(401, ''HTTP_ERROR''), validation_failed] [] [],
      endpoint_of ''PATCH'' ''/api/v1/links/:linkId/deactivate'' None (link_reply {200} DEACTIVATED)
        [(401, ''HTTP_ERROR''), validation_failed, (403, ''FORBIDDEN''), (404, ''LINK_NOT_FOUND''),
         (503, ''LINK_CACHE_UNAVAILABLE'')] [LinksTable] [],
      endpoint_of ''PATCH'' ''/api/v1/links/:linkId/reactivate'' None (link_reply {200} ACTIVE)
        [(401, ''HTTP_ERROR''), validation_failed, (403, ''FORBIDDEN''), (404, ''LINK_NOT_FOUND''),
         (409, ''LINK_LIMIT_REACHED''), (503, ''LINK_CACHE_UNAVAILABLE'')] [LinksTable] [],
      endpoint_of ''GET'' ''/api/v1/links/:linkId/statistics'' None report_reply
        [(401, ''HTTP_ERROR''), validation_failed, (403, ''FORBIDDEN''), (404, ''LINK_NOT_FOUND'')] [] []]"

definition other_contract :: "endpoint list" where
  "other_contract =
     [endpoint_of ''GET'' ''/api/v1'' None (\<lambda>a. a = TextReply ''Hello World!'') [] [] [],
      endpoint_of ''GET'' ''/api/v1/auth/test/protected'' None (\<lambda>a. a = ObjectReply (JObj [(''ok'', JBool True)]))
        [(401, ''HTTP_ERROR'')] [] []]"

definition api_contract :: "string \<Rightarrow> endpoint list" where
  "api_contract cookie = auth_contract cookie @ links_contract @ other_contract"

text \<open>Which requests an endpoint is about.\<close>

definition template_segments :: "string \<Rightarrow> segment list" where
  "template_segments path =
     map (\<lambda>part. if starts_with '':'' part then LinkIdParam else Fixed part) (path_segments path)"

definition describes :: "endpoint \<Rightarrow> http_request \<Rightarrow> bool" where
  "describes ep request \<longleftrightarrow>
     (hr_method request = ep_verb ep \<or> (ep_verb ep = ''GET'' \<and> hr_method request = ''HEAD''))
     \<and> path_fits (template_segments (ep_path ep)) (path_segments (request_path request))"

text \<open>
  A success, for a body of exactly the fields; or one of the errors, or the internal one, with
  Retry-After exactly for the locked account.
\<close>

definition conforms :: "endpoint \<Rightarrow> json \<Rightarrow> api_reply \<Rightarrow> bool" where
  "conforms ep body a \<longleftrightarrow>
     (ep_success ep a \<and> (case ep_fields ep of None \<Rightarrow> True | Some fs \<Rightarrow> set (object_keys body) = set fs))
     \<or> (\<exists>e. a = ErrorReply
             (if eb_code e = ''ACCOUNT_TEMPORARILY_LOCKED'' then [(''Retry-After'', ''3600'')] else []) (eb_status e) e
          \<and> (eb_status e, eb_code e) \<in> insert INTERNAL (set (ep_errors ep)))"

definition keeps_contract :: "endpoint \<Rightarrow> json \<Rightarrow> exn + api_reply \<Rightarrow> world \<Rightarrow> world \<Rightarrow> bool" where
  "keeps_contract ep body reply w w' \<longleftrightarrow>
     (\<exists>a. reply = Inr a \<and> conforms ep body a)
     \<and> touched (set (ep_writes ep)) (set (ep_mails ep)) w w'"

section \<open>The endpoint of a handler\<close>

fun handler_key :: "api_handler \<Rightarrow> string \<times> string" where
  "handler_key GetHello = (''GET'', ''/api/v1'')"
| "handler_key Register = (''POST'', ''/api/v1/auth/register'')"
| "handler_key VerifyEmail = (''POST'', ''/api/v1/auth/verify-email'')"
| "handler_key ResendEmailVerification = (''POST'', ''/api/v1/auth/resend-email-verification'')"
| "handler_key Login = (''POST'', ''/api/v1/auth/login'')"
| "handler_key VerifyLogin = (''POST'', ''/api/v1/auth/verify-login'')"
| "handler_key RefreshTokens = (''POST'', ''/api/v1/auth/refresh'')"
| "handler_key Logout = (''POST'', ''/api/v1/auth/logout'')"
| "handler_key ForgotPassword = (''POST'', ''/api/v1/auth/forgot-password'')"
| "handler_key ResetPassword = (''POST'', ''/api/v1/auth/reset-password'')"
| "handler_key ProtectedRoute = (''GET'', ''/api/v1/auth/test/protected'')"
| "handler_key LinksCreate = (''POST'', ''/api/v1/links'')"
| "handler_key LinksList = (''GET'', ''/api/v1/links'')"
| "handler_key LinksDeactivate = (''PATCH'', ''/api/v1/links/:linkId/deactivate'')"
| "handler_key LinksReactivate = (''PATCH'', ''/api/v1/links/:linkId/reactivate'')"
| "handler_key LinkReport = (''GET'', ''/api/v1/links/:linkId/statistics'')"

definition contract_keys :: "(string \<times> string) list" where
  "contract_keys = map handler_key
     [Register, VerifyEmail, ResendEmailVerification, Login, VerifyLogin, RefreshTokens, Logout, ForgotPassword,
      ResetPassword, LinksCreate, LinksList, LinksDeactivate, LinksReactivate, LinkReport, GetHello, ProtectedRoute]"

lemma keys_of_contract: "map (\<lambda>ep. (ep_verb ep, ep_path ep)) (api_contract cookie) = contract_keys"
  by (simp add: contract_keys_def api_contract_def auth_contract_def links_contract_def other_contract_def)

lemma routes_in_contract:
  "list_all (\<lambda>(verb, segs, h). fst (handler_key h) = verb
     \<and> template_segments (snd (handler_key h)) = API_PREFIX @ segs) (api_routes True)"
  by code_simp

lemma contract_meets_handler:
  "list_all (\<lambda>(verb, segs, h). list_all (\<lambda>(v, p).
      routes_meet (verb, API_PREFIX @ segs, h) (v, template_segments p, h) \<longrightarrow> (v, p) = handler_key h) contract_keys)
   (api_routes True)"
  by code_simp

lemma handler_in_contract: "handler_key h \<in> set contract_keys"
  by (cases h) (simp_all add: contract_keys_def)

text \<open>A routed request has one endpoint, that of its handler.\<close>

lemma route_describes:
  assumes router: "express_router (sv_router sv)" and "route_of sv request = Some (h, params)"
  shows "describes ep request \<Longrightarrow> ep \<in> set (api_contract cookie) \<Longrightarrow> (ep_verb ep, ep_path ep) = handler_key h"
    and "\<exists>ep \<in> set (api_contract cookie). describes ep request"
proof -
  from dispatch_SomeD [OF assms(2) [unfolded route_of_def]] obtain verb segs where
    r: "(verb, segs, h) \<in> set (api_routes (sv_testing sv))"
    and m: "match_route (sv_router sv) (hr_method request) (request_path request) (verb, segs, h) = Some (h, params)"
    by (auto simp: match_route_def split: if_splits)
  have r: "(verb, segs, h) \<in> set (api_routes True)" using r by (auto simp: api_routes_def split: if_splits)
  note fits = match_route_SomeD [OF router m]
  have key: "fst (handler_key h) = verb" "template_segments (snd (handler_key h)) = API_PREFIX @ segs"
    using routes_in_contract r by (auto simp: list_all_iff)
  have "handler_key h \<in> (\<lambda>ep. (ep_verb ep, ep_path ep)) ` set (api_contract cookie)"
    using handler_in_contract [of h] by (simp flip: keys_of_contract [of cookie])
  then obtain found where "found \<in> set (api_contract cookie)" "handler_key h = (ep_verb found, ep_path found)" by blast
  with key fits show "\<exists>ep \<in> set (api_contract cookie). describes ep request"
    by (intro bexI [of _ found]) (auto simp: describes_def)
  assume ep: "describes ep request" "ep \<in> set (api_contract cookie)"
  then have "(ep_verb ep, ep_path ep) \<in> set contract_keys" by (simp flip: keys_of_contract [of cookie])
  moreover have "routes_meet (verb, API_PREFIX @ segs, h) (ep_verb ep, template_segments (ep_path ep), h)"
    using ep(1) fits fitting_segments_meet [OF fits(2)] by (auto simp: describes_def routes_meet_def)
  ultimately show "(ep_verb ep, ep_path ep) = handler_key h"
    using contract_meets_handler r by (fastforce simp: list_all_iff)
qed

section \<open>The result of a handler\<close>

text \<open>Every result of the effect satisfies \<open>P\<close>.\<close>

definition yields :: "('a \<Rightarrow> bool) \<Rightarrow> (exn, 's, 'a) eff \<Rightarrow> bool" where
  "yields P m \<longleftrightarrow> (\<forall>w x w'. m w = (Inr x, w') \<longrightarrow> P x)"

named_theorems yield_rules "the results of effects"

lemma yieldsD: "yields P m \<Longrightarrow> m w = (Inr x, w') \<Longrightarrow> P x"
  unfolding yields_def by blast

lemma yields_returnM [yield_rules]: "P x \<Longrightarrow> yields P (returnM x)"
  by (simp add: yields_def returnM_def)

lemma yields_throwM [yield_rules]: "yields P (throwM e)"
  by (simp add: yields_def throwM_def)

lemma yields_trueM: "yields (\<lambda>_. True) m"
  by (simp add: yields_def)

lemma yields_bindM_from: "yields Q m \<Longrightarrow> (\<And>x. Q x \<Longrightarrow> yields P (f x)) \<Longrightarrow> yields P (bindM m f)"
  by (fastforce simp: yields_def bindM_def split: prod.splits sum.splits)

lemma yields_bindM [yield_rules]: "(\<And>x. yields P (f x)) \<Longrightarrow> yields P (bindM m f)"
  by (rule yields_bindM_from [OF yields_trueM])

lemma yields_thenM [yield_rules]: "yields P k \<Longrightarrow> yields P (thenM m k)"
  by (simp add: thenM_def yields_bindM)

lemma yields_pair [yield_rules]: "(\<And>x y. yields P (h x y)) \<Longrightarrow> yields P (case p of (x, y) \<Rightarrow> h x y)"
  by (cases p) simp

lemma yields_if [yield_rules]: "yields P m \<Longrightarrow> yields P k \<Longrightarrow> yields P (if b then m else k)"
  by simp

lemma yields_option [yield_rules]:
  "(v = None \<Longrightarrow> yields P m) \<Longrightarrow> (\<And>x. v = Some x \<Longrightarrow> yields P (f x)) \<Longrightarrow>
     yields P (case v of None \<Rightarrow> m | Some x \<Rightarrow> f x)"
  by (cases v) auto

lemma yields_validated [yield_rules]:
  "(accepts body \<Longrightarrow> yields P k) \<Longrightarrow> yields P (thenM (validation_pipe vd accepts body) k)"
  by (auto simp: yields_def validation_pipe_def run_simps split: if_splits)

text \<open>A body that passes a DTO has exactly its fields.\<close>

lemma object_keys_object: "object_keys (JObj kvs) = map fst kvs"
  by (simp add: object_keys_def)

lemma object_field: "string_field body k check \<Longrightarrow> k \<in> set (object_keys body)"
proof -
  have "k \<in> fst ` set kvs" if "map_of kvs k = Some v" for kvs and v :: json
    using map_of_SomeD [OF that] by force
  then show "string_field body k check \<Longrightarrow> k \<in> set (object_keys body)"
    by (cases body) (auto simp: string_field_def object_keys_def split: option.splits json.splits)
qed

lemma object_only: "only_fields body ks \<Longrightarrow> set (object_keys body) \<subseteq> set ks"
  by (auto simp: only_fields_def object_keys_def list_all_iff split: json.splits)

lemma dto_fields:
  "register_dto vd body \<Longrightarrow> set (object_keys body) = {''email'', ''password'', ''passwordConfirmation''}"
  "verify_email_dto vd body \<Longrightarrow> set (object_keys body) = {''email'', ''code''}"
  "email_dto vd body \<Longrightarrow> set (object_keys body) = {''email''}"
  "login_dto vd body \<Longrightarrow> set (object_keys body) = {''email'', ''password''}"
  "verify_login_dto vd body \<Longrightarrow> set (object_keys body) = {''challengeId'', ''code''}"
  "reset_password_dto body \<Longrightarrow> set (object_keys body) = {''token'', ''password'', ''passwordConfirmation''}"
  "create_link_dto body \<Longrightarrow> set (object_keys body) = {''destinationUrl''}"
  unfolding register_dto_def verify_email_dto_def email_dto_def login_dto_def verify_login_dto_def
    reset_password_dto_def create_link_dto_def
  by (intro equalityI; force dest: object_only object_field)+

text \<open>A creation ends with an active link, a change of status with the status asked for.\<close>

lemma created_active: "yields (\<lambda>r. \<forall>l. result_link r = Some l \<longrightarrow> lk_status l = ACTIVE) (create_or_restore i now u t c)"
  by (auto simp: yields_def create_or_restore_def create_or_restore_tx_def transaction_def run_simps
      lock_account_def save_link_status_run insert_link_def new_link_def
      split: option.splits if_splits prod.splits sum.splits)

lemma changed_status:
  "yields (\<lambda>r. \<forall>l. r = Changed l \<or> r = Unchanged l \<longrightarrow> lk_status l = st) (change_status now u i st)"
  by (auto simp: yields_def change_status_def change_status_from_def transaction_def run_simps
      lock_account_def save_link_status_run split: option.splits if_splits)

lemma yields_db_op: "yields P m \<Longrightarrow> yields P (db_op m)"
  by (auto simp: yields_def db_op_def split: prod.splits)

lemma active_attempts:
  "yields (\<lambda>(link, _). lr_status link = ACTIVE) (create_attempts (app_links ttl base n parse) u t k)"
proof (induction k)
  case (Suc k)
  have "yields (\<lambda>r. \<forall>l. result_link r = Some l \<longrightarrow> lk_status l = ACTIVE) (create_or_restore_io u t c)" for c
    unfolding create_or_restore_io_def by (intro yield_rules yields_db_op created_active)
  then have result: "yields (\<lambda>r. \<forall>l. result_link r = Some l \<longrightarrow> lk_status l = ACTIVE)
      (dep_create_or_restore (app_links ttl base n parse) u t c)" for c
    by (simp add: app_links_def)
  show ?case
    unfolding create_attempts.simps
    by (rule yields_bindM, rule yields_bindM_from [OF result])
      (use Suc in \<open>auto intro!: yield_rules simp: to_response_def split: create_result.splits\<close>)
qed (simp add: yield_rules)

lemma changed_service:
  "yields (\<lambda>link. lr_status link = st) (service_change_status (app_links ttl base n parse) u i st)"
proof -
  have "yields (\<lambda>r. \<forall>l. r = Changed l \<or> r = Unchanged l \<longrightarrow> lk_status l = st) (change_status_io u i st)"
    unfolding change_status_io_def by (intro yield_rules yields_db_op changed_status)
  then have result: "yields (\<lambda>r. \<forall>l. r = Changed l \<or> r = Unchanged l \<longrightarrow> lk_status l = st)
      (dep_change_status (app_links ttl base n parse) u i st)"
    by (simp add: app_links_def)
  show ?thesis
    unfolding service_change_status_def
    by (rule yields_bindM, rule yields_option, rule yields_throwM, rule yields_if, rule yields_throwM,
        rule yields_thenM, rule yields_bindM_from [OF result])
      (auto intro!: yield_rules simp: to_response_def split: change_result.splits)
qed

text \<open>What the routes return, for which bodies.\<close>

lemmas success_defs =
  accepted_def accepted_response_def GENERIC_ACCEPTED_def empty_reply_def no_content_def object_reply_def
  object_keys_object no_cookies_def refresh_cookie_def set_refresh_cookie_def cleared_cookie_def clear_refresh_cookie_def
  link_reply_def page_reply_def report_reply_def

lemma auth_route_results:
  "yields (\<lambda>r. accepted (RouteReply r) \<and> set (object_keys body) = {''email'', ''password'', ''passwordConfirmation''})
     (route_register cfg vd body ip)"
  "yields (\<lambda>r. empty_reply [] (RouteReply r) \<and> set (object_keys body) = {''email'', ''code''})
     (route_verify_email cfg vd body)"
  "yields (\<lambda>r. accepted (RouteReply r) \<and> set (object_keys body) = {''email''})
     (route_resend_email_verification cfg vd body ip)"
  "yields (\<lambda>r. object_reply 202 [''challengeId'', ''expiresAt''] no_cookies (RouteReply r)
       \<and> set (object_keys body) = {''email'', ''password''}) (route_login cfg vd body ip)"
  "yields (\<lambda>r. object_reply 200 [''accessToken'', ''expiresIn'', ''csrfToken'']
       (refresh_cookie (gc_refresh_cookie_name gc)) (RouteReply r)
       \<and> set (object_keys body) = {''challengeId'', ''code''}) (route_verify_login cfg gc vd body)"
  "yields (\<lambda>r. object_reply 200 [''accessToken'', ''expiresIn''] (refresh_cookie (gc_refresh_cookie_name gc)) (RouteReply r))
     (route_refresh cfg gc headers)"
  "yields (\<lambda>r. empty_reply (cleared_cookie (gc_refresh_cookie_name gc)) (RouteReply r)) (route_logout cfg gc headers)"
  "yields (\<lambda>r. accepted (RouteReply r) \<and> set (object_keys body) = {''email''}) (route_forgot_password cfg vd body ip)"
  "yields (\<lambda>r. empty_reply [] (RouteReply r)
       \<and> set (object_keys body) = {''token'', ''password'', ''passwordConfirmation''}) (route_reset_password cfg vd body)"
  unfolding route_register_def route_verify_email_def route_resend_email_verification_def route_login_def
    route_verify_login_def route_refresh_def route_logout_def route_forgot_password_def route_reset_password_def
  by (intro yield_rules conjI; simp add: dto_fields success_defs)+

lemma links_route_results:
  "yields (\<lambda>a. link_reply {200, 201} ACTIVE (LinksReply a) \<and> set (object_keys body) = {''destinationUrl''})
     (route_create_link (app_links ttl base n parse) vd u body)"
  "yields (\<lambda>a. page_reply (LinksReply a)) (route_list_links (app_links ttl base n parse) vd u query)"
  "yields (\<lambda>a. link_reply {200} DEACTIVATED (LinksReply a)) (route_deactivate_link (app_links ttl base n parse) vd u i)"
  "yields (\<lambda>a. link_reply {200} ACTIVE (LinksReply a)) (route_reactivate_link (app_links ttl base n parse) vd u i)"
  "yields (\<lambda>a. report_reply (LinksReply a)) (route_link_statistics vd u i query)"
proof -
  have created: "yields (\<lambda>(status, link). status \<in> {200, 201} \<and> lr_status link = ACTIVE)
      (controller_create (app_links ttl base n parse) u t)" for t
    unfolding controller_create_def service_create_def
    by (intro yields_bindM_from [OF yields_bindM [OF active_attempts]]) (auto intro!: yield_rules)
  show "yields (\<lambda>a. link_reply {200, 201} ACTIVE (LinksReply a) \<and> set (object_keys body) = {''destinationUrl''})
     (route_create_link (app_links ttl base n parse) vd u body)"
    unfolding route_create_link_def
    by (rule yields_validated, rule yields_bindM_from [OF created])
      (auto intro!: yields_returnM simp: dto_fields success_defs)
qed (auto simp: route_list_links_def route_deactivate_link_def route_reactivate_link_def route_link_statistics_def
    with_link_id_def controller_deactivate_def controller_reactivate_def service_deactivate_def
    service_reactivate_def success_defs intro!: yields_thenM yields_bindM_from [OF changed_service] yields_returnM
    intro: yields_bindM)

lemma yields_map: "yields (\<lambda>x. P (f x)) m \<Longrightarrow> yields P (bindM m (\<lambda>x. returnM (f x)))"
  by (auto intro: yields_bindM_from yields_returnM)

lemma yields_mono: "yields P m \<Longrightarrow> (\<And>x. P x \<Longrightarrow> Q x) \<Longrightarrow> yields Q m"
  by (auto simp: yields_def)

text \<open>The three parts of the contract, handler by handler.\<close>

lemmas contract_defs = api_contract_def auth_contract_def links_contract_def other_contract_def

lemma find_by_key: "distinct (map f xs) \<Longrightarrow> x \<in> set xs \<Longrightarrow> find (\<lambda>y. f y = f x) xs = Some x"
  by (induction xs) auto

lemma contract_endpoint:
  assumes "ep \<in> set (api_contract cookie)" and "(ep_verb ep, ep_path ep) = handler_key h"
  shows "find (\<lambda>ep. (ep_verb ep, ep_path ep) = handler_key h) (api_contract cookie) = Some ep"
proof -
  have "distinct (map (\<lambda>ep. (ep_verb ep, ep_path ep)) (api_contract cookie))"
    unfolding keys_of_contract by (simp add: contract_keys_def)
  from find_by_key [OF this assms(1)] assms(2) show ?thesis by simp
qed

lemmas auth_route_defs =
  route_register_def route_verify_email_def route_resend_email_verification_def route_login_def
  route_verify_login_def route_refresh_def route_logout_def route_forgot_password_def route_reset_password_def

lemmas links_route_defs =
  route_create_link_def route_list_links_def route_deactivate_link_def route_reactivate_link_def
  route_link_statistics_def with_link_id_def controller_create_def controller_list_def
  controller_deactivate_def controller_reactivate_def service_deactivate_def service_reactivate_def

lemma raises_auth_routes [raises_rules]:
  "{validation_failed, (429, ''RATE_LIMITED''), storage_down} \<subseteq> E \<Longrightarrow> raises E (route_register cfg vd body ip)"
  "{validation_failed, (401, ''INVALID_VERIFICATION''), storage_down} \<subseteq> E \<Longrightarrow> raises E (route_verify_email cfg vd body)"
  "{validation_failed, (429, ''RATE_LIMITED''), storage_down} \<subseteq> E \<Longrightarrow> raises E (route_resend_email_verification cfg vd body ip)"
  "{validation_failed, (401, ''INVALID_CREDENTIALS''), (403, ''EMAIL_NOT_VERIFIED''), (429, ''RATE_LIMITED''),
     (429, ''ACCOUNT_TEMPORARILY_LOCKED''), storage_down} \<subseteq> E \<Longrightarrow> raises E (route_login cfg vd body ip)"
  "{validation_failed, (401, ''INVALID_CREDENTIALS''), (429, ''ACCOUNT_TEMPORARILY_LOCKED''), storage_down} \<subseteq> E \<Longrightarrow>
     raises E (route_verify_login cfg gc vd body)"
  "{(403, ''CSRF_VALIDATION_FAILED''), (401, ''SESSION_INVALID''), storage_down} \<subseteq> E \<Longrightarrow> raises E (route_refresh cfg gc headers)"
  "{(403, ''CSRF_VALIDATION_FAILED''), storage_down} \<subseteq> E \<Longrightarrow> raises E (route_logout cfg gc headers)"
  "{validation_failed, (429, ''RATE_LIMITED''), storage_down} \<subseteq> E \<Longrightarrow> raises E (route_forgot_password cfg vd body ip)"
  "{validation_failed, (401, ''INVALID_VERIFICATION'')} \<subseteq> E \<Longrightarrow> raises E (route_reset_password cfg vd body)"
  unfolding auth_route_defs validation_failed_def storage_down_def
  by (intro raises_rules; simp)+

lemma raises_links_routes [raises_rules]:
  "{validation_failed, (409, ''LINK_LIMIT_REACHED''), (503, ''SHORT_CODE_GENERATION_UNAVAILABLE'')} \<subseteq> E \<Longrightarrow>
     raises E (route_create_link (app_links ttl base n parse) vd u body)"
  "validation_failed \<in> E \<Longrightarrow> raises E (route_list_links (app_links ttl base n parse) vd u query)"
  "{validation_failed, (403, ''FORBIDDEN''), (404, ''LINK_NOT_FOUND''), (503, ''LINK_CACHE_UNAVAILABLE'')} \<subseteq> E \<Longrightarrow>
     raises E (route_deactivate_link (app_links ttl base n parse) vd u i)"
  "{validation_failed, (403, ''FORBIDDEN''), (404, ''LINK_NOT_FOUND''), (409, ''LINK_LIMIT_REACHED''),
     (503, ''LINK_CACHE_UNAVAILABLE'')} \<subseteq> E \<Longrightarrow> raises E (route_reactivate_link (app_links ttl base n parse) vd u i)"
  "{validation_failed, (403, ''FORBIDDEN''), (404, ''LINK_NOT_FOUND'')} \<subseteq> E \<Longrightarrow> raises E (route_link_statistics vd u i query)"
  subgoal unfolding route_create_link_def controller_create_def validation_failed_def by (intro raises_rules) simp_all
  subgoal unfolding links_route_defs validation_failed_def by (intro raises_rules) simp_all
  subgoal unfolding links_route_defs validation_failed_def by (intro raises_rules) simp_all
  subgoal unfolding links_route_defs validation_failed_def by (intro raises_rules) simp_all
  subgoal unfolding links_route_defs validation_failed_def by (intro raises_rules) simp_all
  done

lemma touched_auth_routes [touch_rules]:
  "AccountsTable \<in> T \<Longrightarrow> ActivationCode \<in> K \<Longrightarrow> keeps (touched T K w0) (route_register cfg vd body ip)"
  "AccountsTable \<in> T \<Longrightarrow> keeps (touched T K w0) (route_verify_email cfg vd body)"
  "ActivationCode \<in> K \<Longrightarrow> keeps (touched T K w0) (route_resend_email_verification cfg vd body ip)"
  "AuditTable \<in> T \<Longrightarrow> LoginCode \<in> K \<Longrightarrow> keeps (touched T K w0) (route_login cfg vd body ip)"
  "{SessionsTable, RefreshTokensTable, AuditTable} \<subseteq> T \<Longrightarrow> keeps (touched T K w0) (route_verify_login cfg gc vd body)"
  "{SessionsTable, RefreshTokensTable} \<subseteq> T \<Longrightarrow> keeps (touched T K w0) (route_refresh cfg gc headers)"
  "SessionsTable \<in> T \<Longrightarrow> keeps (touched T K w0) (route_logout cfg gc headers)"
  "AuditTable \<in> T \<Longrightarrow> ResetLink \<in> K \<Longrightarrow> keeps (touched T K w0) (route_forgot_password cfg vd body ip)"
  "{AccountsTable, SessionsTable, ResetTokensTable, AuditTable} \<subseteq> T \<Longrightarrow> keeps (touched T K w0) (route_reset_password cfg vd body)"
  unfolding auth_route_defs
  by (intro touch_rules; assumption)+

lemma touched_links_routes [touch_rules]:
  "LinksTable \<in> T \<Longrightarrow> keeps (touched T K w0) (route_create_link (app_links ttl base n parse) vd u body)"
  "keeps (touched T K w0) (route_list_links (app_links ttl base n parse) vd u query)"
  "LinksTable \<in> T \<Longrightarrow> keeps (touched T K w0) (route_deactivate_link (app_links ttl base n parse) vd u i)"
  "LinksTable \<in> T \<Longrightarrow> keeps (touched T K w0) (route_reactivate_link (app_links ttl base n parse) vd u i)"
  "keeps (touched T K w0) (route_link_statistics vd u i query)"
  unfolding links_route_defs
  by (intro touch_rules; assumption)+

lemma handler_results:
  assumes "sv_links sv = app_links ttl base n parse"
    and "ep \<in> set (api_contract (gc_refresh_cookie_name (sv_guards sv)))" and "(ep_verb ep, ep_path ep) = handler_key h"
  shows "yields (\<lambda>a. ep_success ep a \<and> (case ep_fields ep of None \<Rightarrow> True | Some fs \<Rightarrow> set (object_keys (rq_body rq)) = set fs))
    (run_handler sv rq params h)"
  using contract_endpoint [OF assms(2,3)]
  by (cases h; clarsimp simp: contract_defs assms(1) as_route_def as_links_def links_api_def protected_route_def get_hello_def)
    (intro yields_map auth_route_results links_route_results yields_returnM yields_bindM; simp)+

lemma handler_errors:
  assumes "sv_links sv = app_links ttl base n parse"
    and "ep \<in> set (api_contract cookie)" and "(ep_verb ep, ep_path ep) = handler_key h"
  shows "raises (set (ep_errors ep)) (run_handler sv rq params h)"
  using contract_endpoint [OF assms(2,3)]
  by (cases h; clarsimp simp: contract_defs assms(1) as_route_def as_links_def links_api_def protected_route_def)
    (intro raises_bindM raises_returnM raises_session_guard raises_auth_routes raises_links_routes; simp)+

lemma handler_touches:
  assumes "sv_links sv = app_links ttl base n parse"
    and "ep \<in> set (api_contract cookie)" and "(ep_verb ep, ep_path ep) = handler_key h"
  shows "keeps (touched (set (ep_writes ep)) (set (ep_mails ep)) w0) (run_handler sv rq params h)"
  using contract_endpoint [OF assms(2,3)]
  by (cases h; clarsimp simp: contract_defs assms(1) as_route_def as_links_def links_api_def protected_route_def)
    (intro keeps_bindM keeps_returnM touched_guards touched_auth_routes touched_links_routes; simp)+

section \<open>The server keeps the contract\<close>

lemma served_routed:
  assumes "express_router (sv_router sv)" and "route_of sv (rq_http rq) = Some (h, params)"
    and "serve sv rq w = (reply, w')"
  shows "filtered (run_handler sv rq params h) w = (reply, w')"
  using assms(3) routed_passed_on [OF assms(1,2)] by (simp add: serve_def bindM_def assms(2))

lemma filtered_contract:
  assumes "sv_links sv = app_links ttl base n parse"
    and ep: "ep \<in> set (api_contract (gc_refresh_cookie_name (sv_guards sv)))" "(ep_verb ep, ep_path ep) = handler_key h"
    and run: "filtered (run_handler sv rq params h) w = (reply, w')"
  shows "keeps_contract ep (rq_body rq) reply w w'"
proof -
  obtain r where r: "run_handler sv rq params h w = (r, w')"
    "reply = (case r of Inl e \<Rightarrow> Inr (error_reply e) | Inr a \<Rightarrow> Inr a)"
    using run by (auto simp: filtered_run split: prod.splits sum.splits)
  have "touched (set (ep_writes ep)) (set (ep_mails ep)) w w'"
    by (rule keepsD [OF handler_touches [OF assms(1) ep] touched_start r(1)])
  moreover have "\<exists>a. reply = Inr a \<and> conforms ep (rq_body rq) a"
  proof (cases r)
    case (Inl e)
    have "error_key e \<in> insert INTERNAL (set (ep_errors ep))"
      by (rule raisesD [OF handler_errors [OF assms(1) ep] r(1) [unfolded Inl]])
    then show ?thesis by (auto simp: r(2) Inl conforms_def error_reply_eq error_key_def)
  next
    case (Inr a)
    from yieldsD [OF handler_results [OF assms(1) ep] r(1) [unfolded Inr]] show ?thesis
      by (auto simp: r(2) Inr conforms_def)
  qed
  ultimately show ?thesis by (simp add: keeps_contract_def)
qed

text \<open>
  Property C17. The server keeps the contract of its endpoints. With a router that matches as
  Express documents, a request that has a route is described by an endpoint of the contract, and by
  whatever endpoint it is described the exchange conforms: it is answered, never with an exception;
  a success has the status, the fields and the cookies of that endpoint and answers a body of
  exactly the fields the endpoint takes; a failure is one of the errors of the endpoint or the
  internal error, with Retry-After exactly for the locked account; only the tables and the mails of
  the endpoint are written.
\<close>

theorem api_contract_kept:
  assumes "express_router (sv_router sv)" and "sv_links sv = app_links ttl base n parse"
    and "route_of sv (rq_http rq) = Some x" and "serve sv rq w = (reply, w')"
  shows "(\<exists>ep \<in> set (api_contract (gc_refresh_cookie_name (sv_guards sv))). describes ep (rq_http rq))
    \<and> (\<forall>ep \<in> set (api_contract (gc_refresh_cookie_name (sv_guards sv))). describes ep (rq_http rq) \<longrightarrow>
         keeps_contract ep (rq_body rq) reply w w')"
proof -
  obtain h params where x: "route_of sv (rq_http rq) = Some (h, params)" using assms(3) by (cases x) auto
  note run = served_routed [OF assms(1) x assms(4)]
  show ?thesis
    using route_describes [OF assms(1) x] filtered_contract [OF assms(2) _ _ run] by blast
qed

end
