(* ===== verification/ServerExamples.thy ===== *)
theory ServerExamples
  imports ApiContract SessionExamples
begin

text \<open>Requests to the whole API at which the theorems about it are applied.\<close>

definition sample_router :: router where
  "sample_router pattern path =
     (if path_fits pattern (path_segments path)
      then Some (map snd (filter (\<lambda>(s, part). s = LinkIdParam) (zip pattern (path_segments path))))
      else None)"

lemma sample_router_ok: "express_router sample_router"
  by (simp add: express_router_def sample_router_def)

definition sample_no_route :: "http_request \<Rightarrow> exn" where
  "sample_no_route request =
     (let message = ''Cannot '' @ hr_method request @ '' '' @ hr_original_url request
      in HttpExn \<lparr>he_status = 404,
           he_response = JObj [(''message'', JStr message), (''error'', JStr ''Not Found''), (''statusCode'', JNum 404)],
           he_message = message\<rparr>)"

definition sample_server :: server where
  "sample_server =
     \<lparr>sv_auth = sample_cfg, sv_guards = sample_guards,
      sv_links = app_links 60 ''https://s.io'' 3 sample_base_parse, sv_collection = None,
      sv_validator = sample_vd, sv_testing = False,
      sv_router = sample_router, sv_no_route = sample_no_route\<rparr>"

definition sample_get :: "string \<Rightarrow> http_request" where
  "sample_get url = \<lparr>hr_method = ''GET'', hr_original_url = url, hr_user_agent = None, hr_ip = None\<rparr>"

definition list_request :: api_request where
  "list_request = \<lparr>rq_http = sample_get ''/api/v1/links?page=1'', rq_headers = sample_guarded,
     rq_body = JNull, rq_query = JObj [(''page'', JStr ''1'')]\<rparr>"

lemma list_routed: "route_of sample_server (rq_http list_request) = Some (LinksList, [])"
proof -
  have "dispatch sample_router (api_routes False) (hr_method (rq_http list_request))
      (request_path (rq_http list_request)) = Some (LinksList, [])" by code_simp
  then show ?thesis by (simp add: route_of_def sample_server_def)
qed

theorem api_never_intercepted_witness:
  "handle_public_link_resolve (sv_links sample_server) None (rq_http list_request) world1 = (Inr PassOn, world1)"
  by (rule api_never_intercepted [OF _ list_routed]) (simp add: sample_server_def sample_router_ok)

theorem dispatch_any_order_witness:
  "dispatch sample_router (rev (api_routes True)) ''PATCH'' ''/API/v1/links/l1/Deactivate/'' = Some (LinksDeactivate, [''l1''])"
proof -
  have "dispatch sample_router (api_routes True) ''PATCH'' ''/API/v1/links/l1/Deactivate/'' = Some (LinksDeactivate, [''l1''])"
    by code_simp
  with dispatch_any_order [OF sample_router_ok, of "rev (api_routes True)" True] show ?thesis by simp
qed

lemma page_number: "js_integer ''1'' = Some 1"
  by (rule number_text) code_simp

lemma list_served: "\<exists>page w'. serve sample_server list_request world1 = (Inr (LinksReply (PageAnswer page)), w')"
proof -
  obtain p w1 where g: "session_guard sample_cfg sample_guarded world1 = (Inr p, w1)"
    using guard_world1 by blast
  have "list_query_dto (rq_query list_request)"
    by (simp add: list_query_dto_def list_request_def only_fields_def optional_field_def number_within_def page_number)
  then have "\<exists>page w'. run_handler sample_server list_request [] LinksList world1 = (Inr (LinksReply (PageAnswer page)), w')"
    using g by (simp add: as_links_def links_api_def run_simps sample_server_def list_request_def
        route_list_links_def pipe_then controller_list_def service_list_def app_links_def db_op_def
        list_by_user_def validation_pipe_def Let_def)
  moreover have "public_verdict (rq_http list_request) [] = PassOn"
  proof -
    have "\<not> rx_test ROOT_SEGMENT_PATTERN (request_path (rq_http list_request))" by code_simp
    then show ?thesis by (simp add: public_verdict_def Let_def)
  qed
  ultimately show ?thesis
    using public_passes_on list_routed by (auto simp: serve_def run_simps filtered_run)
qed

text \<open>The listing is described by its endpoint alone; it is answered and writes nothing.\<close>

definition list_endpoint :: endpoint where
  "list_endpoint = endpoint_of ''GET'' ''/api/v1/links'' None page_reply [(401, ''HTTP_ERROR''), validation_failed] [] []"

theorem api_contract_kept_witness:
  "\<exists>page w'. serve sample_server list_request world1 = (Inr (LinksReply (PageAnswer page)), w')
     \<and> keeps_contract list_endpoint JNull (Inr (LinksReply (PageAnswer page))) world1 w'
     \<and> links (w_db w') = links (w_db world1) \<and> sessions (w_db w') = sessions (w_db world1)"
proof -
  obtain page w' where run: "serve sample_server list_request world1 = (Inr (LinksReply (PageAnswer page)), w')"
    using list_served by blast
  have "list_endpoint \<in> set (api_contract (gc_refresh_cookie_name (sv_guards sample_server)))"
    by (simp add: list_endpoint_def contract_defs)
  moreover have "describes list_endpoint (rq_http list_request)"
  proof -
    have "hr_method (rq_http list_request) = ''GET''" by (simp add: list_request_def sample_get_def)
    moreover have "path_fits (template_segments ''/api/v1/links'') (path_segments (request_path (rq_http list_request)))"
      by code_simp
    ultimately show ?thesis by (simp add: describes_def list_endpoint_def)
  qed
  moreover have "express_router (sv_router sample_server)"
    "sv_links sample_server = app_links 60 ''https://s.io'' 3 sample_base_parse"
    by (simp_all add: sample_server_def sample_router_ok)
  ultimately have "keeps_contract list_endpoint JNull (Inr (LinksReply (PageAnswer page))) world1 w'"
    using api_contract_kept [OF _ _ list_routed run] by (auto simp: list_request_def)
  moreover from this have "links (w_db w') = links (w_db world1)" "sessions (w_db w') = sessions (w_db world1)"
    by (simp_all add: keeps_contract_def touched_def same_except_def list_endpoint_def)
  ultimately show ?thesis using run by blast
qed

lemma world1_reached: "cache_reached sample_server world1"
proof (rule cache_reached.start)
  have "stats_history (w_db world1)"
    by (rule stats_history.other [OF stats_history.start, of empty_db])
      (simp_all add: world1_def auth_world_def db_logged_in_eq empty_db_def)
  then show "sound_tables empty_db (w_db world1)"
    using db_logged_in_reached
    by (simp add: sound_tables_def links_grow_def links_wf_def world1_def auth_world_def db_logged_in_eq
        empty_db_def count_active_links_def MAX_ACTIVE_LINKS_PER_USER_def)
  show "four_digit_day (day_of_instant (w_clock world1))"
    by (simp add: world1_def auth_world_def) code_simp
qed (simp_all add: world1_def auth_world_def)

theorem links_need_live_session_witness:
  "\<exists>s payload. s \<in> set (sessions (w_db world1)) \<and> ses_revoked_at s = None
     \<and> verify_access_token sample_cfg 1000 ''jwt'' = Inr payload \<and> ses_id s = cl_session_id (ap_claims payload)"
proof -
  from list_served obtain page w' where
    run: "serve sample_server list_request world1 = (Inr (LinksReply (PageAnswer page)), w')" by blast
  have links: "sv_links sample_server = app_links 60 ''https://s.io'' 3 sample_base_parse"
    by (simp add: sample_server_def)
  have "bearer_token (rq_headers list_request) = Some ''jwt''"
    by (simp add: list_request_def sample_guarded_def bearer_token_def js_trim_def js_space_def Let_def)
  moreover have "w_clock world1 = 1000" "sv_auth sample_server = sample_cfg"
    by (simp_all add: world1_def auth_world_def sample_server_def)
  ultimately show ?thesis
    using links_need_live_session [OF world1_reached links run] world1_served by auto
qed

section \<open>Requests one after the other\<close>

definition first_world :: world where
  "first_world = auth_world empty_db"

definition register_request :: api_request where
  "register_request = \<lparr>rq_http = (sample_get ''/api/v1/auth/register'')\<lparr>hr_method := ''POST''\<rparr>,
     rq_headers = sample_guarded,
     rq_body = JObj [(''email'', JStr ''a@b.example''), (''password'', JStr ''Abcdef1!''),
       (''passwordConfirmation'', JStr ''Abcdef1!'')], rq_query = JNull\<rparr>"

definition later_world :: world where
  "later_world = snd (finalize_previous_utc_days (snd (serve sample_server register_request first_world)))"

lemma later_world_reached: "system_reached sample_server later_world"
proof -
  have "system_reached sample_server first_world"
    by (rule system_reached.start) (simp_all add: first_world_def auth_world_def, code_simp)
  then have "system_reached sample_server (snd (serve sample_server register_request first_world))"
    by (rule system_reached.step) (rule system_step.request, rule prod.collapse [symmetric])
  then show ?thesis
    unfolding later_world_def
    by (rule system_reached.step) (rule system_step.finalizer, rule prod.collapse [symmetric])
qed

lemma sample_server_links: "sv_links sample_server = app_links 60 ''https://s.io'' 3 sample_base_parse"
  by (simp add: sample_server_def)

theorem system_invariant_witness:
  "count_active_links ''u1'' (w_db later_world) \<le> 10
    \<and> length (filter (is_active_session_of ''u1'') (sessions (w_db later_world))) \<le> 1"
  using system_invariant [OF later_world_reached sample_server_links] by blast

theorem requests_undo_nothing_witness:
  "auth_le (w_db later_world) (w_db (snd (serve sample_server list_request later_world)))
    \<and> links_grow (w_db later_world) (w_db (snd (serve sample_server list_request later_world)))"
  by (rule requests_undo_nothing [OF later_world_reached sample_server_links]) (rule prod.collapse [symmetric])

section \<open>The country database\<close>

theorem country_database_opened_once_witness:
  "\<exists>r. new_country_resolver sample_base_parse sample_env (Some (Some ''/data/geo.mmdb'')) = Inr r
     \<and> lc_opened_times ((when_ready (\<lambda>_. None) ^^ 3) r) = 1
     \<and> resolver_country ((when_ready (\<lambda>_. None) ^^ 3) r) ''8.8.8.8'' = UNKNOWN_COUNTRY"
proof -
  obtain r where r: "new_country_resolver sample_base_parse sample_env (Some (Some ''/data/geo.mmdb'')) = Inr r"
    by (simp add: new_country_resolver_def and_then_def)
  from country_database_opened_once [OF r, where open_reader = "\<lambda>_. None" and n = 3 and ip = "''8.8.8.8''"]
  have "lc_opened_times ((when_ready (\<lambda>_. None) ^^ 3) r) = 1"
    "resolver_country ((when_ready (\<lambda>_. None) ^^ 3) r) ''8.8.8.8'' = UNKNOWN_COUNTRY"
    by (simp_all add: Let_def del: funpow.simps)
  with r show ?thesis by blast
qed

end
