(* ===== verification/Spec2Isabelle.thy ===== *)
theory Spec2Isabelle
  imports StatsExamples RouteExamples SessionExamples ServerExamples
begin

text \<open>
  Verification of the URL shortener of this repository (a NestJS application, src/src).

  The program. Users register, activate their account with a mailed code, log in in two steps
  (password, then a mailed code) and get an access token, a CSRF token and a refresh cookie. With a
  session they create, list, deactivate and reactivate short links (ten active ones at most) and
  read statistics of their links. Anyone who requests \<open>GET /{code}\<close> is redirected to the
  destination of an active link, and the access is counted once by a worker, under a pseudonym.
  PostgreSQL is the source of truth; Redis holds the cache of resolutions, the cache of sessions,
  codes, challenges, rate limits and the queues. A second process works off the mail queue and the
  statistics queue and finalises days.

  How the code is modelled. A handler is a state transformer over \<open>world\<close> (World) that answers a
  value or throws an \<open>exn\<close> (ApiErrors): the database, the Redis keyspace with expiry times, the
  queues, the mailbox, the clock and the tapes of random texts and numbers. \<open>await\<close> is \<open>bindM\<close>,
  \<open>throw\<close> is \<open>throwM\<close>, \<open>try/catch\<close> is \<open>catchM\<close>; a transaction undoes its writes when it throws. Every
  Redis round trip consumes one outcome of \<open>w_net\<close> (delivered, lost, reply lost; delivered once the
  list is used up), so a theorem that leaves \<open>w_net\<close> free holds under every pattern of Redis
  failures. Random values are read from tapes, so that a theorem holds for every value drawn.

  Shared vocabulary.
  Prelude: JavaScript strings, the effect type, weakest preconditions, \<open>keeps\<close>, tables as lists.
  JsRegex: the anchored regular expressions of the source, a matcher and the language it decides.
  Decimals, JsNumber: decimal text of numbers, \<open>Number(text)\<close> with the rounding of doubles.
  Calendar, IsoInstant: the arithmetic of \<open>Date\<close>, ISO texts of instants and back.
  ApiErrors: the exceptions and api-exception.filter.ts. Entities: the tables, one record per
  *.entity.ts, with transactions and the lock of an account row.

  Links (src/src/modules/links).
  ValueObjects: email, password, password hash and destination URL, the patterns of auth.dto.ts,
  both code generators. LinksRepo: typeorm-links.repository.ts, every writing operation a
  transaction under the owner's lock, and the invariant of the table. LinksSpec: the abstract map
  the repository refines, and the order of the listing. LinksService: links.service.ts over a record
  of dependencies, with the locales \<open>resolution_cache\<close>, \<open>links_repository\<close> and \<open>links_backend\<close> for
  what it relies on. LinksApp: the providers (redis-link-resolution-cache.service.ts, the
  repository, the generator), the interpretation of the locales, and the use cases run one after
  the other. CacheRace: the same use cases cut at their awaits and interleaved. PublicResolve:
  register-public-link-resolve.ts. LinksApi: the handlers of links.controller.ts and the report of
  link-statistics.service.ts. LinkRoutes: the routes in full (session guard, validation, handler).

  Statistics (src/src/modules/link-statistics).
  UtcPeriods: dates and months kept as text. LinkStatistics: typeorm-link-statistics.repository.ts.
  Collection: traffic detector, country resolver, pseudonyms, queue, processor and finalizer.

  Authentication (src/src/modules/auth).
  AuthRepo, AuthInvariant, AuthHistory: typeorm-auth.repository.ts, the invariant of its tables and
  the histories of the database under any interleaving of its operations, including the windows
  between a first read and the lock. AuthCrypto: tokens, codes and hashes. AuthState:
  redis-auth-state.service.ts, key by key and script by script. AuthSession: auth-session.service.ts
  over a record of dependencies. SessionBackend: its contract (\<open>session_store\<close>, \<open>session_cache\<close>,
  \<open>session_backend\<close>) and the lemmas under it. SessionApp: the interpretation for PostgreSQL and
  Redis. AuthSpec: the map of live sessions the repository refines. AuthGuards: both guards.
  AuthAudit: audit events. AuthService: auth.service.ts. EmailWorker: email.processor.ts.
  Environment: environment.validation.ts. AuthController: auth.controller.ts, auth.dto.ts and the
  validation pipe of main.ts. AuthFlows, PasswordReset, LoginFlow, SessionFlows: the flows that
  cross these parts (activation, login, refresh, reset, and what a client may do with its tokens);
  LoginFlow also cuts \<open>process_login\<close> of the mail worker where another request can come in between.

  The processes.
  Bootstrap: what the modules and clients are constructed from (data-source.ts, redis.service.ts,
  redis.module.ts, smtp-mail.service.ts, auth.module.ts, links.module.ts), the opening of the country
  database, the settings of main.ts. Server: the route table of all controllers, its matching, and
  \<open>serve\<close>, which is a request's whole way: the public redirect in front, the route, its guard, pipe
  and handler, the exception filter; \<open>boot\<close> builds the server from the environment.
  SystemInvariant: the states the whole system reaches, by requests, jobs of both workers and the
  finalizer in any order, and what every handler keeps of the tables and of the session cache.
  ApiOutcomes: for every operation of the API, the errors a client can get from it, the tables it
  can write and the mails it can queue. ApiContract: the contract of the API, one entry per
  endpoint (verb, path, fields of the body, success, errors, written tables, sent mails), which is
  stated apart from the route table and the handlers.

  What the lemmas show.
  LinksRepo, LinksSpec: at most ten active links per user, unique codes, both writing operations
  refine the abstract map, the pages of a listing cover it once. LinksApp: resolution agrees with
  PostgreSQL after any sequence of use cases; creation and status changes on every branch.
  CacheRace: which of this survives interleaving, and the interleaving after which a deactivated
  link still redirects. LinkRoutes: users are isolated from each other. UtcPeriods, LinkStatistics,
  Collection, PublicResolve: accepted periods are real and bounded, counters are exact and
  idempotent, finalised days hold no raw rows, a redirect is counted once.
  AuthHistory: at most one active session, one usable refresh token per session and one unused
  reset token per account; AuthSpec: logins, rotations and revocations refine a map from user to
  live session. SessionApp, SessionRace: a refresh token is single use; a guarded request
  is authenticated; a validation that races with a logout undoes it. LoginLimits: the rate limit,
  and the lock after five requests to log in that failed, by a wrong password or a wrong code. AuthFlows, PasswordReset: the activation code, the second login step and the reset token do
  what they should, once. LoginFlow: a login started with the right password is completed with the
  mailed code; a login started while the worker handles an older one is lost. SessionFlows: the
  tokens a login or a refresh issues pass every guard, until the client logs out. Server: no route
  of the API is shadowed by the redirect or by another route. ApiContract: every request with a
  route is answered as the contract of its endpoint says, whatever Redis does. SystemInvariant: the
  invariants of all tables together hold in every state of the system, no request undoes a decision,
  and links are served only to the session of the token: one that passes in PostgreSQL, or one of
  which Redis still holds an entry. When Redis answered every login, refresh, logout and revocation
  and none of them overlapped (\<open>sessions_served\<close>), that session is not revoked; without this, the
  entry can outlive a revocation, which AuthRoutes and SessionRace show. AuthRoutes:
  what a logout does and does not do, and routes whose answers do not depend on which accounts
  exist. Environment: an accepted configuration is well typed.
  Examples, StatsExamples, AuthExamples, FlowExamples, RouteExamples, SessionExamples,
  ServerExamples: concrete inputs at which the properties with hypotheses are applied.

  Bounds and fuel. \<open>create_attempts\<close> counts down the configured number of attempts, as the loop of
  the source does; there is no other fuel. Enumerations of days and months end by a measure.
  Strings hold Latin-1 code units. Integers are unbounded where the source's numbers stay far below
  2^53 (instants, counters); \<open>Number(text)\<close> rounds to doubles. \<open>four_digit_day\<close> marks the statements
  that need years of four digits, outside of which ISO texts have another form.

  Parameters, for code that is not in this repository: the WHATWG URL parser and percent decoding,
  HMAC-SHA256, SHA-256, bcrypt, the JSON web token library, the GeoIP reader, the e-mail and UUID
  checks and the messages of the validation library, the router of Express and the framework's
  exception for a request without a route. Hypotheses about them (for instance that the
  hasher's texts have bcrypt's format) are in the statements that need them.

  Not modelled. What the frameworks do with the declarations of the modules: dependency injection,
  the start and stop of both processes, the parsing of bodies, queries, cookies and percent escapes
  of parameters, CORS preflight answers. The retries of the queues, the SMTP transport beyond a
  round trip that may fail, connection handling of Redis, and log messages. JSON text: payloads are
  the values they denote. The order of the migrations and their SQL beyond keys and references.
  Timing, which the constant-time comparisons are about.

  Where the model differs from the code. A PostgreSQL call fails only by its constraints, never for
  its connection, so the answers to an outage of PostgreSQL (500 from the filter, \<open>next(error)\<close> of the
  public redirect) do not occur. The queries of one report see the same rows; the code sends them
  one by one, without a transaction. The offset of a page is unbounded, where a huge page number
  makes PostgreSQL refuse the query. The counters of the statistics tables are unbounded, where the
  columns hold 32 bits, and the lengths of their texts are not checked, which no job of the program
  exceeds. \<open>parse_utc_midnight\<close> answers nothing for a date that does not exist, where V8 takes 30
  February for a day of March; every caller has validated the date before.
\<close>

end
